(* ===== verification/Prelude.thy ===== *)
theory Prelude
  imports Complex_Main "HOL-Library.AList" "HOL-Library.More_List" "HOL-Library.Multiset"
    "HOL-Library.Stream"
begin

text \<open>
  The vocabulary the component theories share: identifiers, JavaScript arrays and
  insertion-ordered maps as lists, calls that may throw and that draw fresh identifiers,
  and the weakest-precondition rules that carry the proofs about such calls.
\<close>

section \<open>Identifiers and arrays\<close>

text \<open>
  Identifiers are JavaScript strings; the code only compares and concatenates them.
\<close>

type_synonym ident = string

named_theorems wp_intro \<open>introduction rules for the weakest preconditions of calls\<close>

text \<open>\<open>Array.prototype.findIndex\<close>, with None for -1.\<close>

primrec findIndex :: "('a \<Rightarrow> bool) \<Rightarrow> 'a list \<Rightarrow> nat option" where
  "findIndex P [] = None"
| "findIndex P (x # xs) = (if P x then Some 0 else map_option Suc (findIndex P xs))"

text \<open>\<open>Array.prototype.splice(i, 0, x)\<close>; like \<open>splice\<close> it clamps the position.\<close>

definition insert_at :: "nat \<Rightarrow> 'a \<Rightarrow> 'a list \<Rightarrow> 'a list" where
  "insert_at i x xs = take i xs @ x # drop i xs"

text \<open>\<open>Array.prototype.splice(i, 1)\<close>: the array without the element at \<open>i\<close>.\<close>

definition remove_at :: "nat \<Rightarrow> 'a list \<Rightarrow> 'a list" where
  "remove_at i xs = take i xs @ drop (Suc i) xs"

lemma findIndex_SomeD:
  "findIndex P xs = Some i \<Longrightarrow> i < length xs \<and> P (xs ! i) \<and> (\<forall>j < i. \<not> P (xs ! j))"
proof (induction xs arbitrary: i)
  case (Cons x xs)
  show ?case
  proof (cases "P x")
    case False
    with Cons.prems obtain j where j: "findIndex P xs = Some j" "i = Suc j" by auto
    with Cons.IH [of j] False show ?thesis by (auto simp: less_Suc_eq_0_disj)
  qed (use Cons.prems in simp)
qed simp

lemma findIndex_None_iff: "findIndex P xs = None \<longleftrightarrow> (\<forall>x \<in> set xs. \<not> P x)"
  by (induction xs) auto

lemma findIndex_in: "findIndex P xs = Some i \<Longrightarrow> xs ! i \<in> set xs"
  using findIndex_SomeD by fastforce

lemma find_Some_in: "List.find P xs = Some x \<Longrightarrow> x \<in> set xs \<and> P x"
  by (auto simp: find_Some_iff)

lemma mset_insert_at [simp]: "mset (insert_at i x xs) = add_mset x (mset xs)"
proof -
  have "mset (take i xs @ drop i xs) = mset xs" by simp
  then show ?thesis unfolding insert_at_def by (simp only: mset_append mset.simps) simp
qed

lemma set_insert_at [simp]: "set (insert_at i x xs) = insert x (set xs)"
  by (metis mset_insert_at set_mset_add_mset_insert set_mset_mset)

lemma length_insert_at [simp]: "length (insert_at i x xs) = Suc (length xs)"
  by (metis mset_insert_at size_add_mset size_mset)

lemma distinct_insert_at [simp]:
  "distinct (insert_at i x xs) \<longleftrightarrow> x \<notin> set xs \<and> distinct xs"
  by (metis distinct.simps(2) mset.simps(2) mset_eq_imp_distinct_iff mset_insert_at)

lemma mset_remove_at: "i < length xs \<Longrightarrow> add_mset (xs ! i) (mset (remove_at i xs)) = mset xs"
  by (metis id_take_nth_drop remove_at_def mset.simps(2) mset_append union_mset_add_mset_right)

lemma length_remove_at: "i < length xs \<Longrightarrow> length (remove_at i xs) = length xs - 1"
  by (simp add: remove_at_def)

lemma map_insert_at: "map f (insert_at i x xs) = insert_at i (f x) (map f xs)"
  by (simp add: insert_at_def take_map drop_map)

lemma map_remove_at: "map f (remove_at i xs) = remove_at i (map f xs)"
  by (simp add: remove_at_def take_map drop_map)

lemma set_remove_at_subset: "set (remove_at i xs) \<subseteq> set xs"
  by (auto simp: remove_at_def dest: in_set_takeD in_set_dropD)

text \<open>Moving an element inside an array permutes it.\<close>

lemma mset_move: "i < length xs \<Longrightarrow> mset (insert_at j (xs ! i) (remove_at i xs)) = mset xs"
  by (simp add: mset_remove_at)

lemma mset_filter_neq:
  "distinct xs \<Longrightarrow> a \<in> set xs \<Longrightarrow> add_mset a (mset (filter (\<lambda>y. y \<noteq> a) xs)) = mset xs"
proof (induction xs)
  case (Cons x xs)
  moreover have "filter (\<lambda>y. y \<noteq> a) xs = xs" if "a \<notin> set xs"
    using that by (induction xs) auto
  ultimately show ?case by (cases "x = a") (auto simp flip: mset_filter)
qed simp

lemma distinct_concat_nth:
  "distinct (concat xss) \<Longrightarrow> i < length xss \<Longrightarrow> j < length xss \<Longrightarrow> i \<noteq> j \<Longrightarrow>
     set (xss ! i) \<inter> set (xss ! j) = {}"
proof (induction xss arbitrary: i j)
  case (Cons xs xss)
  have *: "set xs \<inter> set (xss ! k) = {}" if "k < length xss" for k
    using Cons.prems(1) that by (fastforce simp: in_set_conv_nth)
  from Cons show ?case
    by (cases i; cases j) (auto dest: *)
qed simp

section \<open>Insertion-ordered maps\<close>

text \<open>
  A JavaScript \<open>Map\<close> is an association list with distinct keys in insertion order:
  \<open>get\<close> is \<open>map_of\<close>, \<open>set\<close> is \<open>AList.update\<close> (an existing key keeps its position, a
  new one goes to the end), \<open>delete\<close> is \<open>AList.delete\<close>, \<open>has\<close> is membership in \<open>keys\<close>.
\<close>

abbreviation keys :: "('k \<times> 'v) list \<Rightarrow> 'k list" where
  "keys m \<equiv> map fst m"

definition has_key :: "('k \<times> 'v) list \<Rightarrow> 'k \<Rightarrow> bool" where
  "has_key m k \<longleftrightarrow> k \<in> set (keys m)"

lemma has_key_iff [simp]: "has_key m k \<longleftrightarrow> k \<in> fst ` set m"
  by (simp add: has_key_def)

lemma keys_delete: "keys (AList.delete k m) = filter (\<lambda>x. x \<noteq> k) (keys m)"
  by (induction m) auto

lemma keys_update:
  "keys (AList.update k v m) = (if k \<in> set (keys m) then keys m else keys m @ [k])"
  by (simp add: update_keys)

lemma values_update_new: "k \<notin> set (keys m) \<Longrightarrow> AList.update k v m = m @ [(k, v)]"
  by (induction m) auto

lemma map_of_None_keys: "map_of m k = None \<longleftrightarrow> k \<notin> set (keys m)"
  by (simp add: map_of_eq_None_iff)

lemma map_of_Some_keys: "map_of m k = Some v \<Longrightarrow> k \<in> set (keys m)"
  by (force dest: map_of_SomeD)

end
