(* ===== verification/Effects.thy ===== *)
theory Effects
  imports Prelude
begin

text \<open>
  Calls that may throw and that draw identifiers. The code has two identifier sources: the
  \<open>generateId\<close> callback passed to the workbench operations and the private
  \<open>cryptoRandomId\<close> of \<open>layout.ts\<close> (\<open>Math.random\<close> and the clock). Both are outside the
  model, so a computation takes the infinite stream of the identifiers that its calls will
  return, in call order, and hands back what is left. Any two sources interleaved are such a
  stream; that the identifiers are new is a hypothesis (\<open>fresh\<close>) of the theorems that
  need it, never part of a definition.
\<close>

section \<open>Computations\<close>

datatype js_error = JsError string

type_synonym ids = "ident stream"
type_synonym 'a js = "ids \<Rightarrow> js_error + 'a \<times> ids"

definition js_return :: "'a \<Rightarrow> 'a js" where
  "js_return x = (\<lambda>s. Inr (x, s))"

definition js_throw :: "string \<Rightarrow> 'a js" where
  "js_throw msg = (\<lambda>s. Inl (JsError msg))"

definition js_bind :: "'a js \<Rightarrow> ('a \<Rightarrow> 'b js) \<Rightarrow> 'b js" where
  "js_bind m f = (\<lambda>s. case m s of Inl e \<Rightarrow> Inl e | Inr (x, s') \<Rightarrow> f x s')"

definition js_lift :: "js_error + 'a \<Rightarrow> 'a js" where
  "js_lift r = (\<lambda>s. case r of Inl e \<Rightarrow> Inl e | Inr x \<Rightarrow> Inr (x, s))"

definition generateId :: "ident js" where
  "generateId = (\<lambda>s. Inr (shd s, stl s))"

text \<open>\<open>Array.prototype.map\<close> with a callback that has effects: left to right.\<close>

fun js_map :: "('a \<Rightarrow> 'b js) \<Rightarrow> 'a list \<Rightarrow> 'b list js" where
  "js_map f [] = js_return []"
| "js_map f (x # xs) =
     js_bind (f x) (\<lambda>y. js_bind (js_map f xs) (\<lambda>ys. js_return (y # ys)))"

lemma js_map_cong [fundef_cong]:
  "xs = ys \<Longrightarrow> (\<And>x. x \<in> set ys \<Longrightarrow> f x = g x) \<Longrightarrow> js_map f xs = js_map g ys"
proof (induction xs arbitrary: ys)
  case (Cons x xs)
  then show ?case by (cases ys) auto
qed auto

lemmas js_simps = js_return_def js_throw_def js_bind_def js_lift_def generateId_def

section \<open>Weakest preconditions\<close>

text \<open>
  \<open>wp m Q s\<close>: run on \<open>s\<close>, the computation \<open>m\<close> does not throw, and \<open>Q\<close> holds of its result
  and of the identifiers left. It is total: a computation that throws satisfies no \<open>Q\<close>.
\<close>

definition wp :: "'a js \<Rightarrow> ('a \<Rightarrow> ids \<Rightarrow> bool) \<Rightarrow> ids \<Rightarrow> bool" where
  "wp m Q s \<longleftrightarrow> (\<exists>x s'. m s = Inr (x, s') \<and> Q x s')"

lemma wp_return [simp]: "wp (js_return x) Q s \<longleftrightarrow> Q x s"
  by (simp add: wp_def js_return_def)

lemma wp_throw [simp]: "wp (js_throw msg) Q s \<longleftrightarrow> False"
  by (simp add: wp_def js_throw_def)

lemma wp_bind [simp]: "wp (js_bind m f) Q s \<longleftrightarrow> wp m (\<lambda>x. wp (f x) Q) s"
  by (auto simp: wp_def js_bind_def split: sum.splits prod.splits)

lemma wp_lift_Inr [simp]: "wp (js_lift (Inr x)) Q s \<longleftrightarrow> Q x s"
  by (simp add: wp_def js_lift_def)

lemma wp_generateId [simp]: "wp generateId Q s \<longleftrightarrow> Q (shd s) (stl s)"
  by (simp add: wp_def generateId_def)

lemma wp_mono: "wp m Q s \<Longrightarrow> (\<And>x s'. Q x s' \<Longrightarrow> R x s') \<Longrightarrow> wp m R s"
  by (auto simp: wp_def)

lemma wp_conj: "wp m Q s \<Longrightarrow> wp m R s \<Longrightarrow> wp m (\<lambda>x s'. Q x s' \<and> R x s') s"
  by (auto simp: wp_def)

lemma wp_result: "wp m Q s \<Longrightarrow> m s = Inr (x, s') \<Longrightarrow> Q x s'"
  by (simp add: wp_def)

lemma wp_if [simp]: "wp (if b then m else m') Q s \<longleftrightarrow> (if b then wp m Q s else wp m' Q s)"
  by simp

lemma wp_case_option:
  "wp (case x of None \<Rightarrow> m | Some y \<Rightarrow> f y) Q s
     \<longleftrightarrow> (case x of None \<Rightarrow> wp m Q s | Some y \<Rightarrow> wp (f y) Q s)"
  by (cases x) simp_all

lemma wp_js_map:
  assumes "I s"
    and "\<And>x s. x \<in> set xs \<Longrightarrow> I s \<Longrightarrow> wp (f x) (\<lambda>y s'. R x y \<and> I s') s"
  shows "wp (js_map f xs) (\<lambda>ys s'. list_all2 R xs ys \<and> I s') s"
  using assms
proof (induction xs arbitrary: s)
  case (Cons x xs)
  have "wp (f x) (\<lambda>y s'. R x y \<and> I s') s" using Cons.prems by simp
  then show ?case
    unfolding js_map.simps wp_bind
  proof (rule wp_mono)
    fix y s' assume y: "R x y \<and> I s'"
    have "wp (js_map f xs) (\<lambda>ys s'. list_all2 R xs ys \<and> I s') s'"
      using y Cons.IH [of s'] Cons.prems(2) by simp
    then show "wp (js_map f xs) (\<lambda>ys. wp (js_return (y # ys))
        (\<lambda>ys s'. list_all2 R (x # xs) ys \<and> I s')) s'"
      by (rule wp_mono) (use y in simp)
  qed
qed simp

section \<open>Fresh identifiers\<close>

text \<open>
  \<open>fresh s A\<close>: the identifiers still to come are pairwise different and none is in \<open>A\<close>.
\<close>

definition fresh :: "ids \<Rightarrow> ident set \<Rightarrow> bool" where
  "fresh s A \<longleftrightarrow> inj (snth s) \<and> sset s \<inter> A = {}"

lemma fresh_shd: "fresh s A \<Longrightarrow> shd s \<notin> A"
  by (metis fresh_def disjoint_iff shd_sset)

lemma fresh_stl: "fresh s A \<Longrightarrow> fresh (stl s) (insert (shd s) A)"
proof -
  assume "fresh s A"
  then have inj: "inj (snth s)" and disj: "sset s \<inter> A = {}" by (auto simp: fresh_def)
  have "inj (snth (stl s))"
    using inj by (metis (no_types, lifting) injI injD snth.simps(2) nat.inject)
  moreover have "shd s \<notin> sset (stl s)"
  proof
    assume "shd s \<in> sset (stl s)"
    then obtain n where "shd s = snth (stl s) n" by (auto simp: sset_range)
    then have "snth s 0 = snth s (Suc n)" by simp
    with inj show False by (simp only: inj_eq)
  qed
  ultimately show ?thesis
    using disj stl_sset [of _ s] unfolding fresh_def by blast
qed

lemma fresh_antimono: "fresh s A \<Longrightarrow> B \<subseteq> A \<Longrightarrow> fresh s B"
  by (auto simp: fresh_def)

lemma fresh_stl': "fresh s A \<Longrightarrow> B \<subseteq> insert (shd s) A \<Longrightarrow> fresh (stl s) B"
  by (rule fresh_antimono [OF fresh_stl])

lemma fresh_shds [simp]: "fresh s A \<Longrightarrow> shd (stl s) \<noteq> shd s \<and> shd s \<noteq> shd (stl s)"
  using fresh_shd [OF fresh_stl [of s A]] by auto

text \<open>A concrete supply, used by the witnesses: the identifiers \<open>#\<close>, \<open>#i\<close>, \<open>#ii\<close>, ...\<close>

definition counter_ids :: "ids" where
  "counter_ids = smap (\<lambda>n. CHR 0x23 # replicate n CHR ''i'') nats"

lemma counter_ids_snth: "snth counter_ids n = CHR 0x23 # replicate n CHR ''i''"
  by (simp add: counter_ids_def)

lemma counter_ids_fresh:
  assumes "\<And>x. x \<in> A \<Longrightarrow> hd x \<noteq> CHR 0x23"
  shows "fresh counter_ids A"
proof -
  have "inj (snth counter_ids)"
    by (rule injI) (simp add: counter_ids_snth)
  moreover have "hd x = CHR 0x23" if "x \<in> sset counter_ids" for x
    using that by (auto simp: sset_range counter_ids_snth)
  then have "sset counter_ids \<inter> A = {}"
    using assms by blast
  ultimately show ?thesis by (simp add: fresh_def)
qed

text \<open>Facts about the identifiers to come that drawing one preserves.\<close>

definition supply_inv :: "(ids \<Rightarrow> bool) \<Rightarrow> bool" where
  "supply_inv I \<longleftrightarrow> (\<forall>s. I s \<longrightarrow> I (stl s))"

lemma supply_invD: "supply_inv I \<Longrightarrow> I s \<Longrightarrow> I (stl s)"
  by (simp add: supply_inv_def)

lemma supply_inv_fresh: "supply_inv (\<lambda>s. fresh s A)"
  unfolding supply_inv_def by (blast intro: fresh_stl')

lemma supply_inv_True: "supply_inv (\<lambda>s. True)"
  by (simp add: supply_inv_def)

end
