(* ===== verification/Layout.thy ===== *)
theory Layout
  imports Effects
begin

text \<open>
  The split tree of a workbench tab: the node type and the basic operations of
  \<open>apps/web/src/workbench/layout.ts\<close> (lines 21 to 236 and 340 to 354). Sizes are fractions of
  the parent group; the code's floating-point numbers are rationals here, so rounding is not
  modelled. A size array shorter than the child array is read with the code's \<open>?? 0\<close>.
\<close>

section \<open>Nodes\<close>

datatype split_dir = SplitRight | SplitDown

datatype layout_node =
    LLeaf ident
  | LSplit ident split_dir "layout_node list" "rat list"

definition MIN_SIZE :: rat where
  "MIN_SIZE = 8 / 100"

definition leaf :: "ident \<Rightarrow> layout_node" where
  "leaf i = LLeaf i"

definition equalSizes :: "nat \<Rightarrow> rat list" where
  "equalSizes n = replicate n (1 / of_nat n)"

definition normalize :: "rat list \<Rightarrow> rat list" where
  "normalize sizes =
     (let total = sum_list sizes
      in if total \<le> 0 then equalSizes (length sizes) else map (\<lambda>n. n / total) sizes)"

record awen_tab =
  tabId :: ident
  layout :: layout_node
  focusedPaneId :: ident

definition newTab :: "ident \<Rightarrow> awen_tab js" where
  "newTab initialPaneId =
     js_bind generateId (\<lambda>i.
       js_return \<lparr>tabId = i, layout = leaf initialPaneId, focusedPaneId = initialPaneId\<rparr>)"

fun leafIds :: "layout_node \<Rightarrow> ident list" where
  "leafIds (LLeaf i) = [i]"
| "leafIds (LSplit _ _ children _) = concat (map leafIds children)"

fun firstLeafId :: "layout_node \<Rightarrow> js_error + ident" where
  "firstLeafId (LLeaf i) = Inr i"
| "firstLeafId (LSplit _ _ [] _) =
     Inl (JsError ''firstLeafId: empty split node has no leaves'')"
| "firstLeafId (LSplit _ _ (first # _) _) = firstLeafId first"

definition isLeaf :: "ident \<Rightarrow> layout_node \<Rightarrow> bool" where
  "isLeaf i c \<longleftrightarrow> c = LLeaf i"

section \<open>Operations\<close>

fun splitPane :: "layout_node \<Rightarrow> ident \<Rightarrow> split_dir \<Rightarrow> ident \<Rightarrow> layout_node js" where
  "splitPane (LLeaf i) focusedId dir newLeafId =
     (if i \<noteq> focusedId then js_return (LLeaf i)
      else js_bind generateId (\<lambda>k.
        js_return (LSplit k dir [LLeaf i, leaf newLeafId] [1 / 2, 1 / 2])))"
| "splitPane (LSplit k d children sizes) focusedId dir newLeafId =
     (case findIndex (isLeaf focusedId) children of
        Some direct \<Rightarrow>
          if d = dir then
            (let children' = insert_at (Suc direct) (leaf newLeafId) children
             in js_return (LSplit k d children' (equalSizes (length children'))))
          else js_bind generateId (\<lambda>k'.
            js_return (LSplit k d
              (children[direct := LSplit k' dir [children ! direct, leaf newLeafId] [1 / 2, 1 / 2]])
              sizes))
      | None \<Rightarrow>
          js_bind (js_map (\<lambda>child. splitPane child focusedId dir newLeafId) children)
            (\<lambda>children'. js_return (LSplit k d children' sizes)))"

fun replaceLeafId :: "layout_node \<Rightarrow> ident \<Rightarrow> ident \<Rightarrow> layout_node" where
  "replaceLeafId (LLeaf i) fromId toId =
     (if fromId = toId then LLeaf i else if i = fromId then leaf toId else LLeaf i)"
| "replaceLeafId (LSplit k d children sizes) fromId toId =
     (if fromId = toId then LSplit k d children sizes
      else LSplit k d (map (\<lambda>child. replaceLeafId child fromId toId) children) sizes)"

text \<open>The children that survive a removal, each with its size (\<open>node.sizes[i] ?? 0\<close>).\<close>

fun keptChildren :: "'a option list \<Rightarrow> rat list \<Rightarrow> ('a \<times> rat) list" where
  "keptChildren [] sizes = []"
| "keptChildren (None # rest) sizes = keptChildren rest (tl sizes)"
| "keptChildren (Some c # rest) sizes = (c, nth_default 0 sizes 0) # keptChildren rest (tl sizes)"

fun removePane :: "layout_node \<Rightarrow> ident \<Rightarrow> layout_node option" where
  "removePane (LLeaf i) leafId = (if i = leafId then None else Some (LLeaf i))"
| "removePane (LSplit k d children sizes) leafId =
     (case keptChildren (map (\<lambda>child. removePane child leafId) children) sizes of
        [] \<Rightarrow> None
      | [(only, _)] \<Rightarrow> Some only
      | kept \<Rightarrow> Some (LSplit k d (map fst kept) (normalize (map snd kept))))"

text \<open>
  \<open>siblingLeafId\<close>: the loop over the children stops at the first non-empty string found (the
  code tests truthiness).
\<close>

fun siblingLeafId :: "layout_node \<Rightarrow> ident \<Rightarrow> js_error + ident option"
  and siblingLeafIds :: "layout_node list \<Rightarrow> ident \<Rightarrow> js_error + ident option" where
  "siblingLeafId (LLeaf i) leafId = Inr None"
| "siblingLeafId (LSplit k d children sizes) leafId =
     (case findIndex (isLeaf leafId) children of
        Some index \<Rightarrow>
          (if 0 < index then map_sum id Some (firstLeafId (children ! (index - 1)))
           else if Suc index < length children
             then map_sum id Some (firstLeafId (children ! Suc index))
           else Inr None)
      | None \<Rightarrow> siblingLeafIds children leafId)"
| "siblingLeafIds [] leafId = Inr None"
| "siblingLeafIds (child # rest) leafId =
     (case siblingLeafId child leafId of
        Inl e \<Rightarrow> Inl e
      | Inr (Some found) \<Rightarrow>
          if found \<noteq> [] then Inr (Some found) else siblingLeafIds rest leafId
      | Inr None \<Rightarrow> siblingLeafIds rest leafId)"

text \<open>
  Closing a leaf keeps the other fields of the tab (\<open>{ ...tab, layout, focusedPaneId }\<close>), so it
  is defined on every extension of the record; None is the code's null.
\<close>

definition closeLeaf ::
  "'a awen_tab_scheme \<Rightarrow> ident \<Rightarrow> js_error + 'a awen_tab_scheme option" where
  "closeLeaf tab leafId =
     (case removePane (layout tab) leafId of
        None \<Rightarrow> Inr None
      | Some nextLayout \<Rightarrow>
          (if focusedPaneId tab = leafId then
             (case siblingLeafId (layout tab) leafId of
                Inl e \<Rightarrow> Inl e
              | Inr (Some f) \<Rightarrow>
                  Inr (Some (tab\<lparr>layout := nextLayout, focusedPaneId := f\<rparr>))
              | Inr None \<Rightarrow>
                  map_sum id (\<lambda>f. Some (tab\<lparr>layout := nextLayout, focusedPaneId := f\<rparr>))
                    (firstLeafId nextLayout))
           else Inr (Some (tab\<lparr>layout := nextLayout\<rparr>))))"

definition splitSizesAtBoundary :: "rat list \<Rightarrow> int \<Rightarrow> rat \<Rightarrow> rat list" where
  "splitSizesAtBoundary current index boundary =
     (if index < 0 \<or> int (length current) - 1 \<le> index then current
      else
        let i = nat index;
            before = sum_list (take i current);
            pair = current ! i + current ! Suc i;
            m = min MIN_SIZE (pair / 2);
            first = min (pair - m) (max m (boundary - before))
        in current[i := first, Suc i := pair - first])"

fun setSplitRatio :: "layout_node \<Rightarrow> ident \<Rightarrow> int \<Rightarrow> rat \<Rightarrow> layout_node" where
  "setSplitRatio (LLeaf i) splitId index boundary = LLeaf i"
| "setSplitRatio (LSplit k d children sizes) splitId index boundary =
     (if k \<noteq> splitId then
        LSplit k d (map (\<lambda>child. setSplitRatio child splitId index boundary) children) sizes
      else if index < 0 \<or> int (length sizes) - 1 \<le> index then LSplit k d children sizes
      else LSplit k d children (splitSizesAtBoundary sizes index boundary))"

section \<open>Well-formed trees\<close>

text \<open>
  Every split has at least two children and as many sizes, all positive and adding up to 1.
\<close>

definition sizes_ok :: "rat list \<Rightarrow> bool" where
  "sizes_ok zs \<longleftrightarrow> (\<forall>z \<in> set zs. 0 < z) \<and> sum_list zs = 1"

fun wf_layout :: "layout_node \<Rightarrow> bool" where
  "wf_layout (LLeaf _) = True"
| "wf_layout (LSplit _ _ children sizes) =
     (2 \<le> length children \<and> length sizes = length children \<and> sizes_ok sizes \<and>
      (\<forall>c \<in> set children. wf_layout c))"


lemma isLeaf_iff [simp]: "isLeaf i c \<longleftrightarrow> c = LLeaf i"
  by (simp add: isLeaf_def)

lemma sum_list_div: "sum_list (map (\<lambda>n. n / t) xs) = sum_list xs / (t :: rat)"
  by (induction xs) (simp_all add: add_divide_distrib)

lemma sum_list_pos: "xs \<noteq> [] \<Longrightarrow> (\<forall>x \<in> set xs. 0 < (x :: rat)) \<Longrightarrow> 0 < sum_list xs"
proof (induction xs)
  case (Cons x xs)
  then show ?case by (cases "xs = []") (auto intro: add_pos_pos)
qed simp

lemma length_equalSizes [simp]: "length (equalSizes n) = n"
  by (simp add: equalSizes_def)

lemma length_normalize [simp]: "length (normalize xs) = length xs"
  by (simp add: normalize_def Let_def)

lemma equalSizes_ok: "0 < n \<Longrightarrow> sizes_ok (equalSizes n)"
  by (auto simp: sizes_ok_def equalSizes_def sum_list_replicate)

lemma normalize_ok: "xs \<noteq> [] \<Longrightarrow> \<forall>x \<in> set xs. 0 < x \<Longrightarrow> sizes_ok (normalize xs)"
  using sum_list_pos [of xs] by (auto simp: sizes_ok_def normalize_def Let_def sum_list_div)

lemma wf_leafIds_nonempty: "wf_layout n \<Longrightarrow> leafIds n \<noteq> []"
proof (induction n)
  case (LSplit k d cs zs)
  then obtain c rest where "cs = c # rest" by (cases cs) auto
  with LSplit show ?case by simp
qed simp

lemma wf_firstLeafId: "wf_layout n \<Longrightarrow> firstLeafId n = Inr (hd (leafIds n))"
proof (induction n)
  case (LSplit k d cs zs)
  then obtain c rest where cs: "cs = c # rest" by (cases cs) auto
  with LSplit have "wf_layout c" by simp
  with cs LSplit.IH [of c] wf_leafIds_nonempty [of c] show ?case by simp
qed simp

lemma firstLeafId_in: "firstLeafId n = Inr f \<Longrightarrow> f \<in> set (leafIds n)"
proof (induction n)
  case (LSplit k d cs zs)
  then show ?case by (cases cs) auto
qed simp

subsection \<open>Removing a leaf\<close>

definition oleaves :: "layout_node option \<Rightarrow> ident list" where
  "oleaves r = (case r of None \<Rightarrow> [] | Some n \<Rightarrow> leafIds n)"

lemma oleaves_simps [simp]: "oleaves None = []" "oleaves (Some n) = leafIds n"
  by (simp_all add: oleaves_def)

lemma keptChildren_leaves:
  "concat (map leafIds (map fst (keptChildren rs zs))) = concat (map oleaves rs)"
  by (induction rs zs rule: keptChildren.induct) auto

lemma keptChildren_in: "(c, z) \<in> set (keptChildren rs zs) \<Longrightarrow> Some c \<in> set rs"
  by (induction rs zs rule: keptChildren.induct) auto

lemma keptChildren_sizes:
  "length rs \<le> length zs \<Longrightarrow> (c, z) \<in> set (keptChildren rs zs) \<Longrightarrow> z \<in> set zs"
proof (induction rs zs rule: keptChildren.induct)
  case (2 rest sizes)
  then show ?case by (cases sizes) auto
next
  case (3 c' rest sizes)
  then show ?case by (cases sizes) auto
qed simp

lemma oleaves_removePane: "oleaves (removePane n x) = filter (\<lambda>y. y \<noteq> x) (leafIds n)"
proof (induction n)
  case (LSplit k d cs zs)
  let ?kept = "keptChildren (map (\<lambda>c. removePane c x) cs) zs"
  have leaves: "concat (map leafIds (map fst ?kept)) = filter (\<lambda>y. y \<noteq> x) (concat (map leafIds cs))"
    unfolding keptChildren_leaves using LSplit.IH
    by (simp add: filter_concat o_def cong: map_cong)
  show ?case
  proof (cases ?kept)
    case Nil
    with leaves show ?thesis by simp
  next
    case (Cons a more)
    then show ?thesis using leaves by (cases a; cases more) auto
  qed
qed simp

lemma removePane_leafIds:
  "removePane n x = Some n' \<Longrightarrow> leafIds n' = filter (\<lambda>y. y \<noteq> x) (leafIds n)"
  using oleaves_removePane [of n x] by simp

lemma kept_cases:
  obtains "xs = []" | c z where "xs = [(c, z)]" | "2 \<le> length (xs :: ('a \<times> 'b) list)"
  by (cases xs; cases "tl xs") (auto simp: Suc_le_eq)

lemma removePane_wf: "wf_layout n \<Longrightarrow> removePane n x = Some n' \<Longrightarrow> wf_layout n'"
proof (induction n arbitrary: n')
  case (LLeaf i)
  then show ?case by (auto split: if_splits)
next
  case (LSplit k d cs zs)
  let ?kept = "keptChildren (map (\<lambda>c. removePane c x) cs) zs"
  have wf: "wf_layout c" if kept: "(c, z) \<in> set ?kept" for c z
  proof -
    from keptChildren_in [OF kept] obtain c0 where "c0 \<in> set cs" "removePane c0 x = Some c" by auto
    then show ?thesis using LSplit.IH [of c0 c] LSplit.prems(1) by simp
  qed
  have pos: "0 < z" if "(c, z) \<in> set ?kept" for c z
    using keptChildren_sizes [OF _ that] LSplit.prems by (auto simp: sizes_ok_def)
  show ?case
  proof (cases ?kept rule: kept_cases)
    case 1
    with LSplit.prems show ?thesis by simp
  next
    case (2 c z)
    with LSplit.prems wf [of c z] show ?thesis by simp
  next
    case 3
    then have n': "n' = LSplit k d (map fst ?kept) (normalize (map snd ?kept))"
      using LSplit.prems by (simp split: list.splits prod.splits)
    have "sizes_ok (normalize (map snd ?kept))"
      by (rule normalize_ok) (use pos 3 in auto)
    moreover have "\<forall>c \<in> set (map fst ?kept). wf_layout c"
      using wf by (metis imageE list.set_map prod.collapse)
    ultimately show ?thesis
      unfolding n' wf_layout.simps using 3 by (simp only: length_map length_normalize)
  qed
qed

lemma removePane_None_iff:
  assumes "wf_layout n"
  shows "removePane n x = None \<longleftrightarrow> set (leafIds n) \<subseteq> {x}"
proof -
  have "removePane n x = None \<longleftrightarrow> filter (\<lambda>y. y \<noteq> x) (leafIds n) = []"
    using oleaves_removePane [of n x] removePane_wf [OF assms] wf_leafIds_nonempty
    by (cases "removePane n x") auto
  then show ?thesis by (auto simp: filter_empty_conv)
qed

lemma removePane_absent: "wf_layout n \<Longrightarrow> x \<notin> set (leafIds n) \<Longrightarrow> removePane n x = Some n"
proof (induction n)
  case (LSplit k d cs zs)
  have "map (\<lambda>c. removePane c x) cs = map Some cs"
    using LSplit by auto
  moreover have "keptChildren (map Some cs) zs = zip cs zs" if "length cs = length zs"
    using that by (induction cs zs rule: list_induct2) simp_all
  ultimately have kept: "keptChildren (map (\<lambda>c. removePane c x) cs) zs = zip cs zs"
    using LSplit.prems(1) by (simp only: wf_layout.simps)
  have zs: "normalize zs = zs"
    using LSplit.prems(1) by (simp add: normalize_def Let_def sizes_ok_def)
  have len: "2 \<le> length cs" "length zs = length cs" using LSplit.prems(1) by simp_all
  then obtain c1 c2 cs' where cs: "cs = c1 # c2 # cs'" by (cases cs; cases "tl cs") auto
  with len obtain z1 z2 zs' where "zs = z1 # z2 # zs'" by (cases zs; cases "tl zs") auto
  then show ?case
    unfolding removePane.simps kept using zs len cs by simp
qed simp

subsection \<open>Closing a leaf\<close>

lemma siblingLeafId_ok:
  "wf_layout n \<Longrightarrow> distinct (leafIds n) \<Longrightarrow>
     \<exists>r. siblingLeafId n x = Inr r \<and> (\<forall>f. r = Some f \<longrightarrow> f \<in> set (leafIds n) - {x})"
  "\<forall>c \<in> set cs. wf_layout c \<Longrightarrow> distinct (concat (map leafIds cs)) \<Longrightarrow>
     \<exists>r. siblingLeafIds cs x = Inr r \<and>
       (\<forall>f. r = Some f \<longrightarrow> f \<in> set (concat (map leafIds cs)) - {x})"
proof (induction n x and cs x rule: siblingLeafId_siblingLeafIds.induct)
  case (2 k d cs zs x)
  show ?case
  proof (cases "findIndex (isLeaf x) cs")
    case None
    then show ?thesis using 2 by simp
  next
    case (Some i)
    then have i: "i < length cs" "cs ! i = LLeaf x" using findIndex_SomeD by fastforce+
    have other: "\<exists>f. firstLeafId (cs ! j) = Inr f \<and> f \<in> set (leafIds (LSplit k d cs zs)) - {x}"
      if j: "j < length cs" "j \<noteq> i" for j
    proof -
      have "wf_layout (cs ! j)" using 2(2) j by simp
      then have f: "firstLeafId (cs ! j) = Inr (hd (leafIds (cs ! j)))"
        and ne: "leafIds (cs ! j) \<noteq> []"
        by (auto simp: wf_firstLeafId wf_leafIds_nonempty)
      have "set (leafIds (cs ! i)) \<inter> set (leafIds (cs ! j)) = {}"
        using 2(3) j i distinct_concat_nth [of "map leafIds cs" i j] by simp
      moreover have "hd (leafIds (cs ! j)) \<in> set (leafIds (cs ! j))" using ne by simp
      moreover have "cs ! j \<in> set cs" using j by simp
      ultimately show ?thesis using f i by auto
    qed
    have found: "\<exists>r. map_sum id Some (firstLeafId (cs ! j)) = Inr r \<and>
        (\<forall>f. r = Some f \<longrightarrow> f \<in> set (leafIds (LSplit k d cs zs)) - {x})"
      if "j < length cs" "j \<noteq> i" for j
    proof -
      from other [OF that] obtain f where "firstLeafId (cs ! j) = Inr f"
        "f \<in> set (leafIds (LSplit k d cs zs)) - {x}" by blast
      then show ?thesis by (intro exI [of _ "Some f"]) (simp del: leafIds.simps)
    qed
    show ?thesis
      unfolding siblingLeafId.simps Some option.case
      using i(1) found [of "i - 1"] found [of "Suc i"]
      by (cases "i = 0") (simp_all del: leafIds.simps)
  qed
next
  case (4 c cs x)
  then show ?case by (fastforce split: option.splits)
qed auto

lemma closeLeaf_spec:
  assumes "wf_layout (layout tab)" and "distinct (leafIds (layout tab))"
  shows "closeLeaf tab x = Inr None \<and> set (leafIds (layout tab)) \<subseteq> {x} \<or>
    (\<exists>n' f. closeLeaf tab x = Inr (Some (tab\<lparr>layout := n', focusedPaneId := f\<rparr>)) \<and>
       wf_layout n' \<and> leafIds n' = filter (\<lambda>y. y \<noteq> x) (leafIds (layout tab)) \<and>
       (focusedPaneId tab \<noteq> x \<longrightarrow> f = focusedPaneId tab) \<and>
       (focusedPaneId tab = x \<longrightarrow> f \<in> set (leafIds n')))"
proof (cases "removePane (layout tab) x")
  case None
  then show ?thesis using removePane_None_iff [OF assms(1), of x] by (simp add: closeLeaf_def)
next
  case (Some n')
  have n': "wf_layout n'" "leafIds n' = filter (\<lambda>y. y \<noteq> x) (leafIds (layout tab))"
    using removePane_wf removePane_leafIds assms(1) Some by blast+
  obtain r where r: "siblingLeafId (layout tab) x = Inr r"
    "\<And>f. r = Some f \<Longrightarrow> f \<in> set (leafIds n')"
    using siblingLeafId_ok(1) [OF assms, of x] n'(2) by auto
  have first: "firstLeafId n' = Inr (hd (leafIds n'))" "hd (leafIds n') \<in> set (leafIds n')"
    using n'(1) by (simp_all add: wf_firstLeafId wf_leafIds_nonempty)
  define f where "f = (if focusedPaneId tab = x
    then (case r of Some g \<Rightarrow> g | None \<Rightarrow> hd (leafIds n')) else focusedPaneId tab)"
  have "closeLeaf tab x = Inr (Some (tab\<lparr>layout := n', focusedPaneId := f\<rparr>))"
    using Some r(1) first(1) by (cases r) (simp_all add: closeLeaf_def f_def)
  moreover have "focusedPaneId tab = x \<longrightarrow> f \<in> set (leafIds n')"
    using r(2) first(2) by (cases r) (simp_all add: f_def)
  moreover have "focusedPaneId tab \<noteq> x \<longrightarrow> f = focusedPaneId tab" by (simp add: f_def)
  ultimately show ?thesis using n' by blast
qed

subsection \<open>Renaming a leaf, moving a sash\<close>

lemma replaceLeafId_leafIds:
  "leafIds (replaceLeafId n a b) = map (\<lambda>x. if x = a then b else x) (leafIds n)"
  by (induction n) (auto simp: leaf_def map_concat o_def intro: map_idI arg_cong [where f = concat])

lemma replaceLeafId_wf: "wf_layout n \<Longrightarrow> wf_layout (replaceLeafId n a b)"
  by (induction n) (auto simp: leaf_def)

lemma sum_list_upd: "k < length xs \<Longrightarrow> sum_list (xs[k := x]) = sum_list xs - xs ! k + (x :: rat)"
  by (induction xs arbitrary: k) (auto split: nat.splits)

lemma setSplitRatio_leafIds: "leafIds (setSplitRatio n k i b) = leafIds n"
  by (induction n) (auto cong: map_cong simp: o_def)

lemma splitSizes_length [simp]: "length (splitSizesAtBoundary zs i b) = length zs"
  by (simp add: splitSizesAtBoundary_def Let_def)

text \<open>
  In range, the two sizes a sash separates keep their sum and neither falls below the minimum;
  the others are unchanged.
\<close>

lemma splitSizes_shape:
  assumes "0 \<le> i" and "Suc (nat i) < length zs"
  obtains f where
    "splitSizesAtBoundary zs i b
       = zs[nat i := f, Suc (nat i) := zs ! nat i + zs ! Suc (nat i) - f]"
    "min MIN_SIZE ((zs ! nat i + zs ! Suc (nat i)) / 2) \<le> f"
    "min MIN_SIZE ((zs ! nat i + zs ! Suc (nat i)) / 2) \<le> zs ! nat i + zs ! Suc (nat i) - f"
proof -
  define pair where "pair = zs ! nat i + zs ! Suc (nat i)"
  define m where "m = min MIN_SIZE (pair / 2)"
  define f where "f = min (pair - m) (max m (b - sum_list (take (nat i) zs)))"
  have "m \<le> pair / 2" by (simp add: m_def)
  then have "m \<le> f" "m \<le> pair - f" by (simp_all add: f_def)
  moreover have "\<not> (i < 0 \<or> int (length zs) - 1 \<le> i)" using assms by auto
  then have "splitSizesAtBoundary zs i b = zs[nat i := f, Suc (nat i) := pair - f]"
    unfolding splitSizesAtBoundary_def Let_def f_def m_def pair_def by (simp only: if_False)
  ultimately show thesis using that by (simp add: pair_def m_def)
qed

lemma splitSizes_range:
  obtains "splitSizesAtBoundary zs i b = zs" | "0 \<le> i" "Suc (nat i) < length zs"
  by (cases "i < 0 \<or> int (length zs) - 1 \<le> i") (auto simp: splitSizesAtBoundary_def)

lemma splitSizes_sum: "sum_list (splitSizesAtBoundary zs i b) = sum_list zs"
proof (cases rule: splitSizes_range [of zs i b])
  case 2
  from splitSizes_shape [OF this, of b] obtain f where
    f: "splitSizesAtBoundary zs i b
       = zs[nat i := f, Suc (nat i) := zs ! nat i + zs ! Suc (nat i) - f]" .
  show ?thesis
    unfolding f using 2 by (simp add: sum_list_upd)
qed simp

lemma splitSizes_pos:
  assumes "\<forall>z \<in> set zs. 0 < z"
  shows "\<forall>z \<in> set (splitSizesAtBoundary zs i b). 0 < z"
proof (cases rule: splitSizes_range [of zs i b])
  case 2
  from splitSizes_shape [OF 2, of b] obtain f where
    f: "splitSizesAtBoundary zs i b
       = zs[nat i := f, Suc (nat i) := zs ! nat i + zs ! Suc (nat i) - f]"
    and m: "min MIN_SIZE ((zs ! nat i + zs ! Suc (nat i)) / 2) \<le> f"
      "min MIN_SIZE ((zs ! nat i + zs ! Suc (nat i)) / 2) \<le> zs ! nat i + zs ! Suc (nat i) - f" .
  have "0 < zs ! nat i" "0 < zs ! Suc (nat i)" using assms 2 by simp_all
  then have "0 < min MIN_SIZE ((zs ! nat i + zs ! Suc (nat i)) / 2)" by (simp add: MIN_SIZE_def)
  then have "0 < f" "0 < zs ! nat i + zs ! Suc (nat i) - f" using m by linarith+
  then show ?thesis
    unfolding f using assms by (auto dest!: set_update_subset_insert [THEN subsetD])
qed (use assms in simp)

lemma splitSizes_ok: "sizes_ok zs \<Longrightarrow> sizes_ok (splitSizesAtBoundary zs i b)"
  unfolding sizes_ok_def splitSizes_sum using splitSizes_pos by blast

lemma setSplitRatio_wf: "wf_layout n \<Longrightarrow> wf_layout (setSplitRatio n k i b)"
  by (induction n) (auto simp: splitSizes_ok)

subsection \<open>Adding leaves beside a leaf\<close>

text \<open>\<open>beside b t ys xs\<close>: the list \<open>xs\<close> with \<open>ys\<close> put before or after every \<open>t\<close>.\<close>

datatype pane_place = Before | After

definition beside :: "pane_place \<Rightarrow> 'a \<Rightarrow> 'a list \<Rightarrow> 'a list \<Rightarrow> 'a list" where
  "beside p t ys xs =
     concat (map (\<lambda>z. if z = t then (case p of Before \<Rightarrow> ys @ [z] | After \<Rightarrow> z # ys) else [z]) xs)"

lemma beside_simps [simp]:
  "beside p t ys [] = []"
  "beside p t ys (xs @ zs) = beside p t ys xs @ beside p t ys zs"
  "beside p t ys (x # xs) =
     (if x = t then (case p of Before \<Rightarrow> ys @ [x] | After \<Rightarrow> x # ys) else [x]) @ beside p t ys xs"
  by (simp_all add: beside_def)

lemma beside_id: "t \<notin> set xs \<Longrightarrow> beside p t ys xs = xs"
  by (induction xs) auto

lemma beside_concat: "beside p t ys (concat xss) = concat (map (beside p t ys) xss)"
  by (induction xss) auto

lemma set_beside: "set (beside p t ys xs) = set xs \<union> (if t \<in> set xs then set ys else {})"
  by (induction xs) (auto split: pane_place.splits)

lemma mset_beside:
  "distinct xs \<Longrightarrow> t \<in> set xs \<Longrightarrow> mset (beside p t ys xs) = mset xs + mset ys"
  by (induction xs) (auto simp: beside_id split: pane_place.splits)

lemma distinct_beside:
  assumes "distinct xs" "distinct ys" "set xs \<inter> set ys = {}"
  shows "distinct (beside p t ys xs)"
proof (cases "t \<in> set xs")
  case True
  have "distinct (xs @ ys)" using assms by auto
  then show ?thesis
    using mset_beside [OF assms(1) True, of p ys] mset_eq_imp_distinct_iff
    by (metis mset_append)
qed (simp add: beside_id assms(1))

section \<open>Properties\<close>

text \<open>
  C34: removing a pane from a well-formed layout gives nothing exactly when it was the only pane;
  otherwise the result is well formed (no split with one child, shares positive and adding up to
  one) and shows the other panes in the same order.
\<close>

theorem removePane_correct:
  assumes "wf_layout n"
  shows "case removePane n x of
           None \<Rightarrow> set (leafIds n) = {x}
         | Some n' \<Rightarrow> wf_layout n' \<and> leafIds n' = filter (\<lambda>y. y \<noteq> x) (leafIds n)"
proof (cases "removePane n x")
  case None
  then have "set (leafIds n) \<subseteq> {x}" using removePane_None_iff [OF assms, of x] by simp
  moreover have "leafIds n \<noteq> []" using wf_leafIds_nonempty [OF assms] .
  ultimately show ?thesis using None by (cases "leafIds n") auto
qed (use assms removePane_wf removePane_leafIds in auto)

theorem removePane_correct_witness:
  "removePane (LSplit ''s'' SplitRight [LLeaf ''a'', LLeaf ''b''] [1 / 2, 1 / 2]) ''a'' = Some (LLeaf ''b'') \<and>
   (case removePane (LSplit ''s'' SplitRight [LLeaf ''a'', LLeaf ''b''] [1 / 2, 1 / 2]) ''a'' of
      None \<Rightarrow> set (leafIds (LSplit ''s'' SplitRight [LLeaf ''a'', LLeaf ''b''] [1 / 2, 1 / 2])) = {''a''}
    | Some n' \<Rightarrow> wf_layout n' \<and> leafIds n' = filter (\<lambda>y. y \<noteq> ''a'')
        (leafIds (LSplit ''s'' SplitRight [LLeaf ''a'', LLeaf ''b''] [1 / 2, 1 / 2])))"
  using removePane_correct [of "LSplit ''s'' SplitRight [LLeaf ''a'', LLeaf ''b''] [1 / 2, 1 / 2]" "''a''"]
  by (simp add: sizes_ok_def)

text \<open>
  C35: dragging a sash that separates two panes moves only their boundary: their two shares keep
  their sum, neither falls below the minimum (or half of their sum, when that is smaller), the
  other shares are untouched, and the shares still add up to one.
\<close>

theorem splitSizes_bounds:
  assumes "sizes_ok zs" "0 \<le> i" "Suc (nat i) < length zs"
  shows "let zs' = splitSizesAtBoundary zs i b; k = nat i; pair = zs ! k + zs ! Suc k in
    length zs' = length zs \<and> zs' ! k + zs' ! Suc k = pair \<and>
    min MIN_SIZE (pair / 2) \<le> zs' ! k \<and> min MIN_SIZE (pair / 2) \<le> zs' ! Suc k \<and>
    (\<forall>j. j \<noteq> k \<longrightarrow> j \<noteq> Suc k \<longrightarrow> zs' ! j = zs ! j) \<and> sizes_ok zs'"
proof -
  obtain f where f: "splitSizesAtBoundary zs i b
       = zs[nat i := f, Suc (nat i) := zs ! nat i + zs ! Suc (nat i) - f]"
    "min MIN_SIZE ((zs ! nat i + zs ! Suc (nat i)) / 2) \<le> f"
    "min MIN_SIZE ((zs ! nat i + zs ! Suc (nat i)) / 2) \<le> zs ! nat i + zs ! Suc (nat i) - f"
    using splitSizes_shape [OF assms(2,3)] by blast
  show ?thesis
    using assms(3) f(2,3) splitSizes_ok [OF assms(1), of i b]
    by (simp add: Let_def f(1) del: min_le_iff_disj)
qed

theorem splitSizes_bounds_witness:
  "splitSizesAtBoundary [1 / 2, 1 / 2] 0 (1 / 100) = [8 / 100, 92 / 100] \<and>
   (let zs' = splitSizesAtBoundary [1 / 2, 1 / 2] 0 (1 / 100); k = nat 0;
        pair = [1 / 2, 1 / 2] ! k + [1 / 2, 1 / 2] ! Suc k in
    length zs' = length [1 / 2, 1 / 2 :: rat] \<and> zs' ! k + zs' ! Suc k = pair \<and>
    min MIN_SIZE (pair / 2) \<le> zs' ! k \<and> min MIN_SIZE (pair / 2) \<le> zs' ! Suc k \<and>
    (\<forall>j. j \<noteq> k \<longrightarrow> j \<noteq> Suc k \<longrightarrow> zs' ! j = [1 / 2, 1 / 2] ! j) \<and> sizes_ok zs')"
  using splitSizes_bounds [of "[1 / 2, 1 / 2]" 0 "1 / 100"]
  by (simp add: splitSizesAtBoundary_def MIN_SIZE_def sizes_ok_def Let_def)

text \<open>
  Closing a pane of a tab never throws. Closing the only pane is reported as null; otherwise
  the pane disappears, the focus stays where it is if another pane had it, and otherwise moves to
  a pane that exists.
\<close>

theorem closeLeaf_focus:
  assumes "wf_layout (layout tab)" "distinct (leafIds (layout tab))"
    and "focusedPaneId tab \<in> set (leafIds (layout tab))"
  shows "closeLeaf tab x = Inr None \<and> leafIds (layout tab) = [x] \<or>
    (\<exists>tab'. closeLeaf tab x = Inr (Some tab') \<and> wf_layout (layout tab') \<and>
       leafIds (layout tab') = filter (\<lambda>y. y \<noteq> x) (leafIds (layout tab)) \<and>
       focusedPaneId tab' \<in> set (leafIds (layout tab')) \<and>
       (focusedPaneId tab \<noteq> x \<longrightarrow> focusedPaneId tab' = focusedPaneId tab))"
  using closeLeaf_spec [OF assms(1,2), of x]
proof (elim disjE exE conjE)
  assume a: "closeLeaf tab x = Inr None" "set (leafIds (layout tab)) \<subseteq> {x}"
  then have "leafIds (layout tab) = [x]"
    using assms(2,3) by (cases "leafIds (layout tab)"; cases "tl (leafIds (layout tab))") auto
  then show ?thesis using a by blast
next
  fix n' f
  assume "closeLeaf tab x = Inr (Some (tab\<lparr>layout := n', focusedPaneId := f\<rparr>))" "wf_layout n'"
    "leafIds n' = filter (\<lambda>y. y \<noteq> x) (leafIds (layout tab))"
    "focusedPaneId tab \<noteq> x \<longrightarrow> f = focusedPaneId tab" "focusedPaneId tab = x \<longrightarrow> f \<in> set (leafIds n')"
  then show ?thesis
    using assms(3) by (intro disjI2 exI [of _ "tab\<lparr>layout := n', focusedPaneId := f\<rparr>"]) auto
qed

theorem closeLeaf_focus_witness:
  "\<exists>tab' :: awen_tab. closeLeaf
      \<lparr>tabId = ''t'', layout = LSplit ''s'' SplitRight [LLeaf ''a'', LLeaf ''b''] [1 / 2, 1 / 2],
       focusedPaneId = ''a''\<rparr> ''a'' = Inr (Some tab') \<and> focusedPaneId tab' = ''b''"
  using closeLeaf_focus [of "\<lparr>tabId = ''t'', layout = LSplit ''s'' SplitRight [LLeaf ''a'', LLeaf ''b''] [1 / 2, 1 / 2],
       focusedPaneId = ''a''\<rparr>" "''a''"]
  by (auto simp: sizes_ok_def)

end
