(* ===== verification/LayoutMove.thy ===== *)
theory LayoutMove
  imports Layout
begin

text \<open>
  Drag and drop on the split tree: the drop edge of a point and the operations that move,
  insert and replace leaves (\<open>apps/web/src/workbench/layout.ts\<close>, lines 356 to 651).
\<close>

section \<open>Drop zones\<close>

datatype pane_edge = ELeft | ERight | ETop | EBottom

datatype pane_drop_zone = Edge pane_edge | Replace

record drop_rect =
  left :: rat
  top :: rat
  width :: rat
  height :: rat

text \<open>\<open>candidates.reduce\<close> keeps the earlier candidate on a tie.\<close>

fun nearestEdge :: "pane_edge \<times> rat \<Rightarrow> (pane_edge \<times> rat) list \<Rightarrow> pane_edge \<times> rat" where
  "nearestEdge best [] = best"
| "nearestEdge best (candidate # rest) =
     nearestEdge (if snd candidate < snd best then candidate else best) rest"

definition paneEdgeFromPoint :: "rat \<Rightarrow> rat \<Rightarrow> drop_rect \<Rightarrow> pane_edge" where
  "paneEdgeFromPoint x y rect =
     (if width rect \<le> 0 \<or> height rect \<le> 0 then ELeft
      else
        let nx = (x - left rect) / width rect;
            ny = (y - top rect) / height rect
        in fst (nearestEdge (ELeft, nx) [(ERight, 1 - nx), (ETop, ny), (EBottom, 1 - ny)]))"

definition paneDirectionalZoneFromPoint :: "rat \<Rightarrow> rat \<Rightarrow> drop_rect \<Rightarrow> pane_edge" where
  "paneDirectionalZoneFromPoint x y rect =
     (if width rect \<le> 0 \<or> height rect \<le> 0 then ELeft
      else
        let nx = (x - left rect) / width rect;
            ny = (y - top rect) / height rect
        in if 42 / 100 \<le> nx \<and> nx \<le> 58 / 100
           then (if ny < 1 / 2 then ETop else EBottom)
           else (if nx < 1 / 2 then ELeft else ERight))"

definition paneDropZoneFromPoint :: "rat \<Rightarrow> rat \<Rightarrow> drop_rect \<Rightarrow> pane_drop_zone" where
  "paneDropZoneFromPoint x y rect =
     (if width rect \<le> 0 \<or> height rect \<le> 0 then Replace
      else
        let nx = (x - left rect) / width rect;
            ny = (y - top rect) / height rect;
            edge = paneEdgeFromPoint x y rect;
            distance = (case edge of ELeft \<Rightarrow> nx | ERight \<Rightarrow> 1 - nx | ETop \<Rightarrow> ny | EBottom \<Rightarrow> 1 - ny)
        in if distance < 3 / 10 then Edge edge else Replace)"

fun edgeSplit :: "pane_edge \<Rightarrow> split_dir \<times> pane_place" where
  "edgeSplit ELeft = (SplitRight, Before)"
| "edgeSplit ERight = (SplitRight, After)"
| "edgeSplit ETop = (SplitDown, Before)"
| "edgeSplit EBottom = (SplitDown, After)"

section \<open>Locating and moving leaves\<close>

record leaf_parent =
  parentId :: ident
  index :: nat
  dir :: split_dir

text \<open>
  The loop of \<open>leafParent\<close> over the children of one split: a child that is the leaf itself
  ends it, any other child is searched before the next one.
\<close>

fun leafParent :: "layout_node \<Rightarrow> ident \<Rightarrow> leaf_parent option"
  and leafParentFrom ::
    "ident \<Rightarrow> split_dir \<Rightarrow> nat \<Rightarrow> layout_node list \<Rightarrow> ident \<Rightarrow> leaf_parent option" where
  "leafParent (LLeaf i) leafId = None"
| "leafParent (LSplit k d children sizes) leafId = leafParentFrom k d 0 children leafId"
| "leafParentFrom k d i [] leafId = None"
| "leafParentFrom k d i (child # rest) leafId =
     (if isLeaf leafId child then Some \<lparr>parentId = k, index = i, dir = d\<rparr>
      else case leafParent child leafId of
             Some found \<Rightarrow> Some found
           | None \<Rightarrow> leafParentFrom k d (Suc i) rest leafId)"

definition reorderTarget :: "nat \<Rightarrow> nat \<Rightarrow> nat \<Rightarrow> pane_place \<Rightarrow> nat" where
  "reorderTarget n fromIndex toIndex place =
     (let insertAt = min n (if place = After then Suc toIndex else toIndex)
      in if fromIndex < insertAt then insertAt - 1 else insertAt)"

definition reorderChild ::
  "ident \<Rightarrow> split_dir \<Rightarrow> layout_node list \<Rightarrow> rat list \<Rightarrow> nat \<Rightarrow> nat \<Rightarrow> pane_place \<Rightarrow> layout_node" where
  "reorderChild k d children sizes fromIndex toIndex place =
     (let n = length children;
          insertAt = reorderTarget n fromIndex toIndex place
      in if n \<le> fromIndex \<or> n \<le> toIndex then LSplit k d children sizes
         else if fromIndex = insertAt then LSplit k d children sizes
         else if length sizes \<le> fromIndex then LSplit k d children sizes
         else LSplit k d
           (insert_at insertAt (children ! fromIndex) (remove_at fromIndex children))
           (insert_at insertAt (sizes ! fromIndex) (remove_at fromIndex sizes)))"

fun reorderInSplit ::
  "layout_node \<Rightarrow> ident \<Rightarrow> nat \<Rightarrow> nat \<Rightarrow> pane_place \<Rightarrow> layout_node" where
  "reorderInSplit (LLeaf i) splitId fromIndex toIndex place = LLeaf i"
| "reorderInSplit (LSplit k d children sizes) splitId fromIndex toIndex place =
     (if k = splitId then reorderChild k d children sizes fromIndex toIndex place
      else LSplit k d
        (map (\<lambda>child. reorderInSplit child splitId fromIndex toIndex place) children) sizes)"

text \<open>
  \<open>extractLeaf\<close> returns the remaining tree, if any, and the extracted leaf (known by its
  identifier). \<open>extractChildren\<close> is its loop: the kept children with their sizes, and whether
  some child contained the leaf.
\<close>

fun extractLeaf :: "layout_node \<Rightarrow> ident \<Rightarrow> (layout_node option \<times> ident) option"
  and extractChildren ::
    "layout_node list \<Rightarrow> rat list \<Rightarrow> ident \<Rightarrow> (layout_node \<times> rat) list \<times> ident option" where
  "extractLeaf (LLeaf i) leafId = (if i = leafId then Some (None, i) else None)"
| "extractLeaf (LSplit k d children sizes) leafId =
     (case extractChildren children sizes leafId of
        (_, None) \<Rightarrow> None
      | ([], Some l) \<Rightarrow> Some (None, l)
      | ([(only, _)], Some l) \<Rightarrow> Some (Some only, l)
      | (kept, Some l) \<Rightarrow> Some (Some (LSplit k d (map fst kept) (normalize (map snd kept))), l))"
| "extractChildren [] sizes leafId = ([], None)"
| "extractChildren (child # rest) sizes leafId =
     (let size = nth_default 0 sizes 0;
          (kept, later) = extractChildren rest (tl sizes) leafId
      in case extractLeaf child leafId of
           None \<Rightarrow> ((child, size) # kept, later)
         | Some (None, l) \<Rightarrow> (kept, if later = None then Some l else later)
         | Some (Some tree, l) \<Rightarrow> ((tree, size) # kept, if later = None then Some l else later))"

fun insertBeside :: "layout_node \<Rightarrow> ident \<Rightarrow> layout_node \<Rightarrow> pane_place \<Rightarrow> layout_node" where
  "insertBeside (LLeaf i) targetId incoming place = LLeaf i"
| "insertBeside (LSplit k d children sizes) targetId incoming place =
     (case findIndex (isLeaf targetId) children of
        Some i \<Rightarrow>
          (let insertAt = (if place = Before then i else Suc i);
               share = nth_default 0 sizes i / 2
           in LSplit k d (insert_at insertAt incoming children)
                (insert_at insertAt share (sizes[i := share])))
      | None \<Rightarrow>
          LSplit k d (map (\<lambda>child. insertBeside child targetId incoming place) children) sizes)"

fun wrapBeside ::
  "layout_node \<Rightarrow> ident \<Rightarrow> layout_node \<Rightarrow> split_dir \<Rightarrow> pane_place \<Rightarrow> layout_node js" where
  "wrapBeside (LLeaf i) targetId incoming d place =
     (if i \<noteq> targetId then js_return (LLeaf i)
      else js_bind generateId (\<lambda>k.
        js_return (LSplit k d
          (if place = Before then [incoming, LLeaf i] else [LLeaf i, incoming]) [1 / 2, 1 / 2])))"
| "wrapBeside (LSplit k d' children sizes) targetId incoming d place =
     js_bind (js_map (\<lambda>child. wrapBeside child targetId incoming d place) children)
       (\<lambda>children'. js_return (LSplit k d' children' sizes))"

definition movePane :: "layout_node \<Rightarrow> ident \<Rightarrow> ident \<Rightarrow> pane_edge \<Rightarrow> layout_node js" where
  "movePane node fromId toId edge =
     (if fromId = toId then js_return node
      else case (leafParent node fromId, leafParent node toId) of
        (Some fromAt, Some toAt) \<Rightarrow>
          (let (d, place) = edgeSplit edge
           in if dir toAt = d \<and> parentId fromAt = parentId toAt
              then js_return (reorderInSplit node (parentId fromAt) (index fromAt) (index toAt) place)
              else case extractLeaf node fromId of
                Some (Some tree, l) \<Rightarrow>
                  if toId \<notin> set (leafIds tree) then js_return node
                  else if map_option dir (leafParent tree toId) = Some d
                  then js_return (insertBeside tree toId (leaf l) place)
                  else wrapBeside tree toId (leaf l) d place
              | _ \<Rightarrow> js_return node)
      | _ \<Rightarrow> js_return node)"

definition placeLayout :: "layout_node \<Rightarrow> layout_node \<Rightarrow> ident \<Rightarrow> pane_edge \<Rightarrow> layout_node js" where
  "placeLayout node incoming toId edge =
     (if toId \<notin> set (leafIds node) then js_return node
      else
        let (d, place) = edgeSplit edge
        in if map_option dir (leafParent node toId) = Some d
           then js_return (insertBeside node toId incoming place)
           else wrapBeside node toId incoming d place)"

definition placePane :: "layout_node \<Rightarrow> ident \<Rightarrow> ident \<Rightarrow> pane_edge \<Rightarrow> layout_node js" where
  "placePane node leafId toId edge =
     (if leafId = toId then js_return node
      else if toId \<notin> set (leafIds node) then js_return node
      else if leafId \<in> set (leafIds node) then movePane node leafId toId edge
      else placeLayout node (leaf leafId) toId edge)"

fun replacePaneWithLayout :: "layout_node \<Rightarrow> ident \<Rightarrow> layout_node \<Rightarrow> layout_node" where
  "replacePaneWithLayout (LLeaf i) targetId incoming = (if i = targetId then incoming else LLeaf i)"
| "replacePaneWithLayout (LSplit k d children sizes) targetId incoming =
     LSplit k d (map (\<lambda>child. replacePaneWithLayout child targetId incoming) children) sizes"

section \<open>What the operations do to the leaves\<close>

lemma concat_insert_at:
  "i \<le> length xss \<Longrightarrow>
     concat (insert_at i xs xss) = concat (take i xss) @ xs @ concat (drop i xss)"
  by (simp add: insert_at_def)

lemma concat_split_nth:
  "i < length xss \<Longrightarrow> concat xss = concat (take i xss) @ xss ! i @ concat (drop (Suc i) xss)"
  by (metis concat.simps(2) concat_append id_take_nth_drop)

lemma concat_insert_beside:
  assumes "distinct (concat xss)" "i < length xss" "xss ! i = [t]"
  shows "concat (insert_at (if p = Before then i else Suc i) ys xss) = beside p t ys (concat xss)"
proof -
  have split: "concat xss = concat (take i xss) @ [t] @ concat (drop (Suc i) xss)"
    using concat_split_nth [OF assms(2)] assms(3) by simp
  then have "t \<notin> set (concat (take i xss))" "t \<notin> set (concat (drop (Suc i) xss))"
    using assms(1) by auto
  then have "beside p t ys (concat xss) = concat (take i xss) @
      (if p = Before then ys @ [t] else t # ys) @ concat (drop (Suc i) xss)"
    unfolding split by (simp add: beside_id split: pane_place.splits)
  moreover have "concat (drop i xss) = t # concat (drop (Suc i) xss)"
    "concat (take (Suc i) xss) = concat (take i xss) @ [t]"
    using assms(2,3) by (simp_all add: Cons_nth_drop_Suc [symmetric] take_Suc_conv_app_nth)
  ultimately show ?thesis
    using assms(2) by (simp add: concat_insert_at)
qed

lemma insertBeside_leafIds:
  "n \<noteq> LLeaf t \<Longrightarrow> distinct (leafIds n) \<Longrightarrow>
     leafIds (insertBeside n t inc p) = beside p t (leafIds inc) (leafIds n)"
proof (induction n)
  case (LSplit k d cs zs)
  show ?case
  proof (cases "findIndex (isLeaf t) cs")
    case None
    then have "c \<noteq> LLeaf t" if "c \<in> set cs" for c using that by (auto simp: findIndex_None_iff)
    moreover have "distinct (leafIds c)" if "c \<in> set cs" for c
      using LSplit.prems(2) that by (auto simp: distinct_concat_iff)
    ultimately show ?thesis
      using None LSplit.IH by (auto simp: beside_concat o_def cong: map_cong)
  next
    case (Some i)
    then have i: "i < length cs" "cs ! i = LLeaf t" using findIndex_SomeD by fastforce+
    have "concat (insert_at (if p = Before then i else Suc i) (leafIds inc) (map leafIds cs)) =
        beside p t (leafIds inc) (concat (map leafIds cs))"
      by (rule concat_insert_beside) (use LSplit.prems(2) i in auto)
    then show ?thesis using Some by (simp add: map_insert_at Let_def)
  qed
qed simp

lemma insertBeside_wf:
  "wf_layout n \<Longrightarrow> wf_layout inc \<Longrightarrow> wf_layout (insertBeside n t inc p)"
proof (induction n)
  case (LSplit k d cs zs)
  show ?case
  proof (cases "findIndex (isLeaf t) cs")
    case (Some i)
    then have i: "i < length zs" using findIndex_SomeD [OF Some] LSplit.prems(1) by simp
    let ?h = "zs ! i / 2"
    have "sum_list (insert_at j ?h (zs[i := ?h])) = 1" for j
    proof -
      have "sum_list (insert_at j ?h (zs[i := ?h])) = ?h + sum_list (zs[i := ?h])"
        by (metis mset_insert_at sum_mset.add_mset sum_mset_sum_list)
      then show ?thesis using i LSplit.prems(1) by (simp add: sum_list_upd sizes_ok_def)
    qed
    moreover have "0 < ?h" using i LSplit.prems(1) by (simp add: sizes_ok_def)
    ultimately have "sizes_ok (insert_at j ?h (zs[i := ?h]))" for j
      using LSplit.prems(1) set_update_subset_insert [of zs i ?h] by (auto simp: sizes_ok_def)
    then show ?thesis using Some LSplit.prems i by (auto simp: nth_default_nth Let_def)
  qed (use LSplit in auto)
qed simp

lemma list_all2_map_eq: "list_all2 (\<lambda>x y. f y = g x) xs ys \<Longrightarrow> map f ys = map g xs"
  by (induction rule: list_all2_induct) simp_all

lemma wrapBeside_spec:
  assumes "supply_inv I"
  shows "wf_layout n \<Longrightarrow> wf_layout inc \<Longrightarrow> I s \<Longrightarrow>
    wp (wrapBeside n t inc d p)
      (\<lambda>n' s'. (leafIds n' = beside p t (leafIds inc) (leafIds n) \<and> wf_layout n') \<and> I s') s"
proof (induction n arbitrary: s)
  case (LLeaf i)
  then show ?case
    using supply_invD [OF assms] by (auto simp: sizes_ok_def split: pane_place.splits)
next
  case (LSplit k d' cs zs)
  let ?R = "\<lambda>n n'. leafIds n' = beside p t (leafIds inc) (leafIds n) \<and> wf_layout n'"
  have "wp (js_map (\<lambda>c. wrapBeside c t inc d p) cs) (\<lambda>cs' s'. list_all2 ?R cs cs' \<and> I s') s"
    by (rule wp_js_map) (use LSplit in auto)
  then show ?case
    unfolding wrapBeside.simps wp_bind
  proof (rule wp_mono)
    fix cs' s' assume cs': "list_all2 ?R cs cs' \<and> I s'"
    then have "map leafIds cs' = map (\<lambda>c. beside p t (leafIds inc) (leafIds c)) cs"
      by (intro list_all2_map_eq) (auto elim: list_all2_mono)
    moreover have "\<forall>c \<in> set cs'. wf_layout c" "length cs' = length cs"
      using cs' by (auto simp: list_all2_conv_all_nth in_set_conv_nth)
    ultimately show "wp (js_return (LSplit k d' cs' zs))
        (\<lambda>n' s'. ?R (LSplit k d' cs zs) n' \<and> I s') s'"
      using cs' LSplit.prems(1) by (simp add: beside_concat o_def)
  qed
qed

subsection \<open>Extraction is removal\<close>

lemma extractLeaf_eq:
  "wf_layout n \<Longrightarrow>
     extractLeaf n x = (if x \<in> set (leafIds n) then Some (removePane n x, x) else None)"
  "\<forall>c \<in> set cs. wf_layout c \<Longrightarrow>
     extractChildren cs zs x =
       (keptChildren (map (\<lambda>c. removePane c x) cs) zs,
        if x \<in> set (concat (map leafIds cs)) then Some x else None)"
proof (induction n x and cs zs x rule: extractLeaf_extractChildren.induct)
  case (2 k d cs zs x)
  then have ex: "extractChildren cs zs x =
      (keptChildren (map (\<lambda>c. removePane c x) cs) zs,
       if x \<in> set (leafIds (LSplit k d cs zs)) then Some x else None)"
    by simp
  show ?case
    unfolding extractLeaf.simps ex removePane.simps
    by (simp del: leafIds.simps split: list.splits prod.splits)
next
  case (4 c cs zs x)
  then have c: "extractLeaf c x = (if x \<in> set (leafIds c) then Some (removePane c x, x) else None)"
    and cs: "extractChildren cs (tl zs) x =
      (keptChildren (map (\<lambda>c. removePane c x) cs) (tl zs),
        if x \<in> set (concat (map leafIds cs)) then Some x else None)"
    by simp_all
  show ?case
  proof (cases "x \<in> set (leafIds c)")
    case True
    then show ?thesis using c cs by (cases "removePane c x") simp_all
  next
    case False
    then show ?thesis using c cs 4(3) removePane_absent [of c x] by simp
  qed
qed simp_all

subsection \<open>Reordering permutes\<close>

lemma reorderTarget_le:
  "fromIndex < n \<Longrightarrow> reorderTarget n fromIndex toIndex place \<le> n"
  by (auto simp: reorderTarget_def Let_def)

lemma mset_concat_cong: "mset xss = mset yss \<Longrightarrow> mset (concat xss) = mset (concat yss)"
  by (metis mset_concat mset_map sum_mset_sum_list)

lemma reorderChild_mset:
  "mset (leafIds (reorderChild k d cs zs i j p)) = mset (leafIds (LSplit k d cs zs))"
proof -
  have "mset (concat (map leafIds (insert_at q (cs ! i) (remove_at i cs)))) =
      mset (concat (map leafIds cs))" if "i < length cs" for q
    by (rule mset_concat_cong) (use mset_move [OF that, of q] in simp)
  then show ?thesis by (simp add: reorderChild_def Let_def)
qed

lemma reorderChild_wf:
  assumes "wf_layout (LSplit k d cs zs)"
  shows "wf_layout (reorderChild k d cs zs i j p)"
proof -
  have "wf_layout (LSplit k d (insert_at q (cs ! i) (remove_at i cs))
      (insert_at q (zs ! i) (remove_at i zs)))" if i: "i < length cs" for q
  proof -
    have "mset (insert_at q (zs ! i) (remove_at i zs)) = mset zs"
      by (rule mset_move) (use assms i in simp)
    then have "set (insert_at q (zs ! i) (remove_at i zs)) = set zs"
      "sum_list (insert_at q (zs ! i) (remove_at i zs)) = sum_list zs"
      using mset_eq_setD by (blast, metis sum_mset_sum_list)
    then have "sizes_ok (insert_at q (zs ! i) (remove_at i zs))"
      using assms by (simp add: sizes_ok_def)
    moreover have "set (insert_at q (cs ! i) (remove_at i cs)) = set cs"
      using mset_move [OF i, of q] mset_eq_setD by blast
    ultimately show ?thesis
      using assms i by (auto simp: length_remove_at simp del: set_insert_at)
  qed
  then show ?thesis using assms by (simp add: reorderChild_def Let_def)
qed

lemma reorderInSplit_mset:
  "mset (leafIds (reorderInSplit n k i j p)) = mset (leafIds n)"
proof (induction n)
  case (LSplit k' d cs zs)
  have "mset (concat (map (\<lambda>c. leafIds (reorderInSplit c k i j p)) cs)) =
      mset (concat (map leafIds cs))"
    using LSplit.IH by (induction cs) auto
  then have "mset (leafIds (LSplit k' d (map (\<lambda>c. reorderInSplit c k i j p) cs) zs)) =
      mset (leafIds (LSplit k' d cs zs))"
    by (simp add: o_def)
  then show ?case by (simp add: reorderChild_mset del: leafIds.simps)
qed simp

lemma reorderInSplit_wf: "wf_layout n \<Longrightarrow> wf_layout (reorderInSplit n k i j p)"
proof (induction n)
  case (LSplit k' d cs zs)
  then show ?case
  proof (cases "k' = k")
    case True
    then show ?thesis using reorderChild_wf [OF LSplit.prems] by simp
  qed simp
qed simp

subsection \<open>The parent of a leaf\<close>

fun splitIds :: "layout_node \<Rightarrow> ident list" where
  "splitIds (LLeaf _) = []"
| "splitIds (LSplit k _ children _) = k # concat (map splitIds children)"

lemma leafParent_Some:
  "leafParent n x = Some q \<Longrightarrow> x \<in> set (leafIds n) \<and> parentId q \<in> set (splitIds n)"
  "leafParentFrom k d i cs x = Some q \<Longrightarrow>
     (\<exists>j < length cs. cs ! j = LLeaf x \<and> q = \<lparr>parentId = k, index = i + j, dir = d\<rparr>) \<or>
     (\<exists>c \<in> set cs. leafParent c x = Some q \<and>
        x \<in> set (leafIds c) \<and> parentId q \<in> set (splitIds c))"
proof (induction n x and k d i cs x arbitrary: q and q
    rule: leafParent_leafParentFrom.induct)
  case (2 k d cs zs x)
  have "leafParentFrom k d 0 cs x = Some q" using 2(2) by simp
  from 2(1) [OF this] show ?case
    by (force simp: in_set_conv_nth)
next
  case (4 k d i c cs x)
  show ?case
  proof (cases "c = LLeaf x")
    case True
    with 4(3) show ?thesis by (intro disjI1 exI [of _ 0]) simp
  next
    case notleaf: False
    show ?thesis
    proof (cases "leafParent c x")
      case None
      with notleaf 4(3) have "leafParentFrom k d (Suc i) cs x = Some q" by simp
      with 4(2) None notleaf show ?thesis by (fastforce simp: nth_Cons split: nat.splits)
    next
      case (Some q')
      with notleaf 4(3) have "q' = q" by simp
      with Some 4(1) notleaf show ?thesis by auto
    qed
  qed
qed simp_all

lemma leafParent_None:
  "leafParent n x = None \<Longrightarrow> n = LLeaf x \<or> x \<notin> set (leafIds n)"
  "leafParentFrom k d i cs x = None \<Longrightarrow> x \<notin> set (concat (map leafIds cs))"
  by (induction n x and k d i cs x rule: leafParent_leafParentFrom.induct)
    (auto split: option.splits if_splits)

subsection \<open>Placing and moving\<close>

lemma placeLayout_spec:
  assumes "supply_inv I" "I s" "wf_layout n" "wf_layout inc" "distinct (leafIds n)"
    and "toId \<in> set (leafIds n)"
  shows "wp (placeLayout n inc toId edge)
    (\<lambda>n' s'. (leafIds n' = beside (snd (edgeSplit edge)) toId (leafIds inc) (leafIds n) \<and>
       wf_layout n') \<and> I s') s"
proof -
  obtain d p where e: "edgeSplit edge = (d, p)" by fastforce
  have "n \<noteq> LLeaf toId" if "leafParent n toId = Some q" for q using that by auto
  then show ?thesis
    using assms wrapBeside_spec [OF assms(1), of n inc s toId d p]
    by (auto simp: placeLayout_def e insertBeside_leafIds insertBeside_wf)
qed

lemma edgeSplit_dir_place: "edgeSplit edge = (d, p) \<Longrightarrow> p = snd (edgeSplit edge)"
  by simp

lemma movePane_wf:
  assumes I: "supply_inv I" "I s" and wf: "wf_layout n" and dist: "distinct (leafIds n)"
  shows "wp (movePane n a b edge)
    (\<lambda>n' s'. (mset (leafIds n') = mset (leafIds n) \<and> wf_layout n') \<and> I s') s"
proof -
  let ?Q = "\<lambda>n' s'. (mset (leafIds n') = mset (leafIds n) \<and> wf_layout n') \<and> I s'"
  obtain d p where e: "edgeSplit edge = (d, p)" by fastforce
  have moved: "mset (beside p b [a] (filter (\<lambda>y. y \<noteq> a) (leafIds n))) = mset (leafIds n)"
    if "a \<in> set (leafIds n)" "b \<in> set (leafIds n)" "a \<noteq> b"
    using that dist mset_beside [of "filter (\<lambda>y. y \<noteq> a) (leafIds n)" b p "[a]"]
      mset_filter_neq [OF dist, of a] by simp
  have far: "wp (case extractLeaf n a of
        Some (Some tree, l) \<Rightarrow>
          if b \<notin> set (leafIds tree) then js_return n
          else if map_option dir (leafParent tree b) = Some d
          then js_return (insertBeside tree b (leaf l) p)
          else wrapBeside tree b (leaf l) d p
      | _ \<Rightarrow> js_return n) ?Q s"
  proof (cases "a \<in> set (leafIds n) \<and> b \<noteq> a \<and> (\<exists>tree. removePane n a = Some tree \<and> b \<in> set (leafIds tree))")
    case True
    then obtain tree where tree: "removePane n a = Some tree" "b \<in> set (leafIds tree)" by blast
    have t: "wf_layout tree" "leafIds tree = filter (\<lambda>y. y \<noteq> a) (leafIds n)"
      using removePane_wf [OF wf tree(1)] removePane_leafIds [OF tree(1)] by simp_all
    have "wf_layout (leaf a)" "leafIds (leaf a) = [a]" by (simp_all add: leaf_def)
    moreover have "tree \<noteq> LLeaf b" if "leafParent tree b = Some q" for q using that by auto
    moreover have "distinct (leafIds tree)" using t(2) dist by simp
    ultimately show ?thesis
      using True tree t moved extractLeaf_eq(1) [OF wf, of a] I(2) wrapBeside_spec [OF I(1) t(1), of "leaf a" s b d p]
      by (auto simp: insertBeside_leafIds insertBeside_wf elim: wp_mono)
  next
    case False
    then show ?thesis
      using extractLeaf_eq(1) [OF wf, of a] wf I(2)
      by (auto split: option.splits dest: removePane_leafIds)
  qed
  show ?thesis
    using far wf I(2)
    by (auto simp: movePane_def e reorderInSplit_mset reorderInSplit_wf split: option.splits)
qed

lemma placePane_wf:
  assumes I: "supply_inv I" "I s" and wf: "wf_layout n" and dist: "distinct (leafIds n)"
    and t: "t \<in> set (leafIds n)"
  shows "wp (placePane n x t edge)
    (\<lambda>n' s'. (set (leafIds n') = insert x (set (leafIds n)) \<and> distinct (leafIds n') \<and>
       wf_layout n') \<and> I s') s"
proof -
  have move: "wp (movePane n x t edge)
      (\<lambda>n' s'. (set (leafIds n') = set (leafIds n) \<and> distinct (leafIds n') \<and> wf_layout n') \<and> I s') s"
    by (rule wp_mono [OF movePane_wf [OF I wf dist]])
      (use dist in \<open>auto dest: mset_eq_setD mset_eq_imp_distinct_iff\<close>)
  have leaf: "wf_layout (leaf x)" "leafIds (leaf x) = [x]" by (simp_all add: leaf_def)
  have place: "wp (placeLayout n (leaf x) t edge)
      (\<lambda>n' s'. (set (leafIds n') = insert x (set (leafIds n)) \<and> distinct (leafIds n') \<and>
        wf_layout n') \<and> I s') s" if "x \<notin> set (leafIds n)"
    by (rule wp_mono [OF placeLayout_spec [OF I wf leaf(1) dist t]])
      (use leaf dist t that in \<open>auto simp: set_beside distinct_beside\<close>)
  show ?thesis
    using move place wf dist t I(2) by (auto simp: placePane_def insert_absorb)
qed

subsection \<open>The order after a move\<close>

lemma concat_remove_at:
  assumes "distinct (concat xss)" "i < length xss" "xss ! i = [a]"
  shows "concat (remove_at i xss) = filter (\<lambda>y. y \<noteq> a) (concat xss)"
proof -
  have split: "concat xss = concat (take i xss) @ [a] @ concat (drop (Suc i) xss)"
    using concat_split_nth [OF assms(2)] assms(3) by simp
  then have "a \<notin> set (concat (take i xss))" "a \<notin> set (concat (drop (Suc i) xss))"
    using assms(1) by auto
  moreover have "filter (\<lambda>y. y \<noteq> a) ys = ys" if "a \<notin> set ys" for ys
    using that by (induction ys) auto
  ultimately show ?thesis
    unfolding split by (simp add: remove_at_def del: set_concat)
qed

lemma reorderTarget_eq:
  "i < n \<Longrightarrow> j < n \<Longrightarrow> i \<noteq> j \<Longrightarrow>
     reorderTarget n i j p =
       (let j' = (if i < j then j - 1 else j) in if p = Before then j' else Suc j')"
  by (cases p) (auto simp: reorderTarget_def Let_def)

lemma insert_remove_same: "i < length xs \<Longrightarrow> insert_at i (xs ! i) (remove_at i xs) = xs"
  by (simp add: insert_at_def remove_at_def min_def flip: id_take_nth_drop)

lemma nth_remove_at:
  "i < length xs \<Longrightarrow> j < length xs \<Longrightarrow> i \<noteq> j \<Longrightarrow>
     remove_at i xs ! (if i < j then j - 1 else j) = xs ! j"
  by (auto simp: remove_at_def nth_append min_def)

lemma reorderChild_order:
  assumes "distinct (leafIds (LSplit k d cs zs))" "length zs = length cs"
    and i: "i < length cs" "cs ! i = LLeaf a" and j: "j < length cs" "cs ! j = LLeaf b"
    and ab: "a \<noteq> b"
  shows "leafIds (reorderChild k d cs zs i j p) =
    beside p b [a] (filter (\<lambda>y. y \<noteq> a) (leafIds (LSplit k d cs zs)))"
proof -
  let ?ls = "map leafIds cs"
  let ?j = "if i < j then j - 1 else j"
  let ?q = "reorderTarget (length cs) i j p"
  have ij: "i \<noteq> j" using i j ab by auto
  have q: "?q = (if p = Before then ?j else Suc ?j)"
    using reorderTarget_eq [OF i(1) j(1) ij] by (simp add: Let_def)
  have rem: "concat (remove_at i ?ls) = filter (\<lambda>y. y \<noteq> a) (concat ?ls)"
    by (rule concat_remove_at) (use assms(1) i in auto)
  have "concat (insert_at ?q [a] (remove_at i ?ls)) = beside p b [a] (concat (remove_at i ?ls))"
    unfolding q
  proof (rule concat_insert_beside)
    show "distinct (concat (remove_at i ?ls))" unfolding rem using assms(1) by simp
    show "?j < length (remove_at i ?ls)" using i(1) j(1) ij by (auto simp: length_remove_at)
    show "remove_at i ?ls ! ?j = [b]" using nth_remove_at [of i ?ls j] i(1) j ij by simp
  qed
  then have "concat (map leafIds (insert_at ?q (cs ! i) (remove_at i cs))) =
      beside p b [a] (filter (\<lambda>y. y \<noteq> a) (concat ?ls))"
    unfolding map_insert_at map_remove_at rem using i by simp
  moreover have "leafIds (reorderChild k d cs zs i j p) =
      concat (map leafIds (insert_at ?q (cs ! i) (remove_at i cs)))"
    using i(1) j(1) assms(2) insert_remove_same [OF i(1)]
    by (auto simp: reorderChild_def Let_def simp del: map_insert_at)
  ultimately show ?thesis by simp
qed

lemma reorderInSplit_absent: "k \<notin> set (splitIds n) \<Longrightarrow> reorderInSplit n k i j p = n"
  by (induction n) (auto intro: map_idI)

lemma absent_beside_filter:
  assumes "a \<notin> set xs" "b \<notin> set xs"
  shows "beside p b [a] (filter (\<lambda>y. y \<noteq> a) xs) = xs"
proof -
  have "filter (\<lambda>y. y \<noteq> a) xs = xs" using assms(1) by (induction xs) auto
  then show ?thesis using assms(2) by (simp add: beside_id)
qed

lemma distinct_concat_map_same:
  assumes "distinct (concat (map f cs))" "i < length cs" "j < length cs"
    and "x \<in> set (f (cs ! i))" "x \<in> set (f (cs ! j))"
  shows "i = j"
  using distinct_concat_nth [of "map f cs" i j] assms by auto

lemma reorderInSplit_order:
  assumes "a \<noteq> b"
  shows "wf_layout n \<Longrightarrow> distinct (leafIds n) \<Longrightarrow> distinct (splitIds n) \<Longrightarrow>
    leafParent n a = Some pa \<Longrightarrow> leafParent n b = Some pb \<Longrightarrow> parentId pa = parentId pb \<Longrightarrow>
    leafIds (reorderInSplit n (parentId pa) (index pa) (index pb) p) =
      beside p b [a] (filter (\<lambda>y. y \<noteq> a) (leafIds n))"
proof (induction n)
  case (LSplit k d cs zs)
  have A: "parentId q = k \<and> index q < length cs \<and> cs ! index q = LLeaf x \<or>
      (\<exists>i < length cs. leafParent (cs ! i) x = Some q \<and> x \<in> set (leafIds (cs ! i)) \<and>
        parentId q \<in> set (splitIds (cs ! i)))"
    if "leafParent (LSplit k d cs zs) x = Some q" for x q
    using leafParent_Some(2) [of k d 0 cs x q] that
    by (auto simp: in_set_conv_nth [of _ cs])
  show ?case
  proof (cases "parentId pa = k")
    case True
    have "k \<notin> set (splitIds (cs ! i))" if "i < length cs" for i
      using LSplit.prems(3) that by auto
    then have "cs ! index pa = LLeaf a" "index pa < length cs"
      "cs ! index pb = LLeaf b" "index pb < length cs"
      using A [OF LSplit.prems(4)] A [OF LSplit.prems(5)] True LSplit.prems(6) by auto
    then show ?thesis
      using reorderChild_order [OF LSplit.prems(2), of "index pa" a "index pb" b p] assms True
        LSplit.prems(1) by simp
  next
    case False
    from A [OF LSplit.prems(4)] False obtain i where i: "i < length cs"
      "leafParent (cs ! i) a = Some pa" "a \<in> set (leafIds (cs ! i))"
      "parentId pa \<in> set (splitIds (cs ! i))" by auto
    from A [OF LSplit.prems(5)] False LSplit.prems(6) obtain j where j: "j < length cs"
      "leafParent (cs ! j) b = Some pb" "b \<in> set (leafIds (cs ! j))"
      "parentId pa \<in> set (splitIds (cs ! j))" by auto
    have ds: "distinct (concat (map splitIds cs))" "distinct (concat (map leafIds cs))"
      using LSplit.prems by simp_all
    have ji: "j = i" using distinct_concat_map_same [OF ds(1) j(1) i(1)] i(4) j(4) by blast
    have "leafIds (reorderInSplit (cs ! m) (parentId pa) (index pa) (index pb) p) =
        beside p b [a] (filter (\<lambda>y. y \<noteq> a) (leafIds (cs ! m)))" if m: "m < length cs" for m
    proof (cases "m = i")
      case True
      have "cs ! i \<in> set cs" using i(1) by simp
      moreover have "distinct (leafIds (cs ! i))" "distinct (splitIds (cs ! i))"
        using ds i(1) by (auto simp: distinct_concat_iff)
      ultimately show ?thesis
        using LSplit.IH [of "cs ! i"] LSplit.prems(1,6) i j ji True by auto
    next
      case False
      then have "a \<notin> set (leafIds (cs ! m))" "b \<notin> set (leafIds (cs ! m))"
        "parentId pa \<notin> set (splitIds (cs ! m))"
        using distinct_concat_map_same [OF ds(2) m i(1)] distinct_concat_map_same [OF ds(1) m i(1)]
          i j ji by blast+
      then show ?thesis by (simp add: reorderInSplit_absent absent_beside_filter)
    qed
    then have "map (\<lambda>c. leafIds (reorderInSplit c (parentId pa) (index pa) (index pb) p)) cs =
        map (\<lambda>c. beside p b [a] (filter (\<lambda>y. y \<noteq> a) (leafIds c))) cs"
      by (intro nth_equalityI) simp_all
    then show ?thesis
      using False by (simp add: filter_concat beside_concat o_def del: map_eq_conv)
  qed
qed simp

text \<open>
  An effective move takes the dragged leaf out of the reading order and puts it
  right before or right after the target; everything else keeps its order.
\<close>

lemma movePane_order:
  assumes wf: "wf_layout n" and dist: "distinct (leafIds n)" "distinct (splitIds n)"
    and ab: "a \<in> set (leafIds n)" "b \<in> set (leafIds n)" "a \<noteq> b"
  shows "wp (movePane n a b edge) (\<lambda>n' s'.
    leafIds n' = beside (snd (edgeSplit edge)) b [a] (filter (\<lambda>y. y \<noteq> a) (leafIds n))) s"
proof -
  obtain d p where e: "edgeSplit edge = (d, p)" by fastforce
  have split: "n \<noteq> LLeaf a" "n \<noteq> LLeaf b" using ab by auto
  obtain pa pb where parents: "leafParent n a = Some pa" "leafParent n b = Some pb"
    using leafParent_None(1) ab split by blast
  have "removePane n a \<noteq> None" using removePane_None_iff [OF wf, of a] ab by auto
  then obtain tree where tree: "removePane n a = Some tree" by blast
  have t: "wf_layout tree" "leafIds tree = filter (\<lambda>y. y \<noteq> a) (leafIds n)"
    using removePane_wf [OF wf tree] removePane_leafIds [OF tree] by simp_all
  have ex: "extractLeaf n a = Some (Some tree, a)"
    using extractLeaf_eq(1) [OF wf, of a] ab(1) tree by simp
  have leaf: "wf_layout (leaf a)" "leafIds (leaf a) = [a]" by (simp_all add: leaf_def)
  have "tree \<noteq> LLeaf b" if "leafParent tree b = Some q" for q using that by auto
  moreover have "distinct (leafIds tree)" using t(2) dist(1) by simp
  moreover have "b \<in> set (leafIds tree)" using t(2) ab by simp
  moreover have "wp (wrapBeside tree b (leaf a) d p) (\<lambda>n' s'.
      leafIds n' = beside p b [a] (filter (\<lambda>y. y \<noteq> a) (leafIds n))) s"
    by (rule wp_mono [OF wrapBeside_spec [OF supply_inv_True t(1) leaf(1) TrueI]])
      (simp add: leaf t)
  moreover have "leafIds (reorderInSplit n (parentId pa) (index pa) (index pb) p) =
      beside p b [a] (filter (\<lambda>y. y \<noteq> a) (leafIds n))" if "parentId pa = parentId pb"
    by (rule reorderInSplit_order [OF ab(3) wf dist parents that])
  ultimately show ?thesis
    using ab(3) parents ex leaf t e by (auto simp: movePane_def insertBeside_leafIds)
qed

section \<open>Properties\<close>

text \<open>
  C36: moving a pane to an edge of another pane never throws and has exactly the reading order
  the gesture asks for: the order without the moved pane, and the moved pane directly before
  (left, top) or directly after (right, bottom) the target; the layout stays well formed. This
  covers the three paths of the code: reordering within one split, inserting into the target's
  split, and wrapping the target in a new split.
\<close>

theorem movePane_correct:
  assumes "wf_layout n" "distinct (leafIds n)" "distinct (splitIds n)"
    and "a \<in> set (leafIds n)" "b \<in> set (leafIds n)" "a \<noteq> b"
  shows "wp (movePane n a b edge) (\<lambda>n' s'. wf_layout n' \<and>
    leafIds n' = beside (snd (edgeSplit edge)) b [a] (filter (\<lambda>y. y \<noteq> a) (leafIds n))) s"
  using wp_conj [OF movePane_order [OF assms, of edge s]
      movePane_wf [OF supply_inv_True TrueI assms(1,2), of a b edge s]]
  by (rule wp_mono) blast

theorem movePane_correct_witness:
  "wp (movePane (LSplit ''s'' SplitRight [LLeaf ''a'', LLeaf ''b'', LLeaf ''c''] [1 / 4, 1 / 4, 1 / 2]) ''a'' ''c'' ETop)
     (\<lambda>n' s'. wf_layout n' \<and> leafIds n' = [''b'', ''a'', ''c'']) counter_ids"
  by (rule wp_mono [OF movePane_correct [of "LSplit ''s'' SplitRight [LLeaf ''a'', LLeaf ''b'', LLeaf ''c''] [1 / 4, 1 / 4, 1 / 2]"]])
    (simp_all add: sizes_ok_def beside_def)

text \<open>
  The extraction that starts a move leaves exactly the tree that closing the pane leaves, and
  finds the pane exactly when the tree has it, although the two are separate recursions in the
  code.
\<close>

theorem extractLeaf_is_removePane:
  "wf_layout n \<Longrightarrow>
     extractLeaf n x = (if x \<in> set (leafIds n) then Some (removePane n x, x) else None)"
  by (rule extractLeaf_eq(1))

theorem extractLeaf_is_removePane_witness:
  "extractLeaf (LSplit ''s'' SplitDown [LLeaf ''a'', LLeaf ''b''] [1 / 2, 1 / 2]) ''b'' = Some (Some (LLeaf ''a''), ''b'')"
  using extractLeaf_is_removePane [of "LSplit ''s'' SplitDown [LLeaf ''a'', LLeaf ''b''] [1 / 2, 1 / 2]" "''b''"]
  by (simp add: sizes_ok_def)

definition edgeDistance :: "rat \<Rightarrow> rat \<Rightarrow> drop_rect \<Rightarrow> pane_edge \<Rightarrow> rat" where
  "edgeDistance x y rect e =
     (case e of
        ELeft \<Rightarrow> (x - left rect) / width rect
      | ERight \<Rightarrow> 1 - (x - left rect) / width rect
      | ETop \<Rightarrow> (y - top rect) / height rect
      | EBottom \<Rightarrow> 1 - (y - top rect) / height rect)"

lemma nearestEdge_le:
  "snd (nearestEdge best cs) \<le> snd best" "\<forall>c \<in> set cs. snd (nearestEdge best cs) \<le> snd c"
  "nearestEdge best cs \<in> insert best (set cs)"
proof (induction best cs rule: nearestEdge.induct)
  case (2 best c cs)
  show "snd (nearestEdge best (c # cs)) \<le> snd best" using "2.IH"(1) by (simp split: if_splits)
  show "\<forall>e \<in> set (c # cs). snd (nearestEdge best (c # cs)) \<le> snd e"
    using "2.IH"(1,2) by (cases "snd c < snd best") simp_all
  show "nearestEdge best (c # cs) \<in> insert best (set (c # cs))"
    using "2.IH"(3) by (auto split: if_splits)
qed auto

lemma paneEdgeFromPoint_nearest:
  assumes "0 < width rect" "0 < height rect"
  shows "edgeDistance x y rect (paneEdgeFromPoint x y rect) \<le> edgeDistance x y rect e"
proof -
  let ?d = "edgeDistance x y rect"
  let ?b = "(ELeft, ?d ELeft)" and ?cs = "[(ERight, ?d ERight), (ETop, ?d ETop), (EBottom, ?d EBottom)]"
  let ?n = "nearestEdge ?b ?cs"
  have "paneEdgeFromPoint x y rect = fst ?n"
    using assms by (simp add: paneEdgeFromPoint_def edgeDistance_def Let_def)
  moreover have "?d (fst ?n) = snd ?n"
    using nearestEdge_le(3) [of ?b ?cs] by auto
  moreover have "snd ?n \<le> ?d e"
    using nearestEdge_le(1,2) [where best = ?b and cs = ?cs] by (cases e) auto
  ultimately show ?thesis by simp
qed

text \<open>
  Over a rectangle of positive size, the drop zone is \<open>replace\<close> exactly when the point keeps
  a distance of at least 30 percent from all four edges (as a fraction of the extent in that
  direction); otherwise it is the edge it is nearest to, and that distance is below 30 percent.
\<close>

theorem paneDropZone_correct:
  assumes "0 < width rect" "0 < height rect"
  shows "case paneDropZoneFromPoint x y rect of
           Replace \<Rightarrow> (\<forall>e. 3 / 10 \<le> edgeDistance x y rect e)
         | Edge e \<Rightarrow> edgeDistance x y rect e < 3 / 10 \<and>
             (\<forall>e'. edgeDistance x y rect e \<le> edgeDistance x y rect e')"
proof -
  let ?e = "paneEdgeFromPoint x y rect"
  have "paneDropZoneFromPoint x y rect = (if edgeDistance x y rect ?e < 3 / 10 then Edge ?e else Replace)"
    using assms by (simp add: paneDropZoneFromPoint_def edgeDistance_def Let_def)
  then show ?thesis
    using paneEdgeFromPoint_nearest [OF assms, of x y] by (auto intro: order_trans simp: not_less)
qed

theorem paneDropZone_correct_witness:
  "paneDropZoneFromPoint 10 50 \<lparr>left = 0, top = 0, width = 100, height = 100\<rparr> = Edge ELeft \<and>
   (case paneDropZoneFromPoint 10 50 \<lparr>left = 0, top = 0, width = 100, height = 100\<rparr> of
      Replace \<Rightarrow> False
    | Edge e \<Rightarrow> edgeDistance 10 50 \<lparr>left = 0, top = 0, width = 100, height = 100\<rparr> e < 3 / 10)"
  using paneDropZone_correct [of "\<lparr>left = 0, top = 0, width = 100, height = 100\<rparr>" 10 50]
  by (simp add: paneDropZoneFromPoint_def paneEdgeFromPoint_def Let_def)

end
