(* ===== verification/LayoutGeometry.thy ===== *)
theory LayoutGeometry
  imports LayoutMove
begin

text \<open>
  The rectangles of a split tree: leaves, sashes and directional neighbours
  (\<open>apps/web/src/workbench/layout.ts\<close>, lines 50 to 64 and 238 to 338), and the proof that the
  leaf rectangles tile the group rectangle.
\<close>

section \<open>Rectangles\<close>

record layout_rect =
  rx :: rat
  ry :: rat
  rw :: rat
  rh :: rat

datatype axis = AxisX | AxisY

record layout_leaf =
  ll_id :: ident
  ll_rect :: layout_rect
  ll_axis :: axis

record layout_sash =
  ls_splitId :: ident
  ls_index :: nat
  ls_dir :: split_dir
  ls_group :: layout_rect
  ls_sizes :: "rat list"

definition unit_rect :: layout_rect where
  "unit_rect = \<lparr>rx = 0, ry = 0, rw = 1, rh = 1\<rparr>"

definition subRect :: "split_dir \<Rightarrow> layout_rect \<Rightarrow> rat \<Rightarrow> rat \<Rightarrow> layout_rect" where
  "subRect d rect offset sz =
     (if d = SplitRight
      then \<lparr>rx = rx rect + offset * rw rect, ry = ry rect, rw = sz * rw rect, rh = rh rect\<rparr>
      else \<lparr>rx = rx rect, ry = ry rect + offset * rh rect, rw = rw rect, rh = sz * rh rect\<rparr>)"

text \<open>The second functions are the loops over the children, with the running offset.\<close>

fun layoutLeaves :: "layout_node \<Rightarrow> layout_rect \<Rightarrow> split_dir option \<Rightarrow> layout_leaf list"
  and layoutLeavesFrom ::
    "split_dir \<Rightarrow> layout_rect \<Rightarrow> rat \<Rightarrow> layout_node list \<Rightarrow> rat list \<Rightarrow> layout_leaf list" where
  "layoutLeaves (LLeaf i) rect parentDir =
     [\<lparr>ll_id = i, ll_rect = rect,
       ll_axis = (if parentDir = Some SplitDown then AxisY else AxisX)\<rparr>]"
| "layoutLeaves (LSplit k d children sizes) rect parentDir =
     layoutLeavesFrom d rect 0 children sizes"
| "layoutLeavesFrom d rect offset [] sizes = []"
| "layoutLeavesFrom d rect offset (child # rest) sizes =
     (let sz = nth_default 0 sizes 0
      in layoutLeaves child (subRect d rect offset sz) (Some d)
         @ layoutLeavesFrom d rect (offset + sz) rest (tl sizes))"

fun layoutSashes :: "layout_node \<Rightarrow> layout_rect \<Rightarrow> layout_sash list"
  and layoutSashesFrom ::
    "ident \<Rightarrow> split_dir \<Rightarrow> rat list \<Rightarrow> layout_rect \<Rightarrow> nat \<Rightarrow> rat \<Rightarrow> layout_node list \<Rightarrow> layout_sash list" where
  "layoutSashes (LLeaf i) rect = []"
| "layoutSashes (LSplit k d children sizes) rect = layoutSashesFrom k d sizes rect 0 0 children"
| "layoutSashesFrom k d sizes rect i offset [] = []"
| "layoutSashesFrom k d sizes rect i offset (child # rest) =
     (let sz = nth_default 0 sizes i
      in (if 0 < i then [\<lparr>ls_splitId = k, ls_index = i - 1, ls_dir = d, ls_group = rect,
                         ls_sizes = sizes\<rparr>] else [])
         @ layoutSashes child (subRect d rect offset sz)
         @ layoutSashesFrom k d sizes rect (Suc i) (offset + sz) rest)"

section \<open>Directional neighbours\<close>

datatype focus_dir = FLeft | FRight | FUp | FDown

definition rangeOverlap :: "rat \<Rightarrow> rat \<Rightarrow> rat \<Rightarrow> rat \<Rightarrow> rat" where
  "rangeOverlap a0 a1 b0 b1 = max 0 (min a1 b1 - max a0 b0)"

definition eps :: rat where
  "eps = 1 / 1000000"

text \<open>
  The gap and the shared edge of a pane on the wanted side, None for a pane that is not on
  that side (the loop's \<open>continue\<close>).
\<close>

definition neighborScore :: "focus_dir \<Rightarrow> layout_rect \<Rightarrow> layout_rect \<Rightarrow> (rat \<times> rat) option" where
  "neighborScore d c r =
     (let py = rangeOverlap (ry c) (ry c + rh c) (ry r) (ry r + rh r);
          px = rangeOverlap (rx c) (rx c + rw c) (rx r) (rx r + rw r)
      in case d of
           FLeft \<Rightarrow> if rx r + rw r \<le> rx c + eps then Some (rx c - (rx r + rw r), py) else None
         | FRight \<Rightarrow> if rx c + rw c - eps \<le> rx r then Some (rx r - (rx c + rw c), py) else None
         | FUp \<Rightarrow> if ry r + rh r \<le> ry c + eps then Some (ry c - (ry r + rh r), px) else None
         | FDown \<Rightarrow> if ry c + rh c - eps \<le> ry r then Some (ry r - (ry c + rh c), px) else None)"

record neighbor_best =
  nb_id :: ident
  nb_hit :: nat
  nb_gap :: rat
  nb_overlap :: rat

definition betterNeighbor :: "neighbor_best \<Rightarrow> neighbor_best \<Rightarrow> bool" where
  "betterNeighbor a b \<longleftrightarrow>
     nb_hit a < nb_hit b \<or>
     nb_hit a = nb_hit b \<and> nb_gap a < nb_gap b \<or>
     nb_hit a = nb_hit b \<and> nb_gap a = nb_gap b \<and> nb_overlap b < nb_overlap a"

definition neighborCandidate ::
  "focus_dir \<Rightarrow> ident \<Rightarrow> layout_rect \<Rightarrow> layout_leaf \<Rightarrow> neighbor_best option" where
  "neighborCandidate d focusedId c pane =
     (if ll_id pane = focusedId then None
      else map_option
        (\<lambda>(gap, perp). \<lparr>nb_id = ll_id pane, nb_hit = (if 0 < perp then 0 else 1),
                        nb_gap = gap, nb_overlap = perp\<rparr>)
        (neighborScore d c (ll_rect pane)))"

fun bestNeighbor :: "neighbor_best option \<Rightarrow> neighbor_best option list \<Rightarrow> neighbor_best option" where
  "bestNeighbor best [] = best"
| "bestNeighbor best (None # rest) = bestNeighbor best rest"
| "bestNeighbor best (Some cand # rest) =
     bestNeighbor
       (case best of None \<Rightarrow> Some cand
        | Some b \<Rightarrow> if betterNeighbor cand b then Some cand else Some b) rest"

definition neighborLeafId :: "layout_node \<Rightarrow> ident \<Rightarrow> focus_dir \<Rightarrow> ident option" where
  "neighborLeafId node focusedId d =
     (let panes = layoutLeaves node unit_rect None
      in case List.find (\<lambda>p. ll_id p = focusedId) panes of
           None \<Rightarrow> None
         | Some current \<Rightarrow>
             map_option nb_id
               (bestNeighbor None
                 (map (neighborCandidate d focusedId (ll_rect current)) panes)))"

section \<open>The leaves tile the rectangle\<close>

definition inside :: "rat \<Rightarrow> rat \<Rightarrow> layout_rect \<Rightarrow> bool" where
  "inside px py r \<longleftrightarrow> rx r \<le> px \<and> px < rx r + rw r \<and> ry r \<le> py \<and> py < ry r + rh r"

definition covering :: "rat \<Rightarrow> rat \<Rightarrow> layout_leaf list \<Rightarrow> layout_leaf list" where
  "covering px py ls = filter (\<lambda>l. inside px py (ll_rect l)) ls"

lemma covering_append [simp]: "covering px py (xs @ ys) = covering px py xs @ covering px py ys"
  by (simp add: covering_def)

lemma layoutLeaves_ids:
  "map ll_id (layoutLeaves n r pd) = leafIds n"
  "map ll_id (layoutLeavesFrom d r off cs zs) = concat (map leafIds cs)"
  by (induction n r pd and d r off cs zs rule: layoutLeaves_layoutLeavesFrom.induct)
    (simp_all add: Let_def)

lemma inside_slice_add:
  assumes "0 \<le> rw r" "0 \<le> rh r" "0 \<le> a" "0 \<le> b"
  shows "(if inside px py (subRect d r off a) then 1 else 0) +
      (if inside px py (subRect d r (off + a) b) then 1 else 0) =
    (if inside px py (subRect d r off (a + b)) then 1 else (0 :: nat))"
proof -
  have "0 \<le> a * rw r" "0 \<le> b * rw r" "0 \<le> a * rh r" "0 \<le> b * rh r"
    using assms by simp_all
  then show ?thesis
    by (cases d) (auto simp: inside_def subRect_def algebra_simps)
qed

lemma inside_empty: "\<not> inside px py (subRect d r off 0)"
  by (auto simp: inside_def subRect_def)

lemma tiling:
  "wf_layout n \<Longrightarrow> 0 \<le> rw r \<Longrightarrow> 0 \<le> rh r \<Longrightarrow>
     length (covering px py (layoutLeaves n r pd)) = (if inside px py r then 1 else 0)"
  "(\<forall>c \<in> set cs. wf_layout c) \<Longrightarrow> length zs = length cs \<Longrightarrow> (\<forall>z \<in> set zs. 0 < z) \<Longrightarrow>
     0 \<le> rw r \<Longrightarrow> 0 \<le> rh r \<Longrightarrow>
     length (covering px py (layoutLeavesFrom d r off cs zs)) =
       (if inside px py (subRect d r off (sum_list zs)) then 1 else 0)"
proof (induction n r pd and d r off cs zs rule: layoutLeaves_layoutLeavesFrom.induct)
  case (2 k d cs zs r pd)
  have "subRect d r 0 1 = r" by (cases d) (simp_all add: subRect_def)
  then show ?case using 2 by (simp add: sizes_ok_def less_imp_le)
next
  case (3 d r off zs)
  then show ?case by (simp add: covering_def inside_empty)
next
  case (4 d r off c cs zs)
  then obtain z zs' where zs: "zs = z # zs'" by (cases zs) auto
  have z: "0 \<le> z" "0 \<le> sum_list zs'"
    using 4 zs by (auto intro: sum_list_nonneg less_imp_le)
  have sub: "0 \<le> rw (subRect d r off z)" "0 \<le> rh (subRect d r off z)"
    using 4 z by (simp_all add: subRect_def)
  have "length (covering px py (layoutLeaves c (subRect d r off z) (Some d))) =
      (if inside px py (subRect d r off z) then 1 else 0)"
    using 4(1) [of z] 4 zs sub by simp
  moreover have "length (covering px py (layoutLeavesFrom d r (off + z) cs zs')) =
      (if inside px py (subRect d r (off + z) (sum_list zs')) then 1 else 0)"
    using 4(2) [of z] 4 zs by simp
  ultimately show ?case
    using inside_slice_add [of r z "sum_list zs'" px py d off] 4 z zs by simp
qed (auto simp: covering_def)

section \<open>The neighbour is the best candidate\<close>

lemma betterNeighbor_trans:
  "\<not> betterNeighbor c b \<Longrightarrow> betterNeighbor a b \<Longrightarrow> \<not> betterNeighbor c a"
  by (auto simp: betterNeighbor_def)

lemma betterNeighbor_irrefl [simp]: "\<not> betterNeighbor a a"
  by (simp add: betterNeighbor_def)

lemma betterNeighbor_asym: "\<not> betterNeighbor a b \<Longrightarrow> \<not> betterNeighbor c a \<Longrightarrow> \<not> betterNeighbor c b"
  by (auto simp: betterNeighbor_def)

lemma bestNeighbor_spec:
  "bestNeighbor best cs = Some r \<Longrightarrow>
     (Some r \<in> set cs \<or> best = Some r) \<and>
     (\<forall>c. Some c \<in> set cs \<or> best = Some c \<longrightarrow> \<not> betterNeighbor c r)"
proof (induction best cs rule: bestNeighbor.induct)
  case (3 best cand rest)
  show ?case
  proof (cases best)
    case None
    then show ?thesis using 3 by auto
  next
    case (Some b)
    show ?thesis
    proof (cases "betterNeighbor cand b")
      case True
      with 3 Some have "Some r \<in> set rest \<or> cand = r"
        "\<And>c. Some c \<in> set rest \<or> cand = c \<Longrightarrow> \<not> betterNeighbor c r" by auto
      moreover have "\<not> betterNeighbor b cand" using True by (auto simp: betterNeighbor_def)
      ultimately show ?thesis using Some betterNeighbor_asym [of cand r b] by auto
    next
      case False
      with 3 Some have "Some r \<in> set rest \<or> b = r"
        "\<And>c. Some c \<in> set rest \<or> b = c \<Longrightarrow> \<not> betterNeighbor c r" by auto
      then show ?thesis using Some False betterNeighbor_asym [of b r cand] by auto
    qed
  qed
qed auto

lemma bestNeighbor_None: "bestNeighbor best cs = None \<longleftrightarrow> best = None \<and> set cs \<subseteq> {None}"
  by (induction best cs rule: bestNeighbor.induct) (auto split: option.splits)

text \<open>
  What it means to lie in a direction, read off the rectangles alone: a rectangle is an interval
  along the direction, which increases the way the focus moves, and an interval across it.
\<close>

definition along :: "focus_dir \<Rightarrow> layout_rect \<Rightarrow> rat \<times> rat" where
  "along d r = (case d of
     FLeft \<Rightarrow> (- (rx r + rw r), - rx r)
   | FRight \<Rightarrow> (rx r, rx r + rw r)
   | FUp \<Rightarrow> (- (ry r + rh r), - ry r)
   | FDown \<Rightarrow> (ry r, ry r + rh r))"

definition across :: "focus_dir \<Rightarrow> layout_rect \<Rightarrow> rat \<times> rat" where
  "across d r = (if d = FLeft \<or> d = FRight then (ry r, ry r + rh r) else (rx r, rx r + rw r))"

definition gap :: "focus_dir \<Rightarrow> layout_rect \<Rightarrow> layout_rect \<Rightarrow> rat" where
  "gap d c r = fst (along d r) - snd (along d c)"

definition toward :: "focus_dir \<Rightarrow> layout_rect \<Rightarrow> layout_rect \<Rightarrow> bool" where
  "toward d c r \<longleftrightarrow> - 1 / 1000000 \<le> gap d c r"

definition strictlyIn :: "rat \<Rightarrow> rat \<times> rat \<Rightarrow> bool" where
  "strictlyIn x i \<longleftrightarrow> fst i < x \<and> x < snd i"

definition faces :: "focus_dir \<Rightarrow> layout_rect \<Rightarrow> layout_rect \<Rightarrow> bool" where
  "faces d c r \<longleftrightarrow> (\<exists>x. strictlyIn x (across d c) \<and> strictlyIn x (across d r))"

definition sharedEdge :: "focus_dir \<Rightarrow> layout_rect \<Rightarrow> layout_rect \<Rightarrow> rat" where
  "sharedEdge d c r = max 0 (min (snd (across d c)) (snd (across d r)) -
     max (fst (across d c)) (fst (across d r)))"

text \<open>Facing comes first, then the smaller gap, then the longer shared edge.\<close>

definition at_least_as_near ::
  "focus_dir \<Rightarrow> layout_rect \<Rightarrow> layout_rect \<Rightarrow> layout_rect \<Rightarrow> bool" where
  "at_least_as_near d c r q \<longleftrightarrow> (faces d c q \<longrightarrow> faces d c r) \<and>
     ((faces d c q \<longleftrightarrow> faces d c r) \<longrightarrow> gap d c r \<le> gap d c q \<and>
        (gap d c r = gap d c q \<longrightarrow> sharedEdge d c q \<le> sharedEdge d c r))"

lemma faces_sharedEdge: "faces d c r \<longleftrightarrow> 0 < sharedEdge d c r"
proof
  assume "0 < sharedEdge d c r"
  then have "max (fst (across d c)) (fst (across d r)) < min (snd (across d c)) (snd (across d r))"
    by (simp only: sharedEdge_def less_max_iff_disj less_irrefl simp_thms diff_gt_0_iff_gt)
  then obtain x where "max (fst (across d c)) (fst (across d r)) < x"
    "x < min (snd (across d c)) (snd (across d r))"
    using dense by blast
  then show "faces d c r" unfolding faces_def strictlyIn_def by auto
qed (auto simp: faces_def strictlyIn_def sharedEdge_def)

lemma neighborScore_eq:
  "neighborScore d c r = (if toward d c r then Some (gap d c r, sharedEdge d c r) else None)"
  by (cases d) (auto simp: neighborScore_def toward_def gap_def sharedEdge_def along_def across_def
      rangeOverlap_def eps_def Let_def)

lemma neighborCandidate_Some:
  "neighborCandidate d f c pane = Some b \<longleftrightarrow>
     ll_id pane \<noteq> f \<and> toward d c (ll_rect pane) \<and>
     b = \<lparr>nb_id = ll_id pane, nb_hit = (if faces d c (ll_rect pane) then 0 else 1),
          nb_gap = gap d c (ll_rect pane), nb_overlap = sharedEdge d c (ll_rect pane)\<rparr>"
  by (auto simp: neighborCandidate_def neighborScore_eq faces_sharedEdge)

lemma find_by_id:
  "distinct (map ll_id ls) \<Longrightarrow> cur \<in> set ls \<Longrightarrow> List.find (\<lambda>p. ll_id p = ll_id cur) ls = Some cur"
  by (induction ls) auto

section \<open>Properties\<close>

text \<open>
  C37: the leaves of a well-formed layout tile the rectangle it is drawn in: every point of the
  rectangle is covered by exactly one leaf, every point outside by none.
\<close>

theorem layoutLeaves_tile:
  "wf_layout n \<Longrightarrow> 0 \<le> rw r \<Longrightarrow> 0 \<le> rh r \<Longrightarrow>
     length (covering px py (layoutLeaves n r pd)) = (if inside px py r then 1 else 0)"
  by (rule tiling(1))

theorem layoutLeaves_tile_witness:
  "length (covering (1 / 4) (1 / 4)
     (layoutLeaves (LSplit ''s'' SplitRight [LLeaf ''a'', LLeaf ''b''] [1 / 2, 1 / 2]) unit_rect None)) = 1"
  using layoutLeaves_tile [of "LSplit ''s'' SplitRight [LLeaf ''a'', LLeaf ''b''] [1 / 2, 1 / 2]" unit_rect "1 / 4" "1 / 4" None]
  by (simp add: sizes_ok_def unit_rect_def inside_def)

text \<open>
  C38: moving the focus from a leaf of a layout without repeated ids goes to another leaf that lies
  in that direction, up to the tolerance of a millionth, and to the nearest of them: one that faces
  the leaf before one that is only diagonal to it, then the one with the smaller gap, then the one
  with the longer shared edge. There is no answer exactly when no other leaf lies in the
  direction, and from an id outside the layout there is none. Directions, gaps and shared edges are
  read off the rectangles.
\<close>

theorem neighborLeafId_optimal:
  assumes "distinct (leafIds n)" and "cur \<in> set (layoutLeaves n unit_rect None)"
  shows "(case neighborLeafId n (ll_id cur) d of
      None \<Rightarrow> \<forall>q \<in> set (layoutLeaves n unit_rect None).
        ll_id q \<noteq> ll_id cur \<longrightarrow> \<not> toward d (ll_rect cur) (ll_rect q)
    | Some g \<Rightarrow> \<exists>pane \<in> set (layoutLeaves n unit_rect None).
        ll_id pane = g \<and> g \<noteq> ll_id cur \<and> toward d (ll_rect cur) (ll_rect pane) \<and>
        (\<forall>q \<in> set (layoutLeaves n unit_rect None).
           ll_id q \<noteq> ll_id cur \<and> toward d (ll_rect cur) (ll_rect q) \<longrightarrow>
           at_least_as_near d (ll_rect cur) (ll_rect pane) (ll_rect q))) \<and>
    (\<forall>f. f \<notin> set (leafIds n) \<longrightarrow> neighborLeafId n f d = None)"
proof -
  let ?ls = "layoutLeaves n unit_rect None"
  let ?cands = "map (neighborCandidate d (ll_id cur) (ll_rect cur)) ?ls"
  have run: "neighborLeafId n (ll_id cur) d = map_option nb_id (bestNeighbor None ?cands)"
    using find_by_id [of ?ls cur] assms by (simp add: neighborLeafId_def layoutLeaves_ids)
  have out: "neighborLeafId n f d = None" if "f \<notin> set (leafIds n)" for f
  proof -
    have "f \<notin> ll_id ` set ?ls" using that layoutLeaves_ids(1) by (metis list.set_map)
    then have "List.find (\<lambda>p. ll_id p = f) ?ls = None" by (auto simp: find_None_iff)
    then show ?thesis by (simp add: neighborLeafId_def)
  qed
  show ?thesis
  proof (cases "bestNeighbor None ?cands")
    case None
    then have "neighborCandidate d (ll_id cur) (ll_rect cur) q = None" if "q \<in> set ?ls" for q
      using that by (auto simp: bestNeighbor_None)
    then have "\<not> toward d (ll_rect cur) (ll_rect q)" if "q \<in> set ?ls" "ll_id q \<noteq> ll_id cur" for q
      using that neighborCandidate_Some by (metis option.distinct(1))
    then show ?thesis using None run out by simp
  next
    case (Some b)
    note best = bestNeighbor_spec [OF Some]
    from best obtain pane where pane: "pane \<in> set ?ls"
      "neighborCandidate d (ll_id cur) (ll_rect cur) pane = Some b" by auto
    have "at_least_as_near d (ll_rect cur) (ll_rect pane) (ll_rect q)"
      if q: "q \<in> set ?ls" "ll_id q \<noteq> ll_id cur" "toward d (ll_rect cur) (ll_rect q)" for q
    proof -
      obtain c where c: "neighborCandidate d (ll_id cur) (ll_rect cur) q = Some c"
        using q neighborCandidate_Some by blast
      then have "Some c \<in> set ?cands" using q(1) by (metis image_eqI list.set_map)
      then have "\<not> betterNeighbor c b" using best by blast
      then show ?thesis
        using c pane(2)
        by (auto simp: neighborCandidate_Some betterNeighbor_def at_least_as_near_def split: if_splits)
    qed
    then show ?thesis using Some run pane out by (auto simp: neighborCandidate_Some)
  qed
qed

definition ex_row :: layout_node where
  "ex_row = LSplit ''s'' SplitRight [LLeaf ''a'', LLeaf ''b'', LLeaf ''c''] [1 / 2, 1 / 4, 1 / 4]"

theorem neighborLeafId_optimal_witness:
  "\<exists>pane \<in> set (layoutLeaves ex_row unit_rect None). ll_id pane = ''b'' \<and>
     toward FRight \<lparr>rx = 0, ry = 0, rw = 1 / 2, rh = 1\<rparr> (ll_rect pane) \<and>
     (\<forall>q \<in> set (layoutLeaves ex_row unit_rect None).
        ll_id q \<noteq> ''a'' \<and> toward FRight \<lparr>rx = 0, ry = 0, rw = 1 / 2, rh = 1\<rparr> (ll_rect q) \<longrightarrow>
        at_least_as_near FRight \<lparr>rx = 0, ry = 0, rw = 1 / 2, rh = 1\<rparr> (ll_rect pane) (ll_rect q))"
proof -
  let ?a = "\<lparr>ll_id = ''a'', ll_rect = \<lparr>rx = 0, ry = 0, rw = 1 / 2, rh = 1\<rparr>, ll_axis = AxisX\<rparr>"
  have "distinct (leafIds ex_row)" "?a \<in> set (layoutLeaves ex_row unit_rect None)"
    by (simp_all add: ex_row_def unit_rect_def subRect_def nth_default_def Let_def)
  moreover have "neighborLeafId ex_row ''a'' FRight = Some ''b''" by code_simp
  ultimately show ?thesis using neighborLeafId_optimal [of ex_row ?a FRight] by simp
qed

end
