(* ===== verification/ScrollingLayout.thy ===== *)
theory ScrollingLayout
  imports LayoutGeometry
begin

text \<open>
  The scrolling layout of a tab: columns of panes, their reconciliation with the panes of the
  tab, and their translation to and from the split tree
  (\<open>apps/web/src/workbench/scrollingLayout.ts\<close>).
\<close>

section \<open>Columns\<close>

datatype layout_mode = Bsp | Scrolling

record column =
  columnId :: ident
  columnWidth :: rat
  paneIds :: "ident list"
  shares :: "rat list"

definition MIN_COLUMN_WIDTH :: rat where "MIN_COLUMN_WIDTH = 320"
definition MAX_COLUMN_WIDTH :: rat where "MAX_COLUMN_WIDTH = 2400"
definition DEFAULT_COLUMN_WIDTH :: rat where "DEFAULT_COLUMN_WIDTH = 560"
definition LAYOUT_VERSION :: nat where "LAYOUT_VERSION = 1"

record layout_memory =
  memoryVersion :: nat
  memoryBsp :: "layout_node option"
  memoryColumns :: "column list option"

text \<open>
  This file's own \<open>normalize\<close> has no guard for a zero sum, where JavaScript gives NaN; every
  list it is applied to is positive (\<open>columns_ok\<close> below) or empty.
\<close>

definition normalizeShares :: "rat list \<Rightarrow> rat list" where
  "normalizeShares zs = (let total = sum_list zs in map (\<lambda>value. value / total) zs)"

definition newColumn :: "ident \<Rightarrow> column js" where
  "newColumn paneId =
     js_bind (newTab paneId) (\<lambda>tab.
       js_return \<lparr>columnId = tabId tab, columnWidth = DEFAULT_COLUMN_WIDTH,
                  paneIds = [paneId], shares = [1]\<rparr>)"

text \<open>
  The inner loop of \<open>reconcileColumns\<close>: panes still in \<open>remaining\<close> are kept with their share
  (\<open>?? 1\<close>) and leave \<open>remaining\<close>, so a pane listed twice is kept once. \<open>remaining\<close> is a
  JavaScript \<open>Set\<close>, a list in insertion order.
\<close>

fun keepPanes ::
  "ident list \<Rightarrow> rat list \<Rightarrow> ident list \<Rightarrow> (ident \<times> rat) list \<times> ident list" where
  "keepPanes [] ss remaining = ([], remaining)"
| "keepPanes (i # rest) ss remaining =
     (if i \<in> set remaining
      then let (kept, remaining') = keepPanes rest (tl ss) (removeAll i remaining)
           in ((i, nth_default 1 ss 0) # kept, remaining')
      else keepPanes rest (tl ss) remaining)"

fun keepColumns :: "column list \<Rightarrow> ident list \<Rightarrow> column list \<times> ident list" where
  "keepColumns [] remaining = ([], remaining)"
| "keepColumns (c # rest) remaining =
     (let (kept, remaining') = keepPanes (paneIds c) (shares c) remaining;
          (cs, remaining'') = keepColumns rest remaining'
      in (if kept \<noteq> []
          then c\<lparr>paneIds := map fst kept, shares := normalizeShares (map snd kept)\<rparr> # cs
          else cs, remaining''))"

text \<open>
  \<open>new Set(ids)\<close>: the first occurrences, in order.
\<close>

fun setOf :: "'a list \<Rightarrow> 'a list" where
  "setOf [] = []"
| "setOf (x # xs) = x # filter (\<lambda>y. y \<noteq> x) (setOf xs)"

definition reconcileColumns :: "column list \<Rightarrow> ident list \<Rightarrow> column list js" where
  "reconcileColumns columns ids =
     (let (result, remaining) = keepColumns columns (setOf ids)
      in js_bind (js_map newColumn remaining) (\<lambda>new. js_return (result @ new)))"

definition columnNode :: "column \<Rightarrow> layout_node" where
  "columnNode c =
     (case paneIds c of
        [i] \<Rightarrow> leaf i
      | ps \<Rightarrow> LSplit (columnId c) SplitDown (map leaf ps) (shares c))"

definition columnsTree :: "column list \<Rightarrow> layout_node" where
  "columnsTree columns =
     (case map columnNode columns of
        [child] \<Rightarrow> child
      | children \<Rightarrow>
          LSplit ''columns'' SplitRight children (normalizeShares (map columnWidth columns)))"

record drop_pane =
  dp_tabId :: ident
  dp_paneId :: ident
  dp_zone :: pane_edge

text \<open>
  The loop of \<open>adjacentScrollingPaneTarget\<close>, with the columns to the left of the current one.
\<close>

fun adjacentFrom ::
  "column list \<Rightarrow> column list \<Rightarrow> ident \<Rightarrow> ident \<Rightarrow> drop_pane option" where
  "adjacentFrom before [] tab paneId = None"
| "adjacentFrom before (col # rest) tab paneId =
     (case findIndex (\<lambda>i. i = paneId) (paneIds col) of
        None \<Rightarrow> adjacentFrom (before @ [col]) rest tab paneId
      | Some pIdx \<Rightarrow>
          if 1 < length (paneIds col) then
            Some \<lparr>dp_tabId = tab,
                  dp_paneId = (if 0 < pIdx then paneIds col ! (pIdx - 1) else paneIds col ! Suc pIdx),
                  dp_zone = (if pIdx = 0 then ETop else EBottom)\<rparr>
          else
            (case (if before \<noteq> [] then Some (last before) else if rest \<noteq> [] then Some (hd rest) else None) of
               None \<Rightarrow> None
             | Some neighborCol \<Rightarrow>
                 if paneIds neighborCol = [] then None
                 else Some \<lparr>dp_tabId = tab, dp_paneId = hd (paneIds neighborCol),
                            dp_zone = (if before = [] then ELeft else ERight)\<rparr>))"

definition adjacentScrollingPaneTarget ::
  "column list \<Rightarrow> ident \<Rightarrow> ident \<Rightarrow> drop_pane option" where
  "adjacentScrollingPaneTarget columns tab paneId = adjacentFrom [] columns tab paneId"

definition placeInColumn :: "column \<Rightarrow> ident \<Rightarrow> ident \<Rightarrow> pane_drop_zone \<Rightarrow> column" where
  "placeInColumn c paneId targetId zone =
     (let k = (case findIndex (\<lambda>i. i = targetId) (paneIds c) of Some i \<Rightarrow> i | None \<Rightarrow> 0)
      in if zone = Replace then c\<lparr>paneIds := (paneIds c)[k := paneId]\<rparr>
         else
           let half = nth_default 0 (shares c) k / 2;
               pos = (if zone = Edge EBottom then Suc k else k)
           in c\<lparr>paneIds := insert_at pos paneId (paneIds c),
                shares := insert_at pos half ((shares c)[k := half])\<rparr>)"

definition placeInColumns ::
  "column list \<Rightarrow> ident \<Rightarrow> ident \<Rightarrow> pane_drop_zone \<Rightarrow> column list js" where
  "placeInColumns columns paneId targetId zone =
     js_bind
       (reconcileColumns columns (filter (\<lambda>i. i \<noteq> paneId) (concat (map paneIds columns))))
       (\<lambda>cleaned.
          case findIndex (\<lambda>c. targetId \<in> set (paneIds c)) cleaned of
            None \<Rightarrow> js_return cleaned
          | Some i \<Rightarrow>
              if zone = Edge ELeft \<or> zone = Edge ERight then
                js_bind (newColumn paneId) (\<lambda>new.
                  js_return (insert_at (if zone = Edge ERight then Suc i else i) new cleaned))
              else js_return (cleaned[i := placeInColumn (cleaned ! i) paneId targetId zone]))"

section \<open>Back to the split tree\<close>

text \<open>
  \<open>reconcileBsp\<close>: drop the saved leaves that are gone, then place the missing panes to the
  right of the last leaf. \<open>tree!\<close> of an empty result is an error here; \<open>leafIds(tree).at(-1)!\<close>
  likewise.
\<close>

fun dropStale :: "layout_node option \<Rightarrow> ident list \<Rightarrow> ident list \<Rightarrow> layout_node option" where
  "dropStale tree [] ids = tree"
| "dropStale tree (i # rest) ids =
     dropStale
       (if i \<notin> set ids then (case tree of None \<Rightarrow> None | Some t \<Rightarrow> removePane t i) else tree)
       rest ids"

fun addMissing :: "layout_node option \<Rightarrow> ident list \<Rightarrow> layout_node option js" where
  "addMissing tree [] = js_return tree"
| "addMissing None (i # rest) = addMissing (Some (leaf i)) rest"
| "addMissing (Some t) (i # rest) =
     (if i \<in> set (leafIds t) then addMissing (Some t) rest
      else if leafIds t = [] then js_throw ''reconcileBsp: no leaf''
      else js_bind (placePane t i (last (leafIds t)) ERight) (\<lambda>t'. addMissing (Some t') rest))"

definition reconcileBsp :: "layout_node option \<Rightarrow> ident list \<Rightarrow> layout_node js" where
  "reconcileBsp saved ids =
     js_bind
       (addMissing
         (dropStale saved (case saved of Some t \<Rightarrow> leafIds t | None \<Rightarrow> []) ids) ids)
       (\<lambda>tree. case tree of Some t \<Rightarrow> js_return t
                          | None \<Rightarrow> js_throw ''reconcileBsp: no panes'')"

section \<open>Reconciled columns\<close>

text \<open>
  \<open>cols_pos\<close>: what the columns of a decoded or memorised tab give: positive widths and shares
  (but possibly stale panes). \<open>cols_ok\<close>: what reconciliation establishes.
\<close>

definition col_pos :: "column \<Rightarrow> bool" where
  "col_pos c \<longleftrightarrow> 0 < columnWidth c \<and> (\<forall>z \<in> set (shares c). 0 < z)"

definition col_ok :: "column \<Rightarrow> bool" where
  "col_ok c \<longleftrightarrow> 0 < columnWidth c \<and> paneIds c \<noteq> [] \<and> length (shares c) = length (paneIds c) \<and>
     sizes_ok (shares c)"

definition colIds :: "column list \<Rightarrow> ident list" where
  "colIds cs = concat (map paneIds cs)"

definition cols_pos :: "column list \<Rightarrow> bool" where
  "cols_pos cs \<longleftrightarrow> (\<forall>c \<in> set cs. col_pos c)"

definition cols_ok :: "column list \<Rightarrow> bool" where
  "cols_ok cs \<longleftrightarrow> cs \<noteq> [] \<and> (\<forall>c \<in> set cs. col_ok c) \<and> distinct (colIds cs)"

lemma colIds_simps [simp]:
  "colIds [] = []" "colIds (c # cs) = paneIds c @ colIds cs" "colIds (cs @ ds) = colIds cs @ colIds ds"
  by (simp_all add: colIds_def)

lemma col_ok_pos: "col_ok c \<Longrightarrow> col_pos c"
  by (simp add: col_ok_def col_pos_def sizes_ok_def)

lemma cols_ok_pos: "cols_ok cs \<Longrightarrow> cols_pos cs"
  by (simp add: cols_ok_def cols_pos_def col_ok_pos)

lemma normalizeShares_ok: "zs \<noteq> [] \<Longrightarrow> \<forall>z \<in> set zs. 0 < z \<Longrightarrow> sizes_ok (normalizeShares zs)"
  using sum_list_pos [of zs]
  by (auto simp: normalizeShares_def sizes_ok_def Let_def sum_list_div)

lemma length_normalizeShares [simp]: "length (normalizeShares zs) = length zs"
  by (simp add: normalizeShares_def)

lemma setOf_props [simp]: "set (setOf xs) = set xs" "distinct (setOf xs)"
  by (induction xs) auto

lemma setOf_distinct: "distinct xs \<Longrightarrow> setOf xs = xs"
  by (induction xs) (auto intro: filter_True)

lemma keepPanes_spec:
  assumes "keepPanes ps ss remaining = (kept, remaining')"
  shows "remaining' = filter (\<lambda>i. i \<notin> set ps) remaining"
    and "map fst kept = filter (\<lambda>i. i \<in> set remaining) (setOf ps)"
    and "\<forall>z \<in> set ss. 0 < z \<Longrightarrow> \<forall>z \<in> set (map snd kept). 0 < z"
  using assms
proof (induction ps ss remaining arbitrary: kept remaining' rule: keepPanes.induct)
  case (2 i rest ss remaining)
  { case 1
    then show ?case using 2
      by (auto split: if_splits prod.splits simp: removeAll_filter_not_eq intro: filter_cong) }
  { case 2
    then show ?case using "2.IH"
      by (auto split: if_splits prod.splits intro!: filter_cong) }
  { case 3
    have tl: "\<forall>z \<in> set (tl ss). 0 < z" using 3(1) by (cases ss) auto
    have "0 < nth_default 1 ss 0" using 3(1) by (cases ss) auto
    then show ?case using 3 "2.IH" tl by (auto split: if_splits prod.splits) }
qed auto

lemma keepColumns_spec:
  assumes "keepColumns cs remaining = (kept, remaining')"
  shows "remaining' = filter (\<lambda>i. i \<notin> set (colIds cs)) remaining"
    and "set (colIds kept) = set (colIds cs) \<inter> set remaining"
    and "distinct (colIds kept)"
    and "distinct (colIds cs) \<Longrightarrow> colIds kept = filter (\<lambda>i. i \<in> set remaining) (colIds cs)"
    and "cols_pos cs \<Longrightarrow> \<forall>c \<in> set kept. col_ok c"
  using assms
proof (induction cs remaining arbitrary: kept remaining' rule: keepColumns.induct)
  case (2 c rest remaining)
  obtain ps rem1 where ps: "keepPanes (paneIds c) (shares c) remaining = (ps, rem1)" by fastforce
  obtain ds rem2 where ds: "keepColumns rest rem1 = (ds, rem2)" by fastforce
  note k = keepPanes_spec [OF ps]
  note IH = "2.IH"(1-3) [OF ps [symmetric] refl ds] "2.IH"(4,5) [OF ps [symmetric] refl _ ds]
  have kept: "colIds kept = map fst ps @ colIds ds" "remaining' = rem2"
    if "keepColumns (c # rest) remaining = (kept, remaining')" for kept remaining'
    using that ps ds by (auto split: if_splits)
  { case 1 then show ?case using kept [OF 1] IH(1) k(1) by (simp add: conj_commute) }
  { case 2 then show ?case using kept [OF 2] IH(2) k(1,2) by auto }
  { case 3 then show ?case using kept [OF 3] IH(2,3) k(1,2) by auto }
  { case 4
    have "filter (\<lambda>i. i \<in> set rem1) (colIds rest) = filter (\<lambda>i. i \<in> set remaining) (colIds rest)"
      using 4(1) k(1) by (intro filter_cong) auto
    then show ?case using kept [OF 4(2)] IH(4) k(2) 4(1) by (simp add: setOf_distinct) }
  { case 5
    have c: "0 < columnWidth c" "\<forall>z \<in> set (shares c). 0 < z" "cols_pos rest"
      using 5(1) by (simp_all add: cols_pos_def col_pos_def)
    have "sizes_ok (normalizeShares (map snd ps))" if "ps \<noteq> []"
      using normalizeShares_ok [of "map snd ps"] k(3) [OF c(2)] that by simp
    then show ?case using 5(2) ps ds IH(5) [OF c(3)] c(1)
      by (cases "ps = []") (auto simp: col_ok_def) }
qed (auto simp: cols_pos_def)

lemma newColumn_wp:
  assumes "supply_inv I" "I s"
  shows "wp (newColumn i) (\<lambda>c s'. (col_ok c \<and> paneIds c = [i]) \<and> I s') s"
  using assms by (simp add: newColumn_def newTab_def col_ok_def sizes_ok_def DEFAULT_COLUMN_WIDTH_def supply_invD)

lemma newColumns_wp:
  assumes "supply_inv I" "I s"
  shows "wp (js_map newColumn xs) (\<lambda>cs s'. ((\<forall>c \<in> set cs. col_ok c) \<and> colIds cs = xs) \<and> I s') s"
proof (rule wp_mono [OF wp_js_map [where I = I and R = "\<lambda>i c. col_ok c \<and> paneIds c = [i]"]])
  fix cs s' assume a: "list_all2 (\<lambda>i c. col_ok c \<and> paneIds c = [i]) xs cs \<and> I s'"
  then have "list_all2 (\<lambda>i c. col_ok c \<and> paneIds c = [i]) xs cs" by blast
  then have "(\<forall>c \<in> set cs. col_ok c) \<and> colIds cs = xs"
    by (induction rule: list_all2_induct) auto
  then show "((\<forall>c \<in> set cs. col_ok c) \<and> colIds cs = xs) \<and> I s'" using a by blast
qed (use assms newColumn_wp in blast)+

text \<open>
  Reconciliation: the surviving panes keep their order and the new ones follow in the order
  given; the result is well formed.
\<close>

lemma reconcileColumns_wp:
  assumes "supply_inv I" "I s" "cols_pos cs"
  shows "wp (reconcileColumns cs ids)
    (\<lambda>r s'. ((ids \<noteq> [] \<longrightarrow> cols_ok r) \<and> set (colIds r) = set ids \<and> distinct (colIds r) \<and>
        (\<forall>c \<in> set r. col_ok c) \<and>
        (distinct (colIds cs) \<longrightarrow> colIds r = filter (\<lambda>i. i \<in> set ids) (colIds cs) @
           filter (\<lambda>i. i \<notin> set (colIds cs)) (setOf ids))) \<and> I s') s"
proof -
  obtain kept rem where k: "keepColumns cs (setOf ids) = (kept, rem)" by fastforce
  note spec = keepColumns_spec [OF k]
  show ?thesis
    unfolding reconcileColumns_def k Let_def prod.case wp_bind
  proof (rule wp_mono [OF newColumns_wp [OF assms(1,2)]])
    fix new s' assume n: "((\<forall>c \<in> set new. col_ok c) \<and> colIds new = rem) \<and> I s'"
    have set: "set (colIds (kept @ new)) = set ids" using spec(1,2) n by auto
    have "distinct (colIds (kept @ new))" using spec(1,2,3) n by auto
    moreover have "\<forall>c \<in> set (kept @ new). col_ok c" using spec(5) [OF assms(3)] n by auto
    moreover have "kept @ new \<noteq> []" if "ids \<noteq> []" using set that by auto
    ultimately show "wp (js_return (kept @ new)) (\<lambda>r s'. ((ids \<noteq> [] \<longrightarrow> cols_ok r) \<and>
        set (colIds r) = set ids \<and> distinct (colIds r) \<and> (\<forall>c \<in> set r. col_ok c) \<and>
        (distinct (colIds cs) \<longrightarrow> colIds r = filter (\<lambda>i. i \<in> set ids) (colIds cs) @
           filter (\<lambda>i. i \<notin> set (colIds cs)) (setOf ids))) \<and> I s') s'"
      using set n spec(1,4) unfolding cols_ok_def wp_return by simp
  qed
qed

section \<open>The tree of the columns\<close>

lemma columnNode_spec:
  assumes "col_ok c"
  shows "leafIds (columnNode c) = paneIds c" "wf_layout (columnNode c)"
proof -
  have "concat (map leafIds (map leaf ps)) = ps" for ps by (induction ps) (auto simp: leaf_def)
  then show "leafIds (columnNode c) = paneIds c" "wf_layout (columnNode c)"
    using assms by (auto simp: columnNode_def col_ok_def leaf_def split: list.splits)
qed

lemma columnsTree_spec:
  assumes "cs \<noteq> []" "\<forall>c \<in> set cs. col_ok c"
  shows "leafIds (columnsTree cs) = colIds cs" "wf_layout (columnsTree cs)"
proof -
  have ids: "concat (map leafIds (map columnNode cs)) = colIds cs"
    using assms(2) by (simp add: colIds_def columnNode_spec cong: map_cong)
  have sizes: "sizes_ok (normalizeShares (map columnWidth cs))"
    using assms by (intro normalizeShares_ok) (auto simp: col_ok_def)
  have "leafIds (columnsTree cs) = colIds cs \<and> wf_layout (columnsTree cs)"
  proof (cases "map columnNode cs")
    case (Cons child children)
    then show ?thesis
    proof (cases children)
      case Nil
      then obtain c where "cs = [c]" using Cons by auto
      then show ?thesis using assms columnNode_spec [of c] by (simp add: columnsTree_def)
    next
      case (Cons d ds)
      then show ?thesis
        using \<open>map columnNode cs = child # children\<close> ids sizes assms(2)
          map_eq_Cons_D [of columnNode cs child children]
        by (auto simp: columnsTree_def columnNode_spec dest!: map_eq_Cons_D)
    qed
  qed (use assms in simp)
  then show "leafIds (columnsTree cs) = colIds cs" "wf_layout (columnsTree cs)" by simp_all
qed

section \<open>Placing a pane\<close>

lemma colIds_insert_at: "i \<le> length cs \<Longrightarrow> mset (colIds (insert_at i c cs)) = mset (paneIds c) + mset (colIds cs)"
  by (simp add: colIds_def insert_at_def flip: mset_append)
    (metis (no_types) append_take_drop_id concat_append map_append mset_append union_lcomm)

lemma colIds_update:
  "i < length cs \<Longrightarrow>
     mset (colIds (cs[i := c])) + mset (paneIds (cs ! i)) = mset (colIds cs) + mset (paneIds c)"
proof (induction cs arbitrary: i)
  case (Cons d ds)
  then show ?case by (cases i) (simp_all add: ac_simps union_lcomm)
qed simp

lemma findIndex_eq:
  assumes "x \<in> set xs"
  obtains k where "findIndex (\<lambda>i. i = x) xs = Some k" "k < length xs" "xs ! k = x"
  using assms findIndex_SomeD [of "\<lambda>i. i = x" xs] findIndex_None_iff [of "\<lambda>i. i = x" xs]
  by (cases "findIndex (\<lambda>i. i = x) xs") auto

lemma mset_update_nth:
  "k < length xs \<Longrightarrow> add_mset (xs ! k) (mset (xs[k := y])) = add_mset y (mset xs)"
  by (simp add: mset_update)

lemma sum_list_insert_at: "sum_list (insert_at i x xs) = sum_list xs + (x :: rat)"
proof -
  have "sum_list xs = sum_list (take i xs) + sum_list (drop i xs)"
    by (metis append_take_drop_id sum_list_append)
  then show ?thesis by (simp add: insert_at_def)
qed

lemma placeInColumn_spec:
  assumes c: "col_ok c" and t: "t \<in> set (paneIds c)"
  shows "col_ok (placeInColumn c x t zone)"
    and "zone \<noteq> Replace \<Longrightarrow>
      mset (paneIds (placeInColumn c x t zone)) = add_mset x (mset (paneIds c))"
    and "zone = Replace \<Longrightarrow>
      add_mset t (mset (paneIds (placeInColumn c x t zone))) = add_mset x (mset (paneIds c))"
proof -
  obtain k where k: "findIndex (\<lambda>i. i = t) (paneIds c) = Some k" "k < length (paneIds c)"
    "paneIds c ! k = t" using t by (rule findIndex_eq)
  have ks: "k < length (shares c)" using c k(2) by (simp add: col_ok_def)
  have half: "nth_default 0 (shares c) k = shares c ! k" using ks by (simp add: nth_default_nth)
  have pos: "0 < shares c ! k" using c ks by (simp add: col_ok_def sizes_ok_def)
  define pos' where "pos' = (if zone = Edge EBottom then Suc k else k)"
  have all: "\<forall>z \<in> set (insert_at pos' (shares c ! k / 2) ((shares c)[k := shares c ! k / 2])). 0 < z"
    using c pos by (auto simp: col_ok_def sizes_ok_def dest!: set_update_subset_insert [THEN subsetD])
  have "sum_list (insert_at pos' (shares c ! k / 2) ((shares c)[k := shares c ! k / 2])) =
      sum_list ((shares c)[k := shares c ! k / 2]) + shares c ! k / 2"
    by (rule sum_list_insert_at)
  also have "\<dots> = 1" using c ks by (simp add: sum_list_upd col_ok_def sizes_ok_def)
  finally have new: "sizes_ok (insert_at pos' (shares c ! k / 2) ((shares c)[k := shares c ! k / 2]))"
    using all by (simp add: sizes_ok_def)
  have placed: "placeInColumn c x t zone =
      (if zone = Replace then c\<lparr>paneIds := (paneIds c)[k := x]\<rparr>
       else c\<lparr>paneIds := insert_at pos' x (paneIds c),
              shares := insert_at pos' (shares c ! k / 2) ((shares c)[k := shares c ! k / 2])\<rparr>)"
    by (simp add: placeInColumn_def Let_def k(1) half pos'_def)
  have "insert_at pos' x (paneIds c) \<noteq> []" by (simp add: insert_at_def)
  then show "col_ok (placeInColumn c x t zone)"
    unfolding placed using c new by (simp add: col_ok_def)
  show "mset (paneIds (placeInColumn c x t zone)) = add_mset x (mset (paneIds c))" if "zone \<noteq> Replace"
    using that k(1) by (simp add: placeInColumn_def Let_def)
  show "add_mset t (mset (paneIds (placeInColumn c x t zone))) = add_mset x (mset (paneIds c))"
    if "zone = Replace"
    using that k mset_update_nth [of k "paneIds c" x] by (simp add: placeInColumn_def)
qed

text \<open>
  The panes after a placement: those of the columns without the placed one, plus the placed
  one, minus the target when it is replaced.
\<close>

definition placed_panes :: "ident list \<Rightarrow> ident \<Rightarrow> ident \<Rightarrow> pane_drop_zone \<Rightarrow> ident set" where
  "placed_panes ids x t zone =
     (if t = x \<or> t \<notin> set ids then set ids - {x}
      else insert x (set ids - (if zone = Replace then {t} else {})))"

lemma placeInColumns_wp:
  assumes I: "supply_inv I" "I s" and cs: "cols_pos cs" and t: "t \<in> set (colIds cs)" "t \<noteq> x"
  shows "wp (placeInColumns cs x t zone)
    (\<lambda>r s'. (cols_ok r \<and> set (colIds r) = placed_panes (colIds cs) x t zone) \<and> I s') s"
proof -
  let ?ids = "filter (\<lambda>i. i \<noteq> x) (colIds cs)"
  let ?Q = "\<lambda>r s'. (cols_ok r \<and> set (colIds r) = placed_panes (colIds cs) x t zone) \<and> I s'"
  have ids: "?ids \<noteq> []" using t by (auto simp: filter_empty_conv)
  show ?thesis
    unfolding placeInColumns_def wp_bind colIds_def [symmetric]
  proof (rule wp_mono [OF reconcileColumns_wp [OF I cs, of ?ids]])
    fix r s' assume "((?ids \<noteq> [] \<longrightarrow> cols_ok r) \<and> set (colIds r) = set ?ids \<and> distinct (colIds r) \<and>
        (\<forall>c \<in> set r. col_ok c) \<and>
        (distinct (colIds cs) \<longrightarrow> colIds r = filter (\<lambda>i. i \<in> set ?ids) (colIds cs) @
           filter (\<lambda>i. i \<notin> set (colIds cs)) (setOf ?ids))) \<and> I s'"
    then have r: "cols_ok r" "set (colIds r) = set (colIds cs) - {x}" and s': "I s'"
      using ids by auto
    have tr: "t \<in> set (colIds r)" using r(2) t by simp
    then have "findIndex (\<lambda>c. t \<in> set (paneIds c)) r \<noteq> None"
      by (auto simp: findIndex_None_iff colIds_def)
    then obtain i where i: "findIndex (\<lambda>c. t \<in> set (paneIds c)) r = Some i" by blast
    then have il: "i < length r" "t \<in> set (paneIds (r ! i))" using findIndex_SomeD by blast+
    have target: "placed_panes (colIds cs) x t zone =
        insert x (set (colIds r) - (if zone = Replace then {t} else {}))"
      using t r(2) by (auto simp: placed_panes_def)
    have dx: "distinct (x # colIds r)" using r by (simp add: cols_ok_def)
    have beside: "wp (newColumn x) (\<lambda>new. wp (js_return (insert_at j new r)) ?Q) s'"
      if "j \<le> length r" "zone \<noteq> Replace" for j
    proof (rule wp_mono [OF newColumn_wp [OF I(1) s']])
      fix new s2 assume n: "(col_ok new \<and> paneIds new = [x]) \<and> I s2"
      have m: "mset (colIds (insert_at j new r)) = mset (x # colIds r)"
        using colIds_insert_at [OF that(1), of new] n by simp
      then have "distinct (colIds (insert_at j new r))"
        using dx mset_eq_imp_distinct_iff by blast
      moreover have "set (colIds (insert_at j new r)) = insert x (set (colIds r))"
        using mset_eq_setD [OF m] by simp
      moreover have "insert_at j new r \<noteq> []" by (simp add: insert_at_def)
      ultimately show "wp (js_return (insert_at j new r)) ?Q s2"
        using n r target that by (simp add: cols_ok_def)
    qed
    let ?c = "placeInColumn (r ! i) x t zone"
    have ci: "col_ok (r ! i)" using r(1) il(1) by (simp add: cols_ok_def)
    note place = placeInColumn_spec [OF ci il(2), where x = x and zone = zone]
    have m: "mset (x # colIds r) =
        mset ((if zone = Replace then [t] else []) @ colIds (r[i := ?c]))"
    proof -
      note u = colIds_update [OF il(1), of ?c]
      have "mset (paneIds (r ! i)) + add_mset x (mset (colIds r)) =
          mset (colIds r) + add_mset x (mset (paneIds (r ! i)))" by simp
      also have "\<dots> = mset (colIds r) +
          mset ((if zone = Replace then [t] else []) @ paneIds ?c)"
        using place(2,3) by (cases "zone = Replace") simp_all
      also have "\<dots> = mset (paneIds (r ! i)) +
          mset ((if zone = Replace then [t] else []) @ colIds (r[i := ?c]))"
        using u by (simp add: ac_simps)
      finally show ?thesis by (simp only: add_left_cancel mset.simps)
    qed
    then have dist: "distinct ((if zone = Replace then [t] else []) @ colIds (r[i := ?c]))"
      using dx mset_eq_imp_distinct_iff by blast
    have sets: "set (colIds (r[i := ?c])) = insert x (set (colIds r)) - (if zone = Replace then {t} else {})"
      using mset_eq_setD [OF m] dist by (auto split: if_splits)
    have "cols_ok (r[i := ?c])"
      using r(1) dist place(1) unfolding cols_ok_def
      by (auto dest!: set_update_subset_insert [THEN subsetD])
    then have inside: "wp (js_return (r[i := ?c])) ?Q s'"
      using sets target t(2) s' by auto
    show "wp (case findIndex (\<lambda>c. t \<in> set (paneIds c)) r of None \<Rightarrow> js_return r
        | Some i \<Rightarrow> if zone = Edge ELeft \<or> zone = Edge ERight
            then js_bind (newColumn x) (\<lambda>new. js_return (insert_at (if zone = Edge ERight then Suc i else i) new r))
            else js_return (r[i := placeInColumn (r ! i) x t zone])) ?Q s'"
      using beside [of i] beside [of "Suc i"] inside il(1) i by auto
  qed
qed

section \<open>Reconciling the tree\<close>

lemma dropStale_spec:
  "oleaves (dropStale tree rest ids) =
     filter (\<lambda>i. i \<in> set ids \<or> i \<notin> set rest) (oleaves tree)"
  "(\<And>t. tree = Some t \<Longrightarrow> wf_layout t) \<Longrightarrow> dropStale tree rest ids = Some t' \<Longrightarrow> wf_layout t'"
proof (induction tree rest ids rule: dropStale.induct)
  case (2 tree i rest ids)
  { case 1
    show ?case using 2(1) oleaves_removePane
      by (auto split: option.splits intro!: filter_cong) }
  { case 2
    then show ?case using "2.IH"(2) removePane_wf by (auto split: option.splits if_splits) }
qed (auto intro: filter_True)

lemma addMissing_wp:
  assumes "supply_inv I" "I s" "\<And>t. tree = Some t \<Longrightarrow> wf_layout t" "distinct (oleaves tree)"
  shows "wp (addMissing tree ids)
    (\<lambda>r s'. (set (oleaves r) = set (oleaves tree) \<union> set ids \<and> distinct (oleaves r) \<and>
       (\<forall>t. r = Some t \<longrightarrow> wf_layout t)) \<and> I s') s"
  using assms(2-)
proof (induction tree ids arbitrary: s rule: addMissing.induct)
  case (2 i rest)
  have "wp (addMissing (Some (leaf i)) rest) (\<lambda>r s'. (set (oleaves r) = set (oleaves (Some (leaf i))) \<union> set rest \<and>
      distinct (oleaves r) \<and> (\<forall>t. r = Some t \<longrightarrow> wf_layout t)) \<and> I s') s"
    by (rule "2.IH") (use "2.prems" in \<open>auto simp: leaf_def\<close>)
  then show ?case by (simp add: leaf_def)
next
  case (3 t i rest)
  have wf: "wf_layout t" "distinct (leafIds t)" using 3 by simp_all
  then have ne: "leafIds t \<noteq> []" by (simp add: wf_leafIds_nonempty)
  show ?case
  proof (cases "i \<in> set (leafIds t)")
    case True
    then show ?thesis using "3.IH"(1) [OF True "3.prems"] by (simp add: insert_absorb)
  next
    case False
    have "wp (placePane t i (last (leafIds t)) ERight) (\<lambda>t'. wp (addMissing (Some t') rest)
        (\<lambda>r s'. (set (oleaves r) = set (oleaves (Some t)) \<union> set (i # rest) \<and> distinct (oleaves r) \<and>
          (\<forall>t. r = Some t \<longrightarrow> wf_layout t)) \<and> I s')) s"
    proof (rule wp_mono [OF placePane_wf [OF assms(1) "3.prems"(1) wf]])
      fix t' s' assume a: "(set (leafIds t') = insert i (set (leafIds t)) \<and> distinct (leafIds t') \<and> wf_layout t') \<and> I s'"
      have "wp (addMissing (Some t') rest) (\<lambda>r s'. (set (oleaves r) = set (oleaves (Some t')) \<union> set rest \<and>
          distinct (oleaves r) \<and> (\<forall>t. r = Some t \<longrightarrow> wf_layout t)) \<and> I s') s'"
        by (rule "3.IH"(2)) (use False ne a in auto)
      then show "wp (addMissing (Some t') rest)
        (\<lambda>r s'. (set (oleaves r) = set (oleaves (Some t)) \<union> set (i # rest) \<and> distinct (oleaves r) \<and>
          (\<forall>t. r = Some t \<longrightarrow> wf_layout t)) \<and> I s') s'"
        using a by simp
    qed (use ne in simp)
    then show ?thesis using False ne by simp
  qed
qed auto

text \<open>
  Whatever well-formed tree was saved, the reconciled one is well formed and has exactly the
  panes asked for; there is no error as long as one pane is asked for.
\<close>

lemma reconcileBsp_wp:
  assumes "supply_inv I" "I s" "ids \<noteq> []"
    and "\<And>t. saved = Some t \<Longrightarrow> wf_layout t \<and> distinct (leafIds t)"
  shows "wp (reconcileBsp saved ids)
    (\<lambda>t s'. (wf_layout t \<and> set (leafIds t) = set ids \<and> distinct (leafIds t)) \<and> I s') s"
proof -
  let ?d = "dropStale saved (case saved of Some t \<Rightarrow> leafIds t | None \<Rightarrow> []) ids"
  have o: "oleaves ?d = filter (\<lambda>i. i \<in> set ids) (oleaves saved)"
    unfolding dropStale_spec by (cases saved) (auto intro: filter_cong)
  have wf: "wf_layout t" if "?d = Some t" for t
    using dropStale_spec(2) [OF _ that] assms(4) by blast
  have d: "distinct (oleaves ?d)" unfolding o using assms(4) by (cases saved) auto
  show ?thesis
    unfolding reconcileBsp_def wp_bind
  proof (rule wp_mono [OF addMissing_wp [OF assms(1,2) wf d]])
    fix r s' assume r: "(set (oleaves r) = set (oleaves ?d) \<union> set ids \<and> distinct (oleaves r) \<and>
       (\<forall>t. r = Some t \<longrightarrow> wf_layout t)) \<and> I s'"
    have "set (oleaves r) = set ids" using r o by auto
    then show "wp (case r of None \<Rightarrow> js_throw ''reconcileBsp: no panes'' | Some t \<Rightarrow> js_return t)
        (\<lambda>t s'. (wf_layout t \<and> set (leafIds t) = set ids \<and> distinct (leafIds t)) \<and> I s') s'"
      using r assms(3) by (cases r) auto
  qed
qed

section \<open>Reconciliation is idempotent\<close>

lemma keepPanes_same:
  assumes "distinct ps" "set ps \<subseteq> set remaining" "length ss = length ps"
  shows "keepPanes ps ss remaining = (zip ps ss, filter (\<lambda>i. i \<notin> set ps) remaining)"
  using assms
proof (induction ps arbitrary: ss remaining)
  case (Cons p ps)
  then obtain z zs where ss: "ss = z # zs" by (cases ss) auto
  have "keepPanes ps zs (removeAll p remaining) =
      (zip ps zs, filter (\<lambda>i. i \<notin> set ps) (removeAll p remaining))"
    using Cons.prems ss by (intro Cons.IH) auto
  then show ?case using Cons.prems ss
    by (simp add: removeAll_filter_not_eq conj_commute) (metis (full_types))
qed simp

lemma normalizeShares_same: "sizes_ok zs \<Longrightarrow> normalizeShares zs = zs"
  by (simp add: sizes_ok_def normalizeShares_def)

lemma keepColumns_same:
  assumes "\<forall>c \<in> set cs. col_ok c" "distinct (colIds cs)" "set (colIds cs) \<subseteq> set remaining"
  shows "keepColumns cs remaining = (cs, filter (\<lambda>i. i \<notin> set (colIds cs)) remaining)"
  using assms
proof (induction cs arbitrary: remaining)
  case (Cons c cs)
  have c: "length (shares c) = length (paneIds c)" "paneIds c \<noteq> []" "sizes_ok (shares c)"
    using Cons.prems(1) by (simp_all add: col_ok_def)
  let ?rem = "filter (\<lambda>i. i \<notin> set (paneIds c)) remaining"
  have p: "keepPanes (paneIds c) (shares c) remaining = (zip (paneIds c) (shares c), ?rem)"
    using Cons.prems c(1) by (intro keepPanes_same) auto
  have "keepColumns cs ?rem = (cs, filter (\<lambda>i. i \<notin> set (colIds cs)) ?rem)"
    using Cons.prems by (intro Cons.IH) auto
  moreover have "zip (paneIds c) (shares c) \<noteq> []" using c(1,2) by (cases "paneIds c"; cases "shares c") auto
  ultimately show ?case
    using c by (simp add: p normalizeShares_same conj_commute)
qed simp

text \<open>Columns that hold exactly the panes asked for are not touched, and no identifier is drawn.\<close>

lemma reconcileColumns_same:
  assumes "\<forall>c \<in> set cs. col_ok c" "distinct (colIds cs)" "set ids = set (colIds cs)"
  shows "reconcileColumns cs ids = js_return cs"
proof -
  have "keepColumns cs (setOf ids) = (cs, filter (\<lambda>i. i \<notin> set (colIds cs)) (setOf ids))"
    using assms by (intro keepColumns_same) simp_all
  moreover have "filter (\<lambda>i. i \<notin> set (colIds cs)) (setOf ids) = []"
    using assms(3) by (simp add: filter_empty_conv)
  ultimately show ?thesis by (simp add: reconcileColumns_def js_bind_def js_return_def)
qed

lemma reconcileBsp_same:
  assumes "set ids = set (leafIds t)"
  shows "reconcileBsp (Some t) ids = js_return t"
proof -
  have d: "dropStale (Some t) xs ids = Some t" if "set xs \<subseteq> set ids" for xs
    using that by (induction xs) auto
  have a: "addMissing (Some t) xs = js_return (Some t)" if "set xs \<subseteq> set (leafIds t)" for xs
    using that by (induction xs) auto
  show ?thesis using d [of "leafIds t"] a [of ids] assms
    by (simp add: reconcileBsp_def js_bind_def js_return_def)
qed

end
