(* ===== verification/ViewRegistry.thy ===== *)
theory ViewRegistry
  imports Prelude
begin

text \<open>
  View targets and their identity keys: \<open>apps/web/src/workbench/viewRegistry.ts\<close>, lines 12 to
  85 and 147 to 150. The registry of React components in that file is not modelled.
\<close>

section \<open>Targets\<close>

text \<open>
  Each constructor is a \<open>kind\<close> of the union \<open>ViewTarget\<close>; the last argument is the optional
  \<open>definitionId\<close> that every member of the union carries. \<open>initialPath\<close> and \<open>revealLine\<close> of a
  workspace target only parametrise its first display.
\<close>

datatype view_target =
    TWelcome "ident option"
  | TProject ident ident "ident option"
  | TWorkspace ident ident "string option" "int option" "ident option"
  | TAgentSession ident ident ident "ident option"
  | TNewAgentSession ident ident ident "ident option"
  | TWorkspaceTerminal ident ident ident "ident option"

fun definitionIdForTarget :: "view_target \<Rightarrow> ident" where
  "definitionIdForTarget (TNewAgentSession _ _ _ _) = ''agentSession''"
| "definitionIdForTarget (TWelcome d) = case_option ''welcome'' id d"
| "definitionIdForTarget (TProject _ _ d) = case_option ''project'' id d"
| "definitionIdForTarget (TWorkspace _ _ _ _ d) = case_option ''workspace'' id d"
| "definitionIdForTarget (TAgentSession _ _ _ d) = case_option ''agentSession'' id d"
| "definitionIdForTarget (TWorkspaceTerminal _ _ _ d) = case_option ''workspaceTerminal'' id d"

section \<open>JSON strings\<close>

text \<open>
  \<open>JSON.stringify\<close> of a string: the quote and the backslash are escaped, the control characters
  are written as short escapes or as \<open>\u\<close> with four hexadecimal digits, any other character is
  itself.
\<close>

definition hexDigit :: "nat \<Rightarrow> char" where
  "hexDigit n = ''0123456789abcdef'' ! n"

definition jsonChar :: "char \<Rightarrow> string" where
  "jsonChar c =
     (let n = of_char c :: nat
      in if n = 34 then [CHR 0x5C, CHR 0x22]
         else if n = 92 then [CHR 0x5C, CHR 0x5C]
         else if n = 8 then [CHR 0x5C, CHR ''b'']
         else if n = 9 then [CHR 0x5C, CHR ''t'']
         else if n = 10 then [CHR 0x5C, CHR ''n'']
         else if n = 12 then [CHR 0x5C, CHR ''f'']
         else if n = 13 then [CHR 0x5C, CHR ''r'']
         else if n < 32 then [CHR 0x5C, CHR ''u'', CHR ''0'', CHR ''0'',
                              hexDigit (n div 16), hexDigit (n mod 16)]
         else [c])"

definition jsonString :: "string \<Rightarrow> string" where
  "jsonString s = CHR 0x22 # concat (map jsonChar s) @ [CHR 0x22]"

fun jsonElements :: "string list \<Rightarrow> string" where
  "jsonElements [] = []"
| "jsonElements [x] = jsonString x"
| "jsonElements (x # y # rest) = jsonString x @ '','' @ jsonElements (y # rest)"

definition jsonArray :: "string list \<Rightarrow> string" where
  "jsonArray xs = ''['' @ jsonElements xs @ '']''"

section \<open>Keys\<close>

fun targetKey :: "view_target \<Rightarrow> string" where
  "targetKey (TWelcome _) = ''welcome''"
| "targetKey (TProject e p d) =
     jsonArray [''project'', definitionIdForTarget (TProject e p d), e, p]"
| "targetKey (TWorkspace e w ip rl d) =
     jsonArray [''workspace'', definitionIdForTarget (TWorkspace e w ip rl d), e, w]"
| "targetKey (TAgentSession e w a _) = ''agentSession:'' @ e @ '':'' @ w @ '':'' @ a"
| "targetKey (TNewAgentSession e w d _) = ''newAgentSession:'' @ e @ '':'' @ w @ '':'' @ d"
| "targetKey (TWorkspaceTerminal e w t _) = ''workspaceTerminal:'' @ e @ '':'' @ w @ '':'' @ t"

definition targetsEqual :: "view_target \<Rightarrow> view_target \<Rightarrow> bool" where
  "targetsEqual a b \<longleftrightarrow> targetKey a = targetKey b"

section \<open>Escaping is injective\<close>

text \<open>
  A decoder for one escaped character, and the fact that it reads back what \<open>jsonChar\<close> wrote
  whatever follows: the escapes are a prefix code that never starts with the closing quote.
\<close>

fun unhex :: "char \<Rightarrow> nat" where
  "unhex c = (let n = of_char c in if n < 58 then n - 48 else n - 87)"

fun unescape :: "string \<Rightarrow> (char \<times> string) option" where
  "unescape [] = None"
| "unescape (c # rest) =
     (if c \<noteq> CHR 0x5C then Some (c, rest)
      else case rest of
        [] \<Rightarrow> None
      | e # rest' \<Rightarrow>
          if e = CHR ''b'' then Some (char_of (8 :: nat), rest')
          else if e = CHR ''t'' then Some (char_of (9 :: nat), rest')
          else if e = CHR ''n'' then Some (char_of (10 :: nat), rest')
          else if e = CHR ''f'' then Some (char_of (12 :: nat), rest')
          else if e = CHR ''r'' then Some (char_of (13 :: nat), rest')
          else if e = CHR ''u'' then
            (case rest' of
               a # b # h # l # more \<Rightarrow> Some (char_of (16 * unhex h + unhex l), more)
             | _ \<Rightarrow> None)
          else Some (e, rest'))"

lemma unhex_hexDigit: "k < 16 \<Longrightarrow> unhex (hexDigit k) = k"
proof -
  have "\<forall>k \<in> set [0..<16]. unhex (hexDigit k) = k" by code_simp
  then show "k < 16 \<Longrightarrow> unhex (hexDigit k) = k" by simp
qed

lemma char_of_eq: "of_char c = (n :: nat) \<Longrightarrow> c = char_of n"
  by (metis char_of_char)

lemma char_34: "(char_of (34 :: nat) :: char) = CHR 0x22" by code_simp
lemma char_92: "(char_of (92 :: nat) :: char) = CHR 0x5C" by code_simp

lemma unescape_jsonChar: "unescape (jsonChar c @ r) = Some (c, r)"
proof -
  let ?n = "of_char c :: nat"
  have c: "c = char_of ?n" by simp
  consider "?n = 34" | "?n = 92" | "?n = 8" | "?n = 9" | "?n = 10" | "?n = 12" | "?n = 13"
    | "?n \<noteq> 34" "?n \<noteq> 92" "?n \<noteq> 8" "?n \<noteq> 9" "?n \<noteq> 10" "?n \<noteq> 12" "?n \<noteq> 13" "?n < 32"
    | "?n \<noteq> 34" "?n \<noteq> 92" "32 \<le> ?n" by linarith
  then show ?thesis
  proof cases
    case 8
    then have "?n div 16 < 16" "?n mod 16 < 16" by linarith+
    then have "unhex (hexDigit (?n div 16)) = ?n div 16" "unhex (hexDigit (?n mod 16)) = ?n mod 16"
      using unhex_hexDigit by blast+
    moreover have "jsonChar c = [CHR 0x5C, CHR ''u'', CHR ''0'', CHR ''0'',
        hexDigit (?n div 16), hexDigit (?n mod 16)]"
      using 8 by (simp add: jsonChar_def Let_def)
    ultimately show ?thesis
      by (simp del: unhex.simps)
  next
    case 9
    then have "jsonChar c = [c]" "c \<noteq> CHR 0x5C" by (auto simp: jsonChar_def)
    then show ?thesis by simp
  qed (auto dest!: char_of_eq simp: jsonChar_def char_34 char_92)
qed

lemma jsonChar_not_quote: "jsonChar c \<noteq> [] \<and> hd (jsonChar c) \<noteq> CHR 0x22"
proof -
  have "of_char c = (34 :: nat)" if "c = CHR 0x22" using that by simp
  then show ?thesis by (auto simp: jsonChar_def Let_def)
qed

lemma jsonString_prefix:
  "jsonString s @ r = jsonString t @ r' \<Longrightarrow> s = t \<and> r = r'"
proof -
  have "concat (map jsonChar s) @ CHR 0x22 # r = concat (map jsonChar t) @ CHR 0x22 # r' \<Longrightarrow>
      s = t \<and> r = r'" for t
  proof (induction s arbitrary: t)
    case Nil
    then show ?case using jsonChar_not_quote by (cases t) (auto simp: append_eq_Cons_conv, metis hd_append2 list.sel(1))
  next
    case (Cons c s)
    show ?case
    proof (cases t)
      case Nil
      then show ?thesis using Cons.prems jsonChar_not_quote [of c]
        by simp (metis append_assoc hd_append2 list.sel(1))
    next
      case t: (Cons d t')
      have "unescape (jsonChar c @ concat (map jsonChar s) @ CHR 0x22 # r) =
          unescape (jsonChar d @ concat (map jsonChar t') @ CHR 0x22 # r')"
        using Cons.prems t by simp
      then have "c = d" "concat (map jsonChar s) @ CHR 0x22 # r =
          concat (map jsonChar t') @ CHR 0x22 # r'"
        by (simp_all add: unescape_jsonChar del: unescape.simps)
      then show ?thesis using Cons.IH t by simp
    qed
  qed
  then show "jsonString s @ r = jsonString t @ r' \<Longrightarrow> s = t \<and> r = r'"
    by (simp add: jsonString_def)
qed

lemma jsonElements_inj:
  "length xs = length ys \<Longrightarrow> jsonElements xs @ r = jsonElements ys @ r' \<Longrightarrow> xs = ys \<and> r = r'"
proof (induction xs arbitrary: ys rule: jsonElements.induct)
  case (2 x)
  then obtain y where ys: "ys = [y]" by (cases ys) auto
  with 2(2) have "jsonString x @ r = jsonString y @ r'" by simp
  from jsonString_prefix [OF this] ys show ?case by simp
next
  case (3 x y xs)
  then obtain x' y' ys' where ys: "ys = x' # y' # ys'" by (cases ys; cases "tl ys") auto
  with 3(3) have "jsonString x @ '','' @ jsonElements (y # xs) @ r =
      jsonString x' @ '','' @ jsonElements (y' # ys') @ r'" by simp
  from jsonString_prefix [OF this]
  have "x = x'" "jsonElements (y # xs) @ r = jsonElements (y' # ys') @ r'" by simp_all
  moreover have "length (y # xs) = length (y' # ys')" using 3(2) ys by simp
  ultimately show ?case using 3(1) [of "y' # ys'"] ys by blast
qed auto

lemma jsonArray_inj: "length xs = length ys \<Longrightarrow> jsonArray xs = jsonArray ys \<longleftrightarrow> xs = ys"
  using jsonElements_inj [of xs ys "'']''" "'']''"] by (auto simp: jsonArray_def)

section \<open>What a key identifies\<close>

text \<open>The fields of a target that its key is made of.\<close>

datatype view_identity =
    IWelcome
  | IProject ident ident ident
  | IWorkspace ident ident ident
  | ISession string ident ident ident

fun targetIdentity :: "view_target \<Rightarrow> view_identity" where
  "targetIdentity (TWelcome _) = IWelcome"
| "targetIdentity (TProject e p d) = IProject (definitionIdForTarget (TProject e p d)) e p"
| "targetIdentity (TWorkspace e w ip rl d) = IWorkspace (definitionIdForTarget (TWorkspace e w ip rl d)) e w"
| "targetIdentity (TAgentSession e w a _) = ISession ''agentSession'' e w a"
| "targetIdentity (TNewAgentSession e w d _) = ISession ''newAgentSession'' e w d"
| "targetIdentity (TWorkspaceTerminal e w t _) = ISession ''workspaceTerminal'' e w t"

lemma targetIdentity_targetKey: "targetIdentity a = targetIdentity b \<Longrightarrow> targetKey a = targetKey b"
  by (cases a; cases b) simp_all

fun colon_free :: "view_target \<Rightarrow> bool" where
  "colon_free (TAgentSession e w a _) = (CHR '':'' \<notin> set e \<union> set w)"
| "colon_free (TNewAgentSession e w d _) = (CHR '':'' \<notin> set e \<union> set w)"
| "colon_free (TWorkspaceTerminal e w t _) = (CHR '':'' \<notin> set e \<union> set w)"
| "colon_free _ = True"

lemma split_at_sep:
  "x \<notin> set a \<Longrightarrow> x \<notin> set b \<Longrightarrow> a @ x # c = b @ x # d \<Longrightarrow> a = b \<and> c = d"
proof (induction a arbitrary: b)
  case Nil
  then show ?case by (cases b) auto
next
  case (Cons y a)
  then show ?case by (cases b) auto
qed

lemma split_two:
  assumes "x \<notin> set e \<union> set w" "x \<notin> set e' \<union> set w'"
    and "e @ x # w @ x # a = e' @ x # w' @ x # a'"
  shows "e = e' \<and> w = w' \<and> a = a'"
proof -
  have "e = e' \<and> w @ x # a = w' @ x # a'"
    by (rule split_at_sep) (use assms in auto)
  moreover from this have "w = w' \<and> a = a'"
    using assms by (intro split_at_sep) auto
  ultimately show ?thesis by blast
qed

lemma targetKey_targetIdentity:
  assumes "colon_free a" "colon_free b" "targetKey a = targetKey b"
  shows "targetIdentity a = targetIdentity b"
  using assms
proof (cases a; cases b)
  fix e w i d e' w' i' d'
  assume "a = TAgentSession e w i d" "b = TAgentSession e' w' i' d'"
  then show ?thesis using assms split_two [of "CHR '':''" e w e' w' i i'] by simp
next
  fix e w i d e' w' i' d'
  assume "a = TNewAgentSession e w i d" "b = TNewAgentSession e' w' i' d'"
  then show ?thesis using assms split_two [of "CHR '':''" e w e' w' i i'] by simp
next
  fix e w i d e' w' i' d'
  assume "a = TWorkspaceTerminal e w i d" "b = TWorkspaceTerminal e' w' i' d'"
  then show ?thesis using assms split_two [of "CHR '':''" e w e' w' i i'] by simp
qed (simp_all add: jsonArray_inj del: definitionIdForTarget.simps, simp_all add: jsonArray_def)

section \<open>Properties\<close>

text \<open>
  C39: as long as environment and workspace ids hold no colon, the key of a target is exact: two
  targets have the same key exactly when they agree on everything that identifies them. Ids
  inside the JSON keys of projects and workspaces may be any string.
\<close>

theorem targetKey_exact:
  "colon_free a \<Longrightarrow> colon_free b \<Longrightarrow> targetsEqual a b \<longleftrightarrow> targetIdentity a = targetIdentity b"
  unfolding targetsEqual_def using targetKey_targetIdentity targetIdentity_targetKey by blast

theorem targetKey_exact_witness:
  "\<not> targetsEqual (TAgentSession ''e'' ''w'' ''a:b'' None) (TAgentSession ''e'' ''w'' ''a'' None)"
  using targetKey_exact [of "TAgentSession ''e'' ''w'' ''a:b'' None" "TAgentSession ''e'' ''w'' ''a'' None"]
  by simp

end
