(* ===== verification/WorkbenchState.thy ===== *)
theory WorkbenchState
  imports ScrollingLayout ViewRegistry
begin

text \<open>
  The state of the workbench, its queries and the functions on one tab
  (\<open>apps/web/src/workbench/workbenchState.ts\<close>). Well-formed tabs and snapshots, and the lemmas
  by which the later theories show that their operations keep them.
\<close>

section \<open>Data\<close>

record view_instance =
  viewId :: ident
  definitionId :: ident
  viewTarget :: view_target

datatype title_mode = Auto | Manual

text \<open>
  \<open>WorkbenchTab\<close>. The optional properties are options; \<open>panes\<close> is a JavaScript \<open>Map\<close>, kept as
  an association list in insertion order.
\<close>

record workbench_tab = awen_tab +
  panes :: "(ident \<times> view_instance) list"
  layoutMode :: "layout_mode option"
  columns :: "column list option"
  layoutMemory :: "layout_memory option"
  titleMode :: title_mode
  titleOverride :: "string option"

record snapshot =
  tabs :: "workbench_tab list"
  activeTabId :: ident

type_synonym pane_location = "ident \<times> ident"

definition isSessionViewTarget :: "view_target \<Rightarrow> bool" where
  "isSessionViewTarget target =
     (case target of TAgentSession _ _ _ _ \<Rightarrow> True | TWorkspaceTerminal _ _ _ _ \<Rightarrow> True | _ \<Rightarrow> False)"

abbreviation isWelcome :: "view_instance \<Rightarrow> bool" where
  "isWelcome v \<equiv> (case viewTarget v of TWelcome _ \<Rightarrow> True | _ \<Rightarrow> False)"

text \<open>\<open>snapshot.tabs.find((tab) => tab.id === i)\<close> and \<open>snapshot.tabs.map\<close> with one tab replaced.\<close>

definition findTab :: "snapshot \<Rightarrow> ident \<Rightarrow> workbench_tab option" where
  "findTab snap i = List.find (\<lambda>t. tabId t = i) (tabs snap)"

definition replaceTab :: "snapshot \<Rightarrow> workbench_tab \<Rightarrow> snapshot" where
  "replaceTab snap tab =
     snap\<lparr>tabs := map (\<lambda>current. if tabId current = tabId tab then tab else current) (tabs snap)\<rparr>"

abbreviation theColumns :: "workbench_tab \<Rightarrow> column list" where
  "theColumns tab \<equiv> (case columns tab of Some cs \<Rightarrow> cs | None \<Rightarrow> [])"

section \<open>Queries\<close>

definition getActiveTab :: "snapshot \<Rightarrow> js_error + workbench_tab" where
  "getActiveTab snap =
     (case findTab snap (activeTabId snap) of
        None \<Rightarrow> Inl (JsError ''Workbench active Tab is missing'')
      | Some tab \<Rightarrow> Inr tab)"

datatype session_row_tab_state = ActiveFocused | ActiveUnfocused | BackgroundTab | Unopened

definition getSessionRowTabState :: "snapshot \<Rightarrow> view_target \<Rightarrow> js_error + session_row_tab_state" where
  "getSessionRowTabState snap target =
     (case getActiveTab snap of
        Inl e \<Rightarrow> Inl e
      | Inr activeTab \<Rightarrow> Inr
          (let shows = (\<lambda>(_ :: ident, pane). targetsEqual (viewTarget pane) target) in
           if (case map_of (panes activeTab) (focusedPaneId activeTab) of
                 None \<Rightarrow> False
               | Some focused \<Rightarrow> targetsEqual (viewTarget focused) target)
           then ActiveFocused
           else if list_ex shows (panes activeTab) then ActiveUnfocused
           else if list_ex (\<lambda>otherTab. tabId otherTab \<noteq> tabId activeTab \<and> list_ex shows (panes otherTab))
                     (tabs snap)
           then BackgroundTab
           else Unopened))"

definition findPaneByTarget :: "workbench_tab \<Rightarrow> view_target \<Rightarrow> ident option" where
  "findPaneByTarget tab target =
     (let key = targetKey target
      in map_option fst (List.find (\<lambda>(paneId, view). targetKey (viewTarget view) = key) (panes tab)))"

definition isSameSessionTarget :: "view_target \<Rightarrow> view_target \<Rightarrow> bool" where
  "isSameSessionTarget a b =
     (case (a, b) of
        (TAgentSession e w i _, TAgentSession e' w' i' _) \<Rightarrow> e = e' \<and> w = w' \<and> i = i'
      | (TWorkspaceTerminal e w i _, TWorkspaceTerminal e' w' i' _) \<Rightarrow> e = e' \<and> w = w' \<and> i = i'
      | _ \<Rightarrow> False)"

definition findPaneBySessionTarget :: "workbench_tab \<Rightarrow> view_target \<Rightarrow> ident option" where
  "findPaneBySessionTarget tab target =
     map_option fst (List.find (\<lambda>(paneId, view). isSameSessionTarget (viewTarget view) target) (panes tab))"

text \<open>The first tab, from the left, for which the search answers; with its answer.\<close>

fun firstInTabs :: "(workbench_tab \<Rightarrow> ident option) \<Rightarrow> workbench_tab list \<Rightarrow> pane_location option" where
  "firstInTabs search [] = None"
| "firstInTabs search (tab # rest) =
     (case search tab of
        Some paneId \<Rightarrow> Some (tabId tab, paneId)
      | None \<Rightarrow> firstInTabs search rest)"

definition findSessionViewPane :: "snapshot \<Rightarrow> view_target \<Rightarrow> pane_location option" where
  "findSessionViewPane snap target =
     (if \<not> isSessionViewTarget target then None
      else firstInTabs (\<lambda>tab. findPaneBySessionTarget tab target) (tabs snap))"

definition isSessionViewFocused :: "snapshot \<Rightarrow> view_target \<Rightarrow> js_error + bool" where
  "isSessionViewFocused snap target =
     (case findSessionViewPane snap target of
        None \<Rightarrow> Inr False
      | Some (t, p) \<Rightarrow>
          if t = activeTabId snap then map_sum id (\<lambda>tab. focusedPaneId tab = p) (getActiveTab snap)
          else Inr False)"

definition getPaneTarget :: "snapshot \<Rightarrow> ident \<Rightarrow> js_error + view_target option" where
  "getPaneTarget snap paneId =
     map_sum id (\<lambda>tab. map_option viewTarget (map_of (panes tab) paneId)) (getActiveTab snap)"

definition paneTargetKey :: "snapshot \<Rightarrow> ident \<Rightarrow> js_error + string option" where
  "paneTargetKey snap paneId = map_sum id (map_option targetKey) (getPaneTarget snap paneId)"

text \<open>\<open>findNewAgentSessionPane\<close>; its argument is the fields of the draft target.\<close>

definition isDraft :: "ident \<Rightarrow> ident \<Rightarrow> ident \<Rightarrow> view_target \<Rightarrow> bool" where
  "isDraft e w d target =
     (case target of TNewAgentSession e' w' d' _ \<Rightarrow> e' = e \<and> w' = w \<and> d' = d | _ \<Rightarrow> False)"

definition findNewAgentSessionPane ::
  "snapshot \<Rightarrow> ident \<Rightarrow> ident \<Rightarrow> ident \<Rightarrow> pane_location option" where
  "findNewAgentSessionPane snap e w d =
     firstInTabs
       (\<lambda>tab. map_option fst (List.find (\<lambda>(paneId, view). isDraft e w d (viewTarget view)) (panes tab)))
       (tabs snap)"

section \<open>Construction\<close>

definition viewInstance :: "view_target \<Rightarrow> view_instance js" where
  "viewInstance target =
     js_bind generateId (\<lambda>i.
       js_return \<lparr>viewId = i, definitionId = definitionIdForTarget target, viewTarget = target\<rparr>)"

text \<open>\<open>{...newTab(paneId), panes, titleMode: "auto", titleOverride: null}\<close>\<close>

definition presentationTab :: "awen_tab \<Rightarrow> (ident \<times> view_instance) list \<Rightarrow> workbench_tab" where
  "presentationTab t ps =
     \<lparr>tabId = tabId t, layout = layout t, focusedPaneId = focusedPaneId t, panes = ps,
      layoutMode = None, columns = None, layoutMemory = None,
      titleMode = Auto, titleOverride = None\<rparr>"

definition welcomeTab :: "workbench_tab js" where
  "welcomeTab =
     js_bind generateId (\<lambda>paneId.
     js_bind (newTab paneId) (\<lambda>t.
     js_bind (viewInstance (TWelcome None)) (\<lambda>view.
       js_return (presentationTab t [(paneId, view)]))))"

definition emptyWorkbenchSnapshot :: "snapshot js" where
  "emptyWorkbenchSnapshot =
     js_bind welcomeTab (\<lambda>tab. js_return \<lparr>tabs = [tab], activeTabId = tabId tab\<rparr>)"

section \<open>Reconciliation\<close>

text \<open>
  \<open>reconcileTab\<close>: a tab that is not scrolling is returned as it is; otherwise the columns follow
  the reading order of the layout, then the panes that the layout lacks.
\<close>

definition reconcileTab :: "workbench_tab \<Rightarrow> workbench_tab js" where
  "reconcileTab tab =
     (if layoutMode tab \<noteq> Some Scrolling then js_return tab
      else
        let ids = filter (\<lambda>i. has_key (panes tab) i) (leafIds (layout tab));
            ids' = fold (\<lambda>i acc. if i \<in> set acc then acc else acc @ [i]) (keys (panes tab)) ids
        in js_bind (reconcileColumns (theColumns tab) ids') (\<lambda>cs.
             js_return (tab\<lparr>columns := Some cs, layout := columnsTree cs\<rparr>)))"

definition updateTab :: "snapshot \<Rightarrow> workbench_tab \<Rightarrow> snapshot js" where
  "updateTab snap tab = js_bind (reconcileTab tab) (\<lambda>tab'. js_return (replaceTab snap tab'))"

definition clearedTab :: "workbench_tab \<Rightarrow> workbench_tab js" where
  "clearedTab tab =
     js_bind welcomeTab (\<lambda>w.
       reconcileTab
         (w\<lparr>tabId := tabId tab, titleMode := titleMode tab, titleOverride := titleOverride tab,
            layoutMode := Some (case layoutMode tab of Some m \<Rightarrow> m | None \<Rightarrow> Bsp)\<rparr>))"

definition removeViewFromTab :: "workbench_tab \<Rightarrow> ident \<Rightarrow> workbench_tab option js" where
  "removeViewFromTab tab paneId =
     (if \<not> has_key (panes tab) paneId then js_return None
      else
        js_bind (js_lift (closeLeaf tab paneId)) (\<lambda>next.
          case next of
            None \<Rightarrow> js_bind (clearedTab tab) (\<lambda>t. js_return (Some t))
          | Some tab' \<Rightarrow>
              js_bind (reconcileTab (tab'\<lparr>panes := AList.delete paneId (panes tab)\<rparr>))
                (\<lambda>t. js_return (Some t))))"

definition placedLayout ::
  "workbench_tab \<Rightarrow> ident \<Rightarrow> ident \<Rightarrow> pane_drop_zone \<Rightarrow> workbench_tab js" where
  "placedLayout tab paneId targetId zone =
     (if layoutMode tab \<noteq> Some Scrolling then
        (case zone of
           Replace \<Rightarrow> js_return (tab\<lparr>layout := replaceLeafId (layout tab) targetId paneId\<rparr>)
         | Edge edge \<Rightarrow>
             js_bind (placePane (layout tab) paneId targetId edge) (\<lambda>l. js_return (tab\<lparr>layout := l\<rparr>)))
      else
        js_bind (placeInColumns (theColumns tab) paneId targetId zone) (\<lambda>cs.
          js_return (tab\<lparr>columns := Some cs, layout := columnsTree cs\<rparr>)))"

text \<open>The preview of a drag: the tab as if the dragged pane were gone.\<close>

definition initialPaneDropTarget :: "workbench_tab \<Rightarrow> ident \<Rightarrow> drop_pane option" where
  "initialPaneDropTarget tab paneId =
     (if length (panes tab) \<le> 1 then None
      else if layoutMode tab = Some Scrolling then
        adjacentScrollingPaneTarget (theColumns tab) (tabId tab) paneId
      else
        case leafParent (layout tab) paneId of
          None \<Rightarrow> None
        | Some parent \<Rightarrow>
            (let neighborDir =
                   (if dir parent = SplitRight then (if 0 < index parent then FLeft else FRight)
                    else if 0 < index parent then FUp else FDown);
                 zone =
                   (if dir parent = SplitRight then (if index parent = 0 then ELeft else ERight)
                    else if index parent = 0 then ETop else EBottom)
             in case neighborLeafId (layout tab) paneId neighborDir of
                  None \<Rightarrow> None
                | Some neighbor \<Rightarrow>
                    Some \<lparr>dp_tabId = tabId tab, dp_paneId = neighbor, dp_zone = zone\<rparr>))"

definition computeBaseTab :: "workbench_tab \<Rightarrow> ident \<Rightarrow> workbench_tab option js" where
  "computeBaseTab tab draggedPaneId =
     (if length (panes tab) \<le> 1 then js_return None
      else if \<not> has_key (panes tab) draggedPaneId then js_return (Some tab)
      else
        let remaining = AList.delete draggedPaneId (panes tab) in
        if layoutMode tab = Some Scrolling then
          js_bind (reconcileColumns (theColumns tab) (keys remaining)) (\<lambda>cs.
            js_return (Some (tab\<lparr>layout := columnsTree cs, columns := Some cs, panes := remaining\<rparr>)))
        else
          js_return (map_option (\<lambda>l. tab\<lparr>layout := l, panes := remaining\<rparr>)
            (removePane (layout tab) draggedPaneId)))"

section \<open>Titles\<close>

text \<open>
  \<open>String.prototype.trim\<close> on the characters of the model. The resolver of target titles is an
  argument, as in the code; \<open>fallbackTargetTitle\<close> is from \<open>workbenchTitles.ts\<close>.
\<close>

definition jsSpace :: "char \<Rightarrow> bool" where
  "jsSpace c = (let n = of_char c :: nat in n \<in> {9, 10, 11, 12, 13, 32, 160})"

definition js_trim :: "string \<Rightarrow> string" where
  "js_trim s = rev (dropWhile jsSpace (rev (dropWhile jsSpace s)))"

definition fallbackTargetTitle :: "view_target \<Rightarrow> string" where
  "fallbackTargetTitle target =
     (case target of
        TWelcome _ \<Rightarrow> ''Welcome''
      | TProject _ _ _ \<Rightarrow> ''Project''
      | TWorkspace _ _ _ _ d \<Rightarrow>
          (if d = Some ''fileView'' then ''Files''
           else if d = Some ''gitView'' then ''Changes''
           else ''Workspace'')
      | TAgentSession _ _ _ _ \<Rightarrow> ''Agent''
      | TNewAgentSession _ _ _ _ \<Rightarrow> ''New Agent Session''
      | TWorkspaceTerminal _ _ _ _ \<Rightarrow> ''Terminal'')"

definition tabDisplayTitle ::
  "workbench_tab \<Rightarrow> (view_target \<Rightarrow> string) \<Rightarrow> js_error + string" where
  "tabDisplayTitle tab resolveTargetTitle =
     (case (titleMode tab, titleOverride tab) of
        (Manual, Some t) \<Rightarrow> Inr t
      | _ \<Rightarrow>
          map_sum id
            (\<lambda>first. case map_of (panes tab) first of
                None \<Rightarrow> ''Welcome''
              | Some firstPane \<Rightarrow>
                  (let resolved = js_trim (resolveTargetTitle (viewTarget firstPane))
                   in if 0 < length resolved then resolved
                      else fallbackTargetTitle (viewTarget firstPane)))
            (firstLeafId (layout tab)))"

section \<open>Well-formed tabs\<close>

definition wf_memory :: "layout_memory \<Rightarrow> bool" where
  "wf_memory m \<longleftrightarrow>
     (\<forall>t. memoryBsp m = Some t \<longrightarrow> wf_layout t \<and> distinct (leafIds t)) \<and>
     (\<forall>cs. memoryColumns m = Some cs \<longrightarrow> cols_pos cs)"

definition tab_core :: "workbench_tab \<Rightarrow> bool" where
  "tab_core t \<longleftrightarrow> distinct (keys (panes t)) \<and> focusedPaneId t \<in> set (keys (panes t)) \<and>
     (\<forall>m. layoutMemory t = Some m \<longrightarrow> wf_memory m)"

definition layout_covers :: "workbench_tab \<Rightarrow> bool" where
  "layout_covers t \<longleftrightarrow> wf_layout (layout t) \<and> distinct (leafIds (layout t)) \<and>
     set (leafIds (layout t)) = set (keys (panes t))"

definition wf_tab :: "workbench_tab \<Rightarrow> bool" where
  "wf_tab t \<longleftrightarrow> tab_core t \<and> layout_covers t \<and>
     (layoutMode t = Some Scrolling \<longrightarrow>
        (\<exists>cs. columns t = Some cs \<and> cols_ok cs \<and> layout t = columnsTree cs))"

text \<open>What suffices before reconciliation: the layout of a scrolling tab may be anything.\<close>

definition tab_pre :: "workbench_tab \<Rightarrow> bool" where
  "tab_pre t \<longleftrightarrow> tab_core t \<and>
     (if layoutMode t = Some Scrolling then cols_pos (theColumns t) else layout_covers t)"

lemma wf_tab_pre: "wf_tab t \<Longrightarrow> tab_pre t"
  by (auto simp: wf_tab_def tab_pre_def cols_ok_pos)

lemma wf_tab_columns: "wf_tab t \<Longrightarrow> layoutMode t = Some Scrolling \<Longrightarrow>
    cols_ok (theColumns t) \<and> columns t = Some (theColumns t) \<and> layout t = columnsTree (theColumns t) \<and>
    set (colIds (theColumns t)) = set (keys (panes t))"
  using columnsTree_spec(1) [of "theColumns t"]
  by (clarsimp simp: wf_tab_def layout_covers_def cols_ok_def)

text \<open>The panes that \<open>reconcileTab\<close> asks for: those of the layout that exist, then the others.\<close>

definition reconcile_ids :: "workbench_tab \<Rightarrow> ident list" where
  "reconcile_ids t = fold (\<lambda>i acc. if i \<in> set acc then acc else acc @ [i]) (keys (panes t))
     (filter (has_key (panes t)) (leafIds (layout t)))"

lemma fold_add_missing:
  "set (fold (\<lambda>i acc. if i \<in> set acc then acc else acc @ [i]) ks acc) = set acc \<union> set ks"
  by (induction ks arbitrary: acc) auto

lemma set_reconcile_ids: "set (reconcile_ids t) = set (keys (panes t))"
  unfolding reconcile_ids_def fold_add_missing by auto

lemma reconcileTab_scrolling:
  "layoutMode t = Some Scrolling \<Longrightarrow> reconcileTab t =
     js_bind (reconcileColumns (theColumns t) (reconcile_ids t)) (\<lambda>cs.
       js_return (t\<lparr>columns := Some cs, layout := columnsTree cs\<rparr>))"
  by (simp add: reconcileTab_def reconcile_ids_def Let_def del: has_key_iff)

lemma reconcileTab_wp:
  assumes "supply_inv I" "I s" "tab_pre t"
  shows "wp (reconcileTab t)
    (\<lambda>t' s'. (wf_tab t' \<and> (\<exists>cs l. t' = t\<lparr>columns := cs, layout := l\<rparr>)) \<and> I s') s"
proof (cases "layoutMode t = Some Scrolling")
  case True
  let ?ids = "reconcile_ids t"
  note ids = set_reconcile_ids [of t]
  have core: "tab_core t" "cols_pos (theColumns t)" using assms(3) True by (simp_all add: tab_pre_def)
  then have ne: "?ids \<noteq> []" using ids by (auto simp: tab_core_def)
  show ?thesis
    unfolding reconcileTab_scrolling [OF True] wp_bind
  proof (rule wp_mono [OF reconcileColumns_wp [OF assms(1,2) core(2), of ?ids]])
    fix cs s' assume a: "((?ids \<noteq> [] \<longrightarrow> cols_ok cs) \<and> set (colIds cs) = set ?ids \<and> distinct (colIds cs) \<and>
        (\<forall>c \<in> set cs. col_ok c) \<and> (distinct (colIds (theColumns t)) \<longrightarrow>
          colIds cs = filter (\<lambda>i. i \<in> set ?ids) (colIds (theColumns t)) @
           filter (\<lambda>i. i \<notin> set (colIds (theColumns t))) (setOf ?ids))) \<and> I s'"
    then have cs: "cols_ok cs" "set (colIds cs) = set (keys (panes t))" and s': "I s'"
      using ne ids by auto
    have tree: "leafIds (columnsTree cs) = colIds cs" "wf_layout (columnsTree cs)"
      using columnsTree_spec [of cs] cs(1) by (simp_all add: cols_ok_def)
    have "wf_tab (t\<lparr>columns := Some cs, layout := columnsTree cs\<rparr>)"
      using core(1) cs tree True by (simp add: wf_tab_def tab_core_def layout_covers_def cols_ok_def)
    then show "wp (js_return (t\<lparr>columns := Some cs, layout := columnsTree cs\<rparr>))
      (\<lambda>t' s'. (wf_tab t' \<and> (\<exists>cs l. t' = t\<lparr>columns := cs, layout := l\<rparr>)) \<and> I s') s'"
      using s' by auto
  qed
next
  case False
  have "\<exists>cs l. t = t\<lparr>columns := cs, layout := l\<rparr>"
    by (intro exI [of _ "columns t"] exI [of _ "layout t"]) simp
  then show ?thesis using assms False
    by (simp add: reconcileTab_def tab_pre_def wf_tab_def)
qed

text \<open>A well-formed tab is returned as it is, and no identifier is drawn.\<close>

lemma reconcileTab_same:
  assumes "wf_tab t"
  shows "reconcileTab t = js_return t"
proof (cases "layoutMode t = Some Scrolling")
  case True
  note cs = wf_tab_columns [OF assms True]
  have "reconcileColumns (theColumns t) (reconcile_ids t) = js_return (theColumns t)"
    using cs by (intro reconcileColumns_same) (auto simp: cols_ok_def set_reconcile_ids)
  moreover have "t\<lparr>columns := Some (theColumns t), layout := columnsTree (theColumns t)\<rparr> = t"
    using cs by simp
  ultimately show ?thesis
    by (simp add: reconcileTab_scrolling [OF True] js_bind_def) (simp add: js_return_def)
qed (simp add: reconcileTab_def)

section \<open>Coherent occurrences\<close>

text \<open>
  An occurrence is a view in a pane of a tab. \<open>coh U\<close>: no two occurrences share their pane or
  their view, nor, if \<open>U\<close> holds, the session they show. Every operation is shown to preserve
  \<open>coh U\<close> for both values of \<open>U\<close>: with False the structure, with True the rule that a session
  has one view in the whole workbench.
\<close>

type_synonym occurrence = "ident \<times> ident \<times> view_instance"

definition sameSession :: "view_instance \<Rightarrow> view_instance \<Rightarrow> bool" where
  "sameSession v w = isSameSessionTarget (viewTarget v) (viewTarget w)"

fun clash :: "bool \<Rightarrow> occurrence \<Rightarrow> occurrence \<Rightarrow> bool" where
  "clash U (_, p, v) (_, q, w) \<longleftrightarrow> p = q \<or> viewId v = viewId w \<or> (U \<and> sameSession v w)"

definition coh :: "bool \<Rightarrow> occurrence set \<Rightarrow> bool" where
  "coh U A \<longleftrightarrow> (\<forall>x \<in> A. \<forall>y \<in> A. clash U x y \<longrightarrow> x = y)"

definition tabOcc :: "workbench_tab \<Rightarrow> occurrence set" where
  "tabOcc t = (\<lambda>(p, v). (tabId t, p, v)) ` set (panes t)"

definition occ :: "snapshot \<Rightarrow> occurrence set" where
  "occ snap = (\<Union>t \<in> set (tabs snap). tabOcc t)"

definition occIds :: "occurrence set \<Rightarrow> ident set" where
  "occIds A = (\<lambda>x. fst (snd x)) ` A \<union> (\<lambda>x. viewId (snd (snd x))) ` A"

lemma isSameSessionTarget_sym: "isSameSessionTarget a b = isSameSessionTarget b a"
  by (cases a; cases b) (auto simp: isSameSessionTarget_def)

lemma clash_sym: "clash U x y = clash U y x"
  by (cases x; cases y) (auto simp: sameSession_def isSameSessionTarget_sym)

lemma coh_subset: "coh U A \<Longrightarrow> B \<subseteq> A \<Longrightarrow> coh U B"
  unfolding coh_def by blast

lemma coh_insert: "coh U (insert x A) \<longleftrightarrow> coh U A \<and> (\<forall>y \<in> A. clash U x y \<longrightarrow> x = y)"
  unfolding coh_def using clash_sym by blast

lemma coh_empty [simp]: "coh U {}"
  by (simp add: coh_def)

lemma occIds_simps [simp]:
  "occIds {} = {}"
  "occIds (insert (t, p, v) A) = {p, viewId v} \<union> occIds A"
  "occIds (A \<union> B) = occIds A \<union> occIds B"
  by (simp_all add: occIds_def image_Un Un_ac insert_commute)

lemma occIds_mono: "A \<subseteq> B \<Longrightarrow> occIds A \<subseteq> occIds B"
  unfolding occIds_def by (intro Un_mono image_mono)

lemma in_occIds: "(t, p, v) \<in> A \<Longrightarrow> p \<in> occIds A \<and> viewId v \<in> occIds A"
  by (force simp: occIds_def)

lemma coh_new:
  assumes "coh U A" "p \<notin> occIds A" "viewId v \<notin> occIds A"
    and "U \<Longrightarrow> \<forall>(t', q, w) \<in> A. \<not> sameSession v w"
  shows "coh U (insert (t, p, v) A)"
  unfolding coh_insert using assms in_occIds by fastforce

lemma sameSession_session:
  "isSameSessionTarget a b \<Longrightarrow> isSessionViewTarget a \<and> isSessionViewTarget b"
  by (cases a; cases b) (auto simp: isSameSessionTarget_def isSessionViewTarget_def)

lemma welcome_not_session: "isWelcome v \<Longrightarrow> \<not> sameSession v w"
  by (cases "viewTarget v") (auto simp: sameSession_def isSameSessionTarget_def)

lemma sameSession_targetKey: "isSameSessionTarget a b \<Longrightarrow> targetKey a = targetKey b"
  by (cases a; cases b) (auto simp: isSameSessionTarget_def)

lemma isSameSessionTarget_refl: "isSameSessionTarget a a = isSessionViewTarget a"
  by (cases a) (auto simp: isSameSessionTarget_def isSessionViewTarget_def)

lemma isSameSessionTarget_trans:
  "isSameSessionTarget a b \<Longrightarrow> isSameSessionTarget b c \<Longrightarrow> isSameSessionTarget a c"
  by (cases a; cases b; cases c) (auto simp: isSameSessionTarget_def)

section \<open>Well-formed snapshots\<close>

definition wf_snapshot :: "bool \<Rightarrow> snapshot \<Rightarrow> bool" where
  "wf_snapshot U snap \<longleftrightarrow> distinct (map tabId (tabs snap)) \<and>
     activeTabId snap \<in> tabId ` set (tabs snap) \<and> (\<forall>t \<in> set (tabs snap). wf_tab t) \<and>
     coh U (occ snap)"

definition wbIds :: "snapshot \<Rightarrow> ident set" where
  "wbIds snap = tabId ` set (tabs snap) \<union> occIds (occ snap)"

text \<open>A well-formed snapshot, together with identifiers to come that it does not use.\<close>

definition good :: "bool \<Rightarrow> snapshot \<Rightarrow> ids \<Rightarrow> bool" where
  "good U snap s \<longleftrightarrow> wf_snapshot U snap \<and> fresh s (wbIds snap)"

lemma findTab_Some: "findTab snap i = Some t \<Longrightarrow> t \<in> set (tabs snap) \<and> tabId t = i"
  unfolding findTab_def using find_Some_in by fastforce

lemma findTab_None: "findTab snap i = None \<longleftrightarrow> i \<notin> tabId ` set (tabs snap)"
  unfolding findTab_def by (auto simp: find_None_iff)

lemma getActiveTab_ok:
  assumes "wf_snapshot U snap"
  obtains t where "getActiveTab snap = Inr t" "t \<in> set (tabs snap)" "tabId t = activeTabId snap" "wf_tab t"
proof -
  obtain t where "findTab snap (activeTabId snap) = Some t"
    using assms findTab_None [of snap "activeTabId snap"] by (auto simp: wf_snapshot_def)
  then show ?thesis
    using that findTab_Some assms by (fastforce simp: getActiveTab_def wf_snapshot_def)
qed

lemma tabs_eq: "wf_snapshot U snap \<Longrightarrow> t \<in> set (tabs snap) \<Longrightarrow> t' \<in> set (tabs snap) \<Longrightarrow>
    tabId t = tabId t' \<Longrightarrow> t = t'"
  by (auto simp: wf_snapshot_def distinct_map inj_on_def)

lemma occ_in: "t \<in> set (tabs snap) \<Longrightarrow> tabOcc t \<subseteq> occ snap"
  by (auto simp: occ_def)

lemma tabOcc_iff [simp]: "(i, p, v) \<in> tabOcc t \<longleftrightarrow> i = tabId t \<and> (p, v) \<in> set (panes t)"
  by (auto simp: tabOcc_def)

lemma tabOcc_fields [simp]:
  "tabOcc (t\<lparr>columns := cs\<rparr>) = tabOcc t" "tabOcc (t\<lparr>layout := l\<rparr>) = tabOcc t"
  "tabOcc (t\<lparr>focusedPaneId := f\<rparr>) = tabOcc t"
  by (simp_all add: tabOcc_def)

lemma occ_iff: "(i, p, v) \<in> occ snap \<longleftrightarrow> (\<exists>t \<in> set (tabs snap). tabId t = i \<and> (p, v) \<in> set (panes t))"
  by (auto simp: occ_def)

text \<open>The occurrences outside one tab.\<close>

definition occ_but :: "snapshot \<Rightarrow> ident \<Rightarrow> occurrence set" where
  "occ_but snap i = {x \<in> occ snap. fst x \<noteq> i}"

lemma occ_but_subset: "occ_but snap i \<subseteq> occ snap"
  by (auto simp: occ_but_def)

lemma replaceTab_simps [simp]:
  "map tabId (tabs (replaceTab snap t)) = map tabId (tabs snap)"
  "activeTabId (replaceTab snap t) = activeTabId snap"
  "length (tabs (replaceTab snap t)) = length (tabs snap)"
  by (auto simp: replaceTab_def)

lemma tabIds_replaceTab [simp]: "tabId ` set (tabs (replaceTab snap t)) = tabId ` set (tabs snap)"
  by (metis list.set_map replaceTab_simps(1))

lemma set_replaceTab:
  "tabId t \<in> tabId ` set (tabs snap) \<Longrightarrow>
     set (tabs (replaceTab snap t)) = insert t {u \<in> set (tabs snap). tabId u \<noteq> tabId t}"
  by (auto simp: replaceTab_def)

lemma occ_replaceTab:
  "tabId t \<in> tabId ` set (tabs snap) \<Longrightarrow>
     occ (replaceTab snap t) = tabOcc t \<union> occ_but snap (tabId t)"
  unfolding occ_def by (simp add: set_replaceTab) (auto simp: occ_but_def occ_def tabOcc_def)

lemma occ_split: "wf_snapshot U snap \<Longrightarrow> t \<in> set (tabs snap) \<Longrightarrow> occ snap = tabOcc t \<union> occ_but snap (tabId t)"
  using tabs_eq by (fastforce simp: occ_but_def occ_def tabOcc_def)

lemma wf_replaceTab:
  assumes "wf_snapshot U snap" "tabId t \<in> tabId ` set (tabs snap)" "wf_tab t"
    and "coh U (tabOcc t \<union> occ_but snap (tabId t))"
  shows "wf_snapshot U (replaceTab snap t)"
  using assms by (auto simp: wf_snapshot_def occ_replaceTab set_replaceTab)

lemma wbIds_replaceTab:
  "tabId t \<in> tabId ` set (tabs snap) \<Longrightarrow>
     wbIds (replaceTab snap t) \<subseteq> wbIds snap \<union> occIds (tabOcc t)"
  using occIds_mono [OF occ_but_subset] by (auto simp: wbIds_def occ_replaceTab)

text \<open>
  The general step: replacing a tab by one that is ready for reconciliation keeps the snapshot
  well formed when the occurrences remain coherent.
\<close>

lemma updateTab_wp:
  assumes "wf_snapshot U snap" "tabId t \<in> tabId ` set (tabs snap)" "tab_pre t"
    and "coh U (tabOcc t \<union> occ_but snap (tabId t))"
    and "fresh s (wbIds snap \<union> occIds (tabOcc t))"
  shows "wp (updateTab snap t)
    (\<lambda>snap' s'. good U snap' s' \<and>
       (\<exists>cs l. snap' = replaceTab snap (t\<lparr>columns := cs, layout := l\<rparr>))) s"
  unfolding updateTab_def wp_bind
proof (rule wp_mono [OF reconcileTab_wp [OF supply_inv_fresh assms(5,3)]])
  fix t' s'
  assume "(wf_tab t' \<and> (\<exists>cs l. t' = t\<lparr>columns := cs, layout := l\<rparr>)) \<and>
    fresh s' (wbIds snap \<union> occIds (tabOcc t))"
  then obtain cs l where t': "wf_tab t'" "t' = t\<lparr>columns := cs, layout := l\<rparr>"
    and f: "fresh s' (wbIds snap \<union> occIds (tabOcc t))" by blast
  have id: "tabId t' \<in> tabId ` set (tabs snap)" "tabOcc t' = tabOcc t" "tabId t' = tabId t"
    using assms(2) t'(2) by simp_all
  have "wf_snapshot U (replaceTab snap t')"
    using assms id t'(1) by (intro wf_replaceTab) simp_all
  moreover have "fresh s' (wbIds (replaceTab snap t'))"
    using wbIds_replaceTab [OF id(1)] f id(2) by (auto intro: fresh_antimono)
  ultimately show "wp (js_return (replaceTab snap t')) (\<lambda>snap' s'. good U snap' s' \<and>
       (\<exists>cs l. snap' = replaceTab snap (t\<lparr>columns := cs, layout := l\<rparr>))) s'"
    using t'(2) by (auto simp: good_def)
qed

section \<open>New tabs\<close>

lemma occIds_tabOcc_single [simp]:
  "panes t = [(p, v)] \<Longrightarrow> tabOcc t = {(tabId t, p, v)}"
  by (simp add: tabOcc_def)

lemma presentationTab_simps [simp]:
  "tabId (presentationTab t ps) = tabId t" "panes (presentationTab t ps) = ps"
  "layoutMode (presentationTab t ps) = None" "focusedPaneId (presentationTab t ps) = focusedPaneId t"
  by (simp_all add: presentationTab_def)

lemma presentationTab_wf:
  "wf_tab (presentationTab \<lparr>tabId = i, layout = leaf p, focusedPaneId = p\<rparr> [(p, v)])"
  by (simp add: presentationTab_def wf_tab_def tab_core_def layout_covers_def leaf_def)

definition welcome_in :: "ident set \<Rightarrow> workbench_tab \<Rightarrow> bool" where
  "welcome_in A t \<longleftrightarrow> (\<exists>p v. panes t = [(p, v)] \<and> isWelcome v \<and> p \<notin> A \<and> viewId v \<notin> A)"

text \<open>A new tab with one view in one pane.\<close>

definition singleTab :: "ident \<Rightarrow> ident \<Rightarrow> view_instance \<Rightarrow> workbench_tab" where
  "singleTab i p v = presentationTab \<lparr>tabId = i, layout = leaf p, focusedPaneId = p\<rparr> [(p, v)]"

lemma singleTab_wf [simp]: "wf_tab (singleTab i p v)"
  by (simp add: singleTab_def presentationTab_wf)

lemma singleTab_simps [simp]:
  "tabId (singleTab i p v) = i" "panes (singleTab i p v) = [(p, v)]"
  "focusedPaneId (singleTab i p v) = p" "layout (singleTab i p v) = leaf p"
  "columns (singleTab i p v) = None" "layoutMemory (singleTab i p v) = None"
  "layoutMode (singleTab i p v) = None"
  by (simp_all add: singleTab_def presentationTab_def)

lemma welcomeTab_wp:
  assumes "fresh s A"
  shows "wp welcomeTab (\<lambda>t s'. (\<exists>i p v. t = singleTab i p v \<and> isWelcome v \<and>
     i \<notin> A \<and> p \<notin> A \<and> viewId v \<notin> A \<and> fresh s' ({i, p, viewId v} \<union> A))) s"
proof -
  have f1: "fresh (stl s) (insert (shd s) A)" using fresh_stl [OF assms] .
  have f2: "fresh (stl (stl s)) (insert (shd (stl s)) (insert (shd s) A))" using fresh_stl [OF f1] .
  have f3: "fresh (stl (stl (stl s))) (insert (shd (stl (stl s))) (insert (shd (stl s)) (insert (shd s) A)))"
    using fresh_stl [OF f2] .
  have n: "shd s \<notin> A" "shd (stl s) \<notin> A" "shd (stl (stl s)) \<notin> A"
    using fresh_shd [OF assms] fresh_shd [OF f1] fresh_shd [OF f2] by auto
  let ?v = "\<lparr>viewId = shd (stl (stl s)), definitionId = ''welcome'', viewTarget = TWelcome None\<rparr>"
  have "wp welcomeTab (\<lambda>t s'. t = singleTab (shd (stl s)) (shd s) ?v \<and> s' = stl (stl (stl s))) s"
    by (simp add: welcomeTab_def newTab_def viewInstance_def singleTab_def)
  then show ?thesis
  proof (rule wp_mono)
    fix t s' assume t: "t = singleTab (shd (stl s)) (shd s) ?v \<and> s' = stl (stl (stl s))"
    have "fresh s' ({shd (stl s), shd s, viewId ?v} \<union> A)"
      using f3 t by (auto elim: fresh_antimono)
    then show "\<exists>i p v. t = singleTab i p v \<and> isWelcome v \<and>
        i \<notin> A \<and> p \<notin> A \<and> viewId v \<notin> A \<and> fresh s' ({i, p, viewId v} \<union> A)"
      using t n by (intro exI [of _ "shd (stl s)"] exI [of _ "shd s"] exI [of _ ?v]) simp
  qed
qed

text \<open>A cleared tab holds one new welcome view; its title and its mode stay.\<close>

lemma clearedTab_wp:
  assumes "fresh s A"
  shows "wp (clearedTab t) (\<lambda>t' s'. (\<exists>p v cs l. t' = (singleTab (tabId t) p v)\<lparr>titleMode := titleMode t,
      titleOverride := titleOverride t, layoutMode := Some (case layoutMode t of Some m \<Rightarrow> m | None \<Rightarrow> Bsp),
      columns := cs, layout := l\<rparr> \<and> isWelcome v \<and> p \<notin> A \<and> viewId v \<notin> A \<and>
      wf_tab t' \<and> fresh s' ({p, viewId v} \<union> A))) s"
  unfolding clearedTab_def wp_bind
proof (rule wp_mono [OF welcomeTab_wp [OF assms]], elim exE conjE)
  fix w s' i p v
  let ?mode = "Some (case layoutMode t of Some m \<Rightarrow> m | None \<Rightarrow> Bsp)"
  assume w: "w = singleTab i p v" "isWelcome v" "p \<notin> A" "viewId v \<notin> A" "fresh s' ({i, p, viewId v} \<union> A)"
  let ?t = "w\<lparr>tabId := tabId t, titleMode := titleMode t, titleOverride := titleOverride t, layoutMode := ?mode\<rparr>"
  have pre: "tab_pre ?t"
    by (simp add: w(1) tab_pre_def tab_core_def layout_covers_def leaf_def cols_pos_def)
  show "wp (reconcileTab ?t) (\<lambda>t' s'. (\<exists>p v cs l. t' = (singleTab (tabId t) p v)\<lparr>titleMode := titleMode t,
      titleOverride := titleOverride t, layoutMode := ?mode, columns := cs, layout := l\<rparr> \<and>
      isWelcome v \<and> p \<notin> A \<and> viewId v \<notin> A \<and> wf_tab t' \<and> fresh s' ({p, viewId v} \<union> A))) s'"
  proof (rule wp_mono [OF reconcileTab_wp [OF supply_inv_fresh w(5) pre]], elim exE conjE)
    fix t' s2 cs l
    assume r: "fresh s2 ({i, p, viewId v} \<union> A)" "wf_tab t'" "t' = ?t\<lparr>columns := cs, layout := l\<rparr>"
    have "t' = (singleTab (tabId t) p v)\<lparr>titleMode := titleMode t,
      titleOverride := titleOverride t, layoutMode := ?mode, columns := cs, layout := l\<rparr>"
      using r(3) by (simp add: w(1) singleTab_def presentationTab_def)
    moreover have "fresh s2 ({p, viewId v} \<union> A)" using r(1) by (rule fresh_antimono) auto
    ultimately show "\<exists>p v cs l. t' = (singleTab (tabId t) p v)\<lparr>titleMode := titleMode t,
      titleOverride := titleOverride t, layoutMode := ?mode, columns := cs, layout := l\<rparr> \<and>
      isWelcome v \<and> p \<notin> A \<and> viewId v \<notin> A \<and> wf_tab t' \<and> fresh s2 ({p, viewId v} \<union> A)"
      using w r(2) by blast
  qed
qed

section \<open>Adding and removing occurrences\<close>

definition pane_free :: "ident \<Rightarrow> occurrence set \<Rightarrow> bool" where
  "pane_free p A \<longleftrightarrow> (\<forall>x \<in> A. fst (snd x) \<noteq> p)"

definition view_free :: "bool \<Rightarrow> view_instance \<Rightarrow> occurrence set \<Rightarrow> bool" where
  "view_free U v A \<longleftrightarrow>
     (\<forall>x \<in> A. viewId (snd (snd x)) \<noteq> viewId v \<and> \<not> (U \<and> sameSession v (snd (snd x))))"

lemma coh_add: "coh U A \<Longrightarrow> pane_free p A \<Longrightarrow> view_free U v A \<Longrightarrow> coh U (insert (i, p, v) A)"
  unfolding coh_insert pane_free_def view_free_def by fastforce

lemma pane_free_new: "p \<notin> occIds A \<Longrightarrow> pane_free p A"
  by (auto simp: pane_free_def occIds_def)

lemma view_free_new:
  "viewId v \<notin> occIds A \<Longrightarrow> (U \<Longrightarrow> \<forall>x \<in> A. \<not> sameSession v (snd (snd x))) \<Longrightarrow> view_free U v A"
  unfolding view_free_def occIds_def by (metis (no_types, lifting) UnI2 imageI)

lemma free_subset:
  "pane_free p A \<Longrightarrow> B \<subseteq> A \<Longrightarrow> pane_free p B"
  "view_free U v A \<Longrightarrow> B \<subseteq> A \<Longrightarrow> view_free U v B"
  by (auto simp: pane_free_def view_free_def)

lemma free_Un [simp]:
  "pane_free p (A \<union> B) \<longleftrightarrow> pane_free p A \<and> pane_free p B"
  "view_free U v (A \<union> B) \<longleftrightarrow> view_free U v A \<and> view_free U v B"
  by (auto simp: pane_free_def view_free_def)

lemma free_insert [simp]:
  "pane_free p (insert (i, q, w) A) \<longleftrightarrow> q \<noteq> p \<and> pane_free p A"
  "view_free U v (insert (i, q, w) A) \<longleftrightarrow>
     viewId w \<noteq> viewId v \<and> \<not> (U \<and> sameSession v w) \<and> view_free U v A"
  by (auto simp: pane_free_def view_free_def)

lemma free_empty [simp]: "pane_free p {}" "view_free U v {}"
  by (simp_all add: pane_free_def view_free_def)

lemma coh_removed:
  assumes "coh U A" "(i, p, v) \<in> A" "B \<subseteq> A" "(i, p, v) \<notin> B"
  shows "pane_free p B \<and> view_free U v B"
proof -
  have "\<not> clash U (i, p, v) x" if "x \<in> B" for x
    using assms that unfolding coh_def by blast
  then show ?thesis by (fastforce simp: pane_free_def view_free_def)
qed

lemma set_delete: "distinct (keys m) \<Longrightarrow> set (AList.delete k m) = {x \<in> set m. fst x \<noteq> k}"
  by (auto simp: AList.delete_eq)

lemma set_update_map:
  "distinct (keys m) \<Longrightarrow> set (AList.update k v m) = insert (k, v) {x \<in> set m. fst x \<noteq> k}"
proof (induction m)
  case (Cons a m)
  have "{x \<in> set m. fst x \<noteq> fst a} = set m" using Cons.prems by (auto simp: image_iff)
  then show ?case using Cons by (cases a) auto
qed simp

lemma keys_update_distinct [simp]: "distinct (keys m) \<Longrightarrow> distinct (keys (AList.update k v m))"
  by (rule distinct_update)

lemma map_of_in: "distinct (keys m) \<Longrightarrow> map_of m k = Some v \<longleftrightarrow> (k, v) \<in> set m"
  by (rule map_of_eq_Some_iff)

section \<open>Closing a pane of a tab\<close>

lemma tabOcc_panes: "tabOcc (t\<lparr>panes := ps\<rparr>) = (\<lambda>(p, v). (tabId t, p, v)) ` set ps"
  by (simp add: tabOcc_def)

lemma closeLeaf_tab:
  assumes wf: "wf_tab t" and v: "map_of (panes t) p = Some v"
  shows "closeLeaf t p = Inr None \<and> panes t = [(p, v)] \<or>
    (\<exists>n f. closeLeaf t p = Inr (Some (t\<lparr>layout := n, focusedPaneId := f\<rparr>)) \<and>
       tab_pre (t\<lparr>layout := n, focusedPaneId := f, panes := AList.delete p (panes t)\<rparr>) \<and>
       (focusedPaneId t \<noteq> p \<longrightarrow> f = focusedPaneId t) \<and> length (panes t) \<noteq> 1)"
proof -
  have c: "wf_layout (layout t)" "distinct (leafIds (layout t))" "set (leafIds (layout t)) = set (keys (panes t))"
    "distinct (keys (panes t))" "focusedPaneId t \<in> set (keys (panes t))" and core: "tab_core t"
    using wf by (simp_all add: wf_tab_def layout_covers_def tab_core_def)
  have p: "p \<in> set (keys (panes t))" using v map_of_Some_keys by fast
  have cols: "cols_pos (theColumns t)" if "layoutMode t = Some Scrolling"
    using wf_tab_columns [OF wf that] by (auto intro: cols_ok_pos)
  consider "closeLeaf t p = Inr None" "set (leafIds (layout t)) \<subseteq> {p}"
    | n f where "closeLeaf t p = Inr (Some (t\<lparr>layout := n, focusedPaneId := f\<rparr>))" "wf_layout n"
      "leafIds n = filter (\<lambda>y. y \<noteq> p) (leafIds (layout t))"
      "focusedPaneId t \<noteq> p \<Longrightarrow> f = focusedPaneId t" "focusedPaneId t = p \<Longrightarrow> f \<in> set (leafIds n)"
    using closeLeaf_spec [OF c(1,2), of p] by blast
  then show ?thesis
  proof cases
    case 1
    then have "set (keys (panes t)) = {p}" using c(3) p by auto
    then have "keys (panes t) = [p]" using c(4) distinct_card [OF c(4)]
      by (cases "keys (panes t)"; cases "tl (keys (panes t))") auto
    then have "panes t = [(p, v)]" using v by (cases "panes t") auto
    then show ?thesis using 1 by blast
  next
    case 2
    have keys: "set (leafIds n) = set (keys (AList.delete p (panes t)))"
      using 2(3) c(3) by (auto simp: keys_delete)
    have "leafIds n \<noteq> []" using wf_leafIds_nonempty [OF 2(2)] .
    then have "length (panes t) \<noteq> 1"
      using keys p v by (cases "panes t") auto
    have "f \<in> set (keys (AList.delete p (panes t)))"
      using 2(4,5) keys c(5) by (cases "focusedPaneId t = p") (auto simp: keys_delete)
    then have "tab_pre (t\<lparr>layout := n, focusedPaneId := f, panes := AList.delete p (panes t)\<rparr>)"
      using core cols 2(2,3) keys c(2)
      by (simp add: tab_pre_def tab_core_def layout_covers_def distinct_delete)
    then show ?thesis using 2(1,4) \<open>length (panes t) \<noteq> 1\<close> by blast
  qed
qed

text \<open>
  \<open>reduced A p t t'\<close>: \<open>t'\<close> is \<open>t\<close> without pane \<open>p\<close>; when that was its only pane, with a
  welcome view whose identifiers are not in \<open>A\<close>.
\<close>

definition reduced :: "ident set \<Rightarrow> ident \<Rightarrow> workbench_tab \<Rightarrow> workbench_tab \<Rightarrow> bool" where
  "reduced A p t t' \<longleftrightarrow> wf_tab t' \<and> tabId t' = tabId t \<and>
     (panes t' = AList.delete p (panes t) \<and> length (panes t) \<noteq> 1 \<or>
      length (panes t) = 1 \<and>
      (\<exists>q w. panes t' = [(q, w)] \<and> isWelcome w \<and> q \<notin> A \<and> viewId w \<notin> A))"

lemma removeViewFromTab_wp:
  assumes "wf_tab t" "map_of (panes t) p = Some v" "fresh s A" "occIds (tabOcc t) \<subseteq> A"
  shows "wp (removeViewFromTab t p)
    (\<lambda>r s'. \<exists>t'. r = Some t' \<and> reduced A p t t' \<and> fresh s' (A \<union> occIds (tabOcc t'))) s"
    (is "wp _ ?Q s")
proof -
  have key: "has_key (panes t) p" using map_of_Some_keys [OF assms(2)] by simp
  from closeLeaf_tab [OF assms(1,2)] show ?thesis
  proof (elim disjE exE conjE)
    assume c: "closeLeaf t p = Inr None" "panes t = [(p, v)]"
    have "wp (clearedTab t) (\<lambda>t'. wp (js_return (Some t')) ?Q) s"
    proof (rule wp_mono [OF clearedTab_wp [OF assms(3)]], elim exE conjE)
      fix t' s' q w cs l
      assume w: "t' = (singleTab (tabId t) q w)\<lparr>titleMode := titleMode t,
          titleOverride := titleOverride t, layoutMode := Some (case layoutMode t of Some m \<Rightarrow> m | None \<Rightarrow> Bsp),
          columns := cs, layout := l\<rparr>" "isWelcome w" "q \<notin> A" "viewId w \<notin> A" "wf_tab t'"
        "fresh s' ({q, viewId w} \<union> A)"
      have ps: "panes t' = [(q, w)]" "tabId t' = tabId t" by (simp_all add: w(1))
      then have "reduced A p t t'" using w(2-5) c(2) by (simp add: reduced_def)
      moreover have "fresh s' (A \<union> occIds (tabOcc t'))"
        using w(6) ps by (simp add: Un_commute)
      ultimately show "wp (js_return (Some t')) ?Q s'" by simp
    qed
    then show ?thesis
      using key by (simp add: removeViewFromTab_def c(1) del: has_key_iff)
  next
    fix n f
    let ?t = "t\<lparr>layout := n, focusedPaneId := f, panes := AList.delete p (panes t)\<rparr>"
    assume c: "closeLeaf t p = Inr (Some (t\<lparr>layout := n, focusedPaneId := f\<rparr>))"
      "tab_pre ?t" "length (panes t) \<noteq> 1"
    have d: "distinct (keys (panes t))" using assms(1) by (simp add: wf_tab_def tab_core_def)
    have "wp (reconcileTab ?t) (\<lambda>t'. wp (js_return (Some t')) ?Q) s"
    proof (rule wp_mono [OF reconcileTab_wp [OF supply_inv_fresh assms(3) c(2)]], elim exE conjE)
      fix t' s' cs l
      assume t': "fresh s' A" "wf_tab t'" "t' = ?t\<lparr>columns := cs, layout := l\<rparr>"
      have "tabOcc t' \<subseteq> tabOcc t" using d by (auto simp: t'(3) tabOcc_def set_delete)
      then have "fresh s' (A \<union> occIds (tabOcc t'))"
        using t'(1) assms(4) occIds_mono by (metis sup.absorb1 subset_trans)
      then show "wp (js_return (Some t')) ?Q s'" using t'(2,3) c(3) by (simp add: reduced_def)
    qed
    then show ?thesis
      using key by (simp add: removeViewFromTab_def c(1) del: has_key_iff)
  qed
qed

lemma reduced_coh:
  assumes "reduced A p t t'" "map_of (panes t) p = Some v" "distinct (keys (panes t))"
    and "coh U (tabOcc t \<union> R)" "occIds (tabOcc t \<union> R) \<subseteq> A" "R \<inter> tabOcc t = {}"
  shows "coh U (tabOcc t' \<union> R)" "pane_free p (tabOcc t' \<union> R)" "view_free U v (tabOcc t' \<union> R)"
proof -
  have pv: "(tabId t, p, v) \<in> tabOcc t" using assms(2) map_of_in [OF assms(3)] by simp
  let ?B = "(tabOcc t - {(tabId t, p, v)}) \<union> R"
  have B: "?B \<subseteq> tabOcc t \<union> R" "(tabId t, p, v) \<notin> ?B" using pv assms(6) by auto
  have free: "pane_free p ?B" "view_free U v ?B" using coh_removed [OF assms(4) _ B] pv by blast+
  have "coh U (tabOcc t' \<union> R) \<and> pane_free p (tabOcc t' \<union> R) \<and> view_free U v (tabOcc t' \<union> R)"
  proof (cases "panes t' = AList.delete p (panes t) \<and> length (panes t) \<noteq> 1")
    case True
    then have "tabOcc t' \<subseteq> tabOcc t - {(tabId t, p, v)}"
      using assms(1,3) by (auto simp: tabOcc_def reduced_def set_delete)
    then have sub: "tabOcc t' \<union> R \<subseteq> ?B" by blast
    then have "coh U (tabOcc t' \<union> R)" using B(1) by (intro coh_subset [OF assms(4)]) (rule subset_trans)
    then show ?thesis using free_subset(1) [OF free(1) sub] free_subset(2) [OF free(2) sub] by simp
  next
    case False
    then obtain q w where w: "panes t' = [(q, w)]" "isWelcome w" "q \<notin> A" "viewId w \<notin> A" "length (panes t) = 1"
      using assms(1) by (auto simp: reduced_def)
    have t': "tabOcc t' = {(tabId t, q, w)}" using w(1) assms(1) by (simp add: reduced_def)
    have R: "coh U R" "pane_free p R" "view_free U v R" "occIds R \<subseteq> A"
      using coh_subset [OF assms(4)] free assms(5) by auto
    have "coh U (insert (tabId t, q, w) R)"
      using R w by (intro coh_add pane_free_new view_free_new) (auto simp: welcome_not_session)
    moreover have "q \<noteq> p" "viewId w \<noteq> viewId v"
      using w(3,4) in_occIds [OF pv] assms(5) by auto
    moreover have "\<not> sameSession v w"
      using welcome_not_session [OF w(2)] by (simp add: sameSession_def isSameSessionTarget_sym)
    ultimately show ?thesis using R by (simp add: t')
  qed
  then show "coh U (tabOcc t' \<union> R)" "pane_free p (tabOcc t' \<union> R)" "view_free U v (tabOcc t' \<union> R)"
    by blast+
qed

end
