(* ===== verification/WorkbenchTabs.thy ===== *)
theory WorkbenchTabs
  imports WorkbenchState
begin

text \<open>
  The operations on whole tabs: inserting, activating, renaming, closing and moving them
  (\<open>apps/web/src/workbench/workbenchState.ts\<close>), and their preservation of well-formed
  snapshots.
\<close>

section \<open>Operations on tabs\<close>

definition insertPresentationTab ::
  "snapshot \<Rightarrow> view_instance \<Rightarrow> int \<Rightarrow> ident option \<Rightarrow> (snapshot \<times> ident \<times> ident) js" where
  "insertPresentationTab snap view idx paneIdArg =
     js_bind (case paneIdArg of Some p \<Rightarrow> js_return p | None \<Rightarrow> generateId) (\<lambda>paneId.
     js_bind (newTab paneId) (\<lambda>t.
       let tab = presentationTab t [(paneId, view)];
           position = nat (max 0 (min idx (int (length (tabs snap)))))
       in js_return
            (\<lparr>tabs = insert_at position tab (tabs snap), activeTabId = tabId tab\<rparr>, tabId tab, paneId)))"

definition applyCreateTab :: "snapshot \<Rightarrow> snapshot js" where
  "applyCreateTab snap =
     js_bind welcomeTab (\<lambda>tab.
       js_return \<lparr>tabs = tabs snap @ [tab], activeTabId = tabId tab\<rparr>)"

definition applyActivateTab :: "snapshot \<Rightarrow> ident \<Rightarrow> snapshot" where
  "applyActivateTab snap i =
     (if list_ex (\<lambda>tab. tabId tab = i) (tabs snap) \<and> activeTabId snap \<noteq> i
      then snap\<lparr>activeTabId := i\<rparr> else snap)"

definition applyRenameTab :: "snapshot \<Rightarrow> ident \<Rightarrow> string option \<Rightarrow> snapshot js" where
  "applyRenameTab snap i title =
     (case findTab snap i of
        None \<Rightarrow> js_return snap
      | Some tab \<Rightarrow>
          (let trimmed = (case title of Some t \<Rightarrow> js_trim t | None \<Rightarrow> '''')
           in updateTab snap
                (tab\<lparr>titleMode := (if length trimmed = 0 then Auto else Manual),
                     titleOverride := (if length trimmed = 0 then None else Some trimmed)\<rparr>)))"

text \<open>
  \<open>survivors[Math.min(Math.max(closingIndex, 0), survivors.length - 1)]\<close>; the index is -1 when the
  active tab is missing. With no survivor, \<open>survivors[0]!.id\<close> throws.
\<close>

definition activeTabIdAfterClose ::
  "snapshot \<Rightarrow> workbench_tab list \<Rightarrow> ident set \<Rightarrow> js_error + ident" where
  "activeTabIdAfterClose snap survivors closedTabIds =
     (if activeTabId snap \<notin> closedTabIds then Inr (activeTabId snap)
      else
        let closingIndex = (case findIndex (\<lambda>tab. tabId tab = activeTabId snap) (tabs snap) of
              Some i \<Rightarrow> i | None \<Rightarrow> 0)
        in if survivors = [] then Inl (JsError ''TypeError: no surviving Tab'')
           else Inr (tabId (survivors ! min closingIndex (length survivors - 1))))"

definition applyCloseTab :: "snapshot \<Rightarrow> ident \<Rightarrow> js_error + snapshot" where
  "applyCloseTab snap i =
     (if length (tabs snap) \<le> 1 then Inr snap
      else if findIndex (\<lambda>tab. tabId tab = i) (tabs snap) = None then Inr snap
      else
        let tabs' = filter (\<lambda>tab. tabId tab \<noteq> i) (tabs snap)
        in if activeTabId snap \<noteq> i then Inr (snap\<lparr>tabs := tabs'\<rparr>)
           else map_sum id (\<lambda>a. snap\<lparr>tabs := tabs', activeTabId := a\<rparr>)
                  (activeTabIdAfterClose snap tabs' {i}))"

definition applyMoveTab :: "snapshot \<Rightarrow> int \<Rightarrow> int \<Rightarrow> snapshot" where
  "applyMoveTab snap fromIndex toIndex =
     (if fromIndex < 0 \<or> int (length (tabs snap)) \<le> fromIndex \<or> toIndex < 0 \<or>
         int (length (tabs snap)) \<le> toIndex \<or> fromIndex = toIndex
      then snap
      else snap\<lparr>tabs := insert_at (nat toIndex) (tabs snap ! nat fromIndex)
                          (remove_at (nat fromIndex) (tabs snap))\<rparr>)"

section \<open>Snapshots with other tabs\<close>

lemma tabOcc_singleTab [simp]: "tabOcc (singleTab i p v) = {(i, p, v)}"
  by (simp add: tabOcc_def)

lemma wf_addTab:
  assumes "wf_snapshot U snap" "i \<notin> tabId ` set (tabs snap)" "coh U (insert (i, p, v) (occ snap))"
    and "tabs snap' = insert_at k (singleTab i p v) (tabs snap)" "activeTabId snap' = i"
  shows "wf_snapshot U snap'" "wbIds snap' = {i, p, viewId v} \<union> wbIds snap"
    "occ snap' = insert (i, p, v) (occ snap)"
proof -
  have occ: "occ snap' = insert (i, p, v) (occ snap)"
    by (simp add: occ_def assms(4))
  have "i \<notin> set (map tabId (tabs snap))" using assms(2) by simp
  then have "distinct (map tabId (tabs snap'))"
    using assms(1) by (simp add: assms(4) map_insert_at wf_snapshot_def del: set_map)
  then show "wf_snapshot U snap'" using assms(1,3) occ by (simp add: wf_snapshot_def assms(4,5))
  show "wbIds snap' = {i, p, viewId v} \<union> wbIds snap"
    by (auto simp: wbIds_def occ assms(4))
  show "occ snap' = insert (i, p, v) (occ snap)" by (fact occ)
qed

lemma wf_filterTabs:
  assumes "wf_snapshot U snap" "tabs snap' = filter P (tabs snap)"
    and "activeTabId snap' \<in> tabId ` set (tabs snap')"
  shows "wf_snapshot U snap'" "wbIds snap' \<subseteq> wbIds snap" "occ snap' \<subseteq> occ snap"
proof -
  show occ: "occ snap' \<subseteq> occ snap" by (auto simp: occ_def assms(2))
  then show "wf_snapshot U snap'"
    using assms coh_subset [OF _ occ] by (auto simp: wf_snapshot_def distinct_map inj_on_def)
  show "wbIds snap' \<subseteq> wbIds snap"
    using occIds_mono [OF occ] by (auto simp: wbIds_def assms(2))
qed

lemma wf_permuteTabs:
  assumes "wf_snapshot U snap" "mset ts = mset (tabs snap)"
  shows "wf_snapshot U (snap\<lparr>tabs := ts\<rparr>)" "wbIds (snap\<lparr>tabs := ts\<rparr>) = wbIds snap"
    "occ (snap\<lparr>tabs := ts\<rparr>) = occ snap"
proof -
  have s: "set ts = set (tabs snap)" using mset_eq_setD [OF assms(2)] .
  have "mset (map tabId ts) = mset (map tabId (tabs snap))" using assms(2) by simp
  then have "distinct (map tabId ts) = distinct (map tabId (tabs snap))" by (rule mset_eq_imp_distinct_iff)
  then show "wf_snapshot U (snap\<lparr>tabs := ts\<rparr>)" "wbIds (snap\<lparr>tabs := ts\<rparr>) = wbIds snap"
    "occ (snap\<lparr>tabs := ts\<rparr>) = occ snap"
    using assms(1) by (simp_all add: wf_snapshot_def wbIds_def occ_def s)
qed

section \<open>The operations keep snapshots well formed\<close>

lemma insertPresentationTab_wp:
  assumes "wf_snapshot U snap" "fresh s A" "wbIds snap \<subseteq> A" "viewId v \<in> A" "view_free U v (occ snap)"
    and "\<And>q. arg = Some q \<Longrightarrow> q \<in> A \<and> pane_free q (occ snap)"
  shows "wp (insertPresentationTab snap v idx arg)
    (\<lambda>r s'. \<exists>snap' t p k. r = (snap', t, p) \<and> good U snap' s' \<and> activeTabId snap' = t \<and>
       tabs snap' = insert_at k (singleTab t p v) (tabs snap) \<and> k \<le> length (tabs snap) \<and>
       k = nat (max 0 (min idx (int (length (tabs snap))))) \<and> (\<forall>q. arg = Some q \<longrightarrow> p = q)) s"
    (is "wp _ ?Q s")
proof -
  have step: "wp (newTab p) (\<lambda>t. wp (let tab = presentationTab t [(p, v)];
           position = nat (max 0 (min idx (int (length (tabs snap)))))
       in js_return (\<lparr>tabs = insert_at position tab (tabs snap), activeTabId = tabId tab\<rparr>, tabId tab, p)) ?Q) s'"
    if f: "fresh s' (insert p A)" and p: "pane_free p (occ snap)" and q: "\<forall>q. arg = Some q \<longrightarrow> p = q" for s' p
  proof -
    let ?k = "nat (max 0 (min idx (int (length (tabs snap)))))"
    let ?i = "shd s'"
    let ?snap = "\<lparr>tabs = insert_at ?k (singleTab ?i p v) (tabs snap), activeTabId = ?i\<rparr>"
    have i: "?i \<notin> tabId ` set (tabs snap)"
      using fresh_shd [OF f] assms(3) by (auto simp: wbIds_def)
    have c: "coh U (insert (?i, p, v) (occ snap))"
      using assms(1,5) p by (intro coh_add) (simp_all add: wf_snapshot_def)
    have "fresh (stl s') (insert ?i (insert p A))" using fresh_stl [OF f] .
    then have "fresh (stl s') (wbIds ?snap)"
      using wf_addTab(2) [OF assms(1) i c, of ?snap] assms(3,4) by (auto elim!: fresh_antimono)
    then have "good U ?snap (stl s')"
      using wf_addTab(1) [OF assms(1) i c, of ?snap] by (simp add: good_def)
    then have "?Q (?snap, ?i, p) (stl s')" using q by auto
    then show ?thesis by (simp add: newTab_def flip: singleTab_def)
  qed
  show ?thesis
  proof (cases arg)
    case None
    have "fresh (stl s) (insert (shd s) A)" using fresh_stl [OF assms(2)] .
    moreover have "pane_free (shd s) (occ snap)"
      using fresh_shd [OF assms(2)] assms(3) by (intro pane_free_new) (auto simp: wbIds_def)
    ultimately show ?thesis
      unfolding insertPresentationTab_def wp_bind None option.case wp_generateId
      using step [of "stl s" "shd s"] None by blast
  next
    case (Some q)
    then have "fresh s (insert q A)" using assms(2,6) by (simp add: insert_absorb)
    then show ?thesis
      unfolding insertPresentationTab_def wp_bind Some option.case wp_return
      using step [of s q] assms(6) [OF Some] Some by blast
  qed
qed

lemma applyCreateTab_wp:
  assumes "good U snap s"
  shows "wp (applyCreateTab snap) (\<lambda>snap' s'. good U snap' s' \<and> (\<exists>i p v. activeTabId snap' = i \<and>
     tabs snap' = tabs snap @ [singleTab i p v] \<and> isWelcome v)) s"
  unfolding applyCreateTab_def wp_bind
proof (rule wp_mono [OF welcomeTab_wp [of s "wbIds snap"]], goal_cases)
  case 1
  then show ?case using assms by (simp add: good_def)
next
  case (2 t s')
  then obtain i p v where t: "t = singleTab i p v" "isWelcome v" "i \<notin> wbIds snap" "p \<notin> wbIds snap"
    "viewId v \<notin> wbIds snap" "fresh s' ({i, p, viewId v} \<union> wbIds snap)" by blast
  let ?snap = "\<lparr>tabs = tabs snap @ [t], activeTabId = i\<rparr>"
  have wf: "wf_snapshot U snap" using assms by (simp add: good_def)
  have c: "coh U (insert (i, p, v) (occ snap))"
    using wf t(2,4,5) by (intro coh_add pane_free_new view_free_new)
      (auto simp: wf_snapshot_def wbIds_def welcome_not_session)
  have k: "tabs ?snap = insert_at (length (tabs snap)) (singleTab i p v) (tabs snap)"
    by (simp add: insert_at_def t(1))
  have i: "i \<notin> tabId ` set (tabs snap)" using t(3) by (simp add: wbIds_def)
  have "good U ?snap s'"
    using wf_addTab(1,2) [OF wf i c k] t(6) by (simp add: good_def)
  then show ?case using t(1,2) by auto
qed

lemma applyActivateTab_good: "good U snap s \<Longrightarrow> good U (applyActivateTab snap i) s"
  by (auto simp: good_def applyActivateTab_def wf_snapshot_def occ_def wbIds_def list_ex_iff)

lemma applyActivateTab_simps [simp]:
  "tabs (applyActivateTab snap i) = tabs snap" "occ (applyActivateTab snap i) = occ snap"
  "i \<in> tabId ` set (tabs snap) \<Longrightarrow> activeTabId (applyActivateTab snap i) = i"
  by (auto simp: applyActivateTab_def occ_def list_ex_iff)

lemma tab_pre_title [simp]:
  "wf_tab t \<Longrightarrow> tab_pre (t\<lparr>titleMode := m, titleOverride := x\<rparr>)"
  using wf_tab_pre [of t]
  by (cases "layoutMode t = Some Scrolling") (simp_all add: tab_pre_def tab_core_def layout_covers_def)

lemma good_wf: "good U snap s \<Longrightarrow> wf_snapshot U snap"
  by (simp add: good_def)

lemma good_fresh: "good U snap s \<Longrightarrow> fresh s (wbIds snap)"
  by (simp add: good_def)

lemma good_tab: "good U snap s \<Longrightarrow> t \<in> set (tabs snap) \<Longrightarrow> wf_tab t"
  by (simp add: good_def wf_snapshot_def)

lemma occIds_tab: "t \<in> set (tabs snap) \<Longrightarrow> occIds (tabOcc t) \<subseteq> wbIds snap"
  using occIds_mono [OF occ_in] by (auto simp: wbIds_def)

lemma applyRenameTab_wp:
  assumes "good U snap s"
  shows "wp (applyRenameTab snap i title) (good U) s"
proof (cases "findTab snap i")
  case None
  then show ?thesis using assms by (simp add: applyRenameTab_def)
next
  case (Some t)
  note t = findTab_Some [OF Some]
  let ?x = "case title of Some t \<Rightarrow> js_trim t | None \<Rightarrow> ''''"
  let ?t = "t\<lparr>titleMode := (if length ?x = 0 then Auto else Manual),
              titleOverride := (if length ?x = 0 then None else Some ?x)\<rparr>"
  have o: "tabOcc ?t = tabOcc t" by (simp add: tabOcc_def)
  have "wp (updateTab snap ?t) (\<lambda>snap' s'. good U snap' s' \<and>
      (\<exists>cs l. snap' = replaceTab snap (?t\<lparr>columns := cs, layout := l\<rparr>))) s"
  proof (rule updateTab_wp)
    have "occ snap = tabOcc t \<union> occ_but snap (tabId t)"
      using occ_split [OF good_wf [OF assms]] t by blast
    then show "coh U (tabOcc ?t \<union> occ_but snap (tabId ?t))"
      using good_wf [OF assms] o by (simp add: wf_snapshot_def)
    show "fresh s (wbIds snap \<union> occIds (tabOcc ?t))"
      unfolding o using assms occIds_tab [of t snap] t by (simp add: good_def sup.absorb1)
    show "tabId ?t \<in> tabId ` set (tabs snap)" using t by auto
  qed (use good_wf [OF assms] good_tab [OF assms] t in auto)
  then show ?thesis
    unfolding applyRenameTab_def Some option.case Let_def by (rule wp_mono) blast
qed

lemma length_filter_key: "distinct (map f xs) \<Longrightarrow> length (filter (\<lambda>t. f t = i) xs) \<le> 1"
proof (induction xs)
  case (Cons x xs)
  then have "f x = i \<Longrightarrow> filter (\<lambda>t. f t = i) xs = []" by (simp add: filter_empty_conv image_iff) metis
  then show ?case using Cons by auto
qed simp

lemma activeTabIdAfterClose_ok:
  assumes "survivors \<noteq> []"
  obtains a where "activeTabIdAfterClose snap survivors shut = Inr a"
    "activeTabId snap \<notin> shut \<Longrightarrow> a = activeTabId snap"
    "activeTabId snap \<in> shut \<Longrightarrow> a \<in> tabId ` set survivors"
proof -
  have "min k (length survivors - 1) < length survivors" for k using assms by (cases survivors) auto
  then show ?thesis
    using that assms by (cases "activeTabId snap \<in> shut")
      (fastforce simp: activeTabIdAfterClose_def Let_def)+
qed

text \<open>Closing a tab keeps at least one; a tab that is closed takes its views with it.\<close>

lemma applyCloseTab_ok:
  assumes wf: "wf_snapshot U snap"
  obtains snap' where "applyCloseTab snap i = Inr snap'" "wf_snapshot U snap'"
    "wbIds snap' \<subseteq> wbIds snap" "occ snap' \<subseteq> occ snap"
    "tabs snap' = (if length (tabs snap) \<le> 1 then tabs snap
                   else filter (\<lambda>t. tabId t \<noteq> i) (tabs snap))"
    "activeTabId snap \<noteq> i \<Longrightarrow> activeTabId snap' = activeTabId snap"
proof -
  let ?ts = "filter (\<lambda>t. tabId t \<noteq> i) (tabs snap)"
  have active: "activeTabId snap \<in> tabId ` set (tabs snap)" "distinct (map tabId (tabs snap))"
    using wf by (simp_all add: wf_snapshot_def)
  consider "length (tabs snap) \<le> 1" | "1 < length (tabs snap)" "i \<notin> tabId ` set (tabs snap)"
    | "1 < length (tabs snap)" "i \<in> tabId ` set (tabs snap)" by linarith
  then show ?thesis
  proof cases
    case 1
    then show ?thesis using that [of snap] wf by (simp add: applyCloseTab_def)
  next
    case 2
    then have "findIndex (\<lambda>t. tabId t = i) (tabs snap) = None" "?ts = tabs snap"
      by (auto simp: findIndex_None_iff intro: filter_True)
    then show ?thesis using that [of snap] wf 2 by (simp add: applyCloseTab_def)
  next
    case 3
    then have idx: "findIndex (\<lambda>t. tabId t = i) (tabs snap) \<noteq> None" by (auto simp: findIndex_None_iff)
    have "length (filter (\<lambda>t. \<not> tabId t \<noteq> i) (tabs snap)) \<le> 1"
      using length_filter_key [OF active(2), of i] by simp
    then have ne: "?ts \<noteq> []"
      using 3(1) sum_length_filter_compl [of "\<lambda>t. tabId t \<noteq> i" "tabs snap"] by auto
    obtain a where a: "activeTabIdAfterClose snap ?ts {i} = Inr a"
      "activeTabId snap \<in> {i} \<Longrightarrow> a \<in> tabId ` set ?ts"
      using activeTabIdAfterClose_ok [OF ne] by metis
    let ?snap' = "if activeTabId snap \<noteq> i then snap\<lparr>tabs := ?ts\<rparr> else snap\<lparr>tabs := ?ts, activeTabId := a\<rparr>"
    have "activeTabId ?snap' \<in> tabId ` set (tabs ?snap')" using a(2) active(1) by auto
    then have "wf_snapshot U ?snap'" "wbIds ?snap' \<subseteq> wbIds snap" "occ ?snap' \<subseteq> occ snap"
      using wf_filterTabs [OF wf, of ?snap' "\<lambda>t. tabId t \<noteq> i"] by auto
    moreover have "applyCloseTab snap i = Inr ?snap'"
      using 3(1) idx a(1) by (auto simp: applyCloseTab_def)
    ultimately show ?thesis using that [of ?snap'] 3(1) by simp
  qed
qed

lemma applyMoveTab_mset: "mset (tabs (applyMoveTab snap i j)) = mset (tabs snap)"
  by (simp add: applyMoveTab_def mset_remove_at nat_less_iff)

lemma applyMoveTab_wf:
  assumes "wf_snapshot U snap"
  shows "wf_snapshot U (applyMoveTab snap i j)" "wbIds (applyMoveTab snap i j) = wbIds snap"
    "occ (applyMoveTab snap i j) = occ snap"
proof -
  have "applyMoveTab snap i j = snap\<lparr>tabs := tabs (applyMoveTab snap i j)\<rparr>"
    by (simp add: applyMoveTab_def)
  then show "wf_snapshot U (applyMoveTab snap i j)" "wbIds (applyMoveTab snap i j) = wbIds snap"
    "occ (applyMoveTab snap i j) = occ snap"
    using wf_permuteTabs [OF assms applyMoveTab_mset] by metis+
qed

lemma occ_of_tab: "wf_snapshot U snap \<Longrightarrow> t \<in> set (tabs snap) \<Longrightarrow> coh U (tabOcc t \<union> occ_but snap (tabId t))"
  using occ_split by (metis wf_snapshot_def)

lemma occIds_but: "occIds (occ_but snap i) \<subseteq> wbIds snap"
  using occIds_mono [OF occ_but_subset] by (auto simp: wbIds_def)

lemma occ_but_disjoint: "occ_but snap (tabId t) \<inter> tabOcc t = {}"
  by (auto simp: occ_but_def tabOcc_def)

text \<open>An update of a tab that keeps its panes.\<close>

lemma updateTab_same_panes:
  assumes "good U snap s" "t \<in> set (tabs snap)" "tab_pre t'" "tabId t' = tabId t" "panes t' = panes t"
  shows "wp (updateTab snap t')
    (\<lambda>snap' s'. good U snap' s' \<and>
       (\<exists>cs l. snap' = replaceTab snap (t'\<lparr>columns := cs, layout := l\<rparr>))) s"
proof (rule updateTab_wp)
  have o: "tabOcc t' = tabOcc t" using assms(4,5) by (simp add: tabOcc_def)
  show "wf_snapshot U snap" using assms(1) by (rule good_wf)
  show "coh U (tabOcc t' \<union> occ_but snap (tabId t'))"
    using occ_of_tab [OF good_wf [OF assms(1)] assms(2)] by (simp add: o assms(4))
  show "fresh s (wbIds snap \<union> occIds (tabOcc t'))"
    unfolding o using assms(1) occIds_tab [OF assms(2)] by (simp add: good_def sup.absorb1)
qed (use assms in auto)

text \<open>An update that leaves the tab as it is leaves the snapshot as it is.\<close>

lemma replaceTab_same:
  assumes "wf_snapshot U snap" "t \<in> set (tabs snap)"
  shows "replaceTab snap t = snap"
proof -
  have "map (\<lambda>c. if tabId c = tabId t then t else c) (tabs snap) = map id (tabs snap)"
    using tabs_eq [OF assms(1) _ assms(2)] by (intro map_cong) auto
  then show ?thesis by (simp add: replaceTab_def)
qed

lemma updateTab_same:
  assumes "wf_snapshot U snap" "t \<in> set (tabs snap)"
  shows "updateTab snap t = js_return snap"
proof -
  have "wf_tab t" using assms by (simp add: wf_snapshot_def)
  then show ?thesis
    by (simp add: updateTab_def reconcileTab_same replaceTab_same [OF assms] js_bind_def js_return_def)
qed

lemma find_map_replace:
  "List.find (\<lambda>u. tabId u = i) (map (\<lambda>c. if tabId c = tabId t then t else c) ts) =
     (if i = tabId t \<and> i \<in> tabId ` set ts then Some t else List.find (\<lambda>u. tabId u = i) ts)"
  by (induction ts) auto

lemma findTab_replaceTab:
  "findTab (replaceTab snap t) i =
     (if i = tabId t \<and> i \<in> tabId ` set (tabs snap) then Some t else findTab snap i)"
  unfolding findTab_def replaceTab_def by (auto simp: find_map_replace)

lemma findTab_tab: "wf_snapshot U snap \<Longrightarrow> t \<in> set (tabs snap) \<Longrightarrow> findTab snap (tabId t) = Some t"
  using findTab_None [of snap "tabId t"] findTab_Some [of snap "tabId t"] tabs_eq [of U snap]
  by (metis imageI not_None_eq)

end
