(* ===== verification/WorkbenchOps.thy ===== *)
theory WorkbenchOps
  imports WorkbenchTabs
begin

text \<open>
  The operations on one pane or one layout of the active tab: layout modes, columns, opening,
  splitting, closing, focusing, retargeting and resizing
  (\<open>apps/web/src/workbench/workbenchState.ts\<close>).
\<close>

section \<open>Layout modes and columns\<close>

text \<open>JavaScript numbers that reach the state from the user interface may be not finite.\<close>

datatype js_number = Finite rat | NotFinite

definition applySetLayoutMode :: "snapshot \<Rightarrow> layout_mode \<Rightarrow> snapshot js" where
  "applySetLayoutMode snap mode =
     js_bind (js_lift (getActiveTab snap)) (\<lambda>tab.
       if (case layoutMode tab of Some m \<Rightarrow> m | None \<Rightarrow> Bsp) = mode then js_return snap
       else
         let memory =
               (case layoutMemory tab of
                  Some m \<Rightarrow>
                    if memoryVersion m = LAYOUT_VERSION then m
                    else \<lparr>memoryVersion = LAYOUT_VERSION, memoryBsp = None, memoryColumns = None\<rparr>
                | None \<Rightarrow> \<lparr>memoryVersion = LAYOUT_VERSION, memoryBsp = None, memoryColumns = None\<rparr>);
             ids = leafIds (layout tab)
         in if mode = Scrolling then
              js_bind
                (reconcileColumns (case memoryColumns memory of Some cs \<Rightarrow> cs | None \<Rightarrow> []) ids)
                (\<lambda>cs.
                  updateTab snap
                    (tab\<lparr>layoutMode := Some mode, columns := Some cs, layout := columnsTree cs,
                         layoutMemory := Some (memory\<lparr>memoryBsp := Some (layout tab)\<rparr>)\<rparr>))
            else
              js_bind (reconcileBsp (memoryBsp memory) ids) (\<lambda>l.
                updateTab snap
                  (tab\<lparr>layoutMode := Some mode, layout := l,
                       layoutMemory := Some (memory\<lparr>memoryColumns := Some (theColumns tab)\<rparr>)\<rparr>)))"

datatype step_direction = StepBack | StepForward

text \<open>The index one step away, None where the array has no such element.\<close>

definition stepIndex :: "nat \<Rightarrow> step_direction \<Rightarrow> nat \<Rightarrow> nat option" where
  "stepIndex k d len =
     (case d of
        StepBack \<Rightarrow> if 0 < k \<and> k \<le> len then Some (k - 1) else None
      | StepForward \<Rightarrow> if Suc k < len then Some (Suc k) else None)"

definition swapped :: "'a list \<Rightarrow> nat \<Rightarrow> nat \<Rightarrow> 'a list" where
  "swapped xs i j = xs[i := xs ! j, j := xs ! i]"

record column_change =
  cc_width :: "js_number option"
  cc_direction :: "step_direction option"
  cc_shares :: "js_number list option"

definition changeWidth :: "column_change \<Rightarrow> column \<Rightarrow> column" where
  "changeWidth change c =
     (case cc_width change of
        Some (Finite w) \<Rightarrow> c\<lparr>columnWidth := max MIN_COLUMN_WIDTH (min MAX_COLUMN_WIDTH w)\<rparr>
      | _ \<Rightarrow> c)"

definition changeShares :: "column_change \<Rightarrow> column \<Rightarrow> column" where
  "changeShares change c =
     (case cc_shares change of
        Some ss \<Rightarrow>
          if length ss = length (paneIds c) \<and> list_all (\<lambda>n. case n of Finite q \<Rightarrow> 0 < q | NotFinite \<Rightarrow> False) ss
          then let qs = map (\<lambda>n. case n of Finite q \<Rightarrow> q | NotFinite \<Rightarrow> 0) ss
               in c\<lparr>shares := map (\<lambda>n. n / sum_list qs) qs\<rparr>
          else c
      | None \<Rightarrow> c)"

definition applyColumnChange :: "snapshot \<Rightarrow> ident \<Rightarrow> column_change \<Rightarrow> snapshot js" where
  "applyColumnChange snap i change =
     js_bind (js_lift (getActiveTab snap)) (\<lambda>tab.
       if layoutMode tab \<noteq> Some Scrolling then js_return snap
       else
         case findIndex (\<lambda>c. columnId c = i) (theColumns tab) of
           None \<Rightarrow> js_return snap
         | Some k \<Rightarrow>
             (let updated = changeShares change (changeWidth change (theColumns tab ! k));
                  cs = (theColumns tab)[k := updated];
                  cs' = (case cc_direction change of
                           None \<Rightarrow> cs
                         | Some d \<Rightarrow>
                             (case stepIndex k d (length cs) of None \<Rightarrow> cs | Some j \<Rightarrow> swapped cs k j))
              in updateTab snap (tab\<lparr>columns := Some cs', layout := columnsTree cs'\<rparr>)))"

text \<open>An empty pane id is falsy, so it is not swapped with.\<close>

definition moveInColumn :: "ident \<Rightarrow> step_direction \<Rightarrow> column \<Rightarrow> column" where
  "moveInColumn paneId d c =
     (case findIndex (\<lambda>i. i = paneId) (paneIds c) of
        None \<Rightarrow> c
      | Some k \<Rightarrow>
          (case stepIndex k d (length (paneIds c)) of
             None \<Rightarrow> c
           | Some j \<Rightarrow> if paneIds c ! j = '''' then c else c\<lparr>paneIds := swapped (paneIds c) k j\<rparr>))"

definition applyMoveInColumn :: "snapshot \<Rightarrow> ident \<Rightarrow> step_direction \<Rightarrow> snapshot js" where
  "applyMoveInColumn snap paneId d =
     js_bind (js_lift (getActiveTab snap)) (\<lambda>tab.
       case map_option (map (moveInColumn paneId d)) (columns tab) of
         Some cs \<Rightarrow>
           if layoutMode tab = Some Scrolling
           then updateTab snap (tab\<lparr>columns := Some cs, layout := columnsTree cs\<rparr>)
           else js_return snap
       | None \<Rightarrow> js_return snap)"

section \<open>Focus and resizing\<close>

definition applySetFocused :: "snapshot \<Rightarrow> ident \<Rightarrow> snapshot js" where
  "applySetFocused snap paneId =
     js_bind (js_lift (getActiveTab snap)) (\<lambda>tab.
       if \<not> has_key (panes tab) paneId \<or> focusedPaneId tab = paneId then js_return snap
       else updateTab snap (tab\<lparr>focusedPaneId := paneId\<rparr>))"

text \<open>
  \<open>layout === tab.layout\<close> compares references: \<open>setSplitRatio\<close> returns its argument itself
  exactly when the root is a leaf, or the split asked for with an index out of range.
\<close>

fun setSplitRatioSame :: "layout_node \<Rightarrow> ident \<Rightarrow> int \<Rightarrow> bool" where
  "setSplitRatioSame (LLeaf _) splitId idx = True"
| "setSplitRatioSame (LSplit k _ _ sizes) splitId idx =
     (k = splitId \<and> (idx < 0 \<or> int (length sizes) - 1 \<le> idx))"

definition applySetSplitRatio :: "snapshot \<Rightarrow> ident \<Rightarrow> int \<Rightarrow> js_number \<Rightarrow> snapshot js" where
  "applySetSplitRatio snap splitId idx ratio =
     js_bind (js_lift (getActiveTab snap)) (\<lambda>tab.
       case ratio of
         NotFinite \<Rightarrow> js_return snap
       | Finite r \<Rightarrow>
           if setSplitRatioSame (layout tab) splitId idx then js_return snap
           else updateTab snap (tab\<lparr>layout := setSplitRatio (layout tab) splitId idx r\<rparr>))"

section \<open>Placing and detaching views\<close>

text \<open>
  \<open>placeViewInTab\<close>: the tab is not reconciled here but by the callers. The optional \<open>paneId\<close> of
  the target lets a moved view keep its pane.
\<close>

definition placeViewInTab ::
  "workbench_tab \<Rightarrow> view_instance \<Rightarrow> ident \<Rightarrow> pane_drop_zone \<Rightarrow> ident option \<Rightarrow>
     (workbench_tab \<times> ident) js" where
  "placeViewInTab tab view anchorPaneId zone paneIdArg =
     (let anchor = map_of (panes tab) anchorPaneId;
          reusesAnchorPane =
            zone = Replace \<or>
            (case anchor of None \<Rightarrow> True | Some a \<Rightarrow> length (panes tab) = 1 \<and> isWelcome a)
      in if reusesAnchorPane then
           let paneId = (case paneIdArg of Some p \<Rightarrow> p | None \<Rightarrow> anchorPaneId)
           in js_return
                (tab\<lparr>layout := replaceLeafId (layout tab) anchorPaneId paneId,
                     panes := AList.update paneId view (AList.delete anchorPaneId (panes tab)),
                     focusedPaneId := paneId\<rparr>, paneId)
         else
           js_bind (case paneIdArg of Some p \<Rightarrow> js_return p | None \<Rightarrow> generateId) (\<lambda>paneId.
           js_bind (placedLayout tab paneId anchorPaneId zone) (\<lambda>placed.
             js_return
               (placed\<lparr>panes := AList.update paneId view (panes tab), focusedPaneId := paneId\<rparr>,
                paneId))))"

definition detachView :: "snapshot \<Rightarrow> pane_location \<Rightarrow> (snapshot \<times> view_instance) option js" where
  "detachView snap location =
     (case findTab snap (fst location) of
        None \<Rightarrow> js_return None
      | Some tab \<Rightarrow>
          (case map_of (panes tab) (snd location) of
             None \<Rightarrow> js_return None
           | Some view \<Rightarrow>
               js_bind (removeViewFromTab tab (snd location)) (\<lambda>after.
                 case after of
                   None \<Rightarrow> js_return None
                 | Some tabAfter \<Rightarrow> js_return (Some (replaceTab snap tabAfter, view)))))"

definition dirZone :: "split_dir \<Rightarrow> pane_drop_zone" where
  "dirZone d = (if d = SplitDown then Edge EBottom else Edge ERight)"

definition placeDetachedViewBeside ::
  "snapshot \<Rightarrow> view_instance \<Rightarrow> ident \<Rightarrow> split_dir \<Rightarrow> snapshot js" where
  "placeDetachedViewBeside snap view anchorPaneId d =
     js_bind (js_lift (getActiveTab snap)) (\<lambda>tab.
     js_bind (if has_key (panes tab) anchorPaneId then js_return anchorPaneId
              else js_lift (firstLeafId (layout tab))) (\<lambda>anchor.
     js_bind (placeViewInTab tab view anchor (dirZone d) None) (\<lambda>placed.
       updateTab snap (fst placed))))"

section \<open>Opening and splitting\<close>

text \<open>The first steps of opening: a draft that is open anywhere is focused.\<close>

definition existingDraft :: "snapshot \<Rightarrow> view_target \<Rightarrow> pane_location option" where
  "existingDraft snap target =
     (case target of
        TNewAgentSession e w d _ \<Rightarrow> findNewAgentSessionPane snap e w d
      | _ \<Rightarrow> None)"

definition applyOpenTarget :: "snapshot \<Rightarrow> view_target \<Rightarrow> snapshot js" where
  "applyOpenTarget snap target =
     (case existingDraft snap target of
        Some (t, p) \<Rightarrow> applySetFocused (applyActivateTab snap t) p
      | None \<Rightarrow>
          js_bind (js_lift (getActiveTab snap)) (\<lambda>activeTab.
            case findPaneByTarget activeTab target of
              Some p \<Rightarrow> applySetFocused snap p
            | None \<Rightarrow>
                (case firstInTabs (\<lambda>tab. findPaneByTarget tab target)
                        (filter (\<lambda>tab. tabId tab \<noteq> tabId activeTab) (tabs snap)) of
                   Some (t, p) \<Rightarrow> applySetFocused (applyActivateTab snap t) p
                 | None \<Rightarrow>
                     if length (panes activeTab) = 1 \<and> isWelcome (snd (hd (panes activeTab))) then
                       js_bind (viewInstance target) (\<lambda>view.
                         updateTab snap
                           (activeTab\<lparr>panes := AList.update (focusedPaneId activeTab) view (panes activeTab)\<rparr>))
                     else
                       let insertIndex =
                             (case findIndex (\<lambda>tab. tabId tab = activeTabId snap) (tabs snap) of
                                Some activeIndex \<Rightarrow> int activeIndex + 1
                              | None \<Rightarrow> int (length (tabs snap)))
                       in js_bind (viewInstance target) (\<lambda>view.
                          js_bind (insertPresentationTab snap view insertIndex None) (\<lambda>r.
                            js_return (fst r))))))"

definition applyOpenDeepLinkTarget :: "snapshot \<Rightarrow> view_target \<Rightarrow> snapshot js" where
  "applyOpenDeepLinkTarget snap target = applyOpenTarget snap target"

definition applySplitPane ::
  "snapshot \<Rightarrow> ident \<Rightarrow> view_target \<Rightarrow> split_dir \<Rightarrow> snapshot js" where
  "applySplitPane snap sourcePaneId target d =
     (case existingDraft snap target of
        Some (t, p) \<Rightarrow> applySetFocused (applyActivateTab snap t) p
      | None \<Rightarrow>
          js_bind (js_lift (getActiveTab snap)) (\<lambda>tab.
            case map_of (panes tab) sourcePaneId of
              None \<Rightarrow> applyOpenTarget snap target
            | Some source \<Rightarrow>
                (case findSessionViewPane snap target of
                   Some location \<Rightarrow>
                     if location = (tabId tab, sourcePaneId) then applySetFocused snap (snd location)
                     else
                       js_bind (detachView snap location) (\<lambda>detached.
                         case detached of
                           None \<Rightarrow> js_return snap
                         | Some (snap', view) \<Rightarrow> placeDetachedViewBeside snap' view sourcePaneId d)
                 | None \<Rightarrow>
                     if isWelcome source then applyOpenTarget snap target
                     else
                       (case findPaneByTarget tab target of
                          Some existing \<Rightarrow> applySetFocused snap existing
                        | None \<Rightarrow>
                            js_bind generateId (\<lambda>paneId.
                            js_bind (viewInstance target) (\<lambda>view.
                            js_bind (placedLayout tab paneId sourcePaneId (dirZone d)) (\<lambda>placed.
                              updateTab snap
                                (placed\<lparr>panes := AList.update paneId view (panes tab),
                                        focusedPaneId := paneId\<rparr>))))))))"

definition applySplitFocused :: "snapshot \<Rightarrow> view_target \<Rightarrow> split_dir \<Rightarrow> snapshot js" where
  "applySplitFocused snap target d =
     js_bind (js_lift (getActiveTab snap)) (\<lambda>tab.
       applySplitPane snap (focusedPaneId tab) target d)"

section \<open>Closing and retargeting\<close>

definition applyClosePane :: "snapshot \<Rightarrow> ident \<Rightarrow> snapshot option js" where
  "applyClosePane snap paneId =
     js_bind (js_lift (getActiveTab snap)) (\<lambda>tab.
       case map_of (panes tab) paneId of
         None \<Rightarrow> js_return None
       | Some view \<Rightarrow>
           js_bind (js_lift (closeLeaf tab paneId)) (\<lambda>next.
             case next of
               None \<Rightarrow>
                 if isWelcome view \<or> length (tabs snap) \<le> 1 then
                   js_bind (clearedTab tab) (\<lambda>t. js_bind (updateTab snap t) (\<lambda>s. js_return (Some s)))
                 else js_bind (js_lift (applyCloseTab snap (tabId tab))) (\<lambda>s. js_return (Some s))
             | Some tab' \<Rightarrow>
                 js_bind (updateTab snap (tab'\<lparr>panes := AList.delete paneId (panes tab)\<rparr>))
                   (\<lambda>s. js_return (Some s))))"

definition applyReplacePaneTarget :: "snapshot \<Rightarrow> ident \<Rightarrow> view_target \<Rightarrow> snapshot js" where
  "applyReplacePaneTarget snap paneId target =
     js_bind (js_lift (getActiveTab snap)) (\<lambda>tab.
       case map_of (panes tab) paneId of
         None \<Rightarrow> js_return snap
       | Some view \<Rightarrow>
           let existing =
                 (case findSessionViewPane snap target of
                    Some l \<Rightarrow> Some l
                  | None \<Rightarrow> map_option (\<lambda>p. (tabId tab, p)) (findPaneByTarget tab target));
               inPlace =
                 updateTab snap
                   (tab\<lparr>panes := AList.update paneId
                           (view\<lparr>definitionId := definitionIdForTarget target, viewTarget := target\<rparr>)
                           (panes tab)\<rparr>)
           in case existing of
                None \<Rightarrow> inPlace
              | Some location \<Rightarrow>
                  if location = (tabId tab, paneId) then inPlace
                  else
                    js_bind (js_lift (closeLeaf tab paneId)) (\<lambda>withoutPane.
                    js_bind
                      (case withoutPane of
                         None \<Rightarrow> clearedTab tab
                       | Some tab' \<Rightarrow> reconcileTab (tab'\<lparr>panes := AList.delete paneId (panes tab)\<rparr>))
                      (\<lambda>localTab.
                        applySetFocused (applyActivateTab (replaceTab snap localTab) (fst location))
                          (snd location))))"

section \<open>Layout modes, columns, focus and resizing keep snapshots well formed\<close>

lemma wf_tab_core: "wf_tab t \<Longrightarrow> tab_core t"
  by (simp add: wf_tab_def)

lemma wf_tab_leaves: "wf_tab t \<Longrightarrow> set (leafIds (layout t)) = set (keys (panes t)) \<and>
    distinct (leafIds (layout t)) \<and> wf_layout (layout t) \<and> leafIds (layout t) \<noteq> []"
  by (auto simp: wf_tab_def layout_covers_def dest: wf_leafIds_nonempty)

lemma activeTab_wp:
  assumes "good U snap s"
    and "\<And>t. t \<in> set (tabs snap) \<Longrightarrow> tabId t = activeTabId snap \<Longrightarrow> wf_tab t \<Longrightarrow>
      getActiveTab snap = Inr t \<Longrightarrow> wp (f t) Q s"
  shows "wp (js_bind (js_lift (getActiveTab snap)) f) Q s"
  using getActiveTab_ok [OF good_wf [OF assms(1)]] assms(2) by force

lemma applySetFocused_wp:
  assumes "good U snap s"
  shows "wp (applySetFocused snap p) (\<lambda>snap' s'. good U snap' s' \<and> occ snap' = occ snap \<and>
     activeTabId snap' = activeTabId snap \<and>
     (\<forall>t. findTab snap (activeTabId snap) = Some t \<and> has_key (panes t) p \<longrightarrow>
        (\<exists>t'. findTab snap' (activeTabId snap) = Some t' \<and> focusedPaneId t' = p))) s"
  unfolding applySetFocused_def
proof (rule activeTab_wp [OF assms])
  fix t assume t: "t \<in> set (tabs snap)" "tabId t = activeTabId snap" "wf_tab t" "getActiveTab snap = Inr t"
  have f: "findTab snap (activeTabId snap) = Some t"
    using t(4) by (auto simp: getActiveTab_def split: option.splits)
  let ?Q = "\<lambda>snap' s'. good U snap' s' \<and> occ snap' = occ snap \<and>
     activeTabId snap' = activeTabId snap \<and>
     (\<forall>t. findTab snap (activeTabId snap) = Some t \<and> has_key (panes t) p \<longrightarrow>
        (\<exists>t'. findTab snap' (activeTabId snap) = Some t' \<and> focusedPaneId t' = p))"
  show "wp (if \<not> has_key (panes t) p \<or> focusedPaneId t = p then js_return snap
       else updateTab snap (t\<lparr>focusedPaneId := p\<rparr>)) ?Q s"
  proof (cases "\<not> has_key (panes t) p \<or> focusedPaneId t = p")
    case True
    then show ?thesis using assms f by auto
  next
    case False
    have "tab_pre (t\<lparr>focusedPaneId := p\<rparr>)"
      using False wf_tab_pre [OF t(3)]
      by (cases "layoutMode t = Some Scrolling") (simp_all add: tab_pre_def tab_core_def layout_covers_def)
    from updateTab_same_panes [OF assms t(1) this]
    have "wp (updateTab snap (t\<lparr>focusedPaneId := p\<rparr>)) ?Q s"
    proof (rule wp_mono, simp, simp)
      fix snap' s' assume a: "good U snap' s' \<and> (\<exists>cs l. snap' = replaceTab snap
          (t\<lparr>focusedPaneId := p, columns := cs, layout := l\<rparr>))"
      then obtain cs l where s: "snap' = replaceTab snap (t\<lparr>focusedPaneId := p, columns := cs, layout := l\<rparr>)"
        by blast
      let ?t = "t\<lparr>focusedPaneId := p, columns := cs, layout := l\<rparr>"
      have id: "tabId ?t \<in> tabId ` set (tabs snap)" using t(1) by simp
      have "occ snap' = occ snap"
        unfolding s occ_replaceTab [OF id]
        using occ_split [OF good_wf [OF assms] t(1)] by (simp add: tabOcc_def)
      moreover have "findTab snap' (activeTabId snap) \<noteq> None"
        unfolding findTab_None s using good_wf [OF assms] by (simp add: wf_snapshot_def)
      then obtain u where u: "findTab snap' (activeTabId snap) = Some u" by blast
      have "u \<in> set (tabs snap')" "tabId u = tabId ?t" using findTab_Some [OF u] t(2) by simp_all
      then have "u = ?t" unfolding s set_replaceTab [OF id] by auto
      ultimately show "?Q snap' s'" using a u s by simp
    qed
    then show ?thesis using False by simp
  qed
qed

lemma keep_good: "wp m (\<lambda>snap' s'. good U snap' s' \<and> R snap') s \<Longrightarrow> wp m (good U) s"
  by (auto elim: wp_mono)

lemma changeWidth_pos: "col_pos c \<Longrightarrow> col_pos (changeWidth change c)"
  by (auto simp: changeWidth_def col_pos_def MIN_COLUMN_WIDTH_def MAX_COLUMN_WIDTH_def
      split: option.splits js_number.splits)

lemma changeShares_pos:
  assumes "col_pos c"
  shows "col_pos (changeShares change c)"
proof -
  have "\<forall>z \<in> set (map (\<lambda>n. n / sum_list qs) qs). 0 < z"
    if "\<forall>q \<in> set qs. 0 < q" for qs :: "rat list"
    using that sum_list_pos [of qs] by (cases "qs = []") auto
  then have "\<forall>z \<in> set (map (\<lambda>n. n / sum_list qs) qs). 0 < z"
    if "list_all (\<lambda>n. case n of Finite q \<Rightarrow> 0 < q | NotFinite \<Rightarrow> False) ss"
      "qs = map (\<lambda>n. case n of Finite q \<Rightarrow> q | NotFinite \<Rightarrow> 0) ss" for qs ss
    using that by (fastforce simp: list_all_iff split: js_number.splits)
  then show ?thesis
    using assms by (simp add: changeShares_def col_pos_def Let_def split: option.splits)
qed

lemma stepIndex_lt: "k < len \<Longrightarrow> stepIndex k d len = Some j \<Longrightarrow> j < len"
  by (auto simp: stepIndex_def split: step_direction.splits if_splits)

lemma swapped_set: "i < length xs \<Longrightarrow> j < length xs \<Longrightarrow> set (swapped xs i j) = set xs"
  by (simp add: swapped_def)

lemma tab_pre_columns:
  "wf_tab t \<Longrightarrow> layoutMode t = Some Scrolling \<Longrightarrow> cols_pos cs \<Longrightarrow>
     tab_pre (t\<lparr>columns := Some cs, layout := l\<rparr>)"
  using wf_tab_core [of t] by (simp add: tab_pre_def tab_core_def)

lemma updateTab_columns:
  assumes "good U snap s" "t \<in> set (tabs snap)" "layoutMode t = Some Scrolling" "cols_pos cs"
  shows "wp (updateTab snap (t\<lparr>columns := Some cs, layout := l\<rparr>)) (good U) s"
  using tab_pre_columns [OF good_tab [OF assms(1,2)] assms(3,4)]
  by (intro keep_good [OF updateTab_same_panes [OF assms(1,2)]]) simp_all

lemma cols_pos_update: "cols_pos cs \<Longrightarrow> k < length cs \<Longrightarrow> col_pos c \<Longrightarrow> cols_pos (cs[k := c])"
  using set_update_subset_insert [of cs k c] by (auto simp: cols_pos_def)

lemma cols_pos_nth: "cols_pos cs \<Longrightarrow> k < length cs \<Longrightarrow> col_pos (cs ! k)"
  by (simp add: cols_pos_def)

lemma applyColumnChange_wp:
  assumes "good U snap s"
  shows "wp (applyColumnChange snap i change) (good U) s"
  unfolding applyColumnChange_def
proof (rule activeTab_wp [OF assms])
  fix t assume t: "t \<in> set (tabs snap)" "wf_tab t"
  let ?upd = "\<lambda>k. changeShares change (changeWidth change (theColumns t ! k))"
  let ?cs = "\<lambda>k. (theColumns t)[k := ?upd k]"
  let ?new = "\<lambda>k. case cc_direction change of None \<Rightarrow> ?cs k
      | Some d \<Rightarrow> (case stepIndex k d (length (?cs k)) of None \<Rightarrow> ?cs k | Some j \<Rightarrow> swapped (?cs k) k j)"
  have "wp (updateTab snap (t\<lparr>columns := Some (?new k), layout := l\<rparr>)) (good U) s"
    if m: "layoutMode t = Some Scrolling" and k: "findIndex (\<lambda>c. columnId c = i) (theColumns t) = Some k" for k l
  proof -
    have pos: "cols_pos (theColumns t)"
      using wf_tab_columns [OF t(2) m] by (blast intro: cols_ok_pos)
    have kl: "k < length (theColumns t)" using findIndex_SomeD [OF k] by blast
    have "cols_pos (?cs k)"
      by (rule cols_pos_update [OF pos kl]) (intro changeShares_pos changeWidth_pos cols_pos_nth [OF pos kl])
    then have "cols_pos (?new k)"
      using kl by (auto simp: cols_pos_def swapped_set stepIndex_lt split: option.splits)
    then show ?thesis using updateTab_columns [OF assms t(1) m] by blast
  qed
  then show "wp (if layoutMode t \<noteq> Some Scrolling then js_return snap
       else case findIndex (\<lambda>c. columnId c = i) (theColumns t) of
           None \<Rightarrow> js_return snap
         | Some k \<Rightarrow>
             (let updated = ?upd k; cs = (theColumns t)[k := updated];
                  cs' = (case cc_direction change of None \<Rightarrow> cs
                         | Some d \<Rightarrow> (case stepIndex k d (length cs) of None \<Rightarrow> cs | Some j \<Rightarrow> swapped cs k j))
              in updateTab snap (t\<lparr>columns := Some cs', layout := columnsTree cs'\<rparr>))) (good U) s"
    using assms unfolding Let_def wp_if wp_case_option wp_return by (simp split: option.split)
qed

lemma moveInColumn_pos: "col_pos c \<Longrightarrow> col_pos (moveInColumn p d c)"
  by (auto simp: moveInColumn_def col_pos_def split: option.splits)

lemma applyMoveInColumn_wp:
  assumes "good U snap s"
  shows "wp (applyMoveInColumn snap p d) (good U) s"
  unfolding applyMoveInColumn_def
proof (rule activeTab_wp [OF assms])
  fix t assume t: "t \<in> set (tabs snap)" "wf_tab t"
  have "wp (updateTab snap (t\<lparr>columns := Some (map (moveInColumn p d) cs), layout := l\<rparr>)) (good U) s"
    if m: "layoutMode t = Some Scrolling" and cs: "columns t = Some cs" for cs l
  proof -
    have "cols_pos (map (moveInColumn p d) cs)"
      using wf_tab_columns [OF t(2) m] cols_ok_pos moveInColumn_pos cs by (auto simp: cols_pos_def)
    then show ?thesis using updateTab_columns [OF assms t(1) m] by blast
  qed
  then show "wp (case map_option (map (moveInColumn p d)) (columns t) of
         Some cs \<Rightarrow>
           if layoutMode t = Some Scrolling
           then updateTab snap (t\<lparr>columns := Some cs, layout := columnsTree cs\<rparr>)
           else js_return snap
       | None \<Rightarrow> js_return snap) (good U) s"
    using assms by (cases "columns t") simp_all
qed

lemma applySetSplitRatio_wp:
  assumes "good U snap s"
  shows "wp (applySetSplitRatio snap k idx ratio) (good U) s"
  unfolding applySetSplitRatio_def
proof (rule activeTab_wp [OF assms])
  fix t assume t: "t \<in> set (tabs snap)" "wf_tab t"
  have "wp (updateTab snap (t\<lparr>layout := setSplitRatio (layout t) k idx r\<rparr>)) (good U) s" for r
  proof -
    have "tab_pre (t\<lparr>layout := setSplitRatio (layout t) k idx r\<rparr>)"
      using wf_tab_pre [OF t(2)] by (cases "layoutMode t = Some Scrolling")
        (simp_all add: tab_pre_def tab_core_def layout_covers_def setSplitRatio_leafIds setSplitRatio_wf)
    then show ?thesis by (intro keep_good [OF updateTab_same_panes [OF assms t(1)]]) simp_all
  qed
  then show "wp (case ratio of NotFinite \<Rightarrow> js_return snap
       | Finite r \<Rightarrow> if setSplitRatioSame (layout t) k idx then js_return snap
           else updateTab snap (t\<lparr>layout := setSplitRatio (layout t) k idx r\<rparr>)) (good U) s"
    using assms by (cases ratio) simp_all
qed

section \<open>Placement\<close>

text \<open>The panes once \<open>x\<close> is placed at \<open>target\<close>.\<close>

definition placed_keys :: "workbench_tab \<Rightarrow> ident \<Rightarrow> ident \<Rightarrow> pane_drop_zone \<Rightarrow> ident set" where
  "placed_keys t x target zone =
     insert x (set (keys (panes t)) - (if zone = Replace then {target} else {}))"

lemma replaceLeafId_spec:
  assumes "wf_layout n" "distinct (leafIds n)" "target \<in> set (leafIds n)" "x \<notin> set (leafIds n) \<or> x = target"
  shows "wf_layout (replaceLeafId n target x)" "distinct (leafIds (replaceLeafId n target x))"
    "set (leafIds (replaceLeafId n target x)) = insert x (set (leafIds n) - {target})"
proof -
  have l: "leafIds (replaceLeafId n target x) = map (\<lambda>y. if y = target then x else y) (leafIds n)"
    by (rule replaceLeafId_leafIds)
  show "wf_layout (replaceLeafId n target x)" using assms(1) by (rule replaceLeafId_wf)
  show "distinct (leafIds (replaceLeafId n target x))"
    unfolding l using assms(2,4) by (auto simp: distinct_map inj_on_def)
  show "set (leafIds (replaceLeafId n target x)) = insert x (set (leafIds n) - {target})"
    unfolding l using assms(3) by auto
qed

lemma placedLayout_wp:
  assumes I: "supply_inv I" "I s" and t: "wf_tab t" and target: "target \<in> set (keys (panes t))"
    and x: "x \<noteq> target" "zone = Replace \<Longrightarrow> x \<notin> set (keys (panes t))"
  shows "wp (placedLayout t x target zone)
    (\<lambda>t' s'. (\<exists>l cs. t' = t\<lparr>layout := l, columns := cs\<rparr> \<and>
        (\<forall>ps f. distinct (keys ps) \<longrightarrow> f \<in> set (keys ps) \<longrightarrow> set (keys ps) = placed_keys t x target zone \<longrightarrow>
           tab_pre (t'\<lparr>panes := ps, focusedPaneId := f\<rparr>))) \<and> I s') s"
    (is "wp _ ?Q s")
proof -
  note leaves = wf_tab_leaves [OF t] and core = wf_tab_core [OF t]
  have bsp: "?Q (t\<lparr>layout := l\<rparr>) s'"
    if "layoutMode t \<noteq> Some Scrolling" "wf_layout l" "distinct (leafIds l)"
      "set (leafIds l) = placed_keys t x target zone" "I s'" for l s'
  proof -
    have "t\<lparr>layout := l\<rparr> = t\<lparr>layout := l, columns := columns t\<rparr>" by simp
    then show ?thesis using that core
      by (intro conjI exI [of _ l] exI [of _ "columns t"])
        ((simp add: tab_pre_def tab_core_def layout_covers_def; blast)+)
  qed
  show ?thesis
  proof (cases "layoutMode t = Some Scrolling")
    case True
    have cs: "cols_pos (theColumns t)" "target \<in> set (colIds (theColumns t))"
      "set (colIds (theColumns t)) = set (keys (panes t))"
      using wf_tab_columns [OF t True] target cols_ok_pos by blast+
    have "wp (placeInColumns (theColumns t) x target zone)
        (\<lambda>cs. wp (js_return (t\<lparr>columns := Some cs, layout := columnsTree cs\<rparr>)) ?Q) s"
    proof (rule wp_mono [OF placeInColumns_wp [OF I cs(1,2) x(1) [symmetric]]])
      fix cs s' assume a: "(cols_ok cs \<and> set (colIds cs) = placed_panes (colIds (theColumns t)) x target zone) \<and> I s'"
      let ?t = "t\<lparr>layout := columnsTree cs, columns := Some cs\<rparr>"
      have eq: "t\<lparr>columns := Some cs, layout := columnsTree cs\<rparr> = ?t" by simp
      have "tab_pre (?t\<lparr>panes := ps, focusedPaneId := f\<rparr>)"
        if "distinct (keys ps)" "f \<in> set (keys ps)" for ps f
        using core a that True by (simp add: tab_pre_def tab_core_def cols_ok_pos)
      then show "wp (js_return (t\<lparr>columns := Some cs, layout := columnsTree cs\<rparr>)) ?Q s'"
        unfolding wp_return eq using a by blast
    qed
    moreover have "placedLayout t x target zone =
        js_bind (placeInColumns (theColumns t) x target zone) (\<lambda>cs.
          js_return (t\<lparr>columns := Some cs, layout := columnsTree cs\<rparr>))"
      using True by (simp add: placedLayout_def)
    ultimately show ?thesis by (simp only: wp_bind)
  next
    case False
    show ?thesis
    proof (cases zone)
      case Replace
      have "?Q (t\<lparr>layout := replaceLeafId (layout t) target x\<rparr>) s"
        using leaves target x(2) [OF Replace] I(2) replaceLeafId_spec [of "layout t" target x] False
        by (intro bsp) (auto simp: placed_keys_def Replace)
      moreover have "placedLayout t x target zone =
          js_return (t\<lparr>layout := replaceLeafId (layout t) target x\<rparr>)"
        using False Replace by (simp add: placedLayout_def)
      ultimately show ?thesis by (simp only: wp_return)
    next
      case (Edge e)
      have "wp (placePane (layout t) x target e) (\<lambda>l. wp (js_return (t\<lparr>layout := l\<rparr>)) ?Q) s"
      proof (rule wp_mono [OF placePane_wf [OF I]])
        fix l s' assume "(set (leafIds l) = insert x (set (leafIds (layout t))) \<and> distinct (leafIds l) \<and> wf_layout l) \<and> I s'"
        then show "wp (js_return (t\<lparr>layout := l\<rparr>)) ?Q s'"
          unfolding wp_return using leaves False
          by (intro bsp) (auto simp: placed_keys_def Edge)
      qed (use leaves target in simp_all)
      moreover have "placedLayout t x target zone =
          js_bind (placePane (layout t) x target e) (\<lambda>l. js_return (t\<lparr>layout := l\<rparr>))"
        using False Edge by (simp add: placedLayout_def)
      ultimately show ?thesis by (simp only: wp_bind)
    qed
  qed
qed

definition reusesAnchor :: "workbench_tab \<Rightarrow> ident \<Rightarrow> pane_drop_zone \<Rightarrow> bool" where
  "reusesAnchor t a zone \<longleftrightarrow> zone = Replace \<or>
     (length (panes t) = 1 \<and> (\<exists>w. map_of (panes t) a = Some w \<and> isWelcome w))"

text \<open>
  \<open>placed t t' p v a reuse\<close>: \<open>t'\<close> shows \<open>v\<close> in the focused pane \<open>p\<close>, beside the panes of \<open>t\<close>, of
  which the anchor is gone when it is reused.
\<close>

definition placed_in :: "workbench_tab \<Rightarrow> workbench_tab \<Rightarrow> ident \<Rightarrow> view_instance \<Rightarrow> ident \<Rightarrow> bool \<Rightarrow> bool" where
  "placed_in t t' p v a reuse \<longleftrightarrow> tab_pre t' \<and> tabId t' = tabId t \<and> focusedPaneId t' = p \<and>
     set (panes t') = insert (p, v) {x \<in> set (panes t). reuse \<longrightarrow> fst x \<noteq> a}"

lemma placed_in_coh:
  assumes "placed_in t t' p v a reuse" "coh U (tabOcc t \<union> R)" "view_free U v (tabOcc t \<union> R)"
    and "R \<inter> tabOcc t = {}" "distinct (keys (panes t))"
    and "pane_free p (tabOcc t \<union> R) \<or> p = a \<and> reuse \<and> a \<in> set (keys (panes t))"
  shows "coh U (tabOcc t' \<union> R)" "occIds (tabOcc t') \<subseteq> {p, viewId v} \<union> occIds (tabOcc t)"
proof -
  let ?B = "tabOcc t - {x. reuse \<and> fst (snd x) = a}"
  have t': "tabOcc t' = insert (tabId t, p, v) ?B"
    using assms(1) by (auto simp: placed_in_def tabOcc_def)
  have free: "pane_free p (?B \<union> R)"
    using assms(6)
  proof
    assume "pane_free p (tabOcc t \<union> R)"
    then show ?thesis by (rule free_subset(1)) blast
  next
    assume p: "p = a \<and> reuse \<and> a \<in> set (keys (panes t))"
    then obtain w where "(a, w) \<in> set (panes t)" by auto
    then have w: "(tabId t, a, w) \<in> tabOcc t" by simp
    then have "(tabId t, a, w) \<in> tabOcc t \<union> R" "(tabId t, a, w) \<notin> ?B \<union> R"
      using p assms(4) by (auto simp del: tabOcc_iff)
    moreover have "?B \<union> R \<subseteq> tabOcc t \<union> R" by blast
    ultimately show ?thesis using coh_removed [OF assms(2)] p by meson
  qed
  have "coh U (?B \<union> R)" by (rule coh_subset [OF assms(2)]) blast
  moreover have "view_free U v (?B \<union> R)" by (rule free_subset(2) [OF assms(3)]) blast
  ultimately have "coh U (insert (tabId t, p, v) (?B \<union> R))" using free by (intro coh_add)
  then show "coh U (tabOcc t' \<union> R)" by (simp add: t')
  have "occIds ?B \<subseteq> occIds (tabOcc t)" by (rule occIds_mono) blast
  then show "occIds (tabOcc t') \<subseteq> {p, viewId v} \<union> occIds (tabOcc t)" by (auto simp: t')
qed

lemma keys_delete_free: "distinct (keys m) \<Longrightarrow> p \<notin> set (keys m) \<or> p = a \<Longrightarrow>
    set (AList.update p v (AList.delete a m)) = insert (p, v) {x \<in> set m. fst x \<noteq> a}"
  by (auto simp: set_update_map distinct_delete set_delete image_iff)

lemma placeViewInTab_wp:
  assumes t: "wf_tab t" and a: "a \<in> set (keys (panes t))" and f: "fresh s A" "set (keys (panes t)) \<subseteq> A"
    and arg: "\<And>q. arg = Some q \<Longrightarrow> q \<notin> set (keys (panes t))"
  shows "wp (placeViewInTab t v a zone arg)
    (\<lambda>r s'. \<exists>t' p. r = (t', p) \<and> placed_in t t' p v a (reusesAnchor t a zone) \<and>
       (case arg of Some q \<Rightarrow> p = q \<and> fresh s' A
        | None \<Rightarrow> if reusesAnchor t a zone then p = a \<and> fresh s' A else p \<notin> A \<and> fresh s' (insert p A))) s"
    (is "wp _ ?Q s")
proof -
  note leaves = wf_tab_leaves [OF t] and core = wf_tab_core [OF t]
  have d: "distinct (keys (panes t))" using core by (simp add: tab_core_def)
  obtain w where w: "map_of (panes t) a = Some w" using a map_of_None_keys [of "panes t" a] by (cases "map_of (panes t) a") auto
  have reuse: "(let anchor = map_of (panes t) a in zone = Replace \<or>
      (case anchor of None \<Rightarrow> True | Some a \<Rightarrow> length (panes t) = 1 \<and> isWelcome a)) = reusesAnchor t a zone"
    by (simp add: w reusesAnchor_def)
  show ?thesis
  proof (cases "reusesAnchor t a zone")
    case True
    let ?p = "case arg of Some p \<Rightarrow> p | None \<Rightarrow> a"
    let ?t = "t\<lparr>layout := replaceLeafId (layout t) a ?p, panes := AList.update ?p v (AList.delete a (panes t)),
        focusedPaneId := ?p\<rparr>"
    have p: "?p \<notin> set (keys (panes t)) \<or> ?p = a" using arg by (cases arg) auto
    have ps: "set (AList.update ?p v (AList.delete a (panes t))) = insert (?p, v) {x \<in> set (panes t). fst x \<noteq> a}"
      by (rule keys_delete_free [OF d p])
    have "set (keys (panes ?t)) = fst ` set (AList.update ?p v (AList.delete a (panes t)))" by simp
    also have "\<dots> = insert ?p (set (keys (panes t)) - {a})" unfolding ps by auto
    finally have keys: "set (keys (panes ?t)) = insert ?p (set (keys (panes t)) - {a})" .
    have dist: "distinct (keys (panes ?t))" using d by (simp add: distinct_delete)
    note rep = replaceLeafId_spec [of "layout t" a ?p]
    have "tab_pre ?t"
    proof (cases "layoutMode t = Some Scrolling")
      case True
      then show ?thesis using core keys dist wf_tab_columns [OF t True]
        by (simp add: tab_pre_def tab_core_def cols_ok_pos)
    next
      case False
      then show ?thesis using core keys dist rep leaves a p
        by (simp add: tab_pre_def tab_core_def layout_covers_def)
    qed
    then have "placed_in t ?t ?p v a True" using ps by (simp add: placed_in_def)
    moreover have "placeViewInTab t v a zone arg = js_return (?t, ?p)"
      using True unfolding placeViewInTab_def reuse [symmetric] Let_def by simp
    ultimately show ?thesis using True f(1) by (cases arg) simp_all
  next
    case False
    then obtain e where e: "zone = Edge e" by (cases zone) (auto simp: reusesAnchor_def)
    have step: "wp (placedLayout t p a zone) (\<lambda>placed. wp (js_return
          (placed\<lparr>panes := AList.update p v (panes t), focusedPaneId := p\<rparr>, p)) ?Q) s'"
      if p: "p \<notin> set (keys (panes t))" and s': "fresh s' B"
        and B: "case arg of Some q \<Rightarrow> p = q \<and> B = A | None \<Rightarrow> p \<notin> A \<and> B = insert p A" for p s' B
    proof (rule wp_mono [OF placedLayout_wp [OF supply_inv_fresh s' t a]], goal_cases)
      case (3 t2 s2)
      then obtain l cs where t2: "t2 = t\<lparr>layout := l, columns := cs\<rparr>" "fresh s2 B"
        "\<And>ps f. distinct (keys ps) \<Longrightarrow> f \<in> set (keys ps) \<Longrightarrow> set (keys ps) = placed_keys t p a zone \<Longrightarrow>
           tab_pre (t2\<lparr>panes := ps, focusedPaneId := f\<rparr>)" by blast
      let ?t = "t2\<lparr>panes := AList.update p v (panes t), focusedPaneId := p\<rparr>"
      have ps: "set (AList.update p v (panes t)) = insert (p, v) (set (panes t))"
        using p by (auto simp: set_update_map [OF d])
      have "set (keys (AList.update p v (panes t))) = placed_keys t p a zone"
        using p by (simp add: placed_keys_def e keys_update)
      then have "tab_pre ?t" using d by (intro t2(3)) (auto simp: placed_keys_def)
      then have "placed_in t ?t p v a (reusesAnchor t a zone)"
        using False ps by (simp add: placed_in_def t2(1))
      then show ?case using B t2(2) False by (cases arg) auto
    qed (use p a e in auto)
    have eq: "placeViewInTab t v a zone arg =
        js_bind (case arg of Some p \<Rightarrow> js_return p | None \<Rightarrow> generateId) (\<lambda>p.
        js_bind (placedLayout t p a zone) (\<lambda>placed.
          js_return (placed\<lparr>panes := AList.update p v (panes t), focusedPaneId := p\<rparr>, p)))"
      using False unfolding placeViewInTab_def reuse [symmetric] Let_def by simp
    show ?thesis
    proof (cases arg)
      case None
      have new: "shd s \<notin> A" using fresh_shd [OF f(1)] .
      moreover have "fresh (stl s) (insert (shd s) A)" using fresh_stl [OF f(1)] .
      ultimately show ?thesis
        unfolding None eq [unfolded None option.case] option.case wp_bind wp_generateId using f(2)
        by (intro step [unfolded None option.case]) auto
    next
      case (Some q)
      then show ?thesis
        unfolding Some eq [unfolded Some option.case] option.case wp_bind wp_return using f(1) arg [OF Some]
        by (intro step [unfolded Some option.case wp_return]) auto
    qed
  qed
qed

section \<open>Detaching and placing views\<close>

text \<open>The view is in this pane of this tab, and the pane has the focus of the tab.\<close>

definition shown :: "snapshot \<Rightarrow> ident \<Rightarrow> ident \<Rightarrow> view_instance \<Rightarrow> bool" where
  "shown snap t p v \<longleftrightarrow>
     (\<exists>u. findTab snap t = Some u \<and> map_of (panes u) p = Some v \<and> focusedPaneId u = p)"

lemma wf_tab_keys: "wf_tab t \<Longrightarrow> distinct (keys (panes t))"
  by (simp add: wf_tab_def tab_core_def)

lemma reduced_replaceTab:
  assumes wf: "wf_snapshot U snap" and t: "t \<in> set (tabs snap)" "map_of (panes t) p = Some v"
    and r: "reduced A p t t'" "wbIds snap \<subseteq> A"
  shows "wf_snapshot U (replaceTab snap t')" "pane_free p (occ (replaceTab snap t'))"
    "view_free U v (occ (replaceTab snap t'))"
    "wbIds (replaceTab snap t') \<subseteq> wbIds snap \<union> occIds (tabOcc t')"
proof -
  have wft: "wf_tab t" using wf t by (simp add: wf_snapshot_def)
  have id: "tabId t' = tabId t" "wf_tab t'" using r by (simp_all add: reduced_def)
  have in_ids: "tabId t' \<in> tabId ` set (tabs snap)" using t(1) by (simp add: id)
  have ids: "occIds (tabOcc t \<union> occ_but snap (tabId t)) \<subseteq> A"
    using r(2) occ_split [OF wf t(1)] by (simp add: wbIds_def)
  note red = reduced_coh [OF r(1) t(2) wf_tab_keys [OF wft] occ_of_tab [OF wf t(1)] ids occ_but_disjoint]
  show "wf_snapshot U (replaceTab snap t')"
    using wf_replaceTab [OF wf in_ids id(2)] red(1) by (simp add: id)
  show "pane_free p (occ (replaceTab snap t'))" "view_free U v (occ (replaceTab snap t'))"
    using red(2,3) by (simp_all add: occ_replaceTab [OF in_ids] id)
  show "wbIds (replaceTab snap t') \<subseteq> wbIds snap \<union> occIds (tabOcc t')"
    by (rule wbIds_replaceTab [OF in_ids])
qed

lemma detachView_wp:
  assumes "good U snap s" "findTab snap i = Some t" "map_of (panes t) p = Some v"
  shows "wp (detachView snap (i, p))
    (\<lambda>r s'. \<exists>t'. r = Some (replaceTab snap t', v) \<and> reduced (wbIds snap) p t t' \<and>
       wf_snapshot U (replaceTab snap t') \<and> fresh s' (wbIds snap \<union> wbIds (replaceTab snap t')) \<and>
       pane_free p (occ (replaceTab snap t')) \<and> view_free U v (occ (replaceTab snap t'))) s"
    (is "wp _ ?Q s")
proof -
  note wf = good_wf [OF assms(1)] and t = findTab_Some [OF assms(2)]
  have f: "fresh s (wbIds snap)" using assms(1) by (simp add: good_def)
  have wft: "wf_tab t" using good_tab assms(1) t by blast
  have "wp (removeViewFromTab t p) (\<lambda>after. wp (case after of None \<Rightarrow> js_return None
       | Some tabAfter \<Rightarrow> js_return (Some (replaceTab snap tabAfter, v))) ?Q) s"
  proof (rule wp_mono [OF removeViewFromTab_wp [OF wft assms(3) f]])
    show "occIds (tabOcc t) \<subseteq> wbIds snap" using occIds_tab t by blast
    fix r s' assume "\<exists>t'. r = Some t' \<and> reduced (wbIds snap) p t t' \<and> fresh s' (wbIds snap \<union> occIds (tabOcc t'))"
    then obtain t' where r: "r = Some t'" "reduced (wbIds snap) p t t'" "fresh s' (wbIds snap \<union> occIds (tabOcc t'))"
      by blast
    note red = reduced_replaceTab [OF wf _ assms(3) r(2) subset_refl]
    have tt: "t \<in> set (tabs snap)" using t by blast
    have "fresh s' (wbIds snap \<union> wbIds (replaceTab snap t'))"
      by (rule fresh_antimono [OF r(3)]) (use red(4) [OF tt] in auto)
    then show "wp (case r of None \<Rightarrow> js_return None
       | Some tabAfter \<Rightarrow> js_return (Some (replaceTab snap tabAfter, v))) ?Q s'"
      using red(1-3) [OF tt] r(1,2) by auto
  qed
  then show ?thesis by (simp add: detachView_def assms(2,3))
qed

text \<open>Placing a view that the snapshot does not hold, and updating the tab.\<close>

lemma placeViewInTab_update:
  assumes wf: "wf_snapshot U snap" and f: "fresh s A" "wbIds snap \<subseteq> A" "viewId v \<in> A"
    and t: "t \<in> set (tabs snap)" and a: "a \<in> set (keys (panes t))"
    and v: "view_free U v (occ snap)"
    and arg: "\<And>q. arg = Some q \<Longrightarrow> q \<in> A \<and> pane_free q (occ snap)"
  shows "wp (placeViewInTab t v a zone arg) (\<lambda>placed. wp (updateTab snap (fst placed))
    (\<lambda>snap' s'. good U snap' s' \<and> shown snap' (tabId t) (snd placed) v \<and>
      activeTabId snap' = activeTabId snap)) s"
proof -
  have wft: "wf_tab t" using wf t by (simp add: wf_snapshot_def)
  have keys: "set (keys (panes t)) \<subseteq> occIds (tabOcc t)"
    by (simp add: occIds_def tabOcc_def image_image case_prod_beta)
  have kA: "set (keys (panes t)) \<subseteq> A" using keys occIds_tab [OF t] f(2) by blast
  have free_key: "q \<notin> set (keys (panes t))" if "pane_free q (occ snap)" for q
    using that occ_in [OF t] by (fastforce simp: pane_free_def tabOcc_def)
  let ?R = "occ_but snap (tabId t)"
  have occ: "occ snap = tabOcc t \<union> ?R" using occ_split [OF wf t] .
  show ?thesis
  proof (rule wp_mono [OF placeViewInTab_wp [OF wft a f(1) kA]])
    show "q \<notin> set (keys (panes t))" if "arg = Some q" for q using free_key arg [OF that] by blast
    fix r s'
    assume "\<exists>t' p. r = (t', p) \<and> placed_in t t' p v a (reusesAnchor t a zone) \<and>
       (case arg of Some q \<Rightarrow> p = q \<and> fresh s' A
        | None \<Rightarrow> if reusesAnchor t a zone then p = a \<and> fresh s' A else p \<notin> A \<and> fresh s' (insert p A))"
    then obtain t' p where r: "r = (t', p)" "placed_in t t' p v a (reusesAnchor t a zone)"
      "case arg of Some q \<Rightarrow> p = q \<and> fresh s' A
        | None \<Rightarrow> if reusesAnchor t a zone then p = a \<and> fresh s' A else p \<notin> A \<and> fresh s' (insert p A)"
      by blast
    have s': "fresh s' (insert p A)"
      using r(3) arg a kA by (cases arg) (auto simp: insert_absorb subset_iff split: if_splits)
    have "pane_free p (tabOcc t \<union> ?R) \<or> p = a \<and> reusesAnchor t a zone \<and> a \<in> set (keys (panes t))"
    proof (cases arg)
      case None
      have "p \<notin> A \<Longrightarrow> pane_free p (occ snap)"
        using f(2) by (intro pane_free_new) (auto simp: wbIds_def)
      then show ?thesis using r(3) a None
        by (cases "reusesAnchor t a zone") (simp_all flip: occ)
    next
      case (Some q)
      then show ?thesis using r(3) arg [OF Some] occ by auto
    qed
    note placed = placed_in_coh [OF r(2) occ_of_tab [OF wf t] _ occ_but_disjoint wf_tab_keys [OF wft] this]
    have v': "view_free U v (tabOcc t \<union> ?R)" using v occ by simp
    have id: "tabId t' = tabId t" "tab_pre t'" using r(2) by (simp_all add: placed_in_def)
    have ids: "wbIds snap \<union> occIds (tabOcc t') \<subseteq> insert p A"
      using f(2,3) placed(2) [OF v'] occIds_tab [OF t] by auto
    have "wp (updateTab snap t') (\<lambda>snap' s'. good U snap' s' \<and>
       (\<exists>cs l. snap' = replaceTab snap (t'\<lparr>columns := cs, layout := l\<rparr>))) s'"
      using t placed(1) [OF v'] id fresh_antimono [OF s' ids]
      by (intro updateTab_wp [OF wf]) simp_all
    then show "wp (updateTab snap (fst r)) (\<lambda>snap' s'. good U snap' s' \<and> shown snap' (tabId t) (snd r) v \<and>
      activeTabId snap' = activeTabId snap) s'"
    proof (simp only: r(1) fst_conv, elim wp_mono, elim conjE exE)
      fix snap' s2 cs l
      assume g: "good U snap' s2" and snap': "snap' = replaceTab snap (t'\<lparr>columns := cs, layout := l\<rparr>)"
      let ?t = "t'\<lparr>columns := cs, layout := l\<rparr>"
      have "findTab snap' (tabId t) = Some ?t"
        using t id(1) by (simp add: snap' findTab_replaceTab)
      moreover have "distinct (keys (panes t'))" using id(2) by (simp add: tab_pre_def tab_core_def)
      then have "map_of (panes ?t) p = Some v" using r(2) by (simp add: placed_in_def)
      ultimately show "good U snap' s2 \<and> shown snap' (tabId t) (snd (t', p)) v \<and> activeTabId snap' = activeTabId snap"
        using g r(2) by (simp add: shown_def placed_in_def snap')
    qed
  qed
qed

section \<open>Opening and splitting keep snapshots well formed\<close>

lemma find_pair_Some:
  "map_option fst (List.find (\<lambda>(p, v). P v) ps) = Some p \<Longrightarrow> \<exists>v. (p, v) \<in> set ps \<and> P v"
  by (induction ps) (auto split: if_splits)

lemma find_pair_None:
  "map_option fst (List.find (\<lambda>(p, v). P v) ps) = None \<longleftrightarrow> (\<forall>(p, v) \<in> set ps. \<not> P v)"
  by (auto simp: find_None_iff)

lemma firstInTabs_Some:
  "firstInTabs f ts = Some (i, p) \<Longrightarrow> \<exists>t \<in> set ts. tabId t = i \<and> f t = Some p"
  by (induction ts) (auto split: option.splits)

lemma firstInTabs_None: "firstInTabs f ts = None \<longleftrightarrow> (\<forall>t \<in> set ts. f t = None)"
  by (induction ts) (auto split: option.splits)

lemma findPaneByTarget_Some:
  "findPaneByTarget t g = Some p \<Longrightarrow> \<exists>v. (p, v) \<in> set (panes t) \<and> targetKey (viewTarget v) = targetKey g"
  unfolding findPaneByTarget_def Let_def by (rule find_pair_Some)

lemma findPaneByTarget_None:
  "findPaneByTarget t g = None \<longleftrightarrow> (\<forall>(p, v) \<in> set (panes t). targetKey (viewTarget v) \<noteq> targetKey g)"
  unfolding findPaneByTarget_def Let_def by (rule find_pair_None)

lemma findSessionViewPane_Some:
  assumes "findSessionViewPane snap g = Some (i, p)"
  obtains t v where "t \<in> set (tabs snap)" "tabId t = i" "(p, v) \<in> set (panes t)"
    "isSameSessionTarget (viewTarget v) g"
  using assms unfolding findSessionViewPane_def findPaneBySessionTarget_def
  by (auto split: if_splits dest!: firstInTabs_Some find_pair_Some)

lemma findSessionViewPane_None:
  assumes "findSessionViewPane snap g = None" "(i, p, v) \<in> occ snap"
  shows "\<not> isSameSessionTarget (viewTarget v) g"
proof
  assume same: "isSameSessionTarget (viewTarget v) g"
  obtain t where t: "t \<in> set (tabs snap)" "(p, v) \<in> set (panes t)" using assms(2) by (auto simp: occ_iff)
  have "firstInTabs (\<lambda>tab. findPaneBySessionTarget tab g) (tabs snap) = None"
    using assms(1) sameSession_session [OF same] by (simp add: findSessionViewPane_def)
  then have n: "findPaneBySessionTarget t g = None" using t(1) by (simp add: firstInTabs_None)
  show False using n [unfolded findPaneBySessionTarget_def find_pair_None] t(2) same by fastforce
qed

lemma existingDraft_Some:
  assumes "existingDraft snap g = Some (i, p)"
  obtains t v where "t \<in> set (tabs snap)" "tabId t = i" "(p, v) \<in> set (panes t)"
    "targetKey (viewTarget v) = targetKey g"
proof -
  obtain e w d x where g: "g = TNewAgentSession e w d x"
    using assms by (cases g) (auto simp: existingDraft_def)
  obtain t where t: "t \<in> set (tabs snap)" "tabId t = i"
    "map_option fst (List.find (\<lambda>(p, v). isDraft e w d (viewTarget v)) (panes t)) = Some p"
    using assms firstInTabs_Some by (force simp: existingDraft_def g findNewAgentSessionPane_def)
  obtain v where v: "(p, v) \<in> set (panes t)" "isDraft e w d (viewTarget v)"
    using find_pair_Some [OF t(3)] by blast
  then have "targetKey (viewTarget v) = targetKey g"
    by (cases "viewTarget v") (auto simp: isDraft_def g)
  then show ?thesis using that t v by blast
qed

text \<open>The focused pane of the active tab shows a target with this key.\<close>

definition focused_key :: "snapshot \<Rightarrow> string \<Rightarrow> bool" where
  "focused_key snap key \<longleftrightarrow>
     (\<exists>p v. shown snap (activeTabId snap) p v \<and> targetKey (viewTarget v) = key)"

lemma shownI:
  assumes "wf_snapshot U snap" "(i, p, v) \<in> occ snap" "findTab snap i = Some u" "focusedPaneId u = p"
  shows "shown snap i p v"
proof -
  obtain t where t: "t \<in> set (tabs snap)" "tabId t = i" "(p, v) \<in> set (panes t)"
    using assms(2) by (auto simp: occ_iff)
  then have "t = u" using findTab_tab [OF assms(1)] assms(3) by force
  moreover have "distinct (keys (panes t))" using assms(1) t(1) wf_tab_keys by (simp add: wf_snapshot_def)
  ultimately show ?thesis using t assms(3,4) by (auto simp: shown_def)
qed

lemma focus_pane_wp:
  assumes "good U snap s" "t \<in> set (tabs snap)" "(p, v) \<in> set (panes t)"
  shows "wp (applySetFocused (applyActivateTab snap (tabId t)) p)
    (\<lambda>snap' s'. good U snap' s' \<and> occ snap' = occ snap \<and> activeTabId snap' = tabId t \<and>
       shown snap' (tabId t) p v) s"
proof (rule wp_mono [OF applySetFocused_wp [OF applyActivateTab_good [OF assms(1)], of "tabId t" p]])
  let ?act = "applyActivateTab snap (tabId t)"
  fix snap' s'
  assume a: "good U snap' s' \<and> occ snap' = occ ?act \<and> activeTabId snap' = activeTabId ?act \<and>
     (\<forall>t'. findTab ?act (activeTabId ?act) = Some t' \<and> has_key (panes t') p \<longrightarrow>
        (\<exists>u. findTab snap' (activeTabId ?act) = Some u \<and> focusedPaneId u = p))"
  have act: "activeTabId ?act = tabId t" using assms(2) by simp
  have "findTab ?act (tabId t) = Some t"
    using findTab_tab [OF good_wf [OF assms(1)] assms(2)] by (simp add: findTab_def)
  moreover have "has_key (panes t) p" using assms(3) by (force simp: image_iff)
  ultimately obtain u where u: "findTab snap' (tabId t) = Some u" "focusedPaneId u = p"
    using a act by auto
  have "(tabId t, p, v) \<in> occ snap'" using a assms(2,3) by (auto simp: occ_iff)
  then show "good U snap' s' \<and> occ snap' = occ snap \<and> activeTabId snap' = tabId t \<and> shown snap' (tabId t) p v"
    using shownI [OF good_wf] u a act by (metis applyActivateTab_simps(2))
qed

lemma focus_active_wp:
  assumes "good U snap s" "t \<in> set (tabs snap)" "tabId t = activeTabId snap" "(p, v) \<in> set (panes t)"
  shows "wp (applySetFocused snap p)
    (\<lambda>snap' s'. good U snap' s' \<and> occ snap' = occ snap \<and> activeTabId snap' = tabId t \<and>
       shown snap' (tabId t) p v) s"
  using focus_pane_wp [OF assms(1,2,4)] assms(3) by (simp add: applyActivateTab_def)

lemma viewInstance_wp:
  assumes "fresh s A"
  shows "wp (viewInstance g) (\<lambda>v s'. viewTarget v = g \<and> definitionId v = definitionIdForTarget g \<and>
     viewId v \<notin> A \<and> fresh s' (insert (viewId v) A)) s"
  using fresh_shd [OF assms] fresh_stl [OF assms] by (simp add: viewInstance_def)

text \<open>
  Opening a target whose key is shown only moves the focus; otherwise a view of this target is
  added and focused.
\<close>

definition key_shown :: "snapshot \<Rightarrow> view_target \<Rightarrow> bool" where
  "key_shown snap g \<longleftrightarrow> (\<exists>x \<in> occ snap. targetKey (viewTarget (snd (snd x))) = targetKey g)"

lemma key_shownI:
  "t \<in> set (tabs snap) \<Longrightarrow> (p, v) \<in> set (panes t) \<Longrightarrow> targetKey (viewTarget v) = targetKey g \<Longrightarrow>
     key_shown snap g"
  unfolding key_shown_def by (rule bexI [of _ "(tabId t, p, v)"]) (auto simp: occ_iff)

lemma applyOpenTarget_key_wp:
  assumes "good U snap s"
  shows "wp (applyOpenTarget snap g)
    (\<lambda>snap' s'. good U snap' s' \<and>
       (if key_shown snap g then occ snap' = occ snap \<and> focused_key snap' (targetKey g)
        else \<exists>p v. shown snap' (activeTabId snap') p v \<and> viewTarget v = g)) s"
    (is "wp _ ?Q s")
proof (cases "existingDraft snap g")
  case (Some l)
  obtain t v where t: "t \<in> set (tabs snap)" "tabId t = fst l" "(snd l, v) \<in> set (panes t)"
    "targetKey (viewTarget v) = targetKey g" using existingDraft_Some [of snap g "fst l" "snd l"] Some by auto
  have "wp (applySetFocused (applyActivateTab snap (fst l)) (snd l)) ?Q s"
    by (rule wp_mono [OF focus_pane_wp [OF assms t(1,3), unfolded t(2)]])
      (use t(4) key_shownI [OF t(1,3,4)] in \<open>simp add: focused_key_def, blast\<close>)
  then show ?thesis by (simp add: applyOpenTarget_def Some case_prod_beta)
next
  case None
  show ?thesis
    unfolding applyOpenTarget_def None option.case
  proof (rule activeTab_wp [OF assms])
    fix t assume t: "t \<in> set (tabs snap)" "tabId t = activeTabId snap" "wf_tab t"
    note wf = good_wf [OF assms]
    have f: "fresh s (wbIds snap)" using assms by (simp add: good_def)
    let ?rest = "firstInTabs (\<lambda>tab. findPaneByTarget tab g) (filter (\<lambda>tab. tabId tab \<noteq> tabId t) (tabs snap))"
    have here: "wp (applySetFocused snap p) ?Q s" if fp: "findPaneByTarget t g = Some p" for p
    proof -
      obtain v where v: "(p, v) \<in> set (panes t)" "targetKey (viewTarget v) = targetKey g"
        using findPaneByTarget_Some [OF fp] by blast
      show ?thesis
        by (rule wp_mono [OF focus_active_wp [OF assms t(1,2) v(1)]])
          (use v(2) key_shownI [OF t(1) v] in \<open>simp add: focused_key_def, blast\<close>)
    qed
    have there: "wp (applySetFocused (applyActivateTab snap i) p) ?Q s" if ip: "?rest = Some (i, p)" for i p
    proof -
      obtain u where u: "u \<in> set (tabs snap)" "tabId u = i" "findPaneByTarget u g = Some p"
        using firstInTabs_Some [OF ip] by auto
      obtain v where v: "(p, v) \<in> set (panes u)" "targetKey (viewTarget v) = targetKey g"
        using findPaneByTarget_Some [OF u(3)] by blast
      show ?thesis
        by (rule wp_mono [OF focus_pane_wp [OF assms u(1) v(1), unfolded u(2)]])
          (use v(2) key_shownI [OF u(1) v] in \<open>simp add: focused_key_def, blast\<close>)
    qed
    have absent: "\<not> key_shown snap g" if h: "findPaneByTarget t g = None" "?rest = None"
    proof -
      have "findPaneByTarget u g = None" if u: "u \<in> set (tabs snap)" for u
        using u h tabs_eq [OF wf u t(1)]
        by (cases "tabId u = tabId t") (auto simp: firstInTabs_None)
      then show ?thesis unfolding key_shown_def by (fastforce simp: occ_iff findPaneByTarget_None)
    qed
    have new: "view_free U v (occ snap)"
      if "findPaneByTarget t g = None" "?rest = None" "viewTarget v = g" "viewId v \<notin> wbIds snap" for v
    proof (rule view_free_new)
      show "viewId v \<notin> occIds (occ snap)" using that(4) by (simp add: wbIds_def)
      have key: "targetKey (viewTarget w) \<noteq> targetKey g" if o: "(i, p, w) \<in> occ snap" for i p w
        using o absent [OF \<open>findPaneByTarget t g = None\<close> \<open>?rest = None\<close>]
        unfolding key_shown_def by force
      have "\<not> sameSession v w" if o: "(i, p, w) \<in> occ snap" for i p w
        using key [OF o] sameSession_targetKey \<open>viewTarget v = g\<close> unfolding sameSession_def by metis
      then show "\<forall>x \<in> occ snap. \<not> sameSession v (snd (snd x))" by force
    qed
    have replace: "wp (viewInstance g) (\<lambda>v. wp (updateTab snap
        (t\<lparr>panes := AList.update (focusedPaneId t) v (panes t)\<rparr>)) ?Q) s"
      if h: "findPaneByTarget t g = None" "?rest = None" "length (panes t) = 1"
    proof (rule wp_mono [OF viewInstance_wp [OF f]], elim conjE)
      fix v :: view_instance and s'
      assume v: "viewTarget v = g" "viewId v \<notin> wbIds snap" "fresh s' (insert (viewId v) (wbIds snap))"
      obtain q w where ps: "panes t = [(q, w)]" using h(3) by (cases "panes t") auto
      have q: "focusedPaneId t = q" using wf_tab_core [OF t(3)] ps by (simp add: tab_core_def)
      let ?t = "t\<lparr>panes := AList.update (focusedPaneId t) v (panes t)\<rparr>"
      have ps': "panes ?t = [(q, v)]" by (simp add: ps q)
      have pre: "tab_pre ?t" using wf_tab_pre [OF t(3)] ps q
        by (cases "layoutMode t = Some Scrolling") (simp_all add: tab_pre_def tab_core_def layout_covers_def)
      have "(tabId t, q, w) \<notin> occ_but snap (tabId t)" by (simp add: occ_but_def)
      then have "pane_free q (occ_but snap (tabId t))"
        using coh_removed [OF occ_of_tab [OF wf t(1)], of "tabId t" q w "occ_but snap (tabId t)"] ps by auto
      moreover have "view_free U v (occ_but snap (tabId t))"
        by (rule free_subset(2) [OF new [OF h(1,2) v(1,2)] occ_but_subset])
      moreover have "coh U (occ_but snap (tabId t))"
        by (rule coh_subset [OF occ_of_tab [OF wf t(1)]]) blast
      ultimately have c: "coh U (tabOcc ?t \<union> occ_but snap (tabId ?t))"
        using coh_add [of U "occ_but snap (tabId t)" q v "tabId t"] ps' by simp
      have "q \<in> wbIds snap" using occIds_tab [OF t(1)] ps by simp
      then have fr: "fresh s' (wbIds snap \<union> occIds (tabOcc ?t))"
        using v(3) by (simp add: ps' insert_absorb)
      have id: "tabId ?t \<in> tabId ` set (tabs snap)" using t(1) by simp
      show "wp (updateTab snap ?t) ?Q s'"
      proof (rule wp_mono [OF updateTab_wp [OF wf id pre c fr]], elim conjE exE)
        fix snap' s2 cs l
        assume g: "good U snap' s2" "snap' = replaceTab snap (?t\<lparr>columns := cs, layout := l\<rparr>)"
        have "shown snap' (activeTabId snap') q v"
          using id t(2) ps' q by (simp add: shown_def g(2) findTab_replaceTab)
        then show "?Q snap' s2" using g(1) v(1) absent [OF h(1,2)] by auto
      qed
    qed
    have insert: "wp (viewInstance g) (\<lambda>v. wp (insertPresentationTab snap v k None)
        (\<lambda>r. wp (js_return (fst r)) ?Q)) s"
      if h: "findPaneByTarget t g = None" "?rest = None" for k
    proof (rule wp_mono [OF viewInstance_wp [OF f]], elim conjE)
      fix v :: view_instance and s'
      assume v: "viewTarget v = g" "viewId v \<notin> wbIds snap" "fresh s' (insert (viewId v) (wbIds snap))"
      show "wp (insertPresentationTab snap v k None) (\<lambda>r. wp (js_return (fst r)) ?Q) s'"
      proof (rule wp_mono [OF insertPresentationTab_wp [OF wf v(3)]], goal_cases)
        case (5 r s2)
        then obtain snap' i p k' where r: "r = (snap', i, p)" "good U snap' s2" "activeTabId snap' = i"
          "tabs snap' = insert_at k' (singleTab i p v) (tabs snap)" by blast
        have "findTab snap' i = Some (singleTab i p v)"
          using findTab_tab [OF good_wf [OF r(2)], of "singleTab i p v"] r(4) by simp
        then have "shown snap' i p v" by (simp add: shown_def)
        then show ?case using r v(1) absent [OF h] by auto
      qed (use new [OF h v(1,2)] in auto)
    qed
    show "wp (case findPaneByTarget t g of
              Some p \<Rightarrow> applySetFocused snap p
            | None \<Rightarrow>
                (case ?rest of
                   Some (t, p) \<Rightarrow> applySetFocused (applyActivateTab snap t) p
                 | None \<Rightarrow>
                     if length (panes t) = 1 \<and> isWelcome (snd (hd (panes t))) then
                       js_bind (viewInstance g) (\<lambda>view.
                         updateTab snap (t\<lparr>panes := AList.update (focusedPaneId t) view (panes t)\<rparr>))
                     else
                       let insertIndex =
                             (case findIndex (\<lambda>tab. tabId tab = activeTabId snap) (tabs snap) of
                                Some activeIndex \<Rightarrow> int activeIndex + 1
                              | None \<Rightarrow> int (length (tabs snap)))
                       in js_bind (viewInstance g) (\<lambda>view.
                          js_bind (insertPresentationTab snap view insertIndex None) (\<lambda>r.
                            js_return (fst r))))) ?Q s"
    proof (cases "findPaneByTarget t g")
      case (Some p)
      show ?thesis unfolding Some option.case by (rule here [OF Some])
    next
      case n: None
      show ?thesis
      proof (cases ?rest)
        case (Some l)
        then have "wp (applySetFocused (applyActivateTab snap (fst l)) (snd l)) ?Q s"
          using there [of "fst l" "snd l"] by simp
        then show ?thesis unfolding n Some option.case case_prod_beta .
      next
        case None
        show ?thesis
          unfolding n None option.case wp_if Let_def wp_bind
          using replace [OF n None] insert [OF n None] by (cases "length (panes t) = 1") simp_all
      qed
    qed
  qed
qed

lemma applyOpenTarget_wp:
  assumes "good U snap s"
  shows "wp (applyOpenTarget snap g)
    (\<lambda>snap' s'. good U snap' s' \<and> focused_key snap' (targetKey g)) s"
  by (rule wp_mono [OF applyOpenTarget_key_wp [OF assms]])
    (auto simp: focused_key_def split: if_splits)

end
