(* ===== verification/WorkbenchModes.thy ===== *)
theory WorkbenchModes
  imports WorkbenchOps
begin

text \<open>
  Switching the active tab between the split tree and the scrolling columns
  (\<open>applySetLayoutMode\<close> of \<open>apps/web/src/workbench/workbenchState.ts\<close>): each arrangement is
  remembered, and coming back to it restores it.
\<close>

section \<open>One switch\<close>

definition memoryOf :: "workbench_tab \<Rightarrow> layout_memory" where
  "memoryOf t =
     (let new = \<lparr>memoryVersion = LAYOUT_VERSION, memoryBsp = None, memoryColumns = None\<rparr>
      in case layoutMemory t of
           Some m \<Rightarrow> if memoryVersion m = LAYOUT_VERSION then m else new
         | None \<Rightarrow> new)"

lemma memoryOf_version [simp]: "memoryVersion (memoryOf t) = LAYOUT_VERSION"
  by (simp add: memoryOf_def Let_def split: option.split)

lemma memoryOf_wf: "tab_core t \<Longrightarrow> wf_memory (memoryOf t)"
  by (auto simp: memoryOf_def Let_def tab_core_def wf_memory_def split: option.splits)

lemma memoryOf_current: "layoutMemory t = Some m \<Longrightarrow> memoryVersion m = LAYOUT_VERSION \<Longrightarrow> memoryOf t = m"
  by (simp add: memoryOf_def)

text \<open>The tab that a switch hands to \<open>updateTab\<close>.\<close>

definition inScrolling :: "workbench_tab \<Rightarrow> column list \<Rightarrow> workbench_tab" where
  "inScrolling t cs = t\<lparr>layoutMode := Some Scrolling, columns := Some cs, layout := columnsTree cs,
     layoutMemory := Some ((memoryOf t)\<lparr>memoryBsp := Some (layout t)\<rparr>)\<rparr>"

definition inBsp :: "workbench_tab \<Rightarrow> layout_node \<Rightarrow> workbench_tab" where
  "inBsp t l = t\<lparr>layoutMode := Some Bsp, layout := l,
     layoutMemory := Some ((memoryOf t)\<lparr>memoryColumns := Some (theColumns t)\<rparr>)\<rparr>"

lemma applySetLayoutMode_unfold:
  "applySetLayoutMode snap mode = js_bind (js_lift (getActiveTab snap)) (\<lambda>t.
     if (case layoutMode t of Some m \<Rightarrow> m | None \<Rightarrow> Bsp) = mode then js_return snap
     else if mode = Scrolling then
       js_bind (reconcileColumns (case memoryColumns (memoryOf t) of Some cs \<Rightarrow> cs | None \<Rightarrow> [])
         (leafIds (layout t))) (\<lambda>cs. updateTab snap (inScrolling t cs))
     else js_bind (reconcileBsp (memoryBsp (memoryOf t)) (leafIds (layout t))) (\<lambda>l.
       updateTab snap (inBsp t l)))"
  unfolding applySetLayoutMode_def memoryOf_def inScrolling_def inBsp_def Let_def
  by (cases mode; intro arg_cong2 [where f = js_bind] ext refl) (auto split: option.split)

lemma toScrolling_wp:
  assumes g: "good U snap s" and t: "t \<in> set (tabs snap)" "getActiveTab snap = Inr t"
    and m: "layoutMode t \<noteq> Some Scrolling"
  shows "wp (applySetLayoutMode snap Scrolling)
    (\<lambda>snap' s'. good U snap' s' \<and>
       (\<exists>cs c l. snap' = replaceTab snap ((inScrolling t cs)\<lparr>columns := c, layout := l\<rparr>))) s"
proof -
  have active_facts: "wf_tab t" "fresh s (wbIds snap)" "wf_snapshot U snap"
    using good_tab [OF g t(1)] g by (simp_all add: good_def)
  note leaves = wf_tab_leaves [OF active_facts(1)] and core = wf_tab_core [OF active_facts(1)]
  let ?m = "memoryOf t"
  let ?cs = "case memoryColumns ?m of Some cs \<Rightarrow> cs | None \<Rightarrow> []"
  have "wp (reconcileColumns ?cs (leafIds (layout t))) (\<lambda>cs. wp (updateTab snap (inScrolling t cs))
      (\<lambda>snap' s'. good U snap' s' \<and>
       (\<exists>cs c l. snap' = replaceTab snap ((inScrolling t cs)\<lparr>columns := c, layout := l\<rparr>)))) s"
  proof (rule wp_mono [OF reconcileColumns_wp [OF supply_inv_fresh active_facts(2)]], goal_cases)
    case 1
    show ?case using memoryOf_wf [OF core] by (cases "memoryColumns ?m") (simp_all add: wf_memory_def cols_pos_def)
  next
    case (2 cs s')
    then have cs: "cols_ok cs" "fresh s' (wbIds snap)" using leaves by blast+
    have "wf_memory (?m\<lparr>memoryBsp := Some (layout t)\<rparr>)"
      using memoryOf_wf [OF core] leaves by (simp add: wf_memory_def)
    then have "tab_pre (inScrolling t cs)"
      using core cs(1) by (simp add: tab_pre_def tab_core_def cols_ok_pos inScrolling_def)
    then show ?case
      using active_facts(3) cs(2) t(1)
      by (intro wp_mono [OF updateTab_same_panes [of U _ _ t]]) (auto simp: good_def inScrolling_def)
  qed
  moreover have "(case layoutMode t of Some m \<Rightarrow> m | None \<Rightarrow> Bsp) \<noteq> Scrolling"
    using m by (cases "layoutMode t") auto
  ultimately show ?thesis
    unfolding applySetLayoutMode_unfold wp_bind t(2) wp_lift_Inr wp_if by simp
qed

lemma toBsp_wp:
  assumes g: "good U snap s" and t: "t \<in> set (tabs snap)" "getActiveTab snap = Inr t"
    and m: "layoutMode t = Some Scrolling"
  shows "wp (applySetLayoutMode snap Bsp)
    (\<lambda>snap' s'. good U snap' s' \<and> (\<exists>l. snap' = replaceTab snap (inBsp t l))) s"
proof -
  have active_facts: "wf_tab t" "fresh s (wbIds snap)" "wf_snapshot U snap"
    using good_tab [OF g t(1)] g by (simp_all add: good_def)
  note leaves = wf_tab_leaves [OF active_facts(1)] and core = wf_tab_core [OF active_facts(1)]
  let ?m = "memoryOf t"
  have "wp (reconcileBsp (memoryBsp ?m) (leafIds (layout t))) (\<lambda>l. wp (updateTab snap (inBsp t l))
      (\<lambda>snap' s'. good U snap' s' \<and> (\<exists>l. snap' = replaceTab snap (inBsp t l)))) s"
  proof (rule wp_mono [OF reconcileBsp_wp [OF supply_inv_fresh active_facts(2)]], goal_cases)
    case 1
    then show ?case using leaves by blast
  next
    case (2 l)
    then show ?case using memoryOf_wf [OF core] by (simp add: wf_memory_def)
  next
    case (3 l s')
    have "cols_pos (theColumns t)" using wf_tab_columns [OF active_facts(1) m] cols_ok_pos by blast
    then have "wf_memory (?m\<lparr>memoryColumns := Some (theColumns t)\<rparr>)"
      using memoryOf_wf [OF core] by (simp add: wf_memory_def)
    then have wf: "wf_tab (inBsp t l)"
      using core 3 leaves by (simp add: wf_tab_def tab_core_def layout_covers_def inBsp_def)
    have id: "tabId (inBsp t l) = tabId t" "tabOcc (inBsp t l) = tabOcc t" by (simp_all add: inBsp_def tabOcc_def)
    have in_ids: "tabId (inBsp t l) \<in> tabId ` set (tabs snap)" using t(1) by (simp add: id)
    have "wf_snapshot U (replaceTab snap (inBsp t l))"
      using wf_replaceTab [OF active_facts(3) in_ids wf] occ_of_tab [OF active_facts(3) t(1)] by (simp add: id)
    moreover have "wbIds (replaceTab snap (inBsp t l)) \<subseteq> wbIds snap"
      using wbIds_replaceTab [OF in_ids] occIds_tab [OF t(1)] by (auto simp: id)
    ultimately have "good U (replaceTab snap (inBsp t l)) s'"
      using 3 fresh_antimono by (auto simp: good_def)
    then show ?case by (auto simp: updateTab_def reconcileTab_same [OF wf])
  qed
  then show ?thesis
    unfolding applySetLayoutMode_unfold wp_bind t(2) wp_lift_Inr wp_if by (simp add: m)
qed

lemma applySetLayoutMode_wp:
  assumes g: "good U snap s"
  shows "wp (applySetLayoutMode snap mode) (good U) s"
proof -
  obtain t where t: "t \<in> set (tabs snap)" "getActiveTab snap = Inr t"
    using getActiveTab_ok [OF good_wf [OF g]] by metis
  consider "(case layoutMode t of Some m \<Rightarrow> m | None \<Rightarrow> Bsp) = mode"
    | "mode = Scrolling" "layoutMode t \<noteq> Some Scrolling" | "mode = Bsp" "layoutMode t = Some Scrolling"
    by (cases mode; cases "layoutMode t"; cases "the (layoutMode t)") auto
  then show ?thesis
  proof cases
    case 1
    then show ?thesis by (simp add: applySetLayoutMode_unfold t(2) g)
  next
    case 2
    then show ?thesis by (auto intro: wp_mono [OF toScrolling_wp [OF g t]])
  next
    case 3
    then show ?thesis by (auto intro: wp_mono [OF toBsp_wp [OF g t]])
  qed
qed

section \<open>There and back\<close>

text \<open>With the remembered arrangement still exact, a switch restores it and draws no identifier.\<close>

lemma toBsp_exact:
  assumes wf: "wf_snapshot U snap" and t: "t \<in> set (tabs snap)" "getActiveTab snap = Inr t" "wf_tab t"
    and m: "layoutMode t = Some Scrolling" "memoryBsp (memoryOf t) = Some l"
    and l: "set (leafIds (layout t)) = set (leafIds l)"
  shows "applySetLayoutMode snap Bsp = js_return (replaceTab snap (inBsp t l))"
proof -
  have "wf_layout l" "distinct (leafIds l)"
    using memoryOf_wf [OF wf_tab_core [OF t(3)]] m(2) by (simp_all add: wf_memory_def)
  moreover have "cols_pos (theColumns t)" using wf_tab_columns [OF t(3) m(1)] cols_ok_pos by blast
  then have "wf_memory ((memoryOf t)\<lparr>memoryColumns := Some (theColumns t)\<rparr>)"
    using memoryOf_wf [OF wf_tab_core [OF t(3)]] by (simp add: wf_memory_def)
  ultimately have "wf_tab (inBsp t l)"
    using wf_tab_core [OF t(3)] wf_tab_leaves [OF t(3)] l
    by (simp add: wf_tab_def tab_core_def layout_covers_def inBsp_def)
  then show ?thesis
    using m reconcileBsp_same [OF l]
    by (simp add: applySetLayoutMode_unfold t(2) updateTab_def reconcileTab_same js_bind_def js_lift_def
        js_return_def)
qed

lemma toScrolling_exact:
  assumes wf: "wf_snapshot U snap" and t: "t \<in> set (tabs snap)" "getActiveTab snap = Inr t" "wf_tab t"
    and m: "layoutMode t \<noteq> Some Scrolling" "memoryColumns (memoryOf t) = Some cs" "cols_ok cs"
    and l: "set (leafIds (layout t)) = set (colIds cs)"
  shows "applySetLayoutMode snap Scrolling = js_return (replaceTab snap (inScrolling t cs))"
proof -
  note core = wf_tab_core [OF t(3)] and leaves = wf_tab_leaves [OF t(3)]
  have "wf_memory ((memoryOf t)\<lparr>memoryBsp := Some (layout t)\<rparr>)"
    using memoryOf_wf [OF core] leaves by (simp add: wf_memory_def)
  then have "wf_tab (inScrolling t cs)"
    using core leaves l m(3) columnsTree_spec [of cs]
    by (simp add: wf_tab_def tab_core_def layout_covers_def inScrolling_def cols_ok_def)
  then have up: "updateTab snap (inScrolling t cs) = js_return (replaceTab snap (inScrolling t cs))"
    by (simp add: updateTab_def reconcileTab_same js_bind_def js_return_def)
  have rec: "reconcileColumns cs (leafIds (layout t)) = js_return cs"
    using m(3) l by (intro reconcileColumns_same) (simp_all add: cols_ok_def)
  have "(case layoutMode t of Some m \<Rightarrow> m | None \<Rightarrow> Bsp) \<noteq> Scrolling"
    using m(1) by (cases "layoutMode t") auto
  then show ?thesis
    using up rec m(2)
    by (simp add: applySetLayoutMode_unfold t(2) js_bind_def js_lift_def js_return_def)
qed

lemma replaceTab_twice: "tabId u = tabId t \<Longrightarrow> replaceTab (replaceTab snap t) u = replaceTab snap u"
  by (auto simp: replaceTab_def)

lemma active_replaced:
  assumes "t \<in> set (tabs snap)" "tabId t = activeTabId snap" "tabId u = tabId t"
  shows "u \<in> set (tabs (replaceTab snap u))" "getActiveTab (replaceTab snap u) = Inr u"
proof -
  have id: "tabId u \<in> tabId ` set (tabs snap)" using assms(1,3) by auto
  then show "u \<in> set (tabs (replaceTab snap u))" by (simp add: set_replaceTab)
  show "getActiveTab (replaceTab snap u) = Inr u"
    using assms id by (simp add: getActiveTab_def findTab_replaceTab)
qed

lemma bsp_roundtrip:
  assumes g: "good U snap s" and t: "t \<in> set (tabs snap)" "getActiveTab snap = Inr t" "tabId t = activeTabId snap"
    and m: "layoutMode t \<noteq> Some Scrolling"
  shows "wp (js_bind (applySetLayoutMode snap Scrolling) (\<lambda>snap1. applySetLayoutMode snap1 Bsp))
    (\<lambda>snap2 s'. \<exists>c mem. snap2 = replaceTab snap (t\<lparr>layoutMode := Some Bsp, columns := c, layoutMemory := mem\<rparr>)) s"
  unfolding wp_bind
proof (rule wp_mono [OF toScrolling_wp [OF g t(1,2) m]], elim conjE exE)
  fix snap1 s1 cs c l
  let ?u = "(inScrolling t cs)\<lparr>columns := c, layout := l\<rparr>"
  assume s1: "good U snap1 s1" "snap1 = replaceTab snap ?u"
  have id: "tabId ?u = tabId t" by (simp add: inScrolling_def)
  note u = active_replaced [OF t(1,3) id, folded s1(2)]
  have wfu: "wf_tab ?u" using good_tab [OF s1(1) u(1)] .
  have ps: "panes ?u = panes t" by (simp add: inScrolling_def)
  have mem: "memoryOf ?u = (memoryOf t)\<lparr>memoryBsp := Some (layout t)\<rparr>"
    by (rule memoryOf_current) (simp_all add: inScrolling_def)
  have "set (leafIds (layout ?u)) = set (leafIds (layout t))"
    using wf_tab_leaves [OF wfu] wf_tab_leaves [OF good_tab [OF g t(1)]] ps by metis
  then have a: "applySetLayoutMode snap1 Bsp = js_return (replaceTab snap1 (inBsp ?u (layout t)))"
    by (intro toBsp_exact [OF good_wf [OF s1(1)] u wfu]) (simp_all add: mem, simp add: inScrolling_def)
  have b: "replaceTab snap1 (inBsp ?u (layout t)) = replaceTab snap (inBsp ?u (layout t))"
    unfolding s1(2) by (rule replaceTab_twice) (simp add: inBsp_def)
  have c: "inBsp ?u (layout t) = t\<lparr>layoutMode := Some Bsp, columns := c,
      layoutMemory := layoutMemory (inBsp ?u (layout t))\<rparr>"
    by (simp add: inBsp_def inScrolling_def)
  show "wp (applySetLayoutMode snap1 Bsp)
    (\<lambda>snap2 s'. \<exists>c mem. snap2 = replaceTab snap (t\<lparr>layoutMode := Some Bsp, columns := c, layoutMemory := mem\<rparr>)) s1"
    unfolding a wp_return
    by (rule exI [of _ c], rule exI [of _ "layoutMemory (inBsp ?u (layout t))"]) (rule trans [OF b], rule arg_cong [OF c])
qed

lemma scrolling_roundtrip:
  assumes g: "good U snap s" and t: "t \<in> set (tabs snap)" "getActiveTab snap = Inr t" "tabId t = activeTabId snap"
    and m: "layoutMode t = Some Scrolling"
  shows "wp (js_bind (applySetLayoutMode snap Bsp) (\<lambda>snap1. applySetLayoutMode snap1 Scrolling))
    (\<lambda>snap2 s'. \<exists>mem. snap2 = replaceTab snap (t\<lparr>layoutMemory := mem\<rparr>)) s"
  unfolding wp_bind
proof (rule wp_mono [OF toBsp_wp [OF g t(1,2) m]], elim conjE exE)
  fix snap1 s1 l
  let ?u = "inBsp t l"
  assume s1: "good U snap1 s1" "snap1 = replaceTab snap ?u"
  have id: "tabId ?u = tabId t" by (simp add: inBsp_def)
  note u = active_replaced [OF t(1,3) id, folded s1(2)]
  have wfu: "wf_tab ?u" using good_tab [OF s1(1) u(1)] .
  note cols = wf_tab_columns [OF good_tab [OF g t(1)] m]
  have ps: "panes ?u = panes t" by (simp add: inBsp_def)
  have mem: "memoryOf ?u = (memoryOf t)\<lparr>memoryColumns := Some (theColumns t)\<rparr>"
    by (rule memoryOf_current) (simp_all add: inBsp_def)
  have "set (leafIds (layout ?u)) = set (colIds (theColumns t))"
    using wf_tab_leaves [OF wfu] cols ps by metis
  then have a: "applySetLayoutMode snap1 Scrolling = js_return (replaceTab snap1 (inScrolling ?u (theColumns t)))"
    using cols by (intro toScrolling_exact [OF good_wf [OF s1(1)] u wfu]) (simp_all add: mem, simp add: inBsp_def)
  have b: "replaceTab snap1 (inScrolling ?u (theColumns t)) = replaceTab snap (inScrolling ?u (theColumns t))"
    unfolding s1(2) by (rule replaceTab_twice) (simp add: inScrolling_def)
  have c: "inScrolling ?u (theColumns t) = t\<lparr>layoutMemory := layoutMemory (inScrolling ?u (theColumns t))\<rparr>"
  proof -
    obtain C x where C: "theColumns t = C" "layoutMemory (inScrolling ?u C) = x" by blast
    have "inScrolling ?u C = t\<lparr>layoutMode := Some Scrolling, columns := Some C, layout := columnsTree C, layoutMemory := x\<rparr>"
      unfolding C(2) [symmetric] by (simp add: inBsp_def inScrolling_def)
    also have "\<dots> = t\<lparr>layoutMode := layoutMode t, columns := columns t, layout := layout t, layoutMemory := x\<rparr>"
      using cols m C(1) by metis
    finally show ?thesis by (simp add: C)
  qed
  show "wp (applySetLayoutMode snap1 Scrolling)
    (\<lambda>snap2 s'. \<exists>mem. snap2 = replaceTab snap (t\<lparr>layoutMemory := mem\<rparr>)) s1"
    unfolding a wp_return
    by (rule exI [of _ "layoutMemory (inScrolling ?u (theColumns t))"]) (rule trans [OF b], rule arg_cong [OF c])
qed

end
