(* ===== verification/WorkbenchSplit.thy ===== *)
theory WorkbenchSplit
  imports WorkbenchOps
begin

text \<open>
  Splitting, closing and retargeting keep snapshots well formed: the lemmas of the remaining
  operations of \<open>WorkbenchOps\<close>.
\<close>

section \<open>Splitting\<close>

lemma activeTab_wf:
  assumes "wf_snapshot U snap"
    and "\<And>t. t \<in> set (tabs snap) \<Longrightarrow> tabId t = activeTabId snap \<Longrightarrow> wf_tab t \<Longrightarrow> wp (f t) Q s"
  shows "wp (js_bind (js_lift (getActiveTab snap)) f) Q s"
  using getActiveTab_ok [OF assms(1)] assms(2) by force

lemma firstLeaf_tab:
  assumes "wf_tab t"
  obtains a where "firstLeafId (layout t) = Inr a" "a \<in> set (keys (panes t))"
proof -
  note l = wf_tab_leaves [OF assms]
  have "firstLeafId (layout t) = Inr (hd (leafIds (layout t)))"
    using l by (intro wf_firstLeafId) blast
  moreover have "hd (leafIds (layout t)) \<in> set (keys (panes t))" using l hd_in_set by blast
  ultimately show ?thesis using that by blast
qed

lemma focused_keyI:
  "shown snap (activeTabId snap) p v \<Longrightarrow> targetKey (viewTarget v) = k \<Longrightarrow> focused_key snap k"
  by (auto simp: focused_key_def)

text \<open>The view of a placement is in the tab that had the focus.\<close>

definition shown_active :: "snapshot \<Rightarrow> view_instance \<Rightarrow> bool" where
  "shown_active snap v \<longleftrightarrow> (\<exists>p. shown snap (activeTabId snap) p v)"

lemma placeDetachedViewBeside_wp:
  assumes wf: "wf_snapshot U snap" and f: "fresh s A" "wbIds snap \<subseteq> A" "viewId v \<in> A"
    and v: "view_free U v (occ snap)"
  shows "wp (placeDetachedViewBeside snap v a d)
    (\<lambda>snap' s'. good U snap' s' \<and> shown_active snap' v) s"
  unfolding placeDetachedViewBeside_def
proof (rule activeTab_wf [OF wf])
  fix t assume t: "t \<in> set (tabs snap)" "tabId t = activeTabId snap" "wf_tab t"
  let ?Q = "\<lambda>snap' s'. good U snap' s' \<and> shown_active snap' v"
  obtain b where b: "firstLeafId (layout t) = Inr b" "b \<in> set (keys (panes t))"
    using firstLeaf_tab [OF t(3)] by blast
  have place: "wp (placeViewInTab t v c (dirZone d) None) (\<lambda>placed. wp (updateTab snap (fst placed)) ?Q) s"
    if c: "c \<in> set (keys (panes t))" for c
    by (rule wp_mono [OF placeViewInTab_update [OF wf f t(1) c v]], simp, erule wp_mono)
      (use t(2) in \<open>auto simp: shown_active_def\<close>)
  show "wp (js_bind (if has_key (panes t) a then js_return a else js_lift (firstLeafId (layout t)))
      (\<lambda>anchor. js_bind (placeViewInTab t v anchor (dirZone d) None) (\<lambda>placed. updateTab snap (fst placed)))) ?Q s"
    using place [of a] place [of b] b by simp
qed

text \<open>A new pane with a new view beside a pane of a tab.\<close>

lemma split_new_pane_wp:
  assumes g: "good U snap s" and t: "t \<in> set (tabs snap)" and a: "a \<in> set (keys (panes t))"
    and new: "U \<Longrightarrow> \<forall>x \<in> occ snap. \<not> isSameSessionTarget target (viewTarget (snd (snd x)))"
    and zone: "zone \<noteq> Replace"
  shows "wp generateId (\<lambda>p. wp (viewInstance target) (\<lambda>v. wp (placedLayout t p a zone) (\<lambda>placed.
      wp (updateTab snap (placed\<lparr>panes := AList.update p v (panes t), focusedPaneId := p\<rparr>))
        (\<lambda>snap' s'. good U snap' s' \<and> (\<exists>p v. shown snap' (tabId t) p v \<and> viewTarget v = target) \<and>
          activeTabId snap' = activeTabId snap)))) s"
proof -
  note wf = good_wf [OF g]
  have wft: "wf_tab t" using good_tab [OF g t] .
  let ?p = "shd s"
  have f: "fresh s (wbIds snap)" using g by (simp add: good_def)
  have p: "?p \<notin> wbIds snap" using fresh_shd [OF f] .
  have f1: "fresh (stl s) (insert ?p (wbIds snap))" using fresh_stl [OF f] .
  have keys: "set (keys (panes t)) \<subseteq> wbIds snap"
    using occIds_tab [OF t] by (auto simp: occIds_def tabOcc_def image_image case_prod_beta)
  let ?Q = "\<lambda>snap' s'. good U snap' s' \<and> (\<exists>p v. shown snap' (tabId t) p v \<and> viewTarget v = target) \<and>
          activeTabId snap' = activeTabId snap"
  have "wp (viewInstance target) (\<lambda>v. wp (placedLayout t ?p a zone) (\<lambda>placed.
      wp (updateTab snap (placed\<lparr>panes := AList.update ?p v (panes t), focusedPaneId := ?p\<rparr>)) ?Q)) (stl s)"
  proof (rule wp_mono [OF viewInstance_wp [OF f1]], elim conjE)
    fix v :: view_instance and s'
    assume v: "viewTarget v = target" "viewId v \<notin> insert ?p (wbIds snap)"
      "fresh s' (insert (viewId v) (insert ?p (wbIds snap)))"
    have pk: "?p \<notin> set (keys (panes t))" "?p \<noteq> a" using p keys a by auto
    show "wp (placedLayout t ?p a zone) (\<lambda>placed.
      wp (updateTab snap (placed\<lparr>panes := AList.update ?p v (panes t), focusedPaneId := ?p\<rparr>)) ?Q) s'"
    proof (rule wp_mono [OF placedLayout_wp [OF supply_inv_fresh v(3) wft a pk(2)]], goal_cases)
      case (2 t2 s2)
      then obtain l cs where t2: "t2 = t\<lparr>layout := l, columns := cs\<rparr>"
        "fresh s2 (insert (viewId v) (insert ?p (wbIds snap)))"
        "\<And>ps f. distinct (keys ps) \<Longrightarrow> f \<in> set (keys ps) \<Longrightarrow> set (keys ps) = placed_keys t ?p a zone \<Longrightarrow>
           tab_pre (t2\<lparr>panes := ps, focusedPaneId := f\<rparr>)" by blast
      let ?t = "t2\<lparr>panes := AList.update ?p v (panes t), focusedPaneId := ?p\<rparr>"
      have upd: "AList.update ?p v (panes t) = panes t @ [(?p, v)]"
        using pk(1) by (intro values_update_new)
      have pre: "tab_pre ?t"
        by (rule t2(3)) (use wf_tab_keys [OF wft] zone pk(1) in \<open>auto simp: placed_keys_def keys_update upd\<close>)
      have id_eq: "tabId ?t = tabId t" by (simp add: t2(1))
      have o: "tabOcc ?t = insert (tabId t, ?p, v) (tabOcc t)"
        by (simp add: tabOcc_def upd t2(1))
      have free: "pane_free ?p (tabOcc t \<union> occ_but snap (tabId t))"
        "view_free U v (tabOcc t \<union> occ_but snap (tabId t))"
        unfolding occ_split [OF wf t, symmetric]
        using p v(1,2) new by (fastforce intro!: pane_free_new view_free_new simp: wbIds_def sameSession_def)+
      have c: "coh U (tabOcc ?t \<union> occ_but snap (tabId ?t))"
        unfolding o id_eq using coh_add [OF occ_of_tab [OF wf t] free, of "tabId t"] by simp
      have fr: "fresh s2 (wbIds snap \<union> occIds (tabOcc ?t))"
        unfolding o occIds_simps by (rule fresh_antimono [OF t2(2)]) (use occIds_tab [OF t] in auto)
      have id: "tabId ?t \<in> tabId ` set (tabs snap)" using t by (simp add: t2(1))
      show ?case
      proof (rule wp_mono [OF updateTab_wp [OF wf id pre c fr]], elim conjE exE)
        fix snap' s3 cs' l'
        assume g': "good U snap' s3" "snap' = replaceTab snap (?t\<lparr>columns := cs', layout := l'\<rparr>)"
        have "map_of (AList.update ?p v (panes t)) ?p = Some v" by (simp add: update_Some_unfold)
        then have "shown snap' (tabId t) ?p v"
          using id t by (simp add: shown_def g'(2) findTab_replaceTab t2(1))
        then show "?Q snap' s3" using g' v(1) by auto
      qed
    qed (use zone in simp)
  qed
  then show ?thesis by simp
qed

lemma applySplitPane_wp:
  assumes g: "good U snap s"
  shows "wp (applySplitPane snap src target d)
    (\<lambda>snap' s'. good U snap' s' \<and> focused_key snap' (targetKey target)) s"
    (is "wp _ ?Q s")
proof (cases "existingDraft snap target")
  case (Some l)
  then show ?thesis using applyOpenTarget_wp [OF g, of target]
    by (simp add: applySplitPane_def applyOpenTarget_def)
next
  case None
  note wf = good_wf [OF g]
  have f: "fresh s (wbIds snap)" using g by (simp add: good_def)
  show ?thesis
    unfolding applySplitPane_def None option.case
  proof (rule activeTab_wf [OF wf], goal_cases)
    case (1 t)
    note t = 1
    have open_it: "wp (applyOpenTarget snap target) ?Q s" by (rule applyOpenTarget_wp [OF g])
    have moved: "wp (if location = (tabId t, src) then applySetFocused snap (snd location)
        else js_bind (detachView snap location) (\<lambda>detached. case detached of None \<Rightarrow> js_return snap
          | Some (snap', view) \<Rightarrow> placeDetachedViewBeside snap' view src d)) ?Q s"
      if loc: "findSessionViewPane snap target = Some location" for location
    proof -
      obtain u v where u: "u \<in> set (tabs snap)" "tabId u = fst location" "(snd location, v) \<in> set (panes u)"
        "isSameSessionTarget (viewTarget v) target"
        using findSessionViewPane_Some [of snap target "fst location" "snd location"] loc by auto
      have key: "targetKey (viewTarget v) = targetKey target" using sameSession_targetKey [OF u(4)] .
      show ?thesis
      proof (cases "location = (tabId t, src)")
        case True
        then have "u = t" using tabs_eq [OF wf u(1) t(1)] u(2) by simp
        then have "wp (applySetFocused snap (snd location)) ?Q s"
          using u(3) by (intro wp_mono [OF focus_active_wp [OF g t(1,2)]])
            (use key t(2) in \<open>auto intro: focused_keyI\<close>)
        then show ?thesis using True by simp
      next
        case False
        have find: "findTab snap (fst location) = Some u" using findTab_tab [OF wf u(1)] u(2) by simp
        have map: "map_of (panes u) (snd location) = Some v"
          using u(3) map_of_in [OF wf_tab_keys [OF good_tab [OF g u(1)]]] by blast
        have vid: "viewId v \<in> wbIds snap"
          using occIds_tab [OF u(1)] in_occIds [of "tabId u" "snd location" v "tabOcc u"] u(3) by auto
        have "wp (detachView snap (fst location, snd location)) (\<lambda>detached. wp (case detached of None \<Rightarrow> js_return snap
          | Some (snap', view) \<Rightarrow> placeDetachedViewBeside snap' view src d) ?Q) s"
        proof (rule wp_mono [OF detachView_wp [OF g find map]], elim exE conjE)
          fix r s' t'
          assume r: "r = Some (replaceTab snap t', v)" "wf_snapshot U (replaceTab snap t')"
            "fresh s' (wbIds snap \<union> wbIds (replaceTab snap t'))" "view_free U v (occ (replaceTab snap t'))"
          have "wp (placeDetachedViewBeside (replaceTab snap t') v src d) ?Q s'"
            by (rule wp_mono [OF placeDetachedViewBeside_wp [OF r(2,3) _ _ r(4)]])
              (use vid key in \<open>auto simp: shown_active_def intro: focused_keyI\<close>)
          then show "wp (case r of None \<Rightarrow> js_return snap
            | Some (snap', view) \<Rightarrow> placeDetachedViewBeside snap' view src d) ?Q s'"
            by (simp add: r(1))
        qed
        then show ?thesis using False by simp
      qed
    qed
    have focus: "wp (applySetFocused snap p) ?Q s" if fp: "findPaneByTarget t target = Some p" for p
    proof -
      obtain v where v: "(p, v) \<in> set (panes t)" "targetKey (viewTarget v) = targetKey target"
        using findPaneByTarget_Some [OF fp] by blast
      show ?thesis
        by (rule wp_mono [OF focus_active_wp [OF g t(1,2) v(1)]])
          (use v(2) t(2) in \<open>auto intro: focused_keyI\<close>)
    qed
    have new: "wp generateId (\<lambda>p. wp (viewInstance target) (\<lambda>v. wp (placedLayout t p src (dirZone d)) (\<lambda>placed.
        wp (updateTab snap (placed\<lparr>panes := AList.update p v (panes t), focusedPaneId := p\<rparr>)) ?Q))) s"
      if src: "src \<in> set (keys (panes t))" and loc: "findSessionViewPane snap target = None"
    proof -
      have "\<not> isSameSessionTarget target (viewTarget w)" if o: "(i, q, w) \<in> occ snap" for i q w
        using findSessionViewPane_None [OF loc o] isSameSessionTarget_sym by metis
      then have n: "U \<Longrightarrow> \<forall>x \<in> occ snap. \<not> isSameSessionTarget target (viewTarget (snd (snd x)))" by force
      have z: "dirZone d \<noteq> Replace" by (simp add: dirZone_def)
      show ?thesis
        by (rule wp_mono [OF split_new_pane_wp [OF g t(1) src n z]], assumption, (erule wp_mono)+)
          (use t(2) in \<open>auto intro: focused_keyI\<close>)
    qed
    show ?case
    proof (cases "map_of (panes t) src")
      case None
      show ?thesis unfolding None option.case by (rule open_it)
    next
      case (Some w)
      show ?thesis
      proof (cases "findSessionViewPane snap target")
        case loc: (Some location)
        show ?thesis unfolding Some loc option.case by (rule moved [OF loc])
      next
        case loc: None
        have src: "src \<in> set (keys (panes t))" using map_of_Some_keys [OF Some] .
        show ?thesis
          unfolding Some loc option.case wp_if wp_case_option wp_bind
          using open_it focus new [OF src loc] by (simp split: option.split)
      qed
    qed
  qed
qed

lemma applySplitFocused_wp:
  assumes g: "good U snap s"
  shows "wp (applySplitFocused snap target d)
    (\<lambda>snap' s'. good U snap' s' \<and> focused_key snap' (targetKey target)) s"
  unfolding applySplitFocused_def
  by (rule activeTab_wf [OF good_wf [OF g]]) (rule applySplitPane_wp [OF g])

section \<open>Closing\<close>

text \<open>A pane is in one tab only.\<close>

lemma pane_unique:
  assumes "wf_snapshot U snap" "t \<in> set (tabs snap)" "(p, v) \<in> set (panes t)"
  shows "pane_free p (occ_but snap (tabId t))"
proof -
  have "(tabId t, p, v) \<in> tabOcc t \<union> occ_but snap (tabId t)" using assms(3) by simp
  moreover have "(tabId t, p, v) \<notin> occ_but snap (tabId t)" by (simp add: occ_but_def)
  ultimately show ?thesis
    using coh_removed [OF occ_of_tab [OF assms(1,2)], of "tabId t" p v "occ_but snap (tabId t)"] by auto
qed

text \<open>An update that removes one pane.\<close>

lemma removed_update_wp:
  assumes g: "good U snap s" and t: "t \<in> set (tabs snap)" "map_of (panes t) p = Some v"
    and t': "tab_pre t'" "tabId t' = tabId t" "panes t' = AList.delete p (panes t)"
  shows "wp (updateTab snap t')
    (\<lambda>snap' s'. good U snap' s' \<and> occ snap' = {x \<in> occ snap. fst (snd x) \<noteq> p} \<and>
       activeTabId snap' = activeTabId snap) s"
proof -
  note wf = good_wf [OF g]
  have d: "distinct (keys (panes t))" using wf_tab_keys [OF good_tab [OF g t(1)]] .
  have pv: "(p, v) \<in> set (panes t)" using t(2) map_of_in [OF d] by blast
  have o: "tabOcc t' = {x \<in> tabOcc t. fst (snd x) \<noteq> p}"
    by (auto simp: tabOcc_def t'(2,3) set_delete [OF d])
  have id: "tabId t' \<in> tabId ` set (tabs snap)" using t(1) t'(2) by simp
  have c: "coh U (tabOcc t' \<union> occ_but snap (tabId t'))"
    by (rule coh_subset [OF occ_of_tab [OF wf t(1)]]) (auto simp: o t'(2))
  have "occIds (tabOcc t') \<subseteq> occIds (tabOcc t)" by (rule occIds_mono) (auto simp: o)
  then have "wbIds snap \<union> occIds (tabOcc t') = wbIds snap" using occIds_tab [OF t(1)] by blast
  then have f: "fresh s (wbIds snap \<union> occIds (tabOcc t'))" using g by (simp add: good_def)
  show ?thesis
  proof (rule wp_mono [OF updateTab_wp [OF wf id t'(1) c f]], elim conjE exE)
    fix snap' s' cs l
    assume a: "good U snap' s'" "snap' = replaceTab snap (t'\<lparr>columns := cs, layout := l\<rparr>)"
    have "occ snap' = tabOcc t' \<union> occ_but snap (tabId t)"
      using occ_replaceTab [of "t'\<lparr>columns := cs, layout := l\<rparr>" snap] id by (simp add: a(2) t'(2))
    also have "\<dots> = {x \<in> occ snap. fst (snd x) \<noteq> p}"
      using pane_unique [OF wf t(1) pv] unfolding o occ_split [OF wf t(1)] pane_free_def by blast
    finally show "good U snap' s' \<and> occ snap' = {x \<in> occ snap. fst (snd x) \<noteq> p} \<and>
       activeTabId snap' = activeTabId snap" using a by simp
  qed
qed

text \<open>
  Clearing a tab that holds one pane: the pane is gone and the tab shows a new welcome view.
\<close>

lemma cleared_reduced:
  assumes "panes t = [(p, v)]" "fresh s A"
  shows "wp (clearedTab t) (\<lambda>t' s'. reduced A p t t' \<and> fresh s' (A \<union> occIds (tabOcc t'))) s"
proof (rule wp_mono [OF clearedTab_wp [OF assms(2)]], elim exE conjE)
  fix t' s' q w cs l
  assume w: "t' = (singleTab (tabId t) q w)\<lparr>titleMode := titleMode t,
      titleOverride := titleOverride t, layoutMode := Some (case layoutMode t of Some m \<Rightarrow> m | None \<Rightarrow> Bsp),
      columns := cs, layout := l\<rparr>" "isWelcome w" "q \<notin> A" "viewId w \<notin> A" "wf_tab t'"
    "fresh s' ({q, viewId w} \<union> A)"
  have ps: "panes t' = [(q, w)]" "tabId t' = tabId t" by (simp_all add: w(1))
  then show "reduced A p t t' \<and> fresh s' (A \<union> occIds (tabOcc t'))"
    using w(2-6) assms(1) by (simp add: reduced_def Un_commute)
qed

lemma applyClosePane_wp:
  assumes g: "good U snap s"
  shows "wp (applyClosePane snap p)
    (\<lambda>r s'. case r of
       None \<Rightarrow> good U snap s' \<and> pane_free p {x \<in> occ snap. fst x = activeTabId snap}
     | Some snap' \<Rightarrow> good U snap' s' \<and> pane_free p (occ snap')) s"
    (is "wp _ ?Q s")
  unfolding applyClosePane_def
proof (rule activeTab_wf [OF good_wf [OF g]], goal_cases)
  case (1 t)
  note t = 1 and wf = good_wf [OF g]
  have f: "fresh s (wbIds snap)" using g by (simp add: good_def)
  show ?case
  proof (cases "map_of (panes t) p")
    case None
    have "pane_free p {x \<in> occ snap. fst x = activeTabId snap}"
      unfolding pane_free_def
    proof (intro ballI notI)
      fix x assume x: "x \<in> {x \<in> occ snap. fst x = activeTabId snap}" "fst (snd x) = p"
      obtain i q w where "x = (i, q, w)" by (metis prod_cases3)
      with x have o: "(i, q, w) \<in> occ snap" and h: "i = activeTabId snap" "q = p" by auto
      obtain u where u: "u \<in> set (tabs snap)" "tabId u = i" "(q, w) \<in> set (panes u)"
        using o by (auto simp: occ_iff)
      have "u = t" using tabs_eq [OF wf u(1) t(1)] u(2) h(1) t(2) by simp
      then show False using None u(3) h(2) by (auto simp: map_of_eq_None_iff image_iff)
    qed
    then show ?thesis using g None by simp
  next
    case (Some v)
    have d: "distinct (keys (panes t))" using wf_tab_keys [OF t(3)] .
    have pv: "(p, v) \<in> set (panes t)" using Some map_of_in [OF d] by blast
    from closeLeaf_tab [OF t(3) Some] show ?thesis
    proof (elim disjE exE conjE)
      assume c: "closeLeaf t p = Inr None" "panes t = [(p, v)]"
      have cleared: "wp (clearedTab t) (\<lambda>t'. wp (updateTab snap t') (\<lambda>snap'. ?Q (Some snap'))) s"
      proof (rule wp_mono [OF cleared_reduced [OF c(2) f]], elim conjE)
        fix t' s' assume r: "reduced (wbIds snap) p t t'" "fresh s' (wbIds snap \<union> occIds (tabOcc t'))"
        note red = reduced_replaceTab [OF wf t(1) Some r(1) subset_refl]
        have wft': "wf_tab t'" using r(1) by (simp add: reduced_def)
        have "updateTab snap t' = js_return (replaceTab snap t')"
          by (simp add: updateTab_def reconcileTab_same [OF wft'] js_bind_def js_return_def)
        moreover have "good U (replaceTab snap t') s'"
          using red(1,4) fresh_antimono [OF r(2)] by (simp add: good_def)
        ultimately show "wp (updateTab snap t') (\<lambda>snap'. ?Q (Some snap')) s'"
          using red(2) by simp
      qed
      obtain snap' where close: "applyCloseTab snap (tabId t) = Inr snap'" "wf_snapshot U snap'"
        "wbIds snap' \<subseteq> wbIds snap" "tabs snap' = (if length (tabs snap) \<le> 1 then tabs snap
           else filter (\<lambda>u. tabId u \<noteq> tabId t) (tabs snap))"
        using applyCloseTab_ok [OF wf] by metis
      have closed: "?Q (Some snap') s" if "1 < length (tabs snap)"
      proof -
        have "occ snap' \<subseteq> occ_but snap (tabId t)"
          using that by (auto simp: close(4) occ_def occ_but_def tabOcc_def)
        then have "pane_free p (occ snap')" using pane_unique [OF wf t(1) pv] free_subset(1) by blast
        moreover have "good U snap' s" using close(2) fresh_antimono [OF f close(3)] by (simp add: good_def)
        ultimately show ?thesis by simp
      qed
      show ?thesis
        unfolding Some c(1) option.case wp_bind wp_lift_Inr wp_if wp_return close(1)
        using cleared closed by simp
    next
      fix n l
      let ?t = "t\<lparr>layout := n, focusedPaneId := l, panes := AList.delete p (panes t)\<rparr>"
      assume c: "closeLeaf t p = Inr (Some (t\<lparr>layout := n, focusedPaneId := l\<rparr>))" "tab_pre ?t"
      have "wp (updateTab snap ?t) (\<lambda>snap'. ?Q (Some snap')) s"
        by (rule wp_mono [OF removed_update_wp [OF g t(1) Some c(2)]]) (auto simp: pane_free_def)
      then show ?thesis
        unfolding Some c(1) option.case wp_bind wp_lift_Inr wp_return
        by (simp del: awen_tab.update_convs)
    qed
  qed
qed

section \<open>Retargeting\<close>

text \<open>
  Retargeting a pane: the new target is shown with the focus, in this pane or where it already
  was; the view of a retargeted pane keeps its identity.
\<close>

lemma retarget_in_place_wp:
  assumes g: "good U snap s" and t: "t \<in> set (tabs snap)" "map_of (panes t) p = Some v"
    and v': "viewId v' = viewId v"
    and new: "U \<Longrightarrow> \<forall>x \<in> occ snap. fst (snd x) \<noteq> p \<longrightarrow> \<not> sameSession v' (snd (snd x))"
  shows "wp (updateTab snap (t\<lparr>panes := AList.update p v' (panes t)\<rparr>))
    (\<lambda>snap' s'. good U snap' s' \<and>
       occ snap' = insert (tabId t, p, v') {x \<in> occ snap. fst (snd x) \<noteq> p} \<and>
       activeTabId snap' = activeTabId snap) s"
proof -
  note wf = good_wf [OF g]
  have wft: "wf_tab t" using good_tab [OF g t(1)] .
  have d: "distinct (keys (panes t))" using wf_tab_keys [OF wft] .
  have pv: "(p, v) \<in> set (panes t)" using t(2) map_of_in [OF d] by blast
  have pk: "p \<in> set (keys (panes t))" using map_of_Some_keys [OF t(2)] .
  let ?t = "t\<lparr>panes := AList.update p v' (panes t)\<rparr>"
  let ?B = "{x \<in> occ snap. fst (snd x) \<noteq> p}"
  have keys: "set (keys (panes ?t)) = set (keys (panes t))" "distinct (keys (panes ?t))"
    using pk d by (simp_all add: keys_update)
  have pre: "tab_pre ?t" using wf_tab_pre [OF wft] keys
    by (cases "layoutMode t = Some Scrolling") (simp_all add: tab_pre_def tab_core_def layout_covers_def)
  have o: "tabOcc ?t = insert (tabId t, p, v') {x \<in> tabOcc t. fst (snd x) \<noteq> p}"
    by (auto simp: tabOcc_def set_update_map [OF d])
  have all: "tabOcc ?t \<union> occ_but snap (tabId t) = insert (tabId t, p, v') ?B"
    using pane_unique [OF wf t(1) pv] unfolding o occ_split [OF wf t(1)] pane_free_def by blast
  have old: "(tabId t, p, v) \<in> occ snap" using pv t(1) by (auto simp: occ_iff)
  have B: "?B \<subseteq> occ snap" "(tabId t, p, v) \<notin> ?B" by auto
  have coh: "coh U (occ snap)" using wf by (simp add: wf_snapshot_def)
  have "view_free U v ?B" using coh_removed [OF coh old B] by blast
  then have "view_free U v' ?B" using new v' by (auto simp: view_free_def)
  moreover have "pane_free p ?B" by (simp add: pane_free_def)
  ultimately have "coh U (insert (tabId t, p, v') ?B)" by (intro coh_add coh_subset [OF coh B(1)])
  then have c: "coh U (tabOcc ?t \<union> occ_but snap (tabId ?t))" using all by simp
  have id: "tabId ?t \<in> tabId ` set (tabs snap)" using t(1) by simp
  have "occIds (tabOcc ?t) \<subseteq> occIds (insert (tabId t, p, v') (tabOcc t))"
    unfolding o by (rule occIds_mono) blast
  also have "\<dots> = occIds (tabOcc t)"
    using in_occIds [of "tabId t" p v "tabOcc t"] pv v' by (auto simp: insert_absorb)
  finally have "wbIds snap \<union> occIds (tabOcc ?t) = wbIds snap" using occIds_tab [OF t(1)] by blast
  then have f: "fresh s (wbIds snap \<union> occIds (tabOcc ?t))" using g by (simp add: good_def)
  show ?thesis
  proof (rule wp_mono [OF updateTab_wp [OF wf id pre c f]], elim conjE exE)
    fix snap' s' cs l
    assume a: "good U snap' s'" "snap' = replaceTab snap (?t\<lparr>columns := cs, layout := l\<rparr>)"
    have "occ snap' = tabOcc ?t \<union> occ_but snap (tabId t)"
      using occ_replaceTab [of "?t\<lparr>columns := cs, layout := l\<rparr>" snap] id by (simp add: a(2))
    then show "good U snap' s' \<and> occ snap' = insert (tabId t, p, v') ?B \<and>
       activeTabId snap' = activeTabId snap" using a all by simp
  qed
qed

lemma applyReplacePaneTarget_wp:
  assumes g: "good U snap s"
  shows "wp (applyReplacePaneTarget snap p target) (good U) s"
  unfolding applyReplacePaneTarget_def
proof (rule activeTab_wf [OF good_wf [OF g]], goal_cases)
  case (1 t)
  note t = 1 and wf = good_wf [OF g]
  have f: "fresh s (wbIds snap)" using g by (simp add: good_def)
  show ?case
  proof (cases "map_of (panes t) p")
    case None
    then show ?thesis using g by simp
  next
    case (Some v)
    have d: "distinct (keys (panes t))" using wf_tab_keys [OF t(3)] .
    have pv: "(p, v) \<in> set (panes t)" using Some map_of_in [OF d] by blast
    let ?v = "v\<lparr>definitionId := definitionIdForTarget target, viewTarget := target\<rparr>"
    let ?existing = "case findSessionViewPane snap target of Some l \<Rightarrow> Some l
      | None \<Rightarrow> map_option (\<lambda>q. (tabId t, q)) (findPaneByTarget t target)"
    have here: "wp (updateTab snap (t\<lparr>panes := AList.update p ?v (panes t)\<rparr>)) (good U) s"
      if e: "?existing = None \<or> ?existing = Some (tabId t, p)"
    proof -
      have "\<not> sameSession ?v w" if U: "U" and o: "(i, q, w) \<in> occ snap" and q: "q \<noteq> p" for i q w
      proof
        assume s: "sameSession ?v w"
        then have "findSessionViewPane snap target \<noteq> None"
          using findSessionViewPane_None [OF _ o, of target] isSameSessionTarget_sym [of target "viewTarget w"]
          by (cases "findSessionViewPane snap target") (auto simp: sameSession_def)
        then have loc: "findSessionViewPane snap target = Some (tabId t, p)" using e by auto
        obtain u x where x: "u \<in> set (tabs snap)" "tabId u = tabId t" "(p, x) \<in> set (panes u)"
          "isSameSessionTarget (viewTarget x) target" using findSessionViewPane_Some [OF loc] by blast
        have "sameSession x w"
          using x(4) s isSameSessionTarget_trans by (fastforce simp: sameSession_def)
        moreover have "(tabId u, p, x) \<in> occ snap" using x(1,3) by (auto simp: occ_iff)
        ultimately show False
          using wf U q o unfolding wf_snapshot_def coh_def by (metis clash.simps prod.inject)
      qed
      then have n: "U \<Longrightarrow> \<forall>x \<in> occ snap. fst (snd x) \<noteq> p \<longrightarrow> \<not> sameSession ?v (snd (snd x))" by force
      show ?thesis
        by (rule keep_good [OF retarget_in_place_wp [OF g t(1) Some _ n]]) simp_all
    qed
    have there: "wp (js_bind (js_lift (closeLeaf t p)) (\<lambda>w. js_bind (case w of None \<Rightarrow> clearedTab t
          | Some t' \<Rightarrow> reconcileTab (t'\<lparr>panes := AList.delete p (panes t)\<rparr>))
          (\<lambda>l. applySetFocused (applyActivateTab (replaceTab snap l) i) q))) (good U) s" for i q
    proof -
      have finish: "wp (applySetFocused (applyActivateTab (replaceTab snap t') i) q) (good U) s'"
        if r: "reduced (wbIds snap) p t t'" "fresh s' (wbIds snap \<union> occIds (tabOcc t'))" for t' s'
      proof -
        note red = reduced_replaceTab [OF wf t(1) Some r(1) subset_refl]
        have "good U (replaceTab snap t') s'"
          using red(1,4) fresh_antimono [OF r(2)] by (simp add: good_def)
        then show ?thesis by (intro keep_good [OF applySetFocused_wp] applyActivateTab_good)
      qed
      from closeLeaf_tab [OF t(3) Some] show ?thesis
      proof (elim disjE exE conjE)
        assume c: "closeLeaf t p = Inr None" "panes t = [(p, v)]"
        show ?thesis
          unfolding c(1) wp_bind wp_lift_Inr option.case
          by (rule wp_mono [OF cleared_reduced [OF c(2) f]]) (use finish in blast)
      next
        fix n l
        let ?t = "t\<lparr>layout := n, focusedPaneId := l, panes := AList.delete p (panes t)\<rparr>"
        assume c: "closeLeaf t p = Inr (Some (t\<lparr>layout := n, focusedPaneId := l\<rparr>))" "tab_pre ?t"
          "length (panes t) \<noteq> 1"
        have "wp (reconcileTab ?t) (\<lambda>t'. wp (applySetFocused (applyActivateTab (replaceTab snap t') i) q) (good U)) s"
        proof (rule wp_mono [OF reconcileTab_wp [OF supply_inv_fresh f c(2)]], elim conjE exE)
          fix t' s' cs l'
          assume r: "fresh s' (wbIds snap)" "wf_tab t'" "t' = ?t\<lparr>columns := cs, layout := l'\<rparr>"
          have "occIds (tabOcc t') \<subseteq> occIds (tabOcc t)"
            by (rule occIds_mono) (auto simp: r(3) tabOcc_def set_delete [OF d])
          then have "wbIds snap \<union> occIds (tabOcc t') = wbIds snap" using occIds_tab [OF t(1)] by blast
          then show "wp (applySetFocused (applyActivateTab (replaceTab snap t') i) q) (good U) s'"
            using r c(3) by (intro finish) (simp_all add: reduced_def)
        qed
        then show ?thesis by (simp add: c(1))
      qed
    qed
    show ?thesis
      unfolding Some option.case Let_def
      using here there by (cases "findSessionViewPane snap target"; cases "findPaneByTarget t target")
        (simp_all add: wp_case_option)
  qed
qed

end
