(* ===== verification/WorkbenchDrop.thy ===== *)
theory WorkbenchDrop
  imports WorkbenchSplit
begin

text \<open>
  Drag and drop between tabs, panes and the sidebar: \<open>applyViewDrop\<close> of
  \<open>apps/web/src/workbench/workbenchState.ts\<close>. One definition per pair of source and target; the
  callback \<open>onCommit\<close> of a sidebar source is not part of the state.
\<close>

section \<open>Sources, targets and results\<close>

datatype drag_source =
    FromSidebar view_target
  | FromPane ident ident
  | FromTab ident

datatype drop_target =
    OnPane ident ident pane_drop_zone
  | OnExistingTab ident
  | OnNewTab int

record drop_result =
  dropSnapshot :: snapshot
  dropTabId :: ident
  dropPaneId :: ident

abbreviation dropped :: "snapshot \<Rightarrow> ident \<Rightarrow> ident \<Rightarrow> drop_result" where
  "dropped snap t p \<equiv> \<lparr>dropSnapshot = snap, dropTabId = t, dropPaneId = p\<rparr>"

definition droppedPresentation :: "snapshot \<times> ident \<times> ident \<Rightarrow> drop_result" where
  "droppedPresentation r = dropped (fst r) (fst (snd r)) (snd (snd r))"

section \<open>The sidebar\<close>

definition takeDraggedSessionView ::
  "snapshot \<Rightarrow> view_target \<Rightarrow> (snapshot \<times> view_instance \<times> pane_location) option js" where
  "takeDraggedSessionView snap target =
     (case findSessionViewPane snap target of
        None \<Rightarrow> js_return None
      | Some location \<Rightarrow>
          js_bind (detachView snap location) (\<lambda>detached.
            js_return (map_option (\<lambda>(s, v). (s, v, location)) detached)))"

text \<open>The pane a drop on a whole tab anchors at.\<close>

definition tabAnchor :: "workbench_tab \<Rightarrow> js_error + ident" where
  "tabAnchor tab =
     (if has_key (panes tab) (focusedPaneId tab) then Inr (focusedPaneId tab)
      else firstLeafId (layout tab))"

definition openSidebarViewInTab ::
  "snapshot \<Rightarrow> ident \<Rightarrow> view_instance \<Rightarrow> drop_result option js" where
  "openSidebarViewInTab snap t view =
     (case findTab snap t of
        None \<Rightarrow> js_return None
      | Some targetTab \<Rightarrow>
          js_bind (js_lift (tabAnchor targetTab)) (\<lambda>anchor.
          js_bind (placeViewInTab targetTab view anchor (Edge ERight) None) (\<lambda>placed.
          js_bind (updateTab (applyActivateTab snap t) (fst placed)) (\<lambda>snap'.
            js_return (Some (dropped snap' t (snd placed)))))))"

definition placeSidebarViewInPane ::
  "snapshot \<Rightarrow> view_instance \<Rightarrow> ident \<Rightarrow> ident \<Rightarrow> pane_drop_zone \<Rightarrow> drop_result option js" where
  "placeSidebarViewInPane snap view t targetPaneId zone =
     (case findTab snap t of
        None \<Rightarrow> js_return None
      | Some tab \<Rightarrow>
          if \<not> has_key (panes tab) targetPaneId then js_return None
          else
            js_bind (placeViewInTab tab view targetPaneId zone None) (\<lambda>placed.
            js_bind (updateTab snap (fst placed)) (\<lambda>snap'.
              js_return (Some (dropped snap' t (snd placed))))))"

definition dropSidebarOnTab :: "snapshot \<Rightarrow> view_target \<Rightarrow> ident \<Rightarrow> drop_result option js" where
  "dropSidebarOnTab snap target t =
     (case findTab snap t of
        None \<Rightarrow> js_return None
      | Some targetTab \<Rightarrow>
          js_bind (takeDraggedSessionView snap target) (\<lambda>dragged.
            case dragged of
              Some (snap', view, (lt, lp)) \<Rightarrow>
                if lt = t then
                  js_bind (applySetFocused (applyActivateTab snap t) lp) (\<lambda>s.
                    js_return (Some (dropped s t lp)))
                else openSidebarViewInTab snap' t view
            | None \<Rightarrow>
                js_bind (viewInstance target) (\<lambda>view. openSidebarViewInTab snap t view)))"

definition dropSidebarOnNewTab :: "snapshot \<Rightarrow> view_target \<Rightarrow> int \<Rightarrow> drop_result option js" where
  "dropSidebarOnNewTab snap target idx =
     js_bind (takeDraggedSessionView snap target) (\<lambda>dragged.
       case dragged of
         None \<Rightarrow>
           js_bind (viewInstance target) (\<lambda>view.
           js_bind (insertPresentationTab snap view idx None) (\<lambda>r.
             js_return (Some (droppedPresentation r))))
       | Some (snap', view, (lt, lp)) \<Rightarrow>
           js_bind (insertPresentationTab snap' view idx (Some lp)) (\<lambda>r.
             js_return (Some (droppedPresentation r))))"

definition dropSidebarOnPane ::
  "snapshot \<Rightarrow> view_target \<Rightarrow> ident \<Rightarrow> ident \<Rightarrow> pane_drop_zone \<Rightarrow> drop_result option js" where
  "dropSidebarOnPane snap target t p zone =
     (case findTab snap t of
        None \<Rightarrow> js_return None
      | Some tab \<Rightarrow>
          if \<not> has_key (panes tab) p then js_return None
          else
            js_bind (takeDraggedSessionView snap target) (\<lambda>dragged.
              case dragged of
                Some (snap', view, (lt, lp)) \<Rightarrow>
                  if lt = t \<and> lp = p then
                    js_bind (applySetFocused (applyActivateTab snap t) lp) (\<lambda>s.
                      js_return (Some (dropped s t lp)))
                  else placeSidebarViewInPane snap' view t p zone
              | None \<Rightarrow>
                  js_bind (viewInstance target) (\<lambda>view.
                    placeSidebarViewInPane snap view t p zone)))"

section \<open>Whole tabs\<close>

text \<open>\<open>Math.max(0, Math.min(target.index, snapshot.tabs.length - 1))\<close>\<close>

definition newTabIndex :: "snapshot \<Rightarrow> int \<Rightarrow> int" where
  "newTabIndex snap idx = max 0 (min idx (int (length (tabs snap)) - 1))"

definition dropTabOnPane ::
  "snapshot \<Rightarrow> workbench_tab \<Rightarrow> ident \<Rightarrow> ident \<Rightarrow> ident \<Rightarrow> pane_drop_zone \<Rightarrow>
     drop_result option js" where
  "dropTabOnPane snap tab st t p zone =
     (if st = activeTabId snap \<or> t \<noteq> activeTabId snap then js_return None
      else if length (panes tab) \<noteq> 1 then js_return None
      else
        js_bind (js_lift (firstLeafId (layout tab))) (\<lambda>sourcePaneId.
          case map_of (panes tab) sourcePaneId of
            None \<Rightarrow> js_return None
          | Some sourceView \<Rightarrow>
              (case findTab snap t of
                 None \<Rightarrow> js_return None
               | Some targetTab \<Rightarrow>
                   (case map_of (panes targetTab) p of
                      None \<Rightarrow> js_return None
                    | Some targetPane \<Rightarrow>
                        if findPaneByTarget targetTab (viewTarget sourceView) \<noteq> None then js_return None
                        else
                          let finish = (\<lambda>targetAfter.
                                js_return (Some (dropped
                                  (replaceTab
                                    (snap\<lparr>tabs := filter (\<lambda>c. tabId c \<noteq> st) (tabs snap),
                                          activeTabId := tabId targetTab\<rparr>) targetAfter)
                                  (tabId targetTab) sourcePaneId)))
                          in if length (panes targetTab) = 1 \<and> isWelcome targetPane then
                               js_bind
                                 (reconcileTab
                                   (targetTab\<lparr>layout := leaf sourcePaneId,
                                              panes := [(sourcePaneId, sourceView)],
                                              focusedPaneId := sourcePaneId\<rparr>)) finish
                             else if zone = Replace then js_return None
                             else
                               js_bind (placedLayout targetTab sourcePaneId p zone) (\<lambda>placed.
                               js_bind
                                 (reconcileTab
                                   (placed\<lparr>panes := AList.update sourcePaneId sourceView (panes targetTab),
                                           focusedPaneId := sourcePaneId\<rparr>)) finish)))))"

definition dropTab :: "snapshot \<Rightarrow> ident \<Rightarrow> drop_target \<Rightarrow> drop_result option js" where
  "dropTab snap st target =
     (case findIndex (\<lambda>c. tabId c = st) (tabs snap) of
        None \<Rightarrow> js_return None
      | Some fromIndex \<Rightarrow>
          let tab = tabs snap ! fromIndex in
          js_bind (js_lift (firstLeafId (layout tab))) (\<lambda>paneId.
            case target of
              OnExistingTab t \<Rightarrow>
                (case findIndex (\<lambda>c. tabId c = t) (tabs snap) of
                   None \<Rightarrow> js_return (Some (dropped snap (tabId tab) paneId))
                 | Some toIndex \<Rightarrow>
                     if fromIndex = toIndex then js_return (Some (dropped snap (tabId tab) paneId))
                     else js_return (Some (dropped
                            (applyMoveTab snap (int fromIndex) (int toIndex)) (tabId tab) paneId)))
            | OnNewTab idx \<Rightarrow>
                if int fromIndex = newTabIndex snap idx
                then js_return (Some (dropped snap (tabId tab) paneId))
                else js_return (Some (dropped
                       (applyMoveTab snap (int fromIndex) (newTabIndex snap idx)) (tabId tab) paneId))
            | OnPane t p zone \<Rightarrow> dropTabOnPane snap tab st t p zone))"

section \<open>Single panes\<close>

definition dropPaneOnPane ::
  "snapshot \<Rightarrow> ident \<Rightarrow> ident \<Rightarrow> ident \<Rightarrow> ident \<Rightarrow> pane_drop_zone \<Rightarrow> drop_result option js" where
  "dropPaneOnPane snap st sp t p zone =
     (case (findTab snap st, findTab snap t) of
        (Some sourceTab, Some targetTab) \<Rightarrow>
          (case map_of (panes sourceTab) sp of
             None \<Rightarrow> js_return None
           | Some view \<Rightarrow>
               if \<not> has_key (panes targetTab) p \<or> sp = p then js_return None
               else if tabId sourceTab = tabId targetTab then
                 let edge = (case zone of Replace \<Rightarrow> ERight | Edge e \<Rightarrow> e) in
                 js_bind
                   (if layoutMode sourceTab = Some Scrolling
                    then placedLayout sourceTab sp p (Edge edge)
                    else js_bind (movePane (layout sourceTab) sp p edge) (\<lambda>l.
                           js_return (sourceTab\<lparr>layout := l\<rparr>)))
                   (\<lambda>placed.
                     js_bind (updateTab snap (placed\<lparr>focusedPaneId := sp\<rparr>)) (\<lambda>snap'.
                       js_return (Some (dropped snap' (tabId sourceTab) sp))))
               else if findPaneByTarget targetTab (viewTarget view) \<noteq> None then js_return None
               else
                 js_bind (removeViewFromTab sourceTab sp) (\<lambda>after.
                   case after of
                     None \<Rightarrow> js_return None
                   | Some sourceAfter \<Rightarrow>
                       let panes' =
                             AList.update sp view
                               (if zone = Replace then AList.delete p (panes targetTab)
                                else panes targetTab)
                       in
                       js_bind (placedLayout targetTab sp p zone) (\<lambda>placed.
                       js_bind (reconcileTab (placed\<lparr>panes := panes', focusedPaneId := sp\<rparr>)) (\<lambda>targetAfter.
                         js_return (Some (dropped
                           (replaceTab (replaceTab (snap\<lparr>activeTabId := tabId targetTab\<rparr>) sourceAfter)
                              targetAfter)
                           (tabId targetTab) sp))))))
      | _ \<Rightarrow> js_return None)"

definition dropPaneOnTab ::
  "snapshot \<Rightarrow> ident \<Rightarrow> ident \<Rightarrow> ident \<Rightarrow> drop_result option js" where
  "dropPaneOnTab snap st sp t =
     (case (findTab snap st, findTab snap t) of
        (Some sourceTab, Some targetTab) \<Rightarrow>
          (case map_of (panes sourceTab) sp of
             None \<Rightarrow> js_return None
           | Some sourceView \<Rightarrow>
               if tabId sourceTab = tabId targetTab \<or>
                  findPaneByTarget targetTab (viewTarget sourceView) \<noteq> None then js_return None
               else
                 js_bind (js_lift (tabAnchor targetTab)) (\<lambda>anchor.
                 js_bind (placeViewInTab targetTab sourceView anchor (Edge ERight) (Some sp)) (\<lambda>inserted.
                 js_bind (removeViewFromTab sourceTab sp) (\<lambda>after.
                   case after of
                     None \<Rightarrow> js_return None
                   | Some sourceAfter \<Rightarrow>
                       js_bind (reconcileTab (fst inserted)) (\<lambda>targetAfter.
                         js_return (Some (dropped
                           (replaceTab (replaceTab (snap\<lparr>activeTabId := tabId targetTab\<rparr>) sourceAfter)
                              targetAfter)
                           (tabId targetTab) (snd inserted))))))))
      | _ \<Rightarrow> js_return None)"

definition dropPaneOnNewTab :: "snapshot \<Rightarrow> ident \<Rightarrow> ident \<Rightarrow> int \<Rightarrow> drop_result option js" where
  "dropPaneOnNewTab snap st sp idx =
     (case findTab snap st of
        None \<Rightarrow> js_return None
      | Some sourceTab \<Rightarrow>
          (case map_of (panes sourceTab) sp of
             None \<Rightarrow> js_return None
           | Some sourceView \<Rightarrow>
               js_bind (removeViewFromTab sourceTab sp) (\<lambda>after.
                 case after of
                   None \<Rightarrow> js_return None
                 | Some sourceAfter \<Rightarrow>
                     js_bind (insertPresentationTab (replaceTab snap sourceAfter) sourceView idx (Some sp))
                       (\<lambda>r. js_return (Some (droppedPresentation r))))))"

definition applyViewDrop :: "snapshot \<Rightarrow> drag_source \<Rightarrow> drop_target \<Rightarrow> drop_result option js" where
  "applyViewDrop snap source target =
     (case source of
        FromTab st \<Rightarrow> dropTab snap st target
      | FromPane st sp \<Rightarrow>
          (case target of
             OnPane t p zone \<Rightarrow> dropPaneOnPane snap st sp t p zone
           | OnExistingTab t \<Rightarrow> dropPaneOnTab snap st sp t
           | OnNewTab idx \<Rightarrow> dropPaneOnNewTab snap st sp idx)
      | FromSidebar dragged \<Rightarrow>
          (case target of
             OnPane t p zone \<Rightarrow> dropSidebarOnPane snap dragged t p zone
           | OnExistingTab t \<Rightarrow> dropSidebarOnTab snap dragged t
           | OnNewTab idx \<Rightarrow> dropSidebarOnNewTab snap dragged idx))"

section \<open>A drop keeps the snapshot well formed and lands the view\<close>

text \<open>
  The outcome of a drop: null leaves the snapshot as it is; otherwise the new snapshot is well
  formed, and the pane that the result names holds a view with the property \<open>P\<close>.
\<close>

definition drop_ok ::
  "bool \<Rightarrow> snapshot \<Rightarrow> (view_instance \<Rightarrow> bool) \<Rightarrow> drop_result option \<Rightarrow> ids \<Rightarrow> bool" where
  "drop_ok U snap P r s \<longleftrightarrow>
     (case r of
        None \<Rightarrow> good U snap s
      | Some d \<Rightarrow> good U (dropSnapshot d) s \<and>
          (\<exists>v. (dropTabId d, dropPaneId d, v) \<in> occ (dropSnapshot d) \<and> P v))"

lemma drop_ok_None [simp]: "drop_ok U snap P None s \<longleftrightarrow> good U snap s"
  by (simp add: drop_ok_def)

lemma drop_ok_Some:
  "good U snap' s \<Longrightarrow> (t, p, v) \<in> occ snap' \<Longrightarrow> P v \<Longrightarrow> drop_ok U snap P (Some (dropped snap' t p)) s"
  by (auto simp: drop_ok_def)

lemma shown_occ: "shown snap t p v \<Longrightarrow> (t, p, v) \<in> occ snap"
  unfolding shown_def using findTab_Some map_of_SomeD by (fastforce simp: occ_iff)

lemma viewId_wbIds: "(i, p, v) \<in> occ snap \<Longrightarrow> viewId v \<in> wbIds snap \<and> p \<in> wbIds snap"
  using in_occIds by (fastforce simp: wbIds_def)

subsection \<open>Replacing a tab by one with a further view\<close>

lemma replace_with_view:
  assumes wf: "wf_snapshot U snap" and t: "t \<in> set (tabs snap)" "wf_tab t'" "tabId t' = tabId t"
    and o: "tabOcc t' = insert (tabId t, p, v) B" "B \<subseteq> tabOcc t"
    and free: "pane_free p (B \<union> occ_but snap (tabId t))" "view_free U v (B \<union> occ_but snap (tabId t))"
  shows "wf_snapshot U (replaceTab snap t')" "(tabId t, p, v) \<in> occ (replaceTab snap t')"
    "wbIds (replaceTab snap t') \<subseteq> {p, viewId v} \<union> wbIds snap"
proof -
  have id: "tabId t' \<in> tabId ` set (tabs snap)" using t by simp
  have "coh U (B \<union> occ_but snap (tabId t))"
    by (rule coh_subset [OF occ_of_tab [OF wf t(1)]]) (use o(2) in blast)
  then have "coh U (insert (tabId t, p, v) (B \<union> occ_but snap (tabId t)))"
    using free by (intro coh_add)
  then have c: "coh U (tabOcc t' \<union> occ_but snap (tabId t'))" by (simp add: o(1) t(3))
  show "wf_snapshot U (replaceTab snap t')" by (rule wf_replaceTab [OF wf id t(2) c])
  show "(tabId t, p, v) \<in> occ (replaceTab snap t')"
    unfolding occ_replaceTab [OF id] o(1) by simp
  have "occIds (tabOcc t') \<subseteq> {p, viewId v} \<union> occIds (tabOcc t)"
    using occIds_mono [OF o(2)] by (auto simp: o(1))
  then show "wbIds (replaceTab snap t') \<subseteq> {p, viewId v} \<union> wbIds snap"
    using wbIds_replaceTab [OF id] occIds_tab [OF t(1)] by blast
qed

lemma activate_wf:
  assumes "wf_snapshot U snap" "i \<in> tabId ` set (tabs snap)"
  shows "wf_snapshot U (snap\<lparr>activeTabId := i\<rparr>)" "occ (snap\<lparr>activeTabId := i\<rparr>) = occ snap"
    "wbIds (snap\<lparr>activeTabId := i\<rparr>) = wbIds snap"
  using assms by (simp_all add: wf_snapshot_def occ_def wbIds_def)

lemma replaceTab_activate:
  "replaceTab (snap\<lparr>activeTabId := i\<rparr>) t = (replaceTab snap t)\<lparr>activeTabId := i\<rparr>"
  by (simp add: replaceTab_def)

subsection \<open>From the sidebar\<close>

lemma openSidebarViewInTab_wp:
  assumes wf: "wf_snapshot U snap" and f: "fresh s A" "wbIds snap \<subseteq> A" "viewId v \<in> A"
    and v: "view_free U v (occ snap)"
  shows "wp (openSidebarViewInTab snap i v)
    (\<lambda>r s'. case r of None \<Rightarrow> fresh s' A
       | Some d \<Rightarrow> good U (dropSnapshot d) s' \<and> shown (dropSnapshot d) (dropTabId d) (dropPaneId d) v) s"
    (is "wp _ ?Q s")
proof (cases "findTab snap i")
  case None
  then show ?thesis using f(1) by (simp add: openSidebarViewInTab_def)
next
  case (Some t)
  note t = findTab_Some [OF Some]
  let ?act = "applyActivateTab snap i"
  have wft: "wf_tab t" using wf t by (simp add: wf_snapshot_def)
  have act: "wf_snapshot U ?act" "wbIds ?act = wbIds snap" "occ ?act = occ snap" "t \<in> set (tabs ?act)"
    using wf t by (auto simp: applyActivateTab_def wf_snapshot_def wbIds_def occ_def list_ex_iff)
  obtain b where b: "tabAnchor t = Inr b" "b \<in> set (keys (panes t))"
    using firstLeaf_tab [OF wft] wf_tab_core [OF wft] by (auto simp: tabAnchor_def tab_core_def)
  have "wp (placeViewInTab t v b (Edge ERight) None) (\<lambda>placed. wp (updateTab ?act (fst placed))
      (\<lambda>snap'. ?Q (Some (dropped snap' i (snd placed))))) s"
    by (rule wp_mono [OF placeViewInTab_update [OF act(1) f(1) _ f(3) act(4) b(2)]], simp_all add: act f v)
      (erule wp_mono, use t in simp)
  then show ?thesis
    unfolding openSidebarViewInTab_def Some option.case b(1) wp_bind wp_lift_Inr wp_return .
qed

lemma placeSidebarViewInPane_wp:
  assumes wf: "wf_snapshot U snap" and f: "fresh s A" "wbIds snap \<subseteq> A" "viewId v \<in> A"
    and v: "view_free U v (occ snap)"
  shows "wp (placeSidebarViewInPane snap v i p zone)
    (\<lambda>r s'. case r of None \<Rightarrow> fresh s' A
       | Some d \<Rightarrow> good U (dropSnapshot d) s' \<and> shown (dropSnapshot d) (dropTabId d) (dropPaneId d) v) s"
    (is "wp _ ?Q s")
proof (cases "findTab snap i")
  case None
  then show ?thesis using f(1) by (simp add: placeSidebarViewInPane_def)
next
  case (Some t)
  note t = findTab_Some [OF Some]
  show ?thesis
  proof (cases "has_key (panes t) p")
    case False
    then show ?thesis using f(1) Some by (simp add: placeSidebarViewInPane_def)
  next
    case True
    have "wp (placeViewInTab t v p zone None) (\<lambda>placed. wp (updateTab snap (fst placed))
        (\<lambda>snap'. ?Q (Some (dropped snap' i (snd placed))))) s"
      by (rule wp_mono [OF placeViewInTab_update [OF wf f _ _ v]])
        (use t True in \<open>auto elim: wp_mono\<close>)
    then show ?thesis
      unfolding placeSidebarViewInPane_def Some option.case wp_if wp_bind wp_return using True by simp
  qed
qed

text \<open>
  A session that is open is detached; nothing is drawn or changed when it is not.
\<close>

lemma takeDragged_wp:
  assumes g: "good U snap s"
    and none: "findSessionViewPane snap target = None \<Longrightarrow> wp (f None) Q s"
    and some: "\<And>snap' v lt lp s'. wf_snapshot U snap' \<Longrightarrow> fresh s' (wbIds snap \<union> wbIds snap') \<Longrightarrow>
      view_free U v (occ snap') \<Longrightarrow> pane_free lp (occ snap') \<Longrightarrow> (lt, lp, v) \<in> occ snap \<Longrightarrow>
      isSameSessionTarget (viewTarget v) target \<Longrightarrow> tabId ` set (tabs snap') = tabId ` set (tabs snap) \<Longrightarrow>
      wp (f (Some (snap', v, (lt, lp)))) Q s'"
  shows "wp (js_bind (takeDraggedSessionView snap target) f) Q s"
proof (cases "findSessionViewPane snap target")
  case None
  then show ?thesis using none by (simp add: takeDraggedSessionView_def)
next
  case (Some l)
  obtain lt lp where l: "l = (lt, lp)" by fastforce
  obtain u v where u: "u \<in> set (tabs snap)" "tabId u = lt" "(lp, v) \<in> set (panes u)"
    "isSameSessionTarget (viewTarget v) target"
    using findSessionViewPane_Some Some l by blast
  have find: "findTab snap lt = Some u" using findTab_tab [OF good_wf [OF g] u(1)] u(2) by simp
  have map: "map_of (panes u) lp = Some v"
    using u(3) map_of_in [OF wf_tab_keys [OF good_tab [OF g u(1)]]] by blast
  have o: "(lt, lp, v) \<in> occ snap" using u by (auto simp: occ_iff)
  have "wp (detachView snap (lt, lp)) (\<lambda>detached. wp (f (map_option (\<lambda>(s, v). (s, v, (lt, lp))) detached)) Q) s"
  proof (rule wp_mono [OF detachView_wp [OF g find map]], elim exE conjE)
    fix r s' t'
    assume r: "r = Some (replaceTab snap t', v)" "wf_snapshot U (replaceTab snap t')"
      "fresh s' (wbIds snap \<union> wbIds (replaceTab snap t'))" "pane_free lp (occ (replaceTab snap t'))"
      "view_free U v (occ (replaceTab snap t'))"
    show "wp (f (map_option (\<lambda>(s, v). (s, v, (lt, lp))) r)) Q s'"
      using some [OF r(2,3,5,4) o u(4)] by (simp only: r(1) option.map prod.case tabIds_replaceTab)
  qed
  then show ?thesis
    unfolding takeDraggedSessionView_def Some l option.case wp_bind wp_return .
qed

lemma newView_free:
  assumes "findSessionViewPane snap target = None" "viewTarget v = target" "viewId v \<notin> wbIds snap"
  shows "view_free U v (occ snap)"
proof (rule view_free_new)
  show "viewId v \<notin> occIds (occ snap)" using assms(3) by (simp add: wbIds_def)
  have "\<not> sameSession v w" if o: "(i, q, w) \<in> occ snap" for i q w
    using findSessionViewPane_None [OF assms(1) o] assms(2)
    by (simp add: sameSession_def isSameSessionTarget_sym)
  then show "\<forall>x \<in> occ snap. \<not> sameSession v (snd (snd x))" by force
qed

lemma applySetFocused_at:
  assumes g: "good U snap s" and o: "(t, p, v) \<in> occ snap" and P: "P v"
  shows "wp (applySetFocused (applyActivateTab snap t) p) (\<lambda>s'. drop_ok U snap P (Some (dropped s' t p))) s"
  by (rule wp_mono [OF applySetFocused_wp [OF applyActivateTab_good [OF g]]])
    (use o P in \<open>auto intro: drop_ok_Some\<close>)

lemma sidebar_done:
  assumes "wf_snapshot U snap" "wbIds snap \<subseteq> A" "P v"
    and "case r of None \<Rightarrow> fresh s A
       | Some d \<Rightarrow> good U (dropSnapshot d) s \<and> shown (dropSnapshot d) (dropTabId d) (dropPaneId d) v"
  shows "drop_ok U snap P r s"
proof (cases r)
  case None
  then show ?thesis using assms by (auto simp: good_def intro: fresh_antimono)
next
  case (Some d)
  then have "good U (dropSnapshot d) s" "(dropTabId d, dropPaneId d, v) \<in> occ (dropSnapshot d)"
    using assms(4) shown_occ by auto
  then show ?thesis using assms(3) Some unfolding drop_ok_def by auto
qed

abbreviation sameKey :: "view_target \<Rightarrow> view_instance \<Rightarrow> bool" where
  "sameKey target v \<equiv> targetKey (viewTarget v) = targetKey target"

lemma dropSidebarOnTab_wp:
  assumes g: "good U snap s"
  shows "wp (dropSidebarOnTab snap target t) (drop_ok U snap (sameKey target)) s"
proof (cases "findTab snap t")
  case None
  then show ?thesis using g by (simp add: dropSidebarOnTab_def)
next
  case (Some u)
  note wf = good_wf [OF g]
  show ?thesis
    unfolding dropSidebarOnTab_def Some option.case
  proof (rule takeDragged_wp [OF g], goal_cases)
    case 1
    show ?case
      unfolding option.case wp_bind
    proof (rule wp_mono [OF viewInstance_wp [OF good_fresh [OF g]]], elim conjE)
      fix v :: view_instance and s'
      assume v: "viewTarget v = target" "viewId v \<notin> wbIds snap" "fresh s' (insert (viewId v) (wbIds snap))"
      show "wp (openSidebarViewInTab snap t v) (drop_ok U snap (sameKey target)) s'"
        by (rule wp_mono [OF openSidebarViewInTab_wp [OF wf v(3) _ _ newView_free [OF 1 v(1,2)]]])
          (use v(1) in \<open>auto intro: sidebar_done [OF wf]\<close>)
    qed
  next
    case (2 snap' v lt lp s')
    have key: "sameKey target v" using sameSession_targetKey [OF 2(6)] .
    have s': "good U snap s'" using wf 2(2) fresh_antimono by (fastforce simp: good_def)
    have v: "viewId v \<in> wbIds snap \<union> wbIds snap'" using viewId_wbIds [OF 2(5)] by blast
    have "wp (openSidebarViewInTab snap' t v) (drop_ok U snap (sameKey target)) s'"
      by (rule wp_mono [OF openSidebarViewInTab_wp [OF 2(1,2) _ v 2(3)]], simp)
        (rule sidebar_done [where P = "sameKey target", OF wf _ key], auto)
    then show ?case
      unfolding option.case prod.case wp_if wp_bind wp_return
      using applySetFocused_at [OF s' 2(5), of "sameKey target"] key by auto
  qed
qed

lemma dropSidebarOnPane_wp:
  assumes g: "good U snap s"
  shows "wp (dropSidebarOnPane snap target t p zone) (drop_ok U snap (sameKey target)) s"
proof (cases "findTab snap t")
  case None
  then show ?thesis using g by (simp add: dropSidebarOnPane_def)
next
  case (Some u)
  note wf = good_wf [OF g]
  have "wp (js_bind (takeDraggedSessionView snap target) (\<lambda>dragged. case dragged of
          Some (snap', view, (lt, lp)) \<Rightarrow>
            if lt = t \<and> lp = p then js_bind (applySetFocused (applyActivateTab snap t) lp)
              (\<lambda>s. js_return (Some (dropped s t lp)))
            else placeSidebarViewInPane snap' view t p zone
        | None \<Rightarrow> js_bind (viewInstance target) (\<lambda>view. placeSidebarViewInPane snap view t p zone)))
      (drop_ok U snap (sameKey target)) s"
  proof (rule takeDragged_wp [OF g], goal_cases)
    case 1
    show ?case
      unfolding option.case wp_bind
    proof (rule wp_mono [OF viewInstance_wp [OF good_fresh [OF g]]], elim conjE)
      fix v :: view_instance and s'
      assume v: "viewTarget v = target" "viewId v \<notin> wbIds snap" "fresh s' (insert (viewId v) (wbIds snap))"
      show "wp (placeSidebarViewInPane snap v t p zone) (drop_ok U snap (sameKey target)) s'"
        by (rule wp_mono [OF placeSidebarViewInPane_wp [OF wf v(3) _ _ newView_free [OF 1 v(1,2)]]])
          (use v(1) in \<open>auto intro: sidebar_done [OF wf]\<close>)
    qed
  next
    case (2 snap' v lt lp s')
    have key: "sameKey target v" using sameSession_targetKey [OF 2(6)] .
    have s': "good U snap s'" using wf 2(2) fresh_antimono by (fastforce simp: good_def)
    have v: "viewId v \<in> wbIds snap \<union> wbIds snap'" using viewId_wbIds [OF 2(5)] by blast
    have "wp (placeSidebarViewInPane snap' v t p zone) (drop_ok U snap (sameKey target)) s'"
      by (rule wp_mono [OF placeSidebarViewInPane_wp [OF 2(1,2) _ v 2(3)]], simp)
        (rule sidebar_done [where P = "sameKey target", OF wf _ key], auto)
    then show ?case
      unfolding option.case prod.case wp_if wp_bind wp_return
      using applySetFocused_at [OF s' 2(5), of "sameKey target"] key by auto
  qed
  then show ?thesis using g Some by (simp add: dropSidebarOnPane_def)
qed

lemma insertPresentation_drop:
  assumes "wf_snapshot U snap'" "fresh s A" "wbIds snap' \<subseteq> A" "viewId v \<in> A" "view_free U v (occ snap')"
    and "\<And>q. arg = Some q \<Longrightarrow> q \<in> A \<and> pane_free q (occ snap')" and P: "P v"
  shows "wp (insertPresentationTab snap' v idx arg)
    (\<lambda>r s'. drop_ok U snap P (Some (droppedPresentation r)) s') s"
proof (rule wp_mono [OF insertPresentationTab_wp [OF assms(1-6)]], simp, elim exE conjE)
  fix r s' snap2 t p k
  assume r: "r = (snap2, t, p)" "good U snap2 s'" "tabs snap2 = insert_at k (singleTab t p v) (tabs snap')"
  have "singleTab t p v \<in> set (tabs snap2)" by (simp add: r(3))
  then have "(t, p, v) \<in> occ snap2" unfolding occ_iff by (intro bexI [of _ "singleTab t p v"]) simp_all
  then show "drop_ok U snap P (Some (droppedPresentation r)) s'"
    using r(1,2) P by (simp add: droppedPresentation_def drop_ok_Some)
qed

lemma dropSidebarOnNewTab_wp:
  assumes g: "good U snap s"
  shows "wp (dropSidebarOnNewTab snap target idx) (drop_ok U snap (sameKey target)) s"
  unfolding dropSidebarOnNewTab_def
proof (rule takeDragged_wp [OF g], goal_cases)
  case 1
  note wf = good_wf [OF g]
  show ?case
    unfolding option.case wp_bind wp_return
  proof (rule wp_mono [OF viewInstance_wp [OF good_fresh [OF g]]], elim conjE)
    fix v :: view_instance and s'
    assume v: "viewTarget v = target" "viewId v \<notin> wbIds snap" "fresh s' (insert (viewId v) (wbIds snap))"
    show "wp (insertPresentationTab snap v idx None)
        (\<lambda>r. drop_ok U snap (sameKey target) (Some (droppedPresentation r))) s'"
      by (rule insertPresentation_drop [OF wf v(3) _ _ newView_free [OF 1 v(1,2)]]) (use v(1) in auto)
  qed
next
  case (2 snap' v lt lp s')
  have key: "sameKey target v" using sameSession_targetKey [OF 2(6)] .
  have v: "viewId v \<in> wbIds snap \<union> wbIds snap'" "lp \<in> wbIds snap" using viewId_wbIds [OF 2(5)] by blast+
  have "wp (insertPresentationTab snap' v idx (Some lp))
      (\<lambda>r. drop_ok U snap (sameKey target) (Some (droppedPresentation r))) s'"
    by (rule insertPresentation_drop [OF 2(1,2) _ v(1) 2(3)]) (use v(2) 2(4) key in auto)
  then show ?case unfolding option.case prod.case wp_bind wp_return .
qed

subsection \<open>From a pane or a tab\<close>

lemma land_on_tab:
  assumes wf: "wf_snapshot U snap1" and t: "t \<in> set (tabs snap1)" "wf_tab t'" "tabId t' = tabId t"
    and o: "tabOcc t' = insert (tabId t, p, v) B" "B \<subseteq> tabOcc t"
    and free: "pane_free p (occ snap1)" "view_free U v (occ snap1)"
    and f: "fresh s A" "{p, viewId v} \<union> wbIds snap1 \<subseteq> A" and P: "P v"
  shows "drop_ok U snap P
    (Some (dropped ((replaceTab snap1 t')\<lparr>activeTabId := tabId t\<rparr>) (tabId t) p)) s"
proof -
  have sub: "B \<union> occ_but snap1 (tabId t) \<subseteq> occ snap1" using o(2) occ_split [OF wf t(1)] by blast
  note r = replace_with_view [OF wf t o free_subset(1) [OF free(1) sub] free_subset(2) [OF free(2) sub]]
  have "tabId t \<in> tabId ` set (tabs (replaceTab snap1 t'))" using t(1) by simp
  note a = activate_wf [OF r(1) this]
  have "fresh s (wbIds (replaceTab snap1 t'))" using fresh_antimono [OF f(1)] r(3) f(2) by blast
  then have "good U ((replaceTab snap1 t')\<lparr>activeTabId := tabId t\<rparr>) s" using a(1,3) by (simp add: good_def)
  then show ?thesis by (rule drop_ok_Some) (use a(2) r(2) P in simp_all)
qed

lemma tab_stays: "t \<in> set (tabs snap) \<Longrightarrow> tabId t \<noteq> tabId u \<Longrightarrow> t \<in> set (tabs (replaceTab snap u))"
  by (simp add: replaceTab_def image_iff)

text \<open>The source tab of a move between tabs, after the pane has left.\<close>

lemma source_after_wp:
  assumes g: "good U snap s" and src: "src \<in> set (tabs snap)" "map_of (panes src) p = Some v"
    and cont: "\<And>after s'. wf_snapshot U (replaceTab snap after) \<Longrightarrow> tabId after = tabId src \<Longrightarrow>
      pane_free p (occ (replaceTab snap after)) \<Longrightarrow> view_free U v (occ (replaceTab snap after)) \<Longrightarrow>
      fresh s' (wbIds snap \<union> wbIds (replaceTab snap after)) \<Longrightarrow> wp (f (Some after)) Q s'"
  shows "wp (js_bind (removeViewFromTab src p) f) Q s"
  unfolding wp_bind
proof (rule wp_mono [OF removeViewFromTab_wp [OF good_tab [OF g src(1)] src(2) good_fresh [OF g] occIds_tab [OF src(1)]]],
    elim exE conjE)
  fix r s' after
  assume r: "r = Some after" "reduced (wbIds snap) p src after" "fresh s' (wbIds snap \<union> occIds (tabOcc after))"
  note red = reduced_replaceTab [OF good_wf [OF g] src r(2) subset_refl]
  have "fresh s' (wbIds snap \<union> wbIds (replaceTab snap after))"
    by (rule fresh_antimono [OF r(3)]) (use red(4) in blast)
  then have "wp (f (Some after)) Q s'"
    using cont [OF red(1) _ red(2,3)] r(2) by (simp add: reduced_def)
  then show "wp (f r) Q s'" by (simp add: r(1))
qed

abbreviation fromPane :: "snapshot \<Rightarrow> ident \<Rightarrow> ident \<Rightarrow> view_instance \<Rightarrow> bool" where
  "fromPane snap st sp v \<equiv> (st, sp, v) \<in> occ snap"

lemma dropPaneOnNewTab_wp:
  assumes g: "good U snap s"
  shows "wp (dropPaneOnNewTab snap st sp idx) (drop_ok U snap (fromPane snap st sp)) s"
proof (cases "findTab snap st")
  case None
  then show ?thesis using g by (simp add: dropPaneOnNewTab_def)
next
  case (Some src)
  note src = findTab_Some [OF Some]
  show ?thesis
  proof (cases "map_of (panes src) sp")
    case None
    then show ?thesis using g Some by (simp add: dropPaneOnNewTab_def)
  next
    case v: (Some v)
    have o: "(st, sp, v) \<in> occ snap" using src v map_of_SomeD by (fastforce simp: occ_iff)
    show ?thesis
      unfolding dropPaneOnNewTab_def Some v option.case
    proof (rule source_after_wp [OF g _ v], goal_cases)
      case (2 after s')
      have "wp (insertPresentationTab (replaceTab snap after) v idx (Some sp))
          (\<lambda>r. drop_ok U snap (fromPane snap st sp) (Some (droppedPresentation r))) s'"
        by (rule insertPresentation_drop [OF 2(1,5) _ _ 2(4)]) (use viewId_wbIds [OF o] 2(3) o in auto)
      then show ?case unfolding option.case wp_bind wp_return .
    qed (use src in simp)
  qed
qed

lemma dropPaneOnTab_wp:
  assumes g: "good U snap s"
  shows "wp (dropPaneOnTab snap st sp t) (drop_ok U snap (fromPane snap st sp)) s"
proof (cases "findTab snap st = None \<or> findTab snap t = None")
  case True
  then show ?thesis using g by (auto simp: dropPaneOnTab_def split: option.split)
next
  case False
  then obtain src tgt where tabs: "findTab snap st = Some src" "findTab snap t = Some tgt" by auto
  note src = findTab_Some [OF tabs(1)] and tgt = findTab_Some [OF tabs(2)]
  let ?Q = "drop_ok U snap (fromPane snap st sp)"
  show ?thesis
  proof (cases "map_of (panes src) sp")
    case None
    then show ?thesis using g tabs by (simp add: dropPaneOnTab_def)
  next
    case v: (Some v)
    have o: "(st, sp, v) \<in> occ snap" using src v map_of_SomeD by (fastforce simp: occ_iff)
    have wft: "wf_tab tgt" using good_tab [OF g] tgt by blast
    obtain b where b: "tabAnchor tgt = Inr b" "b \<in> set (keys (panes tgt))"
      using firstLeaf_tab [OF wft] wf_tab_core [OF wft] by (auto simp: tabAnchor_def tab_core_def)
    have move: "wp (placeViewInTab tgt v b (Edge ERight) (Some sp)) (\<lambda>inserted.
        wp (js_bind (removeViewFromTab src sp) (\<lambda>after. case after of None \<Rightarrow> js_return None
          | Some sourceAfter \<Rightarrow> js_bind (reconcileTab (fst inserted)) (\<lambda>targetAfter.
              js_return (Some (dropped
                (replaceTab (replaceTab (snap\<lparr>activeTabId := tabId tgt\<rparr>) sourceAfter) targetAfter)
                (tabId tgt) (snd inserted)))))) ?Q) s"
      if ne: "tabId src \<noteq> tabId tgt"
    proof -
      have keys: "set (keys (panes tgt)) \<subseteq> wbIds snap"
        using occIds_tab [of tgt snap] tgt by (auto simp: occIds_def tabOcc_def image_image case_prod_beta)
      have "(sp, v) \<in> set (panes src)" using v map_of_SomeD by fast
      then have pf: "pane_free sp (occ_but snap (tabId src))"
        using pane_unique [OF good_wf [OF g]] src by blast
      have "sp \<notin> set (keys (panes tgt))"
      proof
        assume "sp \<in> set (keys (panes tgt))"
        then obtain w where "(sp, w) \<in> set (panes tgt)" by auto
        then have "(tabId tgt, sp, w) \<in> occ_but snap (tabId src)"
          using tgt ne by (auto simp: occ_but_def occ_iff)
        then show False using pf by (auto simp: pane_free_def)
      qed
      then show ?thesis
      proof (intro wp_mono [OF placeViewInTab_wp [OF wft b(2) good_fresh [OF g] keys]], goal_cases)
        case (2 r s1)
        then obtain t' where r: "r = (t', sp)" "placed_in tgt t' sp v b (reusesAnchor tgt b (Edge ERight))"
          "fresh s1 (wbIds snap)" by auto
        have g1: "good U snap s1" using g r(3) by (simp add: good_def)
        show ?case
        proof (rule source_after_wp [OF g1 _ v], goal_cases)
          case (2 after s2)
          let ?snap1 = "replaceTab snap after"
          have tgt1: "tgt \<in> set (tabs ?snap1)"
            using tgt ne 2(2) by (intro tab_stays) auto
          have pre: "tab_pre t'" using r(2) by (simp add: placed_in_def)
          have "wp (reconcileTab t') (\<lambda>targetAfter. ?Q (Some (dropped
              (replaceTab (replaceTab (snap\<lparr>activeTabId := tabId tgt\<rparr>) after) targetAfter) (tabId tgt) sp))) s2"
          proof (rule wp_mono [OF reconcileTab_wp [OF supply_inv_fresh 2(5) pre]], elim conjE exE)
            fix t2 s3 cs l
            assume a: "fresh s3 (wbIds snap \<union> wbIds ?snap1)" "wf_tab t2" "t2 = t'\<lparr>columns := cs, layout := l\<rparr>"
            have id: "tabId t2 = tabId tgt" using r(2) by (simp add: a(3) placed_in_def)
            have ot: "tabOcc t2 = insert (tabId tgt, sp, v)
                {x \<in> tabOcc tgt. reusesAnchor tgt b (Edge ERight) \<longrightarrow> fst (snd x) \<noteq> b}"
              using r(2) by (auto simp: a(3) placed_in_def tabOcc_def)
            have ids: "{sp, viewId v} \<union> wbIds ?snap1 \<subseteq> wbIds snap \<union> wbIds ?snap1"
              using viewId_wbIds [OF o] by blast
            show "?Q (Some (dropped
              (replaceTab (replaceTab (snap\<lparr>activeTabId := tabId tgt\<rparr>) after) t2) (tabId tgt) sp)) s3"
              unfolding replaceTab_activate
              by (rule land_on_tab [OF 2(1) tgt1 a(2) id ot _ 2(3,4) a(1) ids]) (use o in auto)
          qed
          then show ?case unfolding option.case wp_bind wp_return r(1) fst_conv snd_conv .
        qed (use src in simp)
      qed simp
    qed
    show ?thesis
      unfolding dropPaneOnTab_def tabs v option.case prod.case b(1) wp_if wp_bind wp_lift_Inr
      using move [unfolded wp_bind] g by simp
  qed
qed

lemma if_branches: "(b \<Longrightarrow> P) \<Longrightarrow> (\<not> b \<Longrightarrow> Q) \<Longrightarrow> if b then P else Q"
  by simp

lemma dropPaneOnPane_wp:
  assumes g: "good U snap s"
  shows "wp (dropPaneOnPane snap st sp t p zone) (drop_ok U snap (fromPane snap st sp)) s"
proof (cases "findTab snap st = None \<or> findTab snap t = None")
  case True
  then show ?thesis using g by (auto simp: dropPaneOnPane_def split: option.split)
next
  case False
  then obtain src tgt where tabs: "findTab snap st = Some src" "findTab snap t = Some tgt" by auto
  note src = findTab_Some [OF tabs(1)] and tgt = findTab_Some [OF tabs(2)] and wf = good_wf [OF g]
  let ?Q = "drop_ok U snap (fromPane snap st sp)"
  show ?thesis
  proof (cases "map_of (panes src) sp")
    case None
    then show ?thesis using g tabs by (simp add: dropPaneOnPane_def)
  next
    case v: (Some v)
    have o: "(st, sp, v) \<in> occ snap" using src v map_of_SomeD by (fastforce simp: occ_iff)
    have wfs: "wf_tab src" and wft: "wf_tab tgt" using good_tab [OF g] src tgt by blast+
    have spk: "sp \<in> set (keys (panes src))" using map_of_Some_keys [OF v] .
    define edge where "edge = (case zone of Replace \<Rightarrow> ERight | Edge e \<Rightarrow> e)"
    have update: "wp (updateTab snap (placed\<lparr>focusedPaneId := sp\<rparr>))
        (\<lambda>snap'. ?Q (Some (dropped snap' (tabId src) sp))) s'"
      if pl: "tab_pre (placed\<lparr>focusedPaneId := sp\<rparr>)" "tabId placed = tabId src" "panes placed = panes src"
        "fresh s' (wbIds snap)" for placed :: workbench_tab and s'
    proof (rule wp_mono [OF updateTab_same_panes [of U snap s' src]], goal_cases)
      case (6 snap' s2)
      then obtain cs l where s2: "good U snap' s2"
        "snap' = replaceTab snap (placed\<lparr>focusedPaneId := sp, columns := cs, layout := l\<rparr>)" by auto
      let ?t = "placed\<lparr>focusedPaneId := sp, columns := cs, layout := l\<rparr>"
      have id: "tabId ?t \<in> tabId ` set (tabs snap)" using src pl(2) by (auto intro: rev_image_eqI)
      have "occ snap' = occ snap"
        unfolding s2(2) occ_replaceTab [OF id] using occ_split [OF wf, of src] src pl(2,3)
        by (simp add: tabOcc_def)
      then show ?case using s2(1) o src by (intro drop_ok_Some [of _ _ _ _ _ v]) auto
    qed (use wf src pl in \<open>auto simp: good_def\<close>)
    have same: "wp (js_bind (if layoutMode src = Some Scrolling then placedLayout src sp p (Edge edge)
          else js_bind (movePane (layout src) sp p edge) (\<lambda>l. js_return (src\<lparr>layout := l\<rparr>)))
        (\<lambda>placed. js_bind (updateTab snap (placed\<lparr>focusedPaneId := sp\<rparr>)) (\<lambda>snap'.
          js_return (Some (dropped snap' (tabId src) sp))))) ?Q s"
      if p: "p \<in> set (keys (panes tgt))" "sp \<noteq> p" "tabId src = tabId tgt"
    proof -
      have eq: "tgt = src" using tabs_eq [OF wf] src tgt p(3) by metis
      note leaves = wf_tab_leaves [OF wfs] and core = wf_tab_core [OF wfs]
      show ?thesis
      proof (cases "layoutMode src = Some Scrolling")
        case True
        have "wp (placedLayout src sp p (Edge edge)) (\<lambda>placed. wp (updateTab snap (placed\<lparr>focusedPaneId := sp\<rparr>))
            (\<lambda>snap'. ?Q (Some (dropped snap' (tabId src) sp)))) s"
        proof (rule wp_mono [OF placedLayout_wp [OF supply_inv_fresh good_fresh [OF g] wfs, of p sp "Edge edge"]], goal_cases)
          case (4 placed s')
          then obtain l cs where pl: "placed = src\<lparr>layout := l, columns := cs\<rparr>" "fresh s' (wbIds snap)"
            "\<And>ps f. distinct (keys ps) \<Longrightarrow> f \<in> set (keys ps) \<Longrightarrow> set (keys ps) = placed_keys src sp p (Edge edge) \<Longrightarrow>
               tab_pre (placed\<lparr>panes := ps, focusedPaneId := f\<rparr>)" by blast
          have "tab_pre (placed\<lparr>panes := panes src, focusedPaneId := sp\<rparr>)"
            by (rule pl(3)) (use wf_tab_keys [OF wfs] spk in \<open>auto simp: placed_keys_def\<close>)
          then show ?case using pl(1,2) by (intro update) simp_all
        qed (use p eq in auto)
        then show ?thesis using True unfolding wp_bind wp_if wp_return by simp
      next
        case nsc: False
        have "wp (movePane (layout src) sp p edge) (\<lambda>l. wp (updateTab snap (src\<lparr>layout := l, focusedPaneId := sp\<rparr>))
            (\<lambda>snap'. ?Q (Some (dropped snap' (tabId src) sp)))) s"
        proof (rule wp_mono [OF movePane_wf [OF supply_inv_fresh good_fresh [OF g]]], goal_cases)
          case (3 l s')
          have "distinct (leafIds l)" "set (leafIds l) = set (leafIds (layout src))"
            using 3 leaves by (auto dest: mset_eq_setD mset_eq_imp_distinct_iff)
          then have "tab_pre (src\<lparr>layout := l, focusedPaneId := sp\<rparr>)"
            using 3 leaves core nsc spk by (simp add: tab_pre_def tab_core_def layout_covers_def)
          then show ?case using 3 update [of "src\<lparr>layout := l\<rparr>"] by simp
        qed (use leaves in auto)
        then show ?thesis using nsc unfolding wp_bind wp_if wp_return by simp
      qed
    qed
    have cross: "wp (js_bind (removeViewFromTab src sp) (\<lambda>after. case after of None \<Rightarrow> js_return None
          | Some sourceAfter \<Rightarrow>
              let panes' = AList.update sp v (if zone = Replace then AList.delete p (panes tgt) else panes tgt)
              in js_bind (placedLayout tgt sp p zone) (\<lambda>placed.
                 js_bind (reconcileTab (placed\<lparr>panes := panes', focusedPaneId := sp\<rparr>)) (\<lambda>targetAfter.
                   js_return (Some (dropped
                     (replaceTab (replaceTab (snap\<lparr>activeTabId := tabId tgt\<rparr>) sourceAfter) targetAfter)
                     (tabId tgt) sp)))))) ?Q s"
      if p: "p \<in> set (keys (panes tgt))" "sp \<noteq> p" and ne: "tabId src \<noteq> tabId tgt"
    proof (rule source_after_wp [OF g _ v], goal_cases)
      case mv: (2 after s1)
      let ?snap1 = "replaceTab snap after"
      have tgt1: "tgt \<in> set (tabs ?snap1)" using tgt ne mv(2) by (intro tab_stays) auto
      have d: "distinct (keys (panes tgt))" using wf_tab_keys [OF wft] .
      have "sp \<notin> set (keys (panes tgt))"
        using mv(3) occ_in [OF tgt1] by (fastforce simp: pane_free_def tabOcc_def)
      note spn = this
      let ?ps = "AList.update sp v (if zone = Replace then AList.delete p (panes tgt) else panes tgt)"
      have ps: "set ?ps = insert (sp, v) {x \<in> set (panes tgt). zone = Replace \<longrightarrow> fst x \<noteq> p}" "distinct (keys ?ps)"
        using spn d by (auto simp: set_update_map distinct_delete set_delete image_iff)
      have "set (keys ?ps) = fst ` set ?ps" by simp
      also have "\<dots> = placed_keys tgt sp p zone" unfolding ps placed_keys_def using p by auto
      finally have keys: "set (keys ?ps) = placed_keys tgt sp p zone" .
      have "wp (placedLayout tgt sp p zone) (\<lambda>placed. wp (reconcileTab (placed\<lparr>panes := ?ps, focusedPaneId := sp\<rparr>))
          (\<lambda>targetAfter. ?Q (Some (dropped
             (replaceTab (replaceTab (snap\<lparr>activeTabId := tabId tgt\<rparr>) after) targetAfter) (tabId tgt) sp)))) s1"
      proof (rule wp_mono [OF placedLayout_wp [OF supply_inv_fresh mv(5) wft p]], goal_cases)
        case (2 placed s2)
        then obtain l cs where f2: "fresh s2 (wbIds snap \<union> wbIds ?snap1)" and
          pl: "placed = tgt\<lparr>layout := l, columns := cs\<rparr>"
          "\<forall>ps f. distinct (keys ps) \<longrightarrow> f \<in> set (keys ps) \<longrightarrow> set (keys ps) = placed_keys tgt sp p zone \<longrightarrow>
             tab_pre (placed\<lparr>panes := ps, focusedPaneId := f\<rparr>)" by blast
        have "sp \<in> set (keys ?ps)" unfolding keys by (simp add: placed_keys_def)
        then have pre: "tab_pre (placed\<lparr>panes := ?ps, focusedPaneId := sp\<rparr>)"
          using pl(2) ps(2) keys by blast
        show ?case
        proof (rule wp_mono [OF reconcileTab_wp [OF supply_inv_fresh f2 pre]], elim conjE exE)
          fix t2 s3 cs' l'
          assume a: "fresh s3 (wbIds snap \<union> wbIds ?snap1)" "wf_tab t2"
            "t2 = placed\<lparr>panes := ?ps, focusedPaneId := sp, columns := cs', layout := l'\<rparr>"
          have id: "tabId t2 = tabId tgt" by (simp add: a(3) pl(1))
          have "tabOcc t2 = (\<lambda>(p, v). (tabId tgt, p, v)) ` set ?ps" by (simp add: a(3) pl(1) tabOcc_def)
          also have "\<dots> = insert (tabId tgt, sp, v) {x \<in> tabOcc tgt. zone = Replace \<longrightarrow> fst (snd x) \<noteq> p}"
            unfolding ps by (auto simp: tabOcc_def)
          finally have ot: "tabOcc t2 = insert (tabId tgt, sp, v) {x \<in> tabOcc tgt. zone = Replace \<longrightarrow> fst (snd x) \<noteq> p}" .
          have ids: "{sp, viewId v} \<union> wbIds ?snap1 \<subseteq> wbIds snap \<union> wbIds ?snap1"
            using viewId_wbIds [OF o] by blast
          show "?Q (Some (dropped
              (replaceTab (replaceTab (snap\<lparr>activeTabId := tabId tgt\<rparr>) after) t2) (tabId tgt) sp)) s3"
            unfolding replaceTab_activate
            by (rule land_on_tab [OF mv(1) tgt1 a(2) id ot _ mv(3,4) a(1) ids]) (use o in auto)
        qed
      qed (use spn in simp)
      then show ?case unfolding option.case Let_def wp_bind wp_return .
    qed (use src in simp)
    show ?thesis
      unfolding dropPaneOnPane_def tabs v option.case prod.case Let_def wp_if wp_return edge_def [symmetric]
    proof (intro if_branches, goal_cases)
      case 2
      then show ?case using same by (simp del: wp_bind)
    next
      case 4
      then show ?case using cross [unfolded Let_def] by (simp del: wp_bind)
    qed (use g in simp_all)
  qed
qed

text \<open>A whole tab whose only view lands on a pane of the active tab; the source tab goes.\<close>

abbreviation fromTab :: "snapshot \<Rightarrow> ident \<Rightarrow> view_instance \<Rightarrow> bool" where
  "fromTab snap st v \<equiv> \<exists>q. (st, q, v) \<in> occ snap"

lemma without_tab:
  assumes wf: "wf_snapshot U snap" and o: "(st, q, v) \<in> occ snap" and t: "t \<in> tabId ` set (tabs snap)" "t \<noteq> st"
  defines "snap1 \<equiv> snap\<lparr>tabs := filter (\<lambda>c. tabId c \<noteq> st) (tabs snap), activeTabId := t\<rparr>"
  shows "wf_snapshot U snap1" "wbIds snap1 \<subseteq> wbIds snap" "pane_free q (occ snap1)" "view_free U v (occ snap1)"
proof -
  have f: "tabs snap1 = filter (\<lambda>c. tabId c \<noteq> st) (tabs snap)" by (simp add: snap1_def)
  have a: "activeTabId snap1 \<in> tabId ` set (tabs snap1)" using t by (auto simp: snap1_def)
  show "wf_snapshot U snap1" "wbIds snap1 \<subseteq> wbIds snap" using wf_filterTabs [OF wf f a] by blast+
  have sub: "occ snap1 \<subseteq> occ snap" using wf_filterTabs [OF wf f a] by blast
  have "(st, q, v) \<notin> occ snap1" by (auto simp: f occ_iff)
  then show "pane_free q (occ snap1)" "view_free U v (occ snap1)"
    using coh_removed [OF _ o sub] wf by (auto simp: wf_snapshot_def)
qed

lemma dropTab_finish:
  assumes g: "good U snap s" and tgt: "tgt \<in> set (tabs snap)" "tabId tgt \<noteq> st" and o: "(st, q, v) \<in> occ snap"
    and f: "fresh s' (wbIds snap)" and t0: "tab_pre t0" "tabId t0 = tabId tgt"
    and ot: "tabOcc t0 = insert (tabId tgt, q, v) B" "B \<subseteq> tabOcc tgt"
  shows "wp (reconcileTab t0) (\<lambda>t2. drop_ok U snap (fromTab snap st)
    (Some (dropped (replaceTab (snap\<lparr>tabs := filter (\<lambda>c. tabId c \<noteq> st) (tabs snap),
       activeTabId := tabId tgt\<rparr>) t2) (tabId tgt) q))) s'"
proof (rule wp_mono [OF reconcileTab_wp [OF supply_inv_fresh f t0(1)]], elim conjE exE)
  fix t2 s2 cs l
  assume a: "fresh s2 (wbIds snap)" "wf_tab t2" "t2 = t0\<lparr>columns := cs, layout := l\<rparr>"
  let ?snap1 = "snap\<lparr>tabs := filter (\<lambda>c. tabId c \<noteq> st) (tabs snap), activeTabId := tabId tgt\<rparr>"
  have "tabId tgt \<in> tabId ` set (tabs snap)" using tgt by blast
  note w = without_tab [OF good_wf [OF g] o this tgt(2)]
  have id: "tabId t2 = tabId tgt" by (simp add: a(3) t0(2))
  have o2: "tabOcc t2 = insert (tabId tgt, q, v) B" using ot(1) by (simp add: a(3) tabOcc_def)
  have in1: "tgt \<in> set (tabs ?snap1)" using tgt by simp
  have ids: "{q, viewId v} \<union> wbIds ?snap1 \<subseteq> wbIds snap" using viewId_wbIds [OF o] w(2) by blast
  have P: "fromTab snap st v" using o by blast
  have same: "(replaceTab ?snap1 t2)\<lparr>activeTabId := tabId tgt\<rparr> = replaceTab ?snap1 t2"
    by (simp add: replaceTab_def)
  have "drop_ok U snap (fromTab snap st)
      (Some (dropped ((replaceTab ?snap1 t2)\<lparr>activeTabId := tabId tgt\<rparr>) (tabId tgt) q)) s2"
    by (rule land_on_tab [OF w(1) in1 a(2) id o2 ot(2) w(3,4) a(1) ids]) (rule P)
  then show "drop_ok U snap (fromTab snap st) (Some (dropped (replaceTab ?snap1 t2) (tabId tgt) q)) s2"
    unfolding same .
qed

lemma dropTabOnPane_wp:
  assumes g: "good U snap s" and src: "tab \<in> set (tabs snap)" "tabId tab = st"
  shows "wp (dropTabOnPane snap tab st t p zone) (drop_ok U snap (fromTab snap st)) s"
proof -
  note wf = good_wf [OF g] and f = good_fresh [OF g]
  obtain q where q: "firstLeafId (layout tab) = Inr q" "q \<in> set (keys (panes tab))"
    using firstLeaf_tab [OF good_tab [OF g src(1)]] .
  then obtain v where v: "map_of (panes tab) q = Some v"
    using map_of_eq_None_iff [of "panes tab" q] by (cases "map_of (panes tab) q") auto
  have o: "(st, q, v) \<in> occ snap" using src v map_of_SomeD by (fastforce simp: occ_iff)
  show ?thesis
  proof (cases "findTab snap t = None \<or> st = activeTabId snap \<or> t \<noteq> activeTabId snap")
    case True
    then show ?thesis using g q(1) v by (auto simp: dropTabOnPane_def split: option.split)
  next
    case False
    then obtain tgt where tgt: "findTab snap t = Some tgt" "t \<noteq> st" by auto
    note t = findTab_Some [OF tgt(1)]
    have ne: "tabId tgt \<noteq> st" and wft: "wf_tab tgt" using t tgt(2) good_tab [OF g] by auto
    show ?thesis
    proof (cases "map_of (panes tgt) p")
      case None
      show ?thesis
        unfolding dropTabOnPane_def q(1) tgt(1) v None option.case wp_if wp_bind wp_lift_Inr wp_return
        using g by simp
    next
      case (Some w)
      have p: "p \<in> set (keys (panes tgt))" using map_of_Some_keys [OF Some] .
      have "q \<notin> set (keys (panes tgt))"
      proof
        assume "q \<in> set (keys (panes tgt))"
        then obtain u where "(q, u) \<in> set (panes tgt)" by auto
        then have "(tabId tgt, q, u) \<in> occ_but snap (tabId tab)"
          using t ne src by (auto simp: occ_but_def occ_iff)
        then show False using pane_unique [OF wf src(1)] v map_of_SomeD by (fastforce simp: pane_free_def)
      qed
      note q_new = this
      have on_welcome: "wp (reconcileTab (tgt\<lparr>layout := leaf q, panes := [(q, v)], focusedPaneId := q\<rparr>))
        (\<lambda>t2. drop_ok U snap (fromTab snap st) (Some (dropped (replaceTab
          (snap\<lparr>tabs := filter (\<lambda>c. tabId c \<noteq> st) (tabs snap), activeTabId := tabId tgt\<rparr>) t2) (tabId tgt) q))) s"
      proof (rule dropTab_finish [OF g _ ne o f, where B = "{}"])
        have "cols_pos (theColumns tgt)" if "layoutMode tgt = Some Scrolling"
          using wf_tab_columns [OF wft that] by (auto intro: cols_ok_pos)
        then show "tab_pre (tgt\<lparr>layout := leaf q, panes := [(q, v)], focusedPaneId := q\<rparr>)"
          using wf_tab_core [OF wft] by (simp add: tab_pre_def tab_core_def layout_covers_def leaf_def)
      qed (use t in \<open>simp_all add: tabOcc_panes tabOcc_def\<close>)
      have place: "wp (placedLayout tgt q p zone) (\<lambda>placed. wp (reconcileTab
          (placed\<lparr>panes := AList.update q v (panes tgt), focusedPaneId := q\<rparr>))
        (\<lambda>t2. drop_ok U snap (fromTab snap st) (Some (dropped (replaceTab
          (snap\<lparr>tabs := filter (\<lambda>c. tabId c \<noteq> st) (tabs snap), activeTabId := tabId tgt\<rparr>) t2) (tabId tgt) q)))) s"
        if z: "zone \<noteq> Replace"
      proof (rule wp_mono [OF placedLayout_wp [OF supply_inv_fresh f wft p]], goal_cases)
        case (3 placed s2)
        then obtain l cs where pl: "fresh s2 (wbIds snap)" "placed = tgt\<lparr>layout := l, columns := cs\<rparr>"
          "\<forall>ps f. distinct (keys ps) \<longrightarrow> f \<in> set (keys ps) \<longrightarrow> set (keys ps) = placed_keys tgt q p zone \<longrightarrow>
             tab_pre (placed\<lparr>panes := ps, focusedPaneId := f\<rparr>)" by blast
        let ?ps = "AList.update q v (panes tgt)"
        have d: "distinct (keys (panes tgt))" using wf_tab_keys [OF wft] .
        have keys: "set (keys ?ps) = placed_keys tgt q p zone" "distinct (keys ?ps)" "q \<in> set (keys ?ps)"
          using z d by (auto simp: placed_keys_def keys_update simp del: AList.update.simps)
        have o0: "tabOcc (placed\<lparr>panes := ?ps, focusedPaneId := q\<rparr>) = insert (tabId tgt, q, v) (tabOcc tgt)"
          using q_new by (auto simp: tabOcc_def pl(2) set_update_map [OF d])
        show ?case
          by (rule dropTab_finish [OF g _ ne o pl(1) _ _ o0 subset_refl]) (use pl t keys in auto)
      qed (use q_new p z in auto)
      show ?thesis
        unfolding dropTabOnPane_def q(1) tgt(1) v Some option.case Let_def wp_if wp_bind wp_lift_Inr wp_return
      proof (intro if_branches, goal_cases)
        case 4
        show ?case by (rule on_welcome)
      next
        case 6
        then show ?case by (intro place)
      qed (use g in simp_all)
    qed
  qed
qed

lemma dropTab_wp:
  assumes g: "good U snap s"
  shows "wp (dropTab snap st target) (drop_ok U snap (fromTab snap st)) s"
proof (cases "findIndex (\<lambda>c. tabId c = st) (tabs snap)")
  case None
  then show ?thesis using g by (simp add: dropTab_def)
next
  case (Some i)
  let ?tab = "tabs snap ! i"
  have i: "i < length (tabs snap)" "tabId ?tab = st" using findIndex_SomeD [OF Some] by auto
  then have src: "?tab \<in> set (tabs snap)" by simp
  note wf = good_wf [OF g]
  obtain q where q: "firstLeafId (layout ?tab) = Inr q" "q \<in> set (keys (panes ?tab))"
    using firstLeaf_tab [OF good_tab [OF g src]] .
  then obtain v where v: "(q, v) \<in> set (panes ?tab)" by auto
  have o: "(st, q, v) \<in> occ snap" using src v i(2) by (auto simp: occ_iff)
  have stay: "drop_ok U snap (fromTab snap st) (Some (dropped snap st q)) s"
    by (rule drop_ok_Some [OF g o]) (use o in blast)
  have move: "drop_ok U snap (fromTab snap st) (Some (dropped (applyMoveTab snap (int i) j) st q)) s" for j
    by (rule drop_ok_Some [of _ _ _ _ _ v])
      (use o g applyMoveTab_wf [OF wf] in \<open>auto simp: good_def\<close>)
  have pane: "wp (dropTabOnPane snap ?tab st t p zone) (drop_ok U snap (fromTab snap st)) s" for t p zone
    by (rule dropTabOnPane_wp [OF g src i(2)])
  show ?thesis
    unfolding dropTab_def Some option.case Let_def wp_bind q(1) wp_lift_Inr i(2)
    using stay move pane by (simp split: drop_target.split option.split)
qed

text \<open>What the pane that a drop reports shows: the dragged view, or a view of the dragged target.\<close>

definition draggedView :: "snapshot \<Rightarrow> drag_source \<Rightarrow> view_instance \<Rightarrow> bool" where
  "draggedView snap source v =
     (case source of
        FromSidebar target \<Rightarrow> targetKey (viewTarget v) = targetKey target
      | FromPane st sp \<Rightarrow> (st, sp, v) \<in> occ snap
      | FromTab st \<Rightarrow> fromTab snap st v)"

lemma applyViewDrop_wp:
  assumes "good U snap s"
  shows "wp (applyViewDrop snap source target) (drop_ok U snap (draggedView snap source)) s"
proof -
  note sidebar = dropSidebarOnPane_wp dropSidebarOnTab_wp dropSidebarOnNewTab_wp
  note pane = dropPaneOnPane_wp dropPaneOnTab_wp dropPaneOnNewTab_wp
  show ?thesis
    by (cases source; cases target)
      (simp_all add: applyViewDrop_def draggedView_def [abs_def] sidebar [OF assms] pane [OF assms] dropTab_wp [OF assms])
qed

end
