(* ===== verification/WorkbenchRemoval.thy ===== *)
theory WorkbenchRemoval
  imports WorkbenchOps
begin

text \<open>
  Bulk removal of views: closed sessions, repaired duplicates, legacy and pruned workspace views
  (\<open>apps/web/src/workbench/workbenchState.ts\<close>, from \<open>removePaneIdsFromTabs\<close> on).
\<close>

section \<open>Removals\<close>

datatype emptied_tab_policy = RecoverWelcome | CloseEmptied

text \<open>A JavaScript map from tab ids to sets of pane ids, in insertion order.\<close>

type_synonym removals = "(ident \<times> ident list) list"

definition addRemoval :: "pane_location \<Rightarrow> removals \<Rightarrow> removals" where
  "addRemoval location rs =
     (let ids = (case map_of rs (fst location) of Some ps \<Rightarrow> ps | None \<Rightarrow> [])
      in AList.update (fst location)
           (if snd location \<in> set ids then ids else ids @ [snd location]) rs)"

text \<open>Closing panes one after the other, until the tab is empty.\<close>

fun closePanes :: "workbench_tab option \<Rightarrow> ident list \<Rightarrow> js_error + workbench_tab option" where
  "closePanes currentTab [] = Inr currentTab"
| "closePanes None (paneId # rest) = closePanes None rest"
| "closePanes (Some tab) (paneId # rest) =
     (case closeLeaf tab paneId of
        Inl e \<Rightarrow> Inl e
      | Inr next \<Rightarrow> closePanes next rest)"

text \<open>One tab of the loop: the tab after the removals, and whether it was emptied.\<close>

definition removePaneIdsFromTab :: "removals \<Rightarrow> workbench_tab \<Rightarrow> (workbench_tab \<times> bool) js" where
  "removePaneIdsFromTab rs tab =
     (case map_of rs (tabId tab) of
        None \<Rightarrow> js_return (tab, False)
      | Some [] \<Rightarrow> js_return (tab, False)
      | Some closing \<Rightarrow>
          js_bind (js_lift (closePanes (Some tab) closing)) (\<lambda>currentTab.
            case currentTab of
              None \<Rightarrow> js_bind (clearedTab tab) (\<lambda>t. js_return (t, True))
            | Some cur \<Rightarrow>
                js_bind
                  (if focusedPaneId cur \<in> set (leafIds (layout cur)) then js_return (focusedPaneId cur)
                   else js_lift (firstLeafId (layout cur))) (\<lambda>validFocus.
                js_bind
                  (reconcileTab
                    (tab\<lparr>layout := layout cur, focusedPaneId := validFocus,
                         panes := fold AList.delete closing (panes tab)\<rparr>))
                  (\<lambda>t. js_return (t, False)))))"

text \<open>What happens to the tabs that lost their last view.\<close>

definition settleEmptied ::
  "snapshot \<Rightarrow> emptied_tab_policy \<Rightarrow> workbench_tab list \<Rightarrow> ident set \<Rightarrow> snapshot js" where
  "settleEmptied snap policy tabs' emptiedTabIds =
     (if policy = RecoverWelcome \<or> emptiedTabIds = {} then js_return (snap\<lparr>tabs := tabs'\<rparr>)
      else
        let survivors = filter (\<lambda>t. tabId t \<notin> emptiedTabIds) tabs' in
        if survivors = [] then
          (case (case List.find (\<lambda>t. tabId t = activeTabId snap) tabs' of
                   Some t \<Rightarrow> Some t
                 | None \<Rightarrow> (if tabs' = [] then None else Some (hd tabs'))) of
             Some keeper \<Rightarrow> js_return (snap\<lparr>tabs := [keeper], activeTabId := tabId keeper\<rparr>)
           | None \<Rightarrow> js_throw ''TypeError: no Tab'')
        else
          js_bind (js_lift (activeTabIdAfterClose snap survivors emptiedTabIds)) (\<lambda>a.
            js_return (snap\<lparr>tabs := survivors, activeTabId := a\<rparr>)))"

definition removePaneIdsFromTabs ::
  "snapshot \<Rightarrow> removals \<Rightarrow> emptied_tab_policy \<Rightarrow> snapshot js" where
  "removePaneIdsFromTabs snap rs policy =
     (if rs = [] then js_return snap
      else
        js_bind (js_map (removePaneIdsFromTab rs) (tabs snap)) (\<lambda>results.
          settleEmptied snap policy (map fst results)
            (set (map (\<lambda>(t, e). tabId t) (filter snd results)))))"

text \<open>All occurrences of a view, from left to right.\<close>

definition occurrences :: "snapshot \<Rightarrow> (pane_location \<times> view_instance) list" where
  "occurrences snap =
     concat (map (\<lambda>tab. map (\<lambda>(p, v). ((tabId tab, p), v)) (panes tab)) (tabs snap))"

definition paneIdsMatching :: "snapshot \<Rightarrow> (view_target \<Rightarrow> bool) \<Rightarrow> removals" where
  "paneIdsMatching snap matches =
     fold addRemoval (map fst (filter (\<lambda>(l, v). matches (viewTarget v)) (occurrences snap))) []"

definition applyRemoveMatchingViews ::
  "snapshot \<Rightarrow> (view_target \<Rightarrow> bool) \<Rightarrow> emptied_tab_policy \<Rightarrow> snapshot js" where
  "applyRemoveMatchingViews snap matches policy =
     removePaneIdsFromTabs snap (paneIdsMatching snap matches) policy"

definition applyRemoveSessionViews :: "snapshot \<Rightarrow> view_target \<Rightarrow> snapshot js" where
  "applyRemoveSessionViews snap target =
     applyRemoveMatchingViews snap (\<lambda>candidate. isSameSessionTarget candidate target) CloseEmptied"

section \<open>Repairing duplicates\<close>

definition addOccurrence ::
  "pane_location \<times> view_instance \<Rightarrow> (string \<times> pane_location list) list \<Rightarrow>
     (string \<times> pane_location list) list" where
  "addOccurrence o1 groups =
     (if \<not> isSessionViewTarget (viewTarget (snd o1)) then groups
      else
        let key = targetKey (viewTarget (snd o1));
            entries = (case map_of groups key of Some es \<Rightarrow> es | None \<Rightarrow> [])
        in AList.update key (entries @ [fst o1]) groups)"

text \<open>
  The entry that stays: the focused pane of the active tab, else one in the active tab, else the
  leftmost.
\<close>

definition keeperOf :: "snapshot \<Rightarrow> pane_location list \<Rightarrow> pane_location" where
  "keeperOf snap entries =
     (let focused = map_option focusedPaneId (findTab snap (activeTabId snap))
      in case List.find (\<lambda>(t, p). t = activeTabId snap \<and> Some p = focused) entries of
           Some entry \<Rightarrow> entry
         | None \<Rightarrow>
             (case List.find (\<lambda>(t, p). t = activeTabId snap) entries of
                Some entry \<Rightarrow> entry
              | None \<Rightarrow> hd entries))"

definition duplicateRemovals :: "snapshot \<Rightarrow> pane_location list" where
  "duplicateRemovals snap =
     concat (map
       (\<lambda>(key, entries).
          if length entries \<le> 1 then []
          else filter (\<lambda>entry. entry \<noteq> keeperOf snap entries) entries)
       (fold addOccurrence (occurrences snap) []))"

definition applyDedupeSessionViews :: "snapshot \<Rightarrow> snapshot js" where
  "applyDedupeSessionViews snap =
     removePaneIdsFromTabs snap (fold addRemoval (duplicateRemovals snap) []) RecoverWelcome"

section \<open>Other removals\<close>

definition isWorkspaceTarget :: "view_target \<Rightarrow> bool" where
  "isWorkspaceTarget target = (case target of TWorkspace _ _ _ _ _ \<Rightarrow> True | _ \<Rightarrow> False)"

definition applyRemoveWorkspaceViews :: "snapshot \<Rightarrow> snapshot js" where
  "applyRemoveWorkspaceViews snap = applyRemoveMatchingViews snap isWorkspaceTarget RecoverWelcome"

definition applyRemoveNewAgentSessionViews ::
  "snapshot \<Rightarrow> ident \<Rightarrow> ident \<Rightarrow> ident \<Rightarrow> snapshot js" where
  "applyRemoveNewAgentSessionViews snap e w d =
     applyRemoveMatchingViews snap (isDraft e w d) RecoverWelcome"

definition workspaceKey :: "ident \<Rightarrow> ident \<Rightarrow> string" where
  "workspaceKey e w = e @ '':'' @ w"

definition isPruned :: "(ident \<times> ident) list \<Rightarrow> ident list \<Rightarrow> view_target \<Rightarrow> bool" where
  "isPruned knownWorkspaces observedEnvironmentIds target =
     (let known = set (map (\<lambda>(e, w). workspaceKey e w) knownWorkspaces);
          scoped = (\<lambda>e w. e \<in> set observedEnvironmentIds \<and> workspaceKey e w \<notin> known)
      in case target of
           TWorkspace e w _ _ _ \<Rightarrow> scoped e w
         | TAgentSession e w _ _ \<Rightarrow> scoped e w
         | TNewAgentSession e w _ _ \<Rightarrow> scoped e w
         | TWorkspaceTerminal e w _ _ \<Rightarrow> scoped e w
         | _ \<Rightarrow> False)"

definition applyPruneWorkspaceViews ::
  "snapshot \<Rightarrow> (ident \<times> ident) list \<Rightarrow> ident list \<Rightarrow> snapshot js" where
  "applyPruneWorkspaceViews snap knownWorkspaces observedEnvironmentIds =
     applyRemoveMatchingViews snap (isPruned knownWorkspaces observedEnvironmentIds) RecoverWelcome"

section \<open>Removing panes from one tab\<close>

lemma closePanes_None [simp]: "closePanes None ps = Inr None"
  by (induction ps) auto

lemma closePanes_spec:
  assumes "wf_layout (layout t)" "distinct (leafIds (layout t))"
  shows "closePanes (Some t) ps = Inr None \<and> set (leafIds (layout t)) \<subseteq> set ps \<or>
    (\<exists>n f. closePanes (Some t) ps = Inr (Some (t\<lparr>layout := n, focusedPaneId := f\<rparr>)) \<and> wf_layout n \<and>
       leafIds n = filter (\<lambda>y. y \<notin> set ps) (leafIds (layout t)) \<and>
       (focusedPaneId t \<notin> set ps \<longrightarrow> f = focusedPaneId t))"
  using assms
proof (induction ps arbitrary: t)
  case Nil
  then show ?case by (intro disjI2 exI [of _ "layout t"] exI [of _ "focusedPaneId t"]) simp
next
  case (Cons p ps)
  from closeLeaf_spec [OF Cons.prems, of p] show ?case
  proof (elim disjE exE conjE)
    fix n f
    let ?t = "t\<lparr>layout := n, focusedPaneId := f\<rparr>"
    assume c: "closeLeaf t p = Inr (Some ?t)" "wf_layout n"
      "leafIds n = filter (\<lambda>y. y \<noteq> p) (leafIds (layout t))" "focusedPaneId t \<noteq> p \<longrightarrow> f = focusedPaneId t"
    have "distinct (leafIds n)" using c(3) Cons.prems by simp
    from Cons.IH [of ?t] this c(2) show ?case
    proof (elim meta_impE disjE exE conjE)
      fix n' f'
      assume "closePanes (Some ?t) ps = Inr (Some (?t\<lparr>layout := n', focusedPaneId := f'\<rparr>))" "wf_layout n'"
        "leafIds n' = filter (\<lambda>y. y \<notin> set ps) (leafIds (layout ?t))"
        "focusedPaneId ?t \<notin> set ps \<longrightarrow> f' = focusedPaneId ?t"
      then show ?thesis using c
        by (intro disjI2 exI [of _ n'] exI [of _ f']) (auto intro: filter_cong)
    qed (use c in auto)
  qed auto
qed

text \<open>
  \<open>stripped A ps t r\<close>: the tab \<open>t\<close> without the panes in \<open>ps\<close>; when none is left, with one welcome
  view whose identifiers are not in \<open>A\<close>.
\<close>

definition stripped :: "ident set \<Rightarrow> ident set \<Rightarrow> workbench_tab \<Rightarrow> workbench_tab \<times> bool \<Rightarrow> bool" where
  "stripped A ps t r \<longleftrightarrow> wf_tab (fst r) \<and> tabId (fst r) = tabId t \<and>
     snd r = (set (keys (panes t)) \<subseteq> ps) \<and>
     (if snd r
      then \<exists>q w. panes (fst r) = [(q, w)] \<and> isWelcome w \<and> q \<notin> A \<and> viewId w \<notin> A
      else tabOcc (fst r) = {x \<in> tabOcc t. fst (snd x) \<notin> ps})"

definition removed_in :: "removals \<Rightarrow> ident \<Rightarrow> ident set" where
  "removed_in rs i = (case map_of rs i of Some ps \<Rightarrow> set ps | None \<Rightarrow> {})"

lemma fold_delete:
  "distinct (keys m) \<Longrightarrow> distinct (keys (fold AList.delete ps m)) \<and>
     set (fold AList.delete ps m) = {x \<in> set m. fst x \<notin> set ps}"
  by (induction ps arbitrary: m) (auto simp: distinct_delete set_delete)

lemma removePaneIdsFromTab_wp:
  assumes wf: "wf_tab t" and f: "fresh s A" "occIds (tabOcc t) \<subseteq> A"
  shows "wp (removePaneIdsFromTab rs t)
    (\<lambda>r s'. stripped A (removed_in rs (tabId t)) t r \<and> fresh s' (A \<union> occIds (tabOcc (fst r)))) s"
    (is "wp _ ?Q s")
proof (cases "removed_in rs (tabId t) = {}")
  case True
  then have "removePaneIdsFromTab rs t = js_return (t, False)"
    by (auto simp: removePaneIdsFromTab_def removed_in_def split: option.splits list.splits)
  then show ?thesis
    using True wf wf_tab_core [OF wf] f by (auto simp: stripped_def tab_core_def sup.absorb1)
next
  case False
  then obtain p ps where rs: "map_of rs (tabId t) = Some (p # ps)"
    by (auto simp: removed_in_def split: option.splits list.splits) (metis list.exhaust list.set(1))
  let ?C = "p # ps"
  have C: "removed_in rs (tabId t) = set ?C" by (simp add: removed_in_def rs)
  note l = wf_tab_leaves [OF wf] and core = wf_tab_core [OF wf] and d = wf_tab_keys [OF wf]
  have def: "removePaneIdsFromTab rs t = js_bind (js_lift (closePanes (Some t) ?C)) (\<lambda>currentTab.
      case currentTab of None \<Rightarrow> js_bind (clearedTab t) (\<lambda>t. js_return (t, True))
      | Some cur \<Rightarrow> js_bind (if focusedPaneId cur \<in> set (leafIds (layout cur)) then js_return (focusedPaneId cur)
          else js_lift (firstLeafId (layout cur))) (\<lambda>validFocus.
        js_bind (reconcileTab (t\<lparr>layout := layout cur, focusedPaneId := validFocus,
          panes := fold AList.delete ?C (panes t)\<rparr>)) (\<lambda>t. js_return (t, False))))"
    by (simp only: removePaneIdsFromTab_def rs option.case list.case)
  have "closePanes (Some t) ?C = Inr None \<and> set (keys (panes t)) \<subseteq> set ?C \<or>
    (\<exists>n f. closePanes (Some t) ?C = Inr (Some (t\<lparr>layout := n, focusedPaneId := f\<rparr>)) \<and> wf_layout n \<and>
       leafIds n = filter (\<lambda>y. y \<notin> set ?C) (leafIds (layout t)))"
    using closePanes_spec [of t ?C] l by blast
  then show ?thesis
  proof (elim disjE exE conjE)
    assume c: "closePanes (Some t) ?C = Inr None" "set (keys (panes t)) \<subseteq> set ?C"
    have "wp (clearedTab t) (\<lambda>t'. ?Q (t', True)) s"
    proof (rule wp_mono [OF clearedTab_wp [OF f(1)]], elim exE conjE)
      fix t' s' q w cs l
      assume w: "t' = (singleTab (tabId t) q w)\<lparr>titleMode := titleMode t,
          titleOverride := titleOverride t, layoutMode := Some (case layoutMode t of Some m \<Rightarrow> m | None \<Rightarrow> Bsp),
          columns := cs, layout := l\<rparr>" "isWelcome w" "q \<notin> A" "viewId w \<notin> A" "wf_tab t'"
        "fresh s' ({q, viewId w} \<union> A)"
      have ps: "panes t' = [(q, w)]" "tabId t' = tabId t" by (simp_all add: w(1))
      then have "stripped A (removed_in rs (tabId t)) t (t', True)"
        using w(2-5) c(2) C by (simp add: stripped_def)
      then show "?Q (t', True) s'" using w(6) ps by (simp add: Un_commute)
    qed
    then show ?thesis unfolding def c(1) wp_bind wp_lift_Inr option.case wp_return .
  next
    fix n g
    assume c: "closePanes (Some t) ?C = Inr (Some (t\<lparr>layout := n, focusedPaneId := g\<rparr>))" "wf_layout n"
      "leafIds n = filter (\<lambda>y. y \<notin> set ?C) (leafIds (layout t))"
    have first: "firstLeafId n = Inr (hd (leafIds n))" "hd (leafIds n) \<in> set (leafIds n)"
      using c(2) by (simp_all add: wf_firstLeafId wf_leafIds_nonempty)
    define h where "h = (if g \<in> set (leafIds n) then g else hd (leafIds n))"
    let ?ps = "fold AList.delete ?C (panes t)"
    let ?t = "t\<lparr>layout := n, focusedPaneId := h, panes := ?ps\<rparr>"
    have ps: "distinct (keys ?ps)" "set ?ps = {x \<in> set (panes t). fst x \<notin> set ?C}"
      using fold_delete [OF d] by blast+
    have "set (keys ?ps) = fst ` {x \<in> set (panes t). fst x \<notin> set ?C}" unfolding set_map ps(2) ..
    also have "\<dots> = set (leafIds n)" using l unfolding c(3) by auto
    finally have keys: "set (keys ?ps) = set (leafIds n)" .
    have h: "h \<in> set (leafIds n)" using first(2) by (simp add: h_def)
    have "cols_pos (theColumns t)" if "layoutMode t = Some Scrolling"
      using wf_tab_columns [OF wf that] by (auto intro: cols_ok_pos)
    then have pre: "tab_pre ?t"
      using core c(2,3) keys h l ps(1)
      by (simp add: tab_pre_def tab_core_def layout_covers_def del: fold.simps set_map)
    obtain x where "x \<in> set (leafIds n)" using h by blast
    then have left: "\<not> set (keys (panes t)) \<subseteq> set ?C" using l unfolding c(3) by auto
    have "wp (reconcileTab ?t) (\<lambda>t'. ?Q (t', False)) s"
    proof (rule wp_mono [OF reconcileTab_wp [OF supply_inv_fresh f(1) pre]], elim exE conjE)
      fix t' s' cs l
      assume t': "fresh s' A" "wf_tab t'" "t' = ?t\<lparr>columns := cs, layout := l\<rparr>"
      have o: "tabOcc t' = {x \<in> tabOcc t. fst (snd x) \<notin> set ?C}" unfolding t'(3) tabOcc_fields tabOcc_panes ps(2)
        by (auto simp: tabOcc_def)
      then have "occIds (tabOcc t') \<subseteq> A" using occIds_mono [of "tabOcc t'" "tabOcc t"] f(2) by blast
      then show "?Q (t', False) s'"
        using t' left o C by (simp add: stripped_def sup.absorb1)
    qed
    then show ?thesis
      unfolding def c(1) wp_bind wp_lift_Inr option.case wp_return wp_if
      by (cases "g \<in> set (leafIds n)") (simp_all add: first(1) h_def)
  qed
qed

section \<open>Removing panes from all tabs\<close>

lemma stripped_antimono: "stripped B ps t r \<Longrightarrow> A \<subseteq> B \<Longrightarrow> stripped A ps t r"
  unfolding stripped_def by (smt (verit) subsetD)

lemma stripped_coh:
  assumes "stripped A ps t r" "coh U (tabOcc t \<union> R)" "occIds (tabOcc t \<union> R) \<subseteq> A"
  shows "coh U (tabOcc (fst r) \<union> R)"
proof (cases "snd r")
  case False
  then have "tabOcc (fst r) \<subseteq> tabOcc t" using assms(1) by (auto simp: stripped_def)
  then show ?thesis by (intro coh_subset [OF assms(2)]) blast
next
  case True
  then obtain q w where w: "panes (fst r) = [(q, w)]" "isWelcome w" "q \<notin> A" "viewId w \<notin> A"
    using assms(1) by (auto simp: stripped_def)
  have "coh U R" by (rule coh_subset [OF assms(2)]) simp
  moreover have "occIds R \<subseteq> A" using assms(3) by simp
  ultimately have "coh U (insert (tabId (fst r), q, w) R)"
    using w(2-4) by (intro coh_add pane_free_new view_free_new) (auto simp: welcome_not_session)
  then show ?thesis using w(1) by simp
qed

abbreviation occsOf :: "workbench_tab list \<Rightarrow> occurrence set" where
  "occsOf ts \<equiv> (\<Union>t \<in> set ts. tabOcc t)"

lemma stripTabs_wp:
  assumes "fresh s A" "coh U (occsOf ts \<union> R)" "occIds (occsOf ts \<union> R) \<subseteq> A" "\<And>t. t \<in> set ts \<Longrightarrow> wf_tab t"
  shows "wp (js_map (removePaneIdsFromTab rs) ts)
    (\<lambda>ys s'. coh U (occsOf (map fst ys) \<union> R) \<and> fresh s' (A \<union> occIds (occsOf (map fst ys))) \<and>
       list_all2 (\<lambda>t. stripped A (removed_in rs (tabId t)) t) ts ys) s"
  using assms
proof (induction ts arbitrary: s A R)
  case (Cons t ts)
  have wft: "wf_tab t" and ids: "occIds (tabOcc t) \<subseteq> A" "occIds (occsOf ts \<union> R) \<subseteq> A"
    using Cons.prems by auto
  show ?case
    unfolding js_map.simps wp_bind
  proof (rule wp_mono [OF removePaneIdsFromTab_wp [OF wft Cons.prems(1) ids(1)]], elim conjE)
    fix r s1
    assume r: "stripped A (removed_in rs (tabId t)) t r" "fresh s1 (A \<union> occIds (tabOcc (fst r)))"
    let ?A = "A \<union> occIds (tabOcc (fst r))"
    have "coh U (tabOcc (fst r) \<union> (occsOf ts \<union> R))"
      by (rule stripped_coh [OF r(1)]) (use Cons.prems(2,3) in \<open>simp_all add: Un_assoc\<close>)
    then have c: "coh U (occsOf ts \<union> (tabOcc (fst r) \<union> R))" by (simp add: Un_left_commute)
    have i: "occIds (occsOf ts \<union> (tabOcc (fst r) \<union> R)) \<subseteq> ?A" using ids(2) by auto
    show "wp (js_map (removePaneIdsFromTab rs) ts) (\<lambda>ys. wp (js_return (r # ys))
      (\<lambda>ys s'. coh U (occsOf (map fst ys) \<union> R) \<and> fresh s' (A \<union> occIds (occsOf (map fst ys))) \<and>
         list_all2 (\<lambda>t. stripped A (removed_in rs (tabId t)) t) (t # ts) ys)) s1"
    proof (rule wp_mono [OF Cons.IH [OF r(2) c i]], goal_cases)
      case (2 ys s2)
      have "list_all2 (\<lambda>t. stripped A (removed_in rs (tabId t)) t) ts ys"
        using 2 by (auto elim!: list_all2_mono stripped_antimono)
      moreover have "occsOf (map fst ys) \<union> (tabOcc (fst r) \<union> R) = occsOf (map fst (r # ys)) \<union> R" by auto
      moreover have "A \<union> occIds (tabOcc (fst r)) \<union> occIds (occsOf (map fst ys)) =
          A \<union> occIds (occsOf (map fst (r # ys)))" by (simp add: Un_assoc)
      ultimately show ?case using 2 r(1) by simp
    qed (use Cons.prems in auto)
  qed
qed (simp_all add: occIds_def)

text \<open>
  What a removal leaves: the occurrences outside the removed panes, and besides them only welcome
  views whose identifiers are new.
\<close>

definition remains :: "snapshot \<Rightarrow> (occurrence \<Rightarrow> bool) \<Rightarrow> snapshot \<Rightarrow> bool" where
  "remains snap gone snap' \<longleftrightarrow> {x \<in> occ snap. \<not> gone x} \<subseteq> occ snap' \<and>
     (\<forall>x \<in> occ snap'. x \<in> occ snap \<and> \<not> gone x \<or>
        isWelcome (snd (snd x)) \<and> fst (snd x) \<notin> wbIds snap)"

abbreviation inRemovals :: "removals \<Rightarrow> occurrence \<Rightarrow> bool" where
  "inRemovals rs x \<equiv> fst (snd x) \<in> removed_in rs (fst x)"

lemma stripped_tabs:
  assumes "list_all2 (\<lambda>t. stripped A (removed_in rs (tabId t)) t) ts ys"
  shows "map tabId (map fst ys) = map tabId ts"
    "\<And>y. y \<in> set ys \<Longrightarrow> \<exists>t \<in> set ts. stripped A (removed_in rs (tabId t)) t y"
    "\<And>t. t \<in> set ts \<Longrightarrow> \<exists>y \<in> set ys. stripped A (removed_in rs (tabId t)) t y"
proof -
  show "map tabId (map fst ys) = map tabId ts"
    using assms by (induction rule: list_all2_induct) (simp_all add: stripped_def)
  show "\<exists>t \<in> set ts. stripped A (removed_in rs (tabId t)) t y" if "y \<in> set ys" for y
    using assms that by (induction rule: list_all2_induct) auto
  show "\<exists>y \<in> set ys. stripped A (removed_in rs (tabId t)) t y" if "t \<in> set ts" for t
    using assms that by (induction rule: list_all2_induct) auto
qed

lemma stripped_remains:
  assumes "list_all2 (\<lambda>t. stripped (wbIds snap) (removed_in rs (tabId t)) t) (tabs snap) ys"
    and sub: "set ts \<subseteq> set (map fst ys)" "\<And>y. y \<in> set ys \<Longrightarrow> \<not> snd y \<Longrightarrow> fst y \<in> set ts" and ts: "tabs snap' = ts"
  shows "remains snap (inRemovals rs) snap'"
  unfolding remains_def
proof (intro conjI ballI subsetI)
  note st = stripped_tabs [OF assms(1)]
  fix x assume "x \<in> {x \<in> occ snap. \<not> inRemovals rs x}"
  then obtain t p v where x: "x = (tabId t, p, v)" "t \<in> set (tabs snap)" "(p, v) \<in> set (panes t)"
    "p \<notin> removed_in rs (tabId t)" by (auto simp: occ_def tabOcc_def)
  obtain y where y: "y \<in> set ys" "stripped (wbIds snap) (removed_in rs (tabId t)) t y" using st(3) x(2) by blast
  have ne: "\<not> set (keys (panes t)) \<subseteq> removed_in rs (tabId t)" using x(3,4) by force
  then have "tabOcc (fst y) = {x \<in> tabOcc t. fst (snd x) \<notin> removed_in rs (tabId t)}" "\<not> snd y"
    using y(2) by (auto simp: stripped_def simp del: set_map)
  then have "x \<in> tabOcc (fst y)" "fst y \<in> set ts" using x sub(2) [OF y(1)] by simp_all
  then show "x \<in> occ snap'" by (auto simp: occ_def ts)
next
  note st = stripped_tabs [OF assms(1)]
  fix x assume "x \<in> occ snap'"
  then obtain y where y: "y \<in> set ys" "x \<in> tabOcc (fst y)" using sub(1) by (auto simp: occ_def ts)
  then obtain t where t: "t \<in> set (tabs snap)" "stripped (wbIds snap) (removed_in rs (tabId t)) t y"
    using st(2) by blast
  then show "x \<in> occ snap \<and> \<not> inRemovals rs x \<or> isWelcome (snd (snd x)) \<and> fst (snd x) \<notin> wbIds snap"
  proof (cases "snd y")
    case True
    then obtain q w where "panes (fst y) = [(q, w)]" "isWelcome w" "q \<notin> wbIds snap"
      using t(2) by (auto simp: stripped_def)
    then show ?thesis using y(2) by simp
  next
    case False
    then have "tabOcc (fst y) = {x \<in> tabOcc t. fst (snd x) \<notin> removed_in rs (tabId t)}"
      using t(2) unfolding stripped_def by (auto simp del: set_map)
    then have "x \<in> tabOcc t" "fst (snd x) \<notin> removed_in rs (tabId t)" using y(2) by auto
    moreover have "fst x = tabId t" using calculation(1) by (auto simp: tabOcc_def)
    ultimately show ?thesis using occ_in [OF t(1)] by auto
  qed
qed

lemma filter_single: "distinct (map f xs) \<Longrightarrow> x \<in> set xs \<Longrightarrow> filter (\<lambda>y. f y = f x) xs = [x]"
proof (induction xs)
  case (Cons a xs)
  have "filter (\<lambda>y. f y = f a) xs = []" using Cons.prems(1) by (metis (mono_tags, lifting) distinct.simps(2) filter_False image_eqI list.set_map list.simps(9))
  then show ?case using Cons by auto
qed simp

definition emptiedIds :: "(workbench_tab \<times> bool) list \<Rightarrow> ident set" where
  "emptiedIds ys = set (map (\<lambda>(t, e). tabId t) (filter snd ys))"

lemma emptiedIds_iff:
  assumes "distinct (map tabId (map fst ys))" "y \<in> set ys"
  shows "tabId (fst y) \<in> emptiedIds ys \<longleftrightarrow> snd y"
proof
  assume "tabId (fst y) \<in> emptiedIds ys"
  then obtain z where z: "z \<in> set ys" "snd z" "tabId (fst z) = tabId (fst y)" by (auto simp: emptiedIds_def)
  then have "z = y" using assms by (auto simp: distinct_map inj_on_def comp_def)
  then show "snd y" using z(2) by simp
next
  assume "snd y"
  then have "(\<lambda>(t, e). tabId t) y \<in> emptiedIds ys" unfolding emptiedIds_def set_map using assms(2) by (intro imageI) simp
  then show "tabId (fst y) \<in> emptiedIds ys" by (simp add: case_prod_beta)
qed

lemma good_filterTabs:
  assumes g: "good U mid s" and t: "tabs snap' = filter P (tabs mid)" "activeTabId snap' \<in> tabId ` set (tabs snap')"
  shows "good U snap' s"
  using wf_filterTabs [OF good_wf [OF g] t] g fresh_antimono by (auto simp: good_def)

lemma settleEmptied_wp:
  assumes g: "good U (snap\<lparr>tabs := map fst ys\<rparr>) s" and p: "policy \<noteq> RecoverWelcome"
  shows "wp (settleEmptied snap policy (map fst ys) (emptiedIds ys))
    (\<lambda>snap' s'. s' = s \<and> good U snap' s \<and> set (tabs snap') \<subseteq> set (map fst ys) \<and>
       (\<forall>y \<in> set ys. \<not> snd y \<longrightarrow> fst y \<in> set (tabs snap'))) s"
    (is "wp _ ?Q s")
proof -
  let ?ts = "map fst ys"
  have d: "distinct (map tabId ?ts)" and active: "activeTabId snap \<in> tabId ` set ?ts"
    using good_wf [OF g] by (simp_all add: wf_snapshot_def)
  let ?surv = "filter (\<lambda>t. tabId t \<notin> emptiedIds ys) ?ts"
  have surv: "fst y \<in> set ?surv" if "y \<in> set ys" "\<not> snd y" for y
    using emptiedIds_iff [OF d] that by simp
  have whole: "?Q (snap\<lparr>tabs := ?ts\<rparr>) s" using g by simp
  have last: "wp (case (case List.find (\<lambda>t. tabId t = activeTabId snap) ?ts of
              Some t \<Rightarrow> Some t | None \<Rightarrow> (if ?ts = [] then None else Some (hd ?ts))) of
          Some keeper \<Rightarrow> js_return (snap\<lparr>tabs := [keeper], activeTabId := tabId keeper\<rparr>)
        | None \<Rightarrow> js_throw ''TypeError: no Tab'') ?Q s" if e: "?surv = []"
  proof -
    obtain k where k: "List.find (\<lambda>t. tabId t = activeTabId snap) ?ts = Some k" "k \<in> set ?ts"
    proof (cases "List.find (\<lambda>t. tabId t = activeTabId snap) ?ts")
      case None
      then show ?thesis using active unfolding find_None_iff by fastforce
    next
      case (Some k)
      then show ?thesis using that find_Some_in [OF Some] by blast
    qed
    let ?snap' = "snap\<lparr>tabs := [k], activeTabId := tabId k\<rparr>"
    have "tabs ?snap' = filter (\<lambda>t. tabId t = tabId k) (tabs (snap\<lparr>tabs := ?ts\<rparr>))"
      using filter_single [OF d k(2)] by simp
    then have "good U ?snap' s" by (rule good_filterTabs [OF g]) simp
    moreover have "\<forall>y \<in> set ys. snd y" using surv unfolding e by auto
    ultimately have "?Q ?snap' s" using k(2) by simp
    then show ?thesis unfolding k(1) option.case wp_return .
  qed
  have some: "wp (js_bind (js_lift (activeTabIdAfterClose snap ?surv (emptiedIds ys))) (\<lambda>a.
      js_return (snap\<lparr>tabs := ?surv, activeTabId := a\<rparr>))) ?Q s" if e: "?surv \<noteq> []"
  proof -
    obtain a where a: "activeTabIdAfterClose snap ?surv (emptiedIds ys) = Inr a"
      "activeTabId snap \<notin> emptiedIds ys \<Longrightarrow> a = activeTabId snap"
      "activeTabId snap \<in> emptiedIds ys \<Longrightarrow> a \<in> tabId ` set ?surv"
      using activeTabIdAfterClose_ok [OF e, of snap "emptiedIds ys"] by blast
    let ?snap' = "snap\<lparr>tabs := ?surv, activeTabId := a\<rparr>"
    have "a \<in> tabId ` set ?surv"
    proof (cases "activeTabId snap \<in> emptiedIds ys")
      case False
      then show ?thesis using a(2) active by auto
    qed (use a(3) in blast)
    then have "good U ?snap' s" by (intro good_filterTabs [OF g, of ?snap' "\<lambda>t. tabId t \<notin> emptiedIds ys"]) simp_all
    then have "?Q ?snap' s" using surv by auto
    then show ?thesis unfolding wp_bind a(1) wp_lift_Inr wp_return .
  qed
  show ?thesis
    unfolding settleEmptied_def Let_def wp_if wp_return using whole last some p by (simp del: wp_bind)
qed

lemma removePaneIdsFromTabs_wp:
  assumes g: "good U snap s"
  shows "wp (removePaneIdsFromTabs snap rs policy)
    (\<lambda>snap' s'. good U snap' s' \<and> remains snap (inRemovals rs) snap' \<and>
       (policy = RecoverWelcome \<longrightarrow> map tabId (tabs snap') = map tabId (tabs snap))) s"
    (is "wp _ ?Q s")
proof (cases "rs = []")
  case True
  then show ?thesis using g by (simp add: removePaneIdsFromTabs_def remains_def removed_in_def)
next
  case False
  note wf = good_wf [OF g]
  have coh: "coh U (occsOf (tabs snap) \<union> {})" "occIds (occsOf (tabs snap) \<union> {}) \<subseteq> wbIds snap"
    using wf by (simp_all add: wf_snapshot_def occ_def wbIds_def)
  have "wp (js_map (removePaneIdsFromTab rs) (tabs snap))
    (\<lambda>ys. wp (settleEmptied snap policy (map fst ys) (emptiedIds ys)) ?Q) s"
  proof (rule wp_mono [OF stripTabs_wp [OF good_fresh [OF g] coh]])
    fix t assume "t \<in> set (tabs snap)" then show "wf_tab t" using good_tab [OF g] by blast
  next
    fix ys s'
    assume "coh U (occsOf (map fst ys) \<union> {}) \<and> fresh s' (wbIds snap \<union> occIds (occsOf (map fst ys))) \<and>
      list_all2 (\<lambda>t. stripped (wbIds snap) (removed_in rs (tabId t)) t) (tabs snap) ys"
    then have ys: "coh U (occsOf (map fst ys))" "fresh s' (wbIds snap \<union> occIds (occsOf (map fst ys)))"
      "list_all2 (\<lambda>t. stripped (wbIds snap) (removed_in rs (tabId t)) t) (tabs snap) ys" by simp_all
    note st = stripped_tabs [OF ys(3)] and rem = stripped_remains [OF ys(3)]
    let ?ts = "map fst ys" and ?mid = "snap\<lparr>tabs := map fst ys\<rparr>"
    have ids: "tabId ` set ?ts = tabId ` set (tabs snap)" using st(1) by (metis list.set_map)
    have "wf_tab t" if "t \<in> set ?ts" for t using st(2) that by (auto simp: stripped_def)
    then have wfm: "wf_snapshot U ?mid"
      using st(1) ids wf ys(1) by (simp add: wf_snapshot_def occ_def)
    have "wbIds ?mid \<subseteq> wbIds snap \<union> occIds (occsOf (map fst ys))"
      using ids by (auto simp: wbIds_def occ_def)
    then have gm: "good U ?mid s'" using wfm fresh_antimono [OF ys(2)] by (simp add: good_def)
    show "wp (settleEmptied snap policy (map fst ys) (emptiedIds ys)) ?Q s'"
    proof (cases "policy = RecoverWelcome")
      case True
      then show ?thesis using gm st(1) rem [of ?ts ?mid] by (simp add: settleEmptied_def)
    next
      case p: False
      then show ?thesis
        by (intro wp_mono [OF settleEmptied_wp [OF gm]]) (use rem [OF _ _ refl] in auto)
    qed
  qed
  then show ?thesis
    unfolding removePaneIdsFromTabs_def wp_bind emptiedIds_def using False by simp
qed

section \<open>Removal by target\<close>

lemma removed_in_add:
  "removed_in (addRemoval l rs) i = removed_in rs i \<union> (if fst l = i then {snd l} else {})"
  by (auto simp: addRemoval_def removed_in_def update_conv' split: option.splits)

lemma removed_in_fold: "removed_in (fold addRemoval ls rs) i = removed_in rs i \<union> {p. (i, p) \<in> set ls}"
  by (induction ls arbitrary: rs) (auto simp: removed_in_add)

lemma removed_in_Nil [simp]: "removed_in [] i = {}"
  by (simp add: removed_in_def)

lemma set_occurrences: "((i, p), v) \<in> set (occurrences snap) \<longleftrightarrow> (i, p, v) \<in> occ snap"
  by (force simp: occurrences_def occ_def tabOcc_def)

lemma occ_pane_eq: "wf_snapshot U snap \<Longrightarrow> (i, p, v) \<in> occ snap \<Longrightarrow> (j, p, w) \<in> occ snap \<Longrightarrow> i = j \<and> v = w"
  unfolding wf_snapshot_def coh_def by (metis clash.simps prod.inject)

lemma removed_matching:
  assumes "wf_snapshot U snap" "(i, p, v) \<in> occ snap"
  shows "p \<in> removed_in (paneIdsMatching snap matches) i \<longleftrightarrow> matches (viewTarget v)"
proof -
  have "p \<in> removed_in (paneIdsMatching snap matches) i \<longleftrightarrow>
      (\<exists>w. (i, p, w) \<in> occ snap \<and> matches (viewTarget w))"
    unfolding paneIdsMatching_def removed_in_fold
    by (force simp: set_occurrences [symmetric] image_iff)
  then show ?thesis using occ_pane_eq [OF assms(1) assms(2)] assms(2) by blast
qed

lemma remains_cong:
  "remains snap gone snap' \<Longrightarrow> (\<And>x. x \<in> occ snap \<Longrightarrow> gone x = gone' x) \<Longrightarrow> remains snap gone' snap'"
  unfolding remains_def by blast

abbreviation shows_match :: "(view_target \<Rightarrow> bool) \<Rightarrow> occurrence \<Rightarrow> bool" where
  "shows_match matches x \<equiv> matches (viewTarget (snd (snd x)))"

lemma applyRemoveMatchingViews_wp:
  assumes g: "good U snap s"
  shows "wp (applyRemoveMatchingViews snap matches policy)
    (\<lambda>snap' s'. good U snap' s' \<and> remains snap (shows_match matches) snap' \<and>
       (policy = RecoverWelcome \<longrightarrow> map tabId (tabs snap') = map tabId (tabs snap))) s"
  unfolding applyRemoveMatchingViews_def
proof (rule wp_mono [OF removePaneIdsFromTabs_wp [OF g]], elim conjE, intro conjI)
  fix snap' s' assume r: "remains snap (inRemovals (paneIdsMatching snap matches)) snap'"
  show "remains snap (shows_match matches) snap'"
    by (rule remains_cong [OF r]) (use removed_matching [OF good_wf [OF g]] in auto)
qed

lemma removals_none:
  assumes "\<And>x. x \<in> occ snap \<Longrightarrow> \<not> shows_match matches x"
  shows "applyRemoveMatchingViews snap matches policy = js_return snap"
proof -
  have "filter (\<lambda>(l, v). matches (viewTarget v)) (occurrences snap) = []"
    using assms set_occurrences [of _ _ _ snap] by (fastforce simp: filter_empty_conv)
  then show ?thesis
    by (simp add: applyRemoveMatchingViews_def paneIdsMatching_def removePaneIdsFromTabs_def)
qed

section \<open>Repaired duplicates\<close>

lemma keeperOf_in: "entries \<noteq> [] \<Longrightarrow> keeperOf snap entries \<in> set entries"
  unfolding keeperOf_def Let_def by (auto split: option.split dest: find_Some_in)

text \<open>The locations of the session views with one key, in order.\<close>

definition entriesOf :: "(pane_location \<times> view_instance) list \<Rightarrow> string \<Rightarrow> pane_location list" where
  "entriesOf os key = map fst (filter (\<lambda>(l, v). isSessionViewTarget (viewTarget v) \<and>
     targetKey (viewTarget v) = key) os)"

lemma fold_addOccurrence:
  "distinct (keys gs) \<Longrightarrow> distinct (keys (fold addOccurrence os gs)) \<and>
     (case map_of (fold addOccurrence os gs) key of Some es \<Rightarrow> es | None \<Rightarrow> []) =
     (case map_of gs key of Some es \<Rightarrow> es | None \<Rightarrow> []) @ entriesOf os key"
proof (induction os arbitrary: gs)
  case (Cons o1 os)
  obtain l v where o1: "o1 = (l, v)" by fastforce
  show ?case
    using Cons.IH [of "addOccurrence o1 gs"] Cons.prems
    by (auto simp: o1 addOccurrence_def entriesOf_def Let_def update_conv' split: option.splits)
qed (simp add: entriesOf_def)

lemma groups_entries:
  "(key, es) \<in> set (fold addOccurrence os []) \<Longrightarrow> es = entriesOf os key"
  using fold_addOccurrence [of "[]" os key] map_of_is_SomeI by fastforce

lemma addOccurrence_keys:
  "entriesOf os key \<noteq> [] \<Longrightarrow> (key, entriesOf os key) \<in> set (fold addOccurrence os [])"
  using fold_addOccurrence [of "[]" os key] map_of_SomeD by (fastforce split: option.splits)

lemma set_duplicateRemovals:
  "l \<in> set (duplicateRemovals snap) \<longleftrightarrow>
     (\<exists>key. l \<in> set (entriesOf (occurrences snap) key) \<and>
        l \<noteq> keeperOf snap (entriesOf (occurrences snap) key))"
  (is "?L \<longleftrightarrow> ?R")
proof
  assume ?L
  then show ?R using groups_entries by (fastforce simp: duplicateRemovals_def split: if_splits)
next
  assume ?R
  then obtain key where k: "l \<in> set (entriesOf (occurrences snap) key)"
    "l \<noteq> keeperOf snap (entriesOf (occurrences snap) key)" by blast
  let ?es = "entriesOf (occurrences snap) key"
  have ne: "?es \<noteq> []" using k(1) by auto
  have "\<not> length ?es \<le> 1"
    using k keeperOf_in [OF ne, of snap] by (cases ?es; cases "tl ?es") auto
  then have "l \<in> set ((\<lambda>(key, entries). if length entries \<le> 1 then []
      else filter (\<lambda>entry. entry \<noteq> keeperOf snap entries) entries) (key, ?es))" using k by simp
  then show ?L using addOccurrence_keys [OF ne] unfolding duplicateRemovals_def set_concat set_map by blast
qed

text \<open>The location at which a repaired snapshot keeps the views with a key.\<close>

abbreviation keeperAt :: "snapshot \<Rightarrow> view_instance \<Rightarrow> pane_location" where
  "keeperAt snap v \<equiv> keeperOf snap (entriesOf (occurrences snap) (targetKey (viewTarget v)))"

definition superfluous :: "snapshot \<Rightarrow> occurrence \<Rightarrow> bool" where
  "superfluous snap x = (case x of (i, p, v) \<Rightarrow> isSessionViewTarget (viewTarget v) \<and> (i, p) \<noteq> keeperAt snap v)"

lemma in_entriesOf:
  assumes "wf_snapshot U snap" "(i, p, v) \<in> occ snap"
  shows "(i, p) \<in> set (entriesOf (occurrences snap) key) \<longleftrightarrow>
    isSessionViewTarget (viewTarget v) \<and> key = targetKey (viewTarget v)"
proof -
  have "(i, p) \<in> set (entriesOf (occurrences snap) key) \<longleftrightarrow>
      (\<exists>w. (i, p, w) \<in> occ snap \<and> isSessionViewTarget (viewTarget w) \<and> targetKey (viewTarget w) = key)"
    by (force simp: entriesOf_def set_occurrences [symmetric] image_iff)
  then show ?thesis using occ_pane_eq [OF assms(1) assms(2)] assms(2) by blast
qed

lemma keeper_in_occ:
  assumes "wf_snapshot U snap" "(i, p, v) \<in> occ snap" "isSessionViewTarget (viewTarget v)"
  obtains j q w where "keeperAt snap v = (j, q)" "(j, q, w) \<in> occ snap" "isSessionViewTarget (viewTarget w)"
    "targetKey (viewTarget w) = targetKey (viewTarget v)"
proof -
  let ?es = "entriesOf (occurrences snap) (targetKey (viewTarget v))"
  have "?es \<noteq> []" using in_entriesOf [OF assms(1,2), of "targetKey (viewTarget v)"] assms(3) by auto
  then have "keeperAt snap v \<in> set ?es" by (rule keeperOf_in)
  then obtain j q w where "keeperAt snap v = (j, q)" "((j, q), w) \<in> set (occurrences snap)"
    "isSessionViewTarget (viewTarget w)" "targetKey (viewTarget w) = targetKey (viewTarget v)"
    by (auto simp: entriesOf_def)
  then show ?thesis using that by (simp add: set_occurrences)
qed

lemma wf_snapshot_coh: "wf_snapshot U snap \<Longrightarrow> coh U (occ snap)"
  by (simp add: wf_snapshot_def)

lemma coh_True:
  assumes "coh U A"
    and same: "\<And>i p v j q w. (i, p, v) \<in> A \<Longrightarrow> (j, q, w) \<in> A \<Longrightarrow> sameSession v w \<Longrightarrow> (i, p) = (j, q) \<and> v = w"
  shows "coh True A"
  unfolding coh_def
proof (intro ballI impI)
  fix x y assume h: "x \<in> A" "y \<in> A" "clash True x y"
  obtain i p v j q w where xy: "x = (i, p, v)" "y = (j, q, w)" by (metis surj_pair)
  show "x = y"
  proof (cases "sameSession v w")
    case True
    then show ?thesis using same [of i p v j q w] h xy by simp
  next
    case False
    then have "clash U x y" using h(3) by (simp add: xy)
    then show ?thesis using assms(1) h(1,2) unfolding coh_def by blast
  qed
qed

lemma applyDedupeSessionViews_wp:
  assumes g: "good U snap s"
  shows "wp (applyDedupeSessionViews snap)
    (\<lambda>snap' s'. good True snap' s' \<and> remains snap (superfluous snap) snap' \<and>
       map tabId (tabs snap') = map tabId (tabs snap)) s"
  unfolding applyDedupeSessionViews_def
proof (rule wp_mono [OF removePaneIdsFromTabs_wp [OF g]], elim conjE)
  fix snap' s'
  let ?rs = "fold addRemoval (duplicateRemovals snap) []"
  assume r: "good U snap' s'" "remains snap (inRemovals ?rs) snap'"
    "RecoverWelcome = RecoverWelcome \<longrightarrow> map tabId (tabs snap') = map tabId (tabs snap)"
  note wf = good_wf [OF g]
  have gone: "inRemovals ?rs x = superfluous snap x" if "x \<in> occ snap" for x
  proof -
    obtain i p v where x: "x = (i, p, v)" by (metis surj_pair)
    have "(i, p, v) \<in> occ snap" using that x by simp
    note e = in_entriesOf [OF wf this]
    show ?thesis unfolding x removed_in_fold superfluous_def prod.case fst_conv snd_conv
      by (auto simp: set_duplicateRemovals e)
  qed
  have rem: "remains snap (superfluous snap) snap'" using remains_cong [OF r(2)] gone by blast
  have "(i, p) = (j, q) \<and> v = w"
    if o: "(i, p, v) \<in> occ snap'" "(j, q, w) \<in> occ snap'" and same: "sameSession v w" for i p v j q w
  proof -
    have sess: "isSessionViewTarget (viewTarget v)" "isSessionViewTarget (viewTarget w)"
      "targetKey (viewTarget v) = targetKey (viewTarget w)"
      using same sameSession_session sameSession_targetKey by (auto simp: sameSession_def)
    have "\<not> isWelcome v" "\<not> isWelcome w"
      using same welcome_not_session [of v w] welcome_not_session [of w v]
      by (auto simp: sameSession_def isSameSessionTarget_sym [of "viewTarget w"])
    then have k: "(i, p, v) \<in> occ snap" "(i, p) = keeperAt snap v" "(j, q, w) \<in> occ snap" "(j, q) = keeperAt snap w"
      using rem o sess by (force simp: remains_def superfluous_def)+
    then have "(i, p) = (j, q)" using sess(3) by metis
    then show ?thesis using occ_pane_eq [OF wf k(1), of j w] k(3) by auto
  qed
  then have "coh True (occ snap')" by (rule coh_True [OF wf_snapshot_coh [OF good_wf [OF r(1)]]])
  then show "good True snap' s' \<and> remains snap (superfluous snap) snap' \<and>
      map tabId (tabs snap') = map tabId (tabs snap)"
    using r(1,3) rem by (simp add: good_def wf_snapshot_def)
qed

end
