(* ===== verification/WorkbenchReach.thy ===== *)
theory WorkbenchReach
  imports WorkbenchModes WorkbenchDrop WorkbenchRemoval
begin

text \<open>
  Sequences of workbench operations. The interface \<open>stepper\<close> states what a machine of operations
  that draw identifiers must keep; it is interpreted on the operations of
  \<open>apps/web/src/workbench/workbenchState.ts\<close>, so that whatever the user does, in any order, no
  operation throws and the workbench stays well formed, with one view per session.
\<close>

section \<open>Machines that draw identifiers\<close>

fun run_all :: "('o \<Rightarrow> 'st \<Rightarrow> 'st js) \<Rightarrow> 'o list \<Rightarrow> 'st \<Rightarrow> 'st js" where
  "run_all step [] st = js_return st"
| "run_all step (x # xs) st = js_bind (step x st) (run_all step xs)"

locale stepper =
  fixes step :: "'o \<Rightarrow> 'st \<Rightarrow> 'st js" and inv :: "'st \<Rightarrow> ids \<Rightarrow> bool"
  assumes step_inv: "inv st s \<Longrightarrow> wp (step x st) inv s"
begin

lemma run_inv: "inv st s \<Longrightarrow> wp (run_all step xs st) inv s"
proof (induction xs arbitrary: st s)
  case (Cons x xs)
  show ?case
    unfolding run_all.simps wp_bind by (rule wp_mono [OF step_inv [OF Cons.prems] Cons.IH])
qed simp

lemma run_returns: "inv st s \<Longrightarrow> \<exists>st' s'. run_all step xs st s = Inr (st', s') \<and> inv st' s'"
  using run_inv by (fastforce simp: wp_def)

inductive reaches :: "'st \<Rightarrow> ids \<Rightarrow> 'st \<Rightarrow> ids \<Rightarrow> bool" where
  start: "reaches st s st s"
| step: "reaches st s st' s' \<Longrightarrow> step x st' s' = Inr (st'', s'') \<Longrightarrow> reaches st s st'' s''"

lemma reaches_inv: "reaches st s st' s' \<Longrightarrow> inv st s \<Longrightarrow> inv st' s'"
proof (induction rule: reaches.induct)
  case (step st s st' s' x st'' s'')
  then show ?case using wp_result [OF step_inv [of st' s' x]] by blast
qed

lemma never_throws: "reaches st s st' s' \<Longrightarrow> inv st s \<Longrightarrow> \<exists>st'' s''. step x st' s' = Inr (st'', s'')"
  using step_inv [OF reaches_inv] by (fastforce simp: wp_def)

end

section \<open>The operations of the workbench\<close>

datatype wb_op =
    OpSetLayoutMode layout_mode
  | OpChangeColumn ident column_change
  | OpMoveInColumn ident step_direction
  | OpCreateTab
  | OpActivateTab ident
  | OpCloseTab ident
  | OpMoveTab int int
  | OpRenameTab ident "string option"
  | OpClosePane ident
  | OpRemoveSession view_target
  | OpRemoveDraft ident ident ident
  | OpRemoveWorkspaces
  | OpPrune "(ident \<times> ident) list" "ident list"
  | OpDedupe
  | OpReplaceTarget ident view_target
  | OpDrop drag_source drop_target
  | OpOpen view_target
  | OpOpenDeepLink view_target
  | OpSplitFocused view_target split_dir
  | OpSplitPane ident view_target split_dir
  | OpSetFocused ident
  | OpSetSplitRatio ident int js_number

text \<open>A null result of a drop or of closing a pane leaves the snapshot as it is.\<close>

fun runOp :: "wb_op \<Rightarrow> snapshot \<Rightarrow> snapshot js" where
  "runOp (OpSetLayoutMode m) snap = applySetLayoutMode snap m"
| "runOp (OpChangeColumn i c) snap = applyColumnChange snap i c"
| "runOp (OpMoveInColumn p d) snap = applyMoveInColumn snap p d"
| "runOp OpCreateTab snap = applyCreateTab snap"
| "runOp (OpActivateTab i) snap = js_return (applyActivateTab snap i)"
| "runOp (OpCloseTab i) snap = js_lift (applyCloseTab snap i)"
| "runOp (OpMoveTab i j) snap = js_return (applyMoveTab snap i j)"
| "runOp (OpRenameTab i t) snap = applyRenameTab snap i t"
| "runOp (OpClosePane p) snap =
     js_bind (applyClosePane snap p) (\<lambda>r. js_return (case r of None \<Rightarrow> snap | Some snap' \<Rightarrow> snap'))"
| "runOp (OpRemoveSession g) snap = applyRemoveSessionViews snap g"
| "runOp (OpRemoveDraft e w d) snap = applyRemoveNewAgentSessionViews snap e w d"
| "runOp OpRemoveWorkspaces snap = applyRemoveWorkspaceViews snap"
| "runOp (OpPrune ws es) snap = applyPruneWorkspaceViews snap ws es"
| "runOp OpDedupe snap = applyDedupeSessionViews snap"
| "runOp (OpReplaceTarget p g) snap = applyReplacePaneTarget snap p g"
| "runOp (OpDrop source target) snap =
     js_bind (applyViewDrop snap source target) (\<lambda>r.
       js_return (case r of None \<Rightarrow> snap | Some d \<Rightarrow> dropSnapshot d))"
| "runOp (OpOpen g) snap = applyOpenTarget snap g"
| "runOp (OpOpenDeepLink g) snap = applyOpenDeepLinkTarget snap g"
| "runOp (OpSplitFocused g d) snap = applySplitFocused snap g d"
| "runOp (OpSplitPane p g d) snap = applySplitPane snap p g d"
| "runOp (OpSetFocused p) snap = applySetFocused snap p"
| "runOp (OpSetSplitRatio k i r) snap = applySetSplitRatio snap k i r"

lemma removal_good:
  "good U snap s \<Longrightarrow> wp (applyRemoveMatchingViews snap matches policy) (good U) s"
  by (rule wp_mono [OF applyRemoveMatchingViews_wp]) blast+

lemma good_False: "good True snap s \<Longrightarrow> good U snap s"
  by (cases U) (auto simp: good_def wf_snapshot_def coh_def elim!: clash.elims)

lemma runOp_good:
  assumes g: "good U snap s"
  shows "wp (runOp x snap) (good U) s"
proof (cases x)
  case (OpCloseTab i)
  obtain snap' where "applyCloseTab snap i = Inr snap'" "wf_snapshot U snap'" "wbIds snap' \<subseteq> wbIds snap"
    using applyCloseTab_ok [OF good_wf [OF g]] by metis
  then show ?thesis using OpCloseTab good_fresh [OF g] by (auto simp: good_def intro: fresh_antimono)
next
  case (OpClosePane p)
  show ?thesis
    unfolding OpClosePane runOp.simps wp_bind wp_return
    by (rule wp_mono [OF applyClosePane_wp [OF g]]) (auto split: option.splits)
next
  case (OpDrop source target)
  show ?thesis
    unfolding OpDrop runOp.simps wp_bind wp_return
    by (rule wp_mono [OF applyViewDrop_wp [OF g]]) (auto simp: drop_ok_def split: option.splits)
next
  case (OpMoveTab i j)
  then show ?thesis using g applyMoveTab_wf [of U snap i j] by (simp add: good_def)
next
  case OpDedupe
  show ?thesis
    unfolding OpDedupe runOp.simps
    by (rule wp_mono [OF applyDedupeSessionViews_wp [OF g]]) (use good_False in blast)
next
  case OpCreateTab
  show ?thesis
    unfolding OpCreateTab runOp.simps by (rule wp_mono [OF applyCreateTab_wp [OF g]]) blast
next
  case (OpSetFocused p)
  show ?thesis
    unfolding OpSetFocused runOp.simps by (rule wp_mono [OF applySetFocused_wp [OF g]]) blast
next
  case (OpOpen t)
  show ?thesis
    unfolding OpOpen runOp.simps by (rule wp_mono [OF applyOpenTarget_wp [OF g]]) blast
next
  case (OpOpenDeepLink t)
  show ?thesis
    unfolding OpOpenDeepLink runOp.simps applyOpenDeepLinkTarget_def
    by (rule wp_mono [OF applyOpenTarget_wp [OF g]]) blast
next
  case (OpSplitFocused t d)
  show ?thesis
    unfolding OpSplitFocused runOp.simps by (rule wp_mono [OF applySplitFocused_wp [OF g]]) blast
next
  case (OpSplitPane p t d)
  show ?thesis
    unfolding OpSplitPane runOp.simps by (rule wp_mono [OF applySplitPane_wp [OF g]]) blast
qed (simp_all add: g applySetLayoutMode_wp applyColumnChange_wp applyMoveInColumn_wp applyRenameTab_wp
    applyActivateTab_good applyReplacePaneTarget_wp applySetSplitRatio_wp removal_good
    applyRemoveSessionViews_def applyRemoveNewAgentSessionViews_def applyRemoveWorkspaceViews_def
    applyPruneWorkspaceViews_def)

interpretation wb: stepper runOp "good U" for U
  by unfold_locales (rule runOp_good)

section \<open>A concrete workbench\<close>

text \<open>
  Two tabs: an agent session beside a terminal, and a workspace. It is the input of the
  witnesses below; its identifiers and those of \<open>counter_ids\<close> are disjoint.
\<close>

definition ex_agent :: view_target where
  "ex_agent = TAgentSession ''env'' ''ws'' ''agent1'' None"

definition ex_terminal :: view_target where
  "ex_terminal = TWorkspaceTerminal ''env'' ''ws'' ''term1'' None"

definition ex_view :: "ident \<Rightarrow> view_target \<Rightarrow> view_instance" where
  "ex_view i target = \<lparr>viewId = i, definitionId = definitionIdForTarget target, viewTarget = target\<rparr>"

definition ex_tab1 :: workbench_tab where
  "ex_tab1 = \<lparr>tabId = ''t1'', layout = LSplit ''s1'' SplitRight [LLeaf ''p1'', LLeaf ''p2''] [1/2, 1/2],
     focusedPaneId = ''p1'', panes = [(''p1'', ex_view ''v1'' ex_agent), (''p2'', ex_view ''v2'' ex_terminal)],
     layoutMode = None, columns = None, layoutMemory = None, titleMode = Auto, titleOverride = None\<rparr>"

definition ex_tab2 :: workbench_tab where
  "ex_tab2 = \<lparr>tabId = ''t2'', layout = LLeaf ''p3'', focusedPaneId = ''p3'',
     panes = [(''p3'', ex_view ''v3'' (TWorkspace ''env'' ''ws'' None None None))],
     layoutMode = None, columns = None, layoutMemory = None, titleMode = Auto, titleOverride = None\<rparr>"

definition ex_snap :: snapshot where
  "ex_snap = \<lparr>tabs = [ex_tab1, ex_tab2], activeTabId = ''t1''\<rparr>"

lemma ex_tabs_wf: "wf_tab ex_tab1" "wf_tab ex_tab2"
  by (simp_all add: ex_tab1_def ex_tab2_def wf_tab_def tab_core_def layout_covers_def sizes_ok_def)

lemma ex_occ: "occ ex_snap = {(''t1'', ''p1'', ex_view ''v1'' ex_agent), (''t1'', ''p2'', ex_view ''v2'' ex_terminal),
    (''t2'', ''p3'', ex_view ''v3'' (TWorkspace ''env'' ''ws'' None None None))}"
  by (simp add: occ_def ex_snap_def ex_tab1_def ex_tab2_def tabOcc_def insert_commute)

lemma ex_wf: "wf_snapshot True ex_snap"
proof -
  have "coh True (occ ex_snap)"
    unfolding ex_occ coh_insert
    by (simp add: ex_view_def ex_agent_def ex_terminal_def sameSession_def isSameSessionTarget_def)
  then show ?thesis
    using ex_tabs_wf by (simp add: wf_snapshot_def ex_snap_def) (simp add: ex_tab1_def ex_tab2_def)
qed

lemma ex_good: "good True ex_snap counter_ids"
proof -
  have "tabId ` set (tabs ex_snap) = {''t1'', ''t2''}"
    by (simp add: ex_snap_def ex_tab1_def ex_tab2_def)
  then have "\<forall>x \<in> wbIds ex_snap. hd x \<noteq> CHR 0x23"
    unfolding wbIds_def ex_occ ball_Un by (simp add: ex_view_def)
  then have "fresh counter_ids (wbIds ex_snap)" by (intro counter_ids_fresh) simp
  then show ?thesis using ex_wf by (simp add: good_def)
qed

section \<open>What the workbench guarantees\<close>

lemma emptyWorkbenchSnapshot_wp:
  assumes "fresh s {}"
  shows "wp emptyWorkbenchSnapshot (\<lambda>snap s'. good U snap s' \<and> activeTabId snap = tabId (hd (tabs snap)) \<and>
    length (tabs snap) = 1) s"
  unfolding emptyWorkbenchSnapshot_def wp_bind
proof (rule wp_mono [OF welcomeTab_wp [OF assms]], elim exE conjE)
  fix t s' i p v
  assume t: "t = singleTab i p v" "isWelcome v" "fresh s' ({i, p, viewId v} \<union> {})"
  have "wf_snapshot U \<lparr>tabs = [t], activeTabId = i\<rparr>" "wbIds \<lparr>tabs = [t], activeTabId = i\<rparr> = {i, p, viewId v}"
    by (simp_all add: t(1) wf_snapshot_def occ_def wbIds_def coh_insert insert_commute)
  then show "wp (js_return \<lparr>tabs = [t], activeTabId = tabId t\<rparr>) (\<lambda>snap s'. good U snap s' \<and>
      activeTabId snap = tabId (hd (tabs snap)) \<and> length (tabs snap) = 1) s'"
    using t(1,3) by (simp add: good_def)
qed

text \<open>
  C25: whatever sequence of operations is applied to a new workbench, no operation throws, and
  every snapshot reached is well formed: its tabs have different ids, the active tab exists, each
  tab's layout shows exactly its panes and its focus is one of them, no two panes share an id or a
  view, and no session is shown twice.
\<close>

theorem workbench_safe:
  assumes "fresh s {}"
  shows "\<exists>snap s'. js_bind emptyWorkbenchSnapshot (run_all runOp ops) s = Inr (snap, s') \<and>
    wf_snapshot True snap"
proof -
  have "wp (js_bind emptyWorkbenchSnapshot (run_all runOp ops)) (good True) s"
    unfolding wp_bind by (rule wp_mono [OF emptyWorkbenchSnapshot_wp [OF assms]]) (blast intro: wb.run_inv)
  then show ?thesis unfolding wp_def good_def by blast
qed

theorem workbench_safe_witness:
  "\<exists>snap s'. js_bind emptyWorkbenchSnapshot
     (run_all runOp [OpOpen ex_agent, OpSplitFocused ex_terminal SplitDown, OpSetLayoutMode Scrolling, OpCreateTab,
        OpDrop (FromSidebar ex_agent) (OnNewTab 0), OpRemoveSession ex_terminal]) counter_ids = Inr (snap, s') \<and>
     wf_snapshot True snap"
  by (rule workbench_safe [OF counter_ids_fresh]) simp

text \<open>
  C26: in a workbench reached from a new one, two panes that show the same session are the same
  pane of the same tab, and it is one view.
\<close>

theorem session_shown_once:
  assumes "fresh s {}"
  shows "\<exists>snap s'. js_bind emptyWorkbenchSnapshot (run_all runOp ops) s = Inr (snap, s') \<and>
    (\<forall>t \<in> set (tabs snap). \<forall>u \<in> set (tabs snap). \<forall>(p, v) \<in> set (panes t). \<forall>(q, w) \<in> set (panes u).
       isSameSessionTarget (viewTarget v) (viewTarget w) \<longrightarrow> t = u \<and> p = q \<and> v = w)"
proof -
  have "wp (js_bind emptyWorkbenchSnapshot (run_all runOp ops)) (good True) s"
    unfolding wp_bind by (rule wp_mono [OF emptyWorkbenchSnapshot_wp [OF assms]]) (blast intro: wb.run_inv)
  then obtain snap s' where r: "js_bind emptyWorkbenchSnapshot (run_all runOp ops) s = Inr (snap, s')"
    "wf_snapshot True snap" unfolding wp_def good_def by blast
  have "t = u \<and> p = q \<and> v = w"
    if h: "t \<in> set (tabs snap)" "u \<in> set (tabs snap)" "(p, v) \<in> set (panes t)" "(q, w) \<in> set (panes u)"
      "isSameSessionTarget (viewTarget v) (viewTarget w)" for t u p q v w
  proof -
    have o: "(tabId t, p, v) \<in> occ snap" "(tabId u, q, w) \<in> occ snap" using h by (auto simp: occ_iff)
    have "clash True (tabId t, p, v) (tabId u, q, w)" using h(5) by (simp add: sameSession_def)
    then have "(tabId t, p, v) = (tabId u, q, w)" using r(2) o unfolding wf_snapshot_def coh_def by blast
    then show ?thesis using tabs_eq [OF r(2)] h(1,2) by simp
  qed
  then show ?thesis using r(1) by blast
qed

theorem session_shown_once_witness:
  "\<exists>snap s'. js_bind emptyWorkbenchSnapshot
     (run_all runOp [OpOpen ex_agent, OpCreateTab, OpReplaceTarget ''p'' ex_agent, OpOpen ex_agent]) counter_ids = Inr (snap, s') \<and>
    (\<forall>t \<in> set (tabs snap). \<forall>u \<in> set (tabs snap). \<forall>(p, v) \<in> set (panes t). \<forall>(q, w) \<in> set (panes u).
       isSameSessionTarget (viewTarget v) (viewTarget w) \<longrightarrow> t = u \<and> p = q \<and> v = w)"
  by (rule session_shown_once [OF counter_ids_fresh]) simp



text \<open>
  C40: Opening a session shows it exactly when it was shown before or no open view has its key,
  and while a view with its key is open no view is added, removed or changed. Keys join ids by
  colons, so that two sessions can have one key. Then only the one that is opened first can be
  shown: asking for the other leaves the workbench without it.
\<close>

theorem open_session_exact:
  assumes "good True snap s" and "isSessionViewTarget g"
  shows "\<exists>snap' s'. applyOpenTarget snap g s = Inr (snap', s') \<and>
    ((\<exists>x \<in> occ snap'. isSameSessionTarget (viewTarget (snd (snd x))) g) \<longleftrightarrow>
     (\<exists>x \<in> occ snap. isSameSessionTarget (viewTarget (snd (snd x))) g) \<or>
     (\<forall>x \<in> occ snap. targetKey (viewTarget (snd (snd x))) \<noteq> targetKey g)) \<and>
    ((\<exists>x \<in> occ snap. targetKey (viewTarget (snd (snd x))) = targetKey g) \<longrightarrow> occ snap' = occ snap)"
proof -
  obtain snap' s' where run: "applyOpenTarget snap g s = Inr (snap', s')" and wf: "wf_snapshot True snap'"
    and post: "if key_shown snap g then occ snap' = occ snap \<and> focused_key snap' (targetKey g)
      else \<exists>p v. shown snap' (activeTabId snap') p v \<and> viewTarget v = g"
    using applyOpenTarget_key_wp [OF assms(1), of g] unfolding wp_def good_def by blast
  have "\<exists>x \<in> occ snap'. isSameSessionTarget (viewTarget (snd (snd x))) g"
    if "shown snap' i p v" "viewTarget v = g" for i p v
  proof -
    obtain u where "findTab snap' i = Some u" "map_of (panes u) p = Some v"
      using \<open>shown snap' i p v\<close> by (auto simp: shown_def)
    then have "(tabId u, p, v) \<in> occ snap'"
      by (auto simp: occ_iff dest: findTab_Some map_of_SomeD)
    moreover have "isSameSessionTarget (viewTarget v) g"
      using assms(2) that(2) by (simp add: isSameSessionTarget_refl)
    ultimately show ?thesis by force
  qed
  then show ?thesis using run post unfolding key_shown_def by (auto split: if_splits)
qed

definition ex_colon :: snapshot where
  "ex_colon = \<lparr>tabs = [singleTab ''t1'' ''p1'' (ex_view ''v1'' (TAgentSession ''e'' ''w:x'' ''s'' None))],
     activeTabId = ''t1''\<rparr>"

lemma ex_colon_occ: "occ ex_colon = {(''t1'', ''p1'', ex_view ''v1'' (TAgentSession ''e'' ''w:x'' ''s'' None))}"
  by (simp add: ex_colon_def occ_def)

lemma ex_colon_good: "good True ex_colon counter_ids"
proof -
  have "wf_snapshot True ex_colon"
    unfolding wf_snapshot_def ex_colon_occ by (simp add: ex_colon_def coh_insert)
  moreover have "fresh counter_ids (wbIds ex_colon)"
    unfolding wbIds_def ex_colon_occ
    by (rule counter_ids_fresh) (auto simp: ex_colon_def ex_view_def)
  ultimately show ?thesis by (simp add: good_def)
qed

theorem open_session_exact_witness:
  "\<exists>snap' s'. applyOpenTarget ex_colon (TAgentSession ''e'' ''w'' ''x:s'' None) counter_ids = Inr (snap', s') \<and>
     occ snap' = occ ex_colon \<and>
     (\<forall>x \<in> occ snap'. \<not> isSameSessionTarget (viewTarget (snd (snd x))) (TAgentSession ''e'' ''w'' ''x:s'' None))"
proof -
  let ?g = "TAgentSession ''e'' ''w'' ''x:s'' None"
  have "isSessionViewTarget ?g" by (simp add: isSessionViewTarget_def)
  moreover have "\<forall>x \<in> occ ex_colon. targetKey (viewTarget (snd (snd x))) = targetKey ?g \<and>
      \<not> isSameSessionTarget (viewTarget (snd (snd x))) ?g" and "occ ex_colon \<noteq> {}"
    by (simp_all add: ex_colon_occ ex_view_def isSameSessionTarget_def)
  ultimately show ?thesis using open_session_exact [OF ex_colon_good, of ?g] by blast
qed

text \<open>Splitting a pane for a target never throws and ends with that target focused.\<close>

theorem split_focuses:
  assumes "good True snap s"
  shows "\<exists>snap' s' t v. applySplitPane snap p g d s = Inr (snap', s') \<and> wf_snapshot True snap' \<and>
    findTab snap' (activeTabId snap') = Some t \<and> map_of (panes t) (focusedPaneId t) = Some v \<and>
    targetKey (viewTarget v) = targetKey g"
  using applySplitPane_wp [OF assms, of p g d] unfolding wp_def focused_key_def shown_def good_def by blast

theorem split_focuses_witness:
  "\<exists>snap' s' t v. applySplitPane ex_snap ''p1'' (TProject ''env'' ''x'' None) SplitDown counter_ids = Inr (snap', s') \<and>
    wf_snapshot True snap' \<and> findTab snap' (activeTabId snap') = Some t \<and>
    map_of (panes t) (focusedPaneId t) = Some v \<and> targetKey (viewTarget v) = targetKey (TProject ''env'' ''x'' None)"
  by (rule split_focuses [OF ex_good])

text \<open>
  C28: closing a pane never throws. The result is null exactly when the active tab does not have the
  pane; otherwise the pane is in no tab of the new, well-formed snapshot.
\<close>

theorem closePane_closes:
  assumes "good True snap s"
  shows "\<exists>r s'. applyClosePane snap p s = Inr (r, s') \<and>
    (r = None \<longleftrightarrow> (\<forall>v. (activeTabId snap, p, v) \<notin> occ snap)) \<and>
    (\<forall>snap'. r = Some snap' \<longrightarrow> wf_snapshot True snap' \<and> (\<forall>t v. (t, p, v) \<notin> occ snap'))"
proof -
  obtain r s' where r: "applyClosePane snap p s = Inr (r, s')" "case r of
       None \<Rightarrow> good True snap s' \<and> pane_free p {x \<in> occ snap. fst x = activeTabId snap}
     | Some snap' \<Rightarrow> good True snap' s' \<and> pane_free p (occ snap')"
    using applyClosePane_wp [OF assms, of p] unfolding wp_def by blast
  obtain t where t: "getActiveTab snap = Inr t" "t \<in> set (tabs snap)" "tabId t = activeTabId snap"
    using getActiveTab_ok [OF good_wf [OF assms]] by metis
  have "\<exists>v. (activeTabId snap, p, v) \<in> occ snap" if "r \<noteq> None"
  proof (rule ccontr)
    assume "\<not> ?thesis"
    then have "(p, v) \<notin> set (panes t)" for v using t(2,3) by (auto simp: occ_iff)
    then have "map_of (panes t) p = None" using map_of_SomeD [of "panes t" p] by (cases "map_of (panes t) p") blast+
    then show False using r(1) that t(1) by (simp add: applyClosePane_def js_simps)
  qed
  then show ?thesis using r by (cases r) (auto simp: pane_free_def good_def)
qed

theorem closePane_closes_witness:
  "\<exists>r s'. applyClosePane ex_snap ''p2'' counter_ids = Inr (r, s') \<and>
    (r = None \<longleftrightarrow> (\<forall>v. (activeTabId ex_snap, ''p2'', v) \<notin> occ ex_snap)) \<and>
    (\<forall>snap'. r = Some snap' \<longrightarrow> wf_snapshot True snap' \<and> (\<forall>t v. (t, ''p2'', v) \<notin> occ snap'))"
  by (rule closePane_closes [OF ex_good])

text \<open>
  C29: a drop never throws. When it is refused the result is null; otherwise the new snapshot is well
  formed and the pane it reports holds what was dragged: for a pane, the same view with its id, for
  a tab, a view of that tab, and for a sidebar entry, a view of its target.
\<close>

theorem viewDrop_lands:
  assumes "good True snap s"
  shows "\<exists>r s'. applyViewDrop snap source target s = Inr (r, s') \<and>
    (\<forall>d. r = Some d \<longrightarrow> wf_snapshot True (dropSnapshot d) \<and>
       (\<exists>v. (dropTabId d, dropPaneId d, v) \<in> occ (dropSnapshot d) \<and>
          (case source of
             FromSidebar g \<Rightarrow> targetKey (viewTarget v) = targetKey g
           | FromPane st sp \<Rightarrow> (st, sp, v) \<in> occ snap
           | FromTab st \<Rightarrow> (\<exists>q. (st, q, v) \<in> occ snap))))"
proof -
  obtain r s' where "applyViewDrop snap source target s = Inr (r, s')" "drop_ok True snap (draggedView snap source) r s'"
    using applyViewDrop_wp [OF assms, of source target] unfolding wp_def by blast
  then show ?thesis
    unfolding drop_ok_def draggedView_def good_def by (cases r) auto
qed

theorem viewDrop_lands_witness:
  "\<exists>r s'. applyViewDrop ex_snap (FromPane ''t1'' ''p2'') (OnPane ''t2'' ''p3'' (Edge ETop)) counter_ids = Inr (r, s') \<and>
    (\<forall>d. r = Some d \<longrightarrow> wf_snapshot True (dropSnapshot d) \<and>
       (\<exists>v. (dropTabId d, dropPaneId d, v) \<in> occ (dropSnapshot d) \<and>
          (case FromPane ''t1'' ''p2'' of
             FromSidebar g \<Rightarrow> targetKey (viewTarget v) = targetKey g
           | FromPane st sp \<Rightarrow> (st, sp, v) \<in> occ ex_snap
           | FromTab st \<Rightarrow> (\<exists>q. (st, q, v) \<in> occ ex_snap))))"
  by (rule viewDrop_lands [OF ex_good])

text \<open>
  C30: removing a closed session never throws, leaves no view of it, keeps every other view in its
  pane and tab, and adds nothing but welcome views; the workbench is never without a tab.
\<close>

theorem removeSession_exact:
  assumes "good True snap s"
  shows "\<exists>snap' s'. applyRemoveSessionViews snap g s = Inr (snap', s') \<and> wf_snapshot True snap' \<and> tabs snap' \<noteq> [] \<and>
    (\<forall>t p v. (t, p, v) \<in> occ snap \<longrightarrow> \<not> isSameSessionTarget (viewTarget v) g \<longrightarrow> (t, p, v) \<in> occ snap') \<and>
    (\<forall>t p v. (t, p, v) \<in> occ snap' \<longrightarrow> \<not> isSameSessionTarget (viewTarget v) g \<and>
       ((t, p, v) \<in> occ snap \<or> isWelcome v))"
proof -
  obtain snap' s' where r: "applyRemoveSessionViews snap g s = Inr (snap', s')" "good True snap' s'"
    "remains snap (shows_match (\<lambda>c. isSameSessionTarget c g)) snap'"
    using applyRemoveMatchingViews_wp [OF assms, of "\<lambda>c. isSameSessionTarget c g" CloseEmptied]
    unfolding wp_def applyRemoveSessionViews_def by blast
  have w: "\<not> isSameSessionTarget (viewTarget v) g" if "isWelcome v" for v
    using that by (cases "viewTarget v") (auto simp: isSameSessionTarget_def)
  have "tabs snap' \<noteq> []" using good_wf [OF r(2)] by (auto simp: wf_snapshot_def)
  then show ?thesis
    using r w by (intro exI [of _ snap'] exI [of _ s']) (fastforce simp: remains_def good_def)
qed

theorem removeSession_exact_witness:
  "\<exists>snap' s'. applyRemoveSessionViews ex_snap ex_agent counter_ids = Inr (snap', s') \<and>
    wf_snapshot True snap' \<and> tabs snap' \<noteq> [] \<and>
    (\<forall>t p v. (t, p, v) \<in> occ ex_snap \<longrightarrow> \<not> isSameSessionTarget (viewTarget v) ex_agent \<longrightarrow> (t, p, v) \<in> occ snap') \<and>
    (\<forall>t p v. (t, p, v) \<in> occ snap' \<longrightarrow> \<not> isSameSessionTarget (viewTarget v) ex_agent \<and>
       ((t, p, v) \<in> occ ex_snap \<or> isWelcome v))"
  by (rule removeSession_exact [OF ex_good])



text \<open>
  The workspace that a target belongs to, if it belongs to one, and when its views have to go: the
  environment was observed and names no workspace of that key any more.
\<close>

fun workspaceOf :: "view_target \<Rightarrow> (ident \<times> ident) option" where
  "workspaceOf (TWorkspace e w _ _ _) = Some (e, w)"
| "workspaceOf (TAgentSession e w _ _) = Some (e, w)"
| "workspaceOf (TNewAgentSession e w _ _) = Some (e, w)"
| "workspaceOf (TWorkspaceTerminal e w _ _) = Some (e, w)"
| "workspaceOf (TProject _ _ _) = None"
| "workspaceOf (TWelcome _) = None"

definition orphaned :: "(ident \<times> ident) list \<Rightarrow> ident list \<Rightarrow> view_instance \<Rightarrow> bool" where
  "orphaned known observed v \<longleftrightarrow> (\<exists>e w. workspaceOf (viewTarget v) = Some (e, w) \<and>
     e \<in> set observed \<and> (\<nexists>e' w'. (e', w') \<in> set known \<and> e' @ '':'' @ w' = e @ '':'' @ w))"

lemma known_key:
  "workspaceKey e w \<in> set (map (\<lambda>(e, w). workspaceKey e w) known) \<longleftrightarrow>
     (\<exists>e' w'. (e', w') \<in> set known \<and> e' @ '':'' @ w' = e @ '':'' @ w)"
  by (force simp: workspaceKey_def)

lemma isPruned_orphaned: "isPruned known observed (viewTarget v) \<longleftrightarrow> orphaned known observed v"
  by (cases "viewTarget v")
    (simp_all add: isPruned_def orphaned_def known_key Let_def del: set_map)

text \<open>
  C32: pruning removes exactly the orphaned views: those of a workspace, agent session, new agent
  session or workspace terminal in an observed environment that has no known workspace of this key
  (the ids joined by a colon). Views of environments that were not observed, of projects and
  Welcome stay. What takes the place of a removed view is Welcome, every tab stays, and when no view
  is orphaned the snapshot is returned as it is and no identifier is drawn.
\<close>

theorem prune_exact:
  assumes "good True snap s"
  shows "\<exists>snap' s'. applyPruneWorkspaceViews snap known observed s = Inr (snap', s') \<and> wf_snapshot True snap' \<and>
    map tabId (tabs snap') = map tabId (tabs snap) \<and>
    (\<forall>x \<in> occ snap. x \<in> occ snap' \<longleftrightarrow> \<not> orphaned known observed (snd (snd x))) \<and>
    (\<forall>x \<in> occ snap' - occ snap. isWelcome (snd (snd x))) \<and>
    ((\<forall>x \<in> occ snap. \<not> orphaned known observed (snd (snd x))) \<longrightarrow> snap' = snap \<and> s' = s)"
proof -
  obtain snap' s' where r: "applyPruneWorkspaceViews snap known observed s = Inr (snap', s')" "good True snap' s'"
    "remains snap (shows_match (isPruned known observed)) snap'" "map tabId (tabs snap') = map tabId (tabs snap)"
    using applyRemoveMatchingViews_wp [OF assms, of "isPruned known observed" RecoverWelcome]
    unfolding wp_def applyPruneWorkspaceViews_def by blast
  have "x \<in> occ snap' \<longleftrightarrow> \<not> orphaned known observed (snd (snd x))" if "x \<in> occ snap" for x
    using r(3) that unfolding remains_def wbIds_def isPruned_orphaned [symmetric]
    by (cases x) (use in_occIds in fastforce)
  moreover have "isWelcome (snd (snd x))" if "x \<in> occ snap' - occ snap" for x
    using r(3) that unfolding remains_def by blast
  moreover have "snap' = snap \<and> s' = s" if "\<forall>x \<in> occ snap. \<not> orphaned known observed (snd (snd x))"
    using removals_none [of snap "isPruned known observed" RecoverWelcome] that r(1)
    by (simp add: applyPruneWorkspaceViews_def js_return_def isPruned_orphaned)
  ultimately show ?thesis using r(1,4) good_wf [OF r(2)] by blast
qed

theorem prune_exact_witness:
  "\<exists>snap' s'. applyPruneWorkspaceViews ex_snap [(''env'', ''other'')] [''env''] counter_ids = Inr (snap', s') \<and>
    wf_snapshot True snap' \<and> map tabId (tabs snap') = map tabId (tabs ex_snap) \<and>
    (\<forall>x \<in> occ ex_snap. x \<in> occ snap' \<longleftrightarrow> \<not> orphaned [(''env'', ''other'')] [''env''] (snd (snd x))) \<and>
    (\<forall>x \<in> occ snap' - occ ex_snap. isWelcome (snd (snd x))) \<and>
    ((\<forall>x \<in> occ ex_snap. \<not> orphaned [(''env'', ''other'')] [''env''] (snd (snd x))) \<longrightarrow>
       snap' = ex_snap \<and> s' = counter_ids)"
  by (rule prune_exact [OF ex_good])

text \<open>
  Closing the active tab activates the tab that takes its place, or the last one when there is
  none; a workbench with one tab keeps it.
\<close>

theorem closeTab_neighbour:
  assumes "wf_snapshot True snap" and "tabs snap = before @ t # after" and "activeTabId snap = tabId t"
  shows "\<exists>snap'. applyCloseTab snap (tabId t) = Inr snap' \<and> wf_snapshot True snap' \<and>
    (if before @ after = [] then snap' = snap
     else tabs snap' = before @ after \<and>
       activeTabId snap' = tabId (if after = [] then last before else hd after))"
proof -
  obtain snap' where r: "applyCloseTab snap (tabId t) = Inr snap'" "wf_snapshot True snap'"
    by (rule applyCloseTab_ok [OF assms(1), of "tabId t"])
  have d: "distinct (map tabId (before @ t # after))" using assms(1,2) by (simp add: wf_snapshot_def)
  then have "tabId t \<notin> tabId ` set before" "tabId t \<notin> tabId ` set after" by simp_all
  then have "\<forall>u \<in> set before. tabId u \<noteq> tabId t" "\<forall>u \<in> set after. tabId u \<noteq> tabId t"
    by (metis imageI)+
  then have f: "filter (\<lambda>u. tabId u \<noteq> tabId t) (tabs snap) = before @ after"
    by (simp add: assms(2))
  have "findIndex (\<lambda>u. tabId u = tabId t) (bs @ t # as) = Some (length bs)" if "tabId t \<notin> tabId ` set bs" for bs as
    using that by (induction bs) auto
  then have i: "findIndex (\<lambda>u. tabId u = tabId t) (tabs snap) = Some (length before)"
    using d unfolding assms(2) by simp
  have n: "(before @ after) ! min (length before) (length (before @ after) - 1) =
      (if after = [] then last before else hd after)" if "before @ after \<noteq> []"
    using that by (cases after) (simp_all add: nth_append last_conv_nth)
  show ?thesis
  proof (cases "before @ after = []")
    case True
    then have "applyCloseTab snap (tabId t) = Inr snap" by (simp add: applyCloseTab_def assms(2))
    then show ?thesis using r True by simp
  next
    case False
    then have "\<not> length (tabs snap) \<le> 1" by (auto simp: assms(2) Suc_le_eq)
    then have "applyCloseTab snap (tabId t) = Inr (snap\<lparr>tabs := before @ after,
        activeTabId := tabId ((before @ after) ! min (length before) (length (before @ after) - 1))\<rparr>)"
      using False unfolding applyCloseTab_def f i Let_def activeTabIdAfterClose_def assms(3) by simp
    then show ?thesis using r False unfolding n [OF False] by auto
  qed
qed

theorem closeTab_neighbour_witness:
  "\<exists>snap'. applyCloseTab ex_snap (tabId ex_tab1) = Inr snap' \<and> wf_snapshot True snap' \<and>
    (if [] @ [ex_tab2] = [] then snap' = ex_snap
     else tabs snap' = [] @ [ex_tab2] \<and> activeTabId snap' = tabId (if [ex_tab2] = [] then last [] else hd [ex_tab2]))"
  by (rule closeTab_neighbour [OF ex_wf]) (simp_all add: ex_snap_def ex_tab1_def)

text \<open>
  C33: switching the active tab from the split tree to columns and back restores the tree: the tab
  differs at most in its remembered arrangements, and no other tab changes.
\<close>

theorem layoutMode_roundtrip_bsp:
  assumes "good True snap s" and "findTab snap (activeTabId snap) = Some t" and "layoutMode t \<noteq> Some Scrolling"
  shows "\<exists>cs mem s'. js_bind (applySetLayoutMode snap Scrolling) (\<lambda>snap1. applySetLayoutMode snap1 Bsp) s =
    Inr (replaceTab snap (t\<lparr>layoutMode := Some Bsp, columns := cs, layoutMemory := mem\<rparr>), s')"
proof -
  have t: "t \<in> set (tabs snap)" "getActiveTab snap = Inr t" "tabId t = activeTabId snap"
    using assms(2) findTab_Some [OF assms(2)] by (auto simp: getActiveTab_def)
  show ?thesis using bsp_roundtrip [OF assms(1) t assms(3)] unfolding wp_def by blast
qed

theorem layoutMode_roundtrip_bsp_witness:
  "\<exists>cs mem s'. js_bind (applySetLayoutMode ex_snap Scrolling) (\<lambda>snap1. applySetLayoutMode snap1 Bsp) counter_ids =
    Inr (replaceTab ex_snap (ex_tab1\<lparr>layoutMode := Some Bsp, columns := cs, layoutMemory := mem\<rparr>), s')"
  by (rule layoutMode_roundtrip_bsp [OF ex_good]) (simp_all add: findTab_def ex_snap_def ex_tab1_def)

text \<open>
  Switching the active tab from columns to the split tree and back restores the columns: their
  ids, panes, widths and shares.
\<close>

theorem layoutMode_roundtrip_scrolling:
  assumes "good True snap s" and "findTab snap (activeTabId snap) = Some t" and "layoutMode t = Some Scrolling"
  shows "\<exists>mem s'. js_bind (applySetLayoutMode snap Bsp) (\<lambda>snap1. applySetLayoutMode snap1 Scrolling) s =
    Inr (replaceTab snap (t\<lparr>layoutMemory := mem\<rparr>), s')"
proof -
  have t: "t \<in> set (tabs snap)" "getActiveTab snap = Inr t" "tabId t = activeTabId snap"
    using assms(2) findTab_Some [OF assms(2)] by (auto simp: getActiveTab_def)
  show ?thesis using scrolling_roundtrip [OF assms(1) t assms(3)] unfolding wp_def by blast
qed

definition ex_columns :: "column list" where
  "ex_columns = [\<lparr>columnId = ''c1'', columnWidth = 600, paneIds = [''p1'', ''p2''], shares = [1/4, 3/4]\<rparr>]"

definition ex_scrolling :: workbench_tab where
  "ex_scrolling = ex_tab1\<lparr>layoutMode := Some Scrolling, columns := Some ex_columns, layout := columnsTree ex_columns\<rparr>"

lemma ex_scrolling_good: "good True (replaceTab ex_snap ex_scrolling) counter_ids"
proof -
  have o: "tabOcc ex_scrolling = tabOcc ex_tab1" "tabId ex_scrolling = tabId ex_tab1"
    by (simp_all add: ex_scrolling_def tabOcc_def)
  have t: "ex_tab1 \<in> set (tabs ex_snap)" by (simp add: ex_snap_def)
  then have i: "tabId ex_scrolling \<in> tabId ` set (tabs ex_snap)" by (simp add: o)
  have "cols_ok ex_columns"
    by (simp add: ex_columns_def cols_ok_def col_ok_def col_pos_def sizes_ok_def colIds_def
        MIN_COLUMN_WIDTH_def MAX_COLUMN_WIDTH_def)
  then have "wf_tab ex_scrolling"
    using ex_tabs_wf(1) columnsTree_spec [of ex_columns]
    by (simp add: wf_tab_def ex_scrolling_def tab_core_def layout_covers_def cols_ok_def)
      (simp add: ex_columns_def colIds_def ex_tab1_def)
  then have "wf_snapshot True (replaceTab ex_snap ex_scrolling)"
    using wf_replaceTab [OF ex_wf i] occ_of_tab [OF ex_wf t] by (simp add: o)
  moreover have "wbIds (replaceTab ex_snap ex_scrolling) \<subseteq> wbIds ex_snap"
    using wbIds_replaceTab [OF i] occIds_tab [OF t] by (auto simp: o)
  ultimately show ?thesis using good_fresh [OF ex_good] fresh_antimono by (auto simp: good_def)
qed

theorem layoutMode_roundtrip_scrolling_witness:
  "\<exists>mem s'. js_bind (applySetLayoutMode (replaceTab ex_snap ex_scrolling) Bsp)
       (\<lambda>snap1. applySetLayoutMode snap1 Scrolling) counter_ids =
    Inr (replaceTab (replaceTab ex_snap ex_scrolling) (ex_scrolling\<lparr>layoutMemory := mem\<rparr>), s')"
  by (rule layoutMode_roundtrip_scrolling [OF ex_scrolling_good])
    (simp_all add: findTab_def replaceTab_def ex_snap_def ex_tab1_def ex_tab2_def ex_scrolling_def)

end
