(* ===== verification/JsString.thy ===== *)
theory JsString
  imports Prelude
begin

text \<open>
  The parts of the JavaScript string and array library that the orchestration code uses.
  Strings are lists of 8-bit characters, read as the Latin-1 code units U+0000 to U+00FF;
  on these the case mapping and the white space of \<open>trim\<close> are the ones of the standard.
\<close>

section \<open>Strings\<close>

definition startsWith :: "string \<Rightarrow> string \<Rightarrow> bool" where
  "startsWith s p \<longleftrightarrow> take (length p) s = p"

definition endsWith :: "string \<Rightarrow> string \<Rightarrow> bool" where
  "endsWith s p \<longleftrightarrow> length p \<le> length s \<and> drop (length s - length p) s = p"

fun js_includes :: "string \<Rightarrow> string \<Rightarrow> bool" where
  "js_includes [] p \<longleftrightarrow> p = []"
| "js_includes (c # s) p \<longleftrightarrow> startsWith (c # s) p \<or> js_includes s p"

text \<open>A to Z and the accented capitals U+00C0 to U+00DE, but not the multiplication sign.\<close>

definition lower_char :: "char \<Rightarrow> char" where
  "lower_char c =
     (let n = of_char c :: nat in
      if (65 \<le> n \<and> n \<le> 90) \<or> (192 \<le> n \<and> n \<le> 222 \<and> n \<noteq> 215) then char_of (n + 32) else c)"

definition toLowerCase :: "string \<Rightarrow> string" where
  "toLowerCase s = map lower_char s"

definition js_space :: "char \<Rightarrow> bool" where
  "js_space c \<longleftrightarrow> (let n = of_char c :: nat in (9 \<le> n \<and> n \<le> 13) \<or> n = 32 \<or> n = 160)"

definition strip :: "(char \<Rightarrow> bool) \<Rightarrow> string \<Rightarrow> string" where
  "strip P s = rev (dropWhile P (rev s))"

definition js_trim :: "string \<Rightarrow> string" where
  "js_trim s = strip js_space (dropWhile js_space s)"

fun splitOn :: "char \<Rightarrow> string \<Rightarrow> string list" where
  "splitOn d [] = [[]]"
| "splitOn d (c # s) =
     (if c = d then [] # splitOn d s
      else case splitOn d s of [] \<Rightarrow> [[c]] | p # ps \<Rightarrow> (c # p) # ps)"

fun joinWith :: "string \<Rightarrow> string list \<Rightarrow> string" where
  "joinWith d [] = []"
| "joinWith d [p] = p"
| "joinWith d (p # q # ps) = p @ d @ joinWith d (q # ps)"

definition is_digit :: "char \<Rightarrow> bool" where
  "is_digit c \<longleftrightarrow> (let n = of_char c :: nat in 48 \<le> n \<and> n \<le> 57)"

definition digit_value :: "char \<Rightarrow> nat" where
  "digit_value c = of_char c - 48"

definition digits_value :: "string \<Rightarrow> nat" where
  "digits_value s = foldl (\<lambda>n c. 10 * n + digit_value c) 0 s"

text \<open>The decimal numeral a template literal writes for a natural number.\<close>

fun decimal :: "nat \<Rightarrow> string" where
  "decimal n = (if n < 10 then [char_of (48 + n)] else decimal (n div 10) @ [char_of (48 + n mod 10)])"

declare decimal.simps [simp del]

definition is_lower_alnum :: "char \<Rightarrow> bool" where
  "is_lower_alnum c \<longleftrightarrow> (let n = of_char c :: nat in 97 \<le> n \<and> n \<le> 122) \<or> is_digit c"

definition is_letter :: "char \<Rightarrow> bool" where
  "is_letter c \<longleftrightarrow> (let n = of_char c :: nat in (97 \<le> n \<and> n \<le> 122) \<or> (65 \<le> n \<and> n \<le> 90))"

text \<open>The order \<open><\<close> of strings compares code units.\<close>

fun string_less :: "string \<Rightarrow> string \<Rightarrow> bool" where
  "string_less s [] \<longleftrightarrow> False"
| "string_less [] (d # t) \<longleftrightarrow> True"
| "string_less (c # s) (d # t) \<longleftrightarrow>
     (of_char c :: nat) < of_char d \<or> (c = d \<and> string_less s t)"

lemma splitOn_nonempty [simp]: "splitOn d s \<noteq> []"
  by (induction s) (auto split: list.splits)

lemma joinWith_splitOn: "joinWith [d] (splitOn d s) = s"
proof (induction s)
  case (Cons c s)
  have "joinWith [d] ((c # p) # ps) = c # joinWith [d] (p # ps)" for p ps
    by (cases ps) auto
  with Cons show ?case by (cases "splitOn d s") auto
qed simp

lemma splitOn_no_sep: "p \<in> set (splitOn d s) \<Longrightarrow> d \<notin> set p"
proof (induction s arbitrary: p)
  case (Cons c s)
  then show ?case by (auto split: if_splits list.splits)
qed simp

lemma splitOn_plain: "d \<notin> set p \<Longrightarrow> splitOn d p = [p]"
  by (induction p) auto

lemma splitOn_append: "d \<notin> set p \<Longrightarrow> splitOn d (p @ d # s) = p # splitOn d s"
  by (induction p) auto

lemma splitOn_joinWith:
  "ps \<noteq> [] \<Longrightarrow> (\<And>p. p \<in> set ps \<Longrightarrow> d \<notin> set p) \<Longrightarrow> splitOn d (joinWith [d] ps) = ps"
  by (induction "[d]" ps rule: joinWith.induct) (simp_all add: splitOn_plain splitOn_append)

lemma is_digit_char_of [simp]: "n < 10 \<Longrightarrow> is_digit (char_of (48 + n :: nat))"
  by (simp add: is_digit_def)

lemma digit_value_char_of [simp]: "n < 10 \<Longrightarrow> digit_value (char_of (48 + n :: nat)) = n"
  by (simp add: digit_value_def)

lemma decimal_digits: "\<forall>c \<in> set (decimal n). is_digit c"
proof (induction n rule: decimal.induct)
  case (1 n)
  then show ?case by (subst decimal.simps) auto
qed

lemma decimal_nonempty [simp]: "decimal n \<noteq> []"
  by (subst decimal.simps) simp

lemma digits_value_decimal [simp]: "digits_value (decimal n) = n"
proof (induction n rule: decimal.induct)
  case (1 n)
  show ?case
  proof (cases "n < 10")
    case True
    then show ?thesis by (subst decimal.simps) (simp add: digits_value_def)
  next
    case False
    with 1 show ?thesis by (subst decimal.simps) (simp add: digits_value_def)
  qed
qed

lemma decimal_inject: "decimal m = decimal n \<longleftrightarrow> m = n"
  by (metis digits_value_decimal)

lemma no_slash_decimal: "CHR ''/'' \<notin> set (decimal n)"
proof
  assume "CHR ''/'' \<in> set (decimal n)"
  then have "is_digit CHR ''/''" using decimal_digits by blast
  then show False by (simp add: is_digit_def)
qed

lemma lower_char_idem [simp]: "lower_char (lower_char c) = lower_char c"
proof (cases "(65 \<le> (of_char c :: nat) \<and> (of_char c :: nat) \<le> 90) \<or>
    (192 \<le> (of_char c :: nat) \<and> (of_char c :: nat) \<le> 222 \<and> (of_char c :: nat) \<noteq> 215)")
  case True
  then have "(of_char c :: nat) + 32 < 256" by auto
  then have "(of_char (char_of (of_char c + 32 :: nat)) :: nat) = of_char c + 32" by simp
  with True show ?thesis by (auto simp: lower_char_def Let_def)
qed (auto simp: lower_char_def Let_def)

lemma toLowerCase_idem [simp]: "toLowerCase (toLowerCase s) = toLowerCase s"
  by (simp add: toLowerCase_def)

lemma toLowerCase_append: "toLowerCase (s @ t) = toLowerCase s @ toLowerCase t"
  by (simp add: toLowerCase_def)

section \<open>Sorting\<close>

text \<open>
  \<open>toSorted\<close> is stable; for a comparator that is a total preorder every stable sort gives
  the same array, so insertion sort stands for the engine's algorithm.
\<close>

fun insertBy :: "('a \<Rightarrow> 'a \<Rightarrow> int) \<Rightarrow> 'a \<Rightarrow> 'a list \<Rightarrow> 'a list" where
  "insertBy cmp x [] = [x]"
| "insertBy cmp x (y # ys) = (if cmp x y \<le> 0 then x # y # ys else y # insertBy cmp x ys)"

definition toSorted :: "('a \<Rightarrow> 'a \<Rightarrow> int) \<Rightarrow> 'a list \<Rightarrow> 'a list" where
  "toSorted cmp xs = foldr (insertBy cmp) xs []"

text \<open>\<open>slice(-n)\<close>: the last \<open>n\<close> elements.\<close>

definition takeLast :: "nat \<Rightarrow> 'a list \<Rightarrow> 'a list" where
  "takeLast n xs = drop (length xs - n) xs"

lemma mset_insertBy [simp]: "mset (insertBy cmp x ys) = add_mset x (mset ys)"
  by (induction ys) auto

lemma toSorted_Cons: "toSorted cmp (x # xs) = insertBy cmp x (toSorted cmp xs)"
  by (simp add: toSorted_def)

lemma mset_toSorted [simp]: "mset (toSorted cmp xs) = mset xs"
  by (induction xs) (simp_all add: toSorted_def)

lemma set_toSorted [simp]: "set (toSorted cmp xs) = set xs"
  by (metis mset_toSorted set_mset_mset)

lemma length_toSorted [simp]: "length (toSorted cmp xs) = length xs"
  by (metis mset_toSorted size_mset)

lemma distinct_map_toSorted [simp]:
  "distinct (map f (toSorted cmp xs)) \<longleftrightarrow> distinct (map f xs)"
  by (metis mset_eq_imp_distinct_iff mset_map mset_toSorted)

lemma length_takeLast [simp]: "length (takeLast n xs) = min n (length xs)"
  by (simp add: takeLast_def)

lemma set_takeLast: "set (takeLast n xs) \<subseteq> set xs"
  by (simp add: takeLast_def set_drop_subset)

lemma distinct_map_takeLast: "distinct (map f xs) \<Longrightarrow> distinct (map f (takeLast n xs))"
  by (simp add: takeLast_def drop_map flip: drop_map)

lemma takeLast_all [simp]: "length xs \<le> n \<Longrightarrow> takeLast n xs = xs"
  by (simp add: takeLast_def)

text \<open>The contract of a comparator: its sign is a total preorder.\<close>

locale comparator =
  fixes cmp :: "'a \<Rightarrow> 'a \<Rightarrow> int"
  assumes total: "cmp x y \<le> 0 \<or> cmp y x \<le> 0"
    and trans: "cmp x y \<le> 0 \<Longrightarrow> cmp y z \<le> 0 \<Longrightarrow> cmp x z \<le> 0"
begin

abbreviation leq :: "'a \<Rightarrow> 'a \<Rightarrow> bool" where
  "leq x y \<equiv> cmp x y \<le> 0"

lemma insertBy_sorted: "sorted_wrt leq ys \<Longrightarrow> sorted_wrt leq (insertBy cmp x ys)"
proof (induction ys)
  case (Cons y ys)
  have "set (insertBy cmp x ys) = insert x (set ys)"
    by (metis mset_insertBy set_mset_add_mset_insert set_mset_mset)
  with Cons total [of x y] show ?case by (auto intro: trans)
qed simp

lemma sorted: "sorted_wrt leq (toSorted cmp xs)"
  by (induction xs) (simp_all add: toSorted_def insertBy_sorted)

lemma sorted_id: "sorted_wrt leq xs \<Longrightarrow> toSorted cmp xs = xs"
proof (induction xs)
  case (Cons x xs)
  then show ?case by (cases xs) (simp_all add: toSorted_Cons)
qed (simp add: toSorted_def)

lemma takeLast_sorted: "sorted_wrt leq xs \<Longrightarrow> sorted_wrt leq (takeLast n xs)"
  unfolding takeLast_def by (metis append_take_drop_id sorted_wrt_append)

lemma filter_sorted: "sorted_wrt leq xs \<Longrightarrow> sorted_wrt leq (filter P xs)"
  by (rule sorted_wrt_filter)

end

lemma comparator_key: "comparator (\<lambda>x y. f x - f y :: int)"
  by unfold_locales auto

end
