(* ===== verification/Json.thy ===== *)
theory Json
  imports JsString
begin

text \<open>
  JSON values, as the code meets them in \<open>unknown\<close> payloads and in stored documents. An
  object lists its members with pairwise different names. Values that the program only
  passes on (model selections, attachments, answers) are JSON values here as well.
\<close>

datatype json =
    JNull
  | JBool bool
  | JNum rat
  | JStr string
  | JArr "json list"
  | JObj "(string \<times> json) list"

text \<open>\<open>typeof v === "object" && v !== null\<close>.\<close>

fun is_object :: "json \<Rightarrow> bool" where
  "is_object (JArr vs) = True"
| "is_object (JObj ms) = True"
| "is_object v = False"

text \<open>
  Reading the property \<open>k\<close> of an object, None for \<open>undefined\<close>. The names read by the code
  are not properties of arrays.
\<close>

fun member :: "string \<Rightarrow> json \<Rightarrow> json option" where
  "member k (JObj ms) = map_of ms k"
| "member k v = None"

text \<open>\<open>typeof v[k] === "string" ? v[k] : null\<close>.\<close>

definition string_member :: "string \<Rightarrow> json \<Rightarrow> string option" where
  "string_member k v = (case member k v of Some (JStr s) \<Rightarrow> Some s | _ \<Rightarrow> None)"

lemma string_member_JObj [simp]:
  "string_member k (JObj ms) = (case map_of ms k of Some (JStr s) \<Rightarrow> Some s | _ \<Rightarrow> None)"
  by (simp add: string_member_def)

lemma string_member_SomeD: "string_member k v = Some s \<Longrightarrow> member k v = Some (JStr s)"
  by (auto simp: string_member_def split: option.splits json.splits)

end
