(* ===== verification/WorkbenchPersistence.thy ===== *)
theory WorkbenchPersistence
  imports WorkbenchReach Json
begin

text \<open>
  The stored workbench (\<open>apps/web/src/workbench/workbenchPersistence.ts\<close>): what is written of a
  snapshot, how a stored document is read leniently, and the storage with its backup. A document
  is the JSON value that \<open>JSON.parse\<close> gives for the stored text; text that does not parse is kept
  as it is. Properties that are \<open>undefined\<close> are absent from the document, as
  \<open>JSON.stringify\<close> leaves them out. A predicate of the code on an unknown value, which the code then
  uses as the type it tested for, is here the partial function that reads that type.
\<close>

section \<open>Values\<close>

definition stringOf :: "json \<Rightarrow> string option" where
  "stringOf v = (case v of JStr s \<Rightarrow> Some s | _ \<Rightarrow> None)"

definition numberOf :: "json \<Rightarrow> rat option" where
  "numberOf v = (case v of JNum r \<Rightarrow> Some r | _ \<Rightarrow> None)"

definition arrayOf :: "json \<Rightarrow> json list option" where
  "arrayOf v = (case v of JArr vs \<Rightarrow> Some vs | _ \<Rightarrow> None)"

definition isRecord :: "json \<Rightarrow> bool" where
  "isRecord v = (case v of JObj _ \<Rightarrow> True | _ \<Rightarrow> False)"

definition array_member :: "string \<Rightarrow> json \<Rightarrow> json list option" where
  "array_member k v = Option.bind (member k v) arrayOf"

text \<open>All or nothing: \<open>values.every(read)\<close>.\<close>

abbreviation those_of :: "('a \<Rightarrow> 'b option) \<Rightarrow> 'a list \<Rightarrow> 'b list option" where
  "those_of f xs \<equiv> those (map f xs)"

lemma those_of_map: "(\<And>x. x \<in> set xs \<Longrightarrow> f (g x) = Some x) \<Longrightarrow> those_of f (map g xs) = Some xs"
  by (induction xs) auto

lemma those_of_length: "those_of f xs = Some ys \<Longrightarrow> length ys = length xs"
  by (induction xs arbitrary: ys) (auto split: option.splits)

lemma those_of_set: "those_of f xs = Some ys \<Longrightarrow> y \<in> set ys \<Longrightarrow> \<exists>x \<in> set xs. f x = Some y"
  by (induction xs arbitrary: ys) (auto split: option.splits)

definition positiveNumber :: "json \<Rightarrow> rat option" where
  "positiveNumber v = (case numberOf v of Some r \<Rightarrow> if 0 < r then Some r else None | None \<Rightarrow> None)"

section \<open>Reading\<close>

lemma size_member: "member k v = Some w \<Longrightarrow> size w < size v"
proof (induction k v rule: member.induct)
  case (1 k ms)
  then have "(k, w) \<in> set ms" by (simp add: map_of_SomeD)
  then have "size w < size_list (size_prod (\<lambda>_. 0) size) ms + 1"
    using size_list_estimation' [of "(k, w)" ms "size w" "size_prod (\<lambda>_. 0) size"] by simp
  then show ?case by simp
qed simp_all

lemma size_array_member: "Some vs = array_member k v \<Longrightarrow> w \<in> set vs \<Longrightarrow> size w < size v"
proof -
  assume "Some vs = array_member k v" and w: "w \<in> set vs"
  then have "member k v = Some (JArr vs)"
    by (cases "member k v") (auto simp: array_member_def arrayOf_def split: json.splits)
  from size_member [OF this] have "size_list size vs + 1 < size v" by simp
  moreover have "size w \<le> size_list size vs" using size_list_estimation' [OF w, of "size w" size] by simp
  ultimately show "size w < size v" by simp
qed

text \<open>\<open>isLayoutNode\<close>.\<close>

function layoutNodeOf :: "json \<Rightarrow> layout_node option" where
  "layoutNodeOf v =
     (if string_member ''type'' v = Some ''leaf''
      then (case string_member ''id'' v of
          Some i \<Rightarrow> if i \<noteq> [] then Some (LLeaf i) else None
        | None \<Rightarrow> None)
      else if string_member ''type'' v \<noteq> Some ''split'' then None
      else (case (string_member ''id'' v, string_member ''dir'' v) of
          (Some i, Some d) \<Rightarrow>
            if d \<noteq> ''right'' \<and> d \<noteq> ''down'' then None
            else (case (array_member ''children'' v, array_member ''sizes'' v) of
                (Some children, Some sizes) \<Rightarrow>
                  if length children < 2 \<or> length sizes \<noteq> length children then None
                  else (case those_of positiveNumber sizes of
                      None \<Rightarrow> None
                    | Some zs \<Rightarrow>
                        map_option
                          (\<lambda>cs. LSplit i (if d = ''right'' then SplitRight else SplitDown) cs zs)
                          (those_of layoutNodeOf children))
              | _ \<Rightarrow> None)
        | _ \<Rightarrow> None))"
  by pat_completeness auto
termination
  by (relation "measure size") (auto dest!: size_array_member)

declare layoutNodeOf.simps [simp del]

text \<open>\<open>isColumns\<close>: the ids of the columns and the panes of all columns are each listed once.\<close>

fun newPaneIds :: "ident list \<Rightarrow> json list \<Rightarrow> ident list option" where
  "newPaneIds seen [] = Some []"
| "newPaneIds seen (v # vs) =
     (case stringOf v of
        Some i \<Rightarrow>
          if i = [] \<or> i \<in> set seen then None else map_option ((#) i) (newPaneIds (i # seen) vs)
      | None \<Rightarrow> None)"

definition columnOf :: "ident list \<Rightarrow> ident list \<Rightarrow> json \<Rightarrow> column option" where
  "columnOf ids seen c =
     (case (string_member ''id'' c, Option.bind (member ''width'' c) numberOf,
            array_member ''paneIds'' c, array_member ''shares'' c) of
        (Some i, Some columnWide, Some ps, Some ss) \<Rightarrow>
          if i \<in> set ids \<or> columnWide < MIN_COLUMN_WIDTH \<or> MAX_COLUMN_WIDTH < columnWide \<or>
             ps = [] \<or> length ss \<noteq> length ps
          then None
          else (case (those_of positiveNumber ss, newPaneIds seen ps) of
              (Some zs, Some qs) \<Rightarrow>
                Some \<lparr>columnId = i, columnWidth = columnWide, paneIds = qs, shares = zs\<rparr>
            | _ \<Rightarrow> None)
      | _ \<Rightarrow> None)"

fun columnsFrom :: "ident list \<Rightarrow> ident list \<Rightarrow> json list \<Rightarrow> column list option" where
  "columnsFrom ids seen [] = Some []"
| "columnsFrom ids seen (c # rest) =
     (case columnOf ids seen c of
        None \<Rightarrow> None
      | Some col \<Rightarrow>
          map_option ((#) col) (columnsFrom (columnId col # ids) (paneIds col @ seen) rest))"

definition columnsOf :: "json \<Rightarrow> column list option" where
  "columnsOf v = (case arrayOf v of
     None \<Rightarrow> None | Some vs \<Rightarrow> if vs = [] then None else columnsFrom [] [] vs)"

text \<open>
  \<open>isViewTarget\<close>. The path and the line of a workspace target are not tested by the code; they are
  absent here when they are not a string and an integer.
\<close>

definition definitionIdMember :: "json \<Rightarrow> ident option option" where
  "definitionIdMember v = (case member ''definitionId'' v of
     None \<Rightarrow> Some None
   | Some d \<Rightarrow> map_option Some (stringOf d))"

definition integer_member :: "string \<Rightarrow> json \<Rightarrow> int option" where
  "integer_member k v = (case Option.bind (member k v) numberOf of
     Some r \<Rightarrow> if of_int \<lfloor>r\<rfloor> = r then Some \<lfloor>r\<rfloor> else None
   | None \<Rightarrow> None)"

definition viewTargetOf :: "json \<Rightarrow> view_target option" where
  "viewTargetOf v =
     (case (string_member ''kind'' v, definitionIdMember v) of
        (Some kind, Some d) \<Rightarrow>
          (let str = (\<lambda>k. string_member k v) in
           if kind = ''welcome'' then Some (TWelcome d)
           else if kind = ''project'' then
             (case (str ''environmentId'', str ''projectId'') of
                (Some e, Some p) \<Rightarrow> Some (TProject e p d) | _ \<Rightarrow> None)
           else if kind = ''workspace'' then
             (case (str ''environmentId'', str ''workspaceId'') of
                (Some e, Some w) \<Rightarrow>
                  Some (TWorkspace e w (str ''initialPath'') (integer_member ''revealLine'' v) d)
              | _ \<Rightarrow> None)
           else if kind = ''agentSession'' then
             (case (str ''environmentId'', str ''workspaceId'', str ''agentSessionId'') of
                (Some e, Some w, Some i) \<Rightarrow> Some (TAgentSession e w i d) | _ \<Rightarrow> None)
           else if kind = ''newAgentSession'' then
             (case (str ''environmentId'', str ''workspaceId'', str ''draftId'') of
                (Some e, Some w, Some i) \<Rightarrow> Some (TNewAgentSession e w i d) | _ \<Rightarrow> None)
           else if kind = ''workspaceTerminal'' then
             (case (str ''environmentId'', str ''workspaceId'', str ''terminalSessionId'') of
                (Some e, Some w, Some i) \<Rightarrow> Some (TWorkspaceTerminal e w i d) | _ \<Rightarrow> None)
           else None)
      | _ \<Rightarrow> None)"

definition viewInstanceOf :: "json \<Rightarrow> view_instance option" where
  "viewInstanceOf v =
     (case (string_member ''id'' v, string_member ''definitionId'' v,
            Option.bind (member ''target'' v) viewTargetOf) of
        (Some i, Some d, Some target) \<Rightarrow>
          if i = [] \<or> d = [] then None
          else Some \<lparr>viewId = i, definitionId = d, viewTarget = target\<rparr>
      | _ \<Rightarrow> None)"

text \<open>
  The panes of a tab. A session may be listed twice, which the store repairs; a workspace view or
  a draft may not.
\<close>

definition uniqueInTab :: "view_target \<Rightarrow> bool" where
  "uniqueInTab target \<longleftrightarrow> \<not> isSessionViewTarget target \<and>
     (case target of TWelcome _ \<Rightarrow> False | TProject _ _ _ \<Rightarrow> False | _ \<Rightarrow> True)"

fun readPanes ::
  "(ident \<times> view_instance) list \<Rightarrow> string list \<Rightarrow> json list \<Rightarrow> (ident \<times> view_instance) list option"
where
  "readPanes acc perTabTargetKeys [] = Some acc"
| "readPanes acc perTabTargetKeys (entry # rest) =
     (case arrayOf entry of
        Some [k, v] \<Rightarrow>
          (case (stringOf k, viewInstanceOf v) of
             (Some i, Some view) \<Rightarrow>
               if has_key acc i then None
               else if uniqueInTab (viewTarget view) then
                 if targetKey (viewTarget view) \<in> set perTabTargetKeys then None
                 else readPanes (acc @ [(i, view)]) (targetKey (viewTarget view) # perTabTargetKeys) rest
               else readPanes (acc @ [(i, view)]) perTabTargetKeys rest
           | _ \<Rightarrow> None)
      | _ \<Rightarrow> None)"

definition layoutMemoryOf :: "json \<Rightarrow> layout_memory option" where
  "layoutMemoryOf v =
     (case member ''layoutMemory'' v of
        None \<Rightarrow> None
      | Some rawMemory \<Rightarrow>
          if isRecord rawMemory \<and> member ''version'' rawMemory = Some (JNum (of_nat LAYOUT_VERSION))
          then Some
            \<lparr>memoryVersion = LAYOUT_VERSION,
             memoryBsp = (case Option.bind (member ''bsp'' rawMemory) layoutNodeOf of
                Some n \<Rightarrow> if distinct (leafIds n) then Some n else None | None \<Rightarrow> None),
             memoryColumns = Option.bind (member ''columns'' rawMemory) columnsOf\<rparr>
          else None)"

text \<open>The optional layout mode; None when the document has another value.\<close>

definition layoutModeMember :: "json \<Rightarrow> layout_mode option option" where
  "layoutModeMember v = (case member ''layoutMode'' v of
     None \<Rightarrow> Some None
   | Some m \<Rightarrow>
       if m = JStr ''bsp'' then Some (Some Bsp)
       else if m = JStr ''scrolling'' then Some (Some Scrolling)
       else None)"

definition titleModeMember :: "json \<Rightarrow> title_mode option" where
  "titleModeMember v =
     (if string_member ''titleMode'' v = Some ''auto'' then Some Auto
      else if string_member ''titleMode'' v = Some ''manual'' then Some Manual
      else None)"

definition titleOverrideMember :: "json \<Rightarrow> string option option" where
  "titleOverrideMember v = (case member ''titleOverride'' v of
     Some JNull \<Rightarrow> Some None
   | Some (JStr s) \<Rightarrow> Some (Some s)
   | _ \<Rightarrow> None)"

text \<open>
  \<open>decodeWorkbenchTab\<close> up to its columns: the tab as it is stored, or None where the code returns
  null. Then the columns are reconciled with the panes, which may draw identifiers.
\<close>

definition storedTab :: "json \<Rightarrow> workbench_tab option" where
  "storedTab v =
     (case (string_member ''id'' v, Option.bind (member ''layout'' v) layoutNodeOf,
            string_member ''focusedPaneId'' v, titleModeMember v, titleOverrideMember v,
            array_member ''panes'' v) of
        (Some i, Some l, Some f, Some mode, Some override, Some entries) \<Rightarrow>
          if i = [] then None
          else (case readPanes [] [] entries of
              None \<Rightarrow> None
            | Some ps \<Rightarrow>
                if \<not> distinct (leafIds l) \<or> length (leafIds l) \<noteq> length ps \<or>
                   \<not> list_all (has_key ps) (leafIds l) \<or> \<not> has_key ps f \<or>
                   mode = Manual \<and>
                     WorkbenchState.js_trim (case override of Some s \<Rightarrow> s | None \<Rightarrow> []) = []
                then None
                else (case layoutModeMember v of
                    None \<Rightarrow> None
                  | Some lm \<Rightarrow> Some
                      \<lparr>tabId = i, layout = l, focusedPaneId = f, panes = ps, layoutMode = lm,
                       columns = Option.bind (member ''columns'' v) columnsOf,
                       layoutMemory = layoutMemoryOf v, titleMode = mode,
                       titleOverride = override\<rparr>))
      | _ \<Rightarrow> None)"

definition recoverColumns :: "workbench_tab \<Rightarrow> workbench_tab js" where
  "recoverColumns t =
     (let ids = leafIds (layout t) in
      js_bind
        (case columns t of
           Some cs \<Rightarrow> js_bind (reconcileColumns cs ids) (\<lambda>r. js_return (Some r))
         | None \<Rightarrow>
             if layoutMode t = Some Scrolling
             then js_bind (reconcileColumns [] ids) (\<lambda>r. js_return (Some r))
             else js_return None)
        (\<lambda>recovered. js_return (t\<lparr>columns := recovered,
           layout := (if layoutMode t = Some Scrolling
             then columnsTree (case recovered of Some cs \<Rightarrow> cs | None \<Rightarrow> []) else layout t)\<rparr>)))"

definition decodeWorkbenchTab :: "json \<Rightarrow> workbench_tab option js" where
  "decodeWorkbenchTab v = (case storedTab v of
     None \<Rightarrow> js_return None
   | Some t \<Rightarrow> js_bind (recoverColumns t) (\<lambda>t'. js_return (Some t')))"

text \<open>The workspaces of the drafts of a tab, each at most once in the whole workbench.\<close>

definition draftWorkspaceKeys :: "workbench_tab \<Rightarrow> string list" where
  "draftWorkspaceKeys t = concat (map
     (\<lambda>(_, view). case viewTarget view of TNewAgentSession e w _ _ \<Rightarrow> [e @ '':'' @ w] | _ \<Rightarrow> [])
     (panes t))"

fun addDraftKeys :: "string list \<Rightarrow> string list \<Rightarrow> string list option" where
  "addDraftKeys seen [] = Some seen"
| "addDraftKeys seen (k # ks) = (if k \<in> set seen then None else addDraftKeys (k # seen) ks)"

fun decodeTabs ::
  "workbench_tab list \<Rightarrow> string list \<Rightarrow> json list \<Rightarrow> workbench_tab list option js" where
  "decodeTabs acc drafts [] = js_return (Some acc)"
| "decodeTabs acc drafts (candidate # rest) =
     js_bind (decodeWorkbenchTab candidate) (\<lambda>r.
       case r of
         None \<Rightarrow> js_return None
       | Some t \<Rightarrow>
           if tabId t \<in> tabId ` set acc then js_return None
           else (case addDraftKeys drafts (draftWorkspaceKeys t) of
               None \<Rightarrow> js_return None
             | Some drafts' \<Rightarrow> decodeTabs (acc @ [t]) drafts' rest))"

definition WORKBENCH_PERSISTENCE_VERSION :: nat where "WORKBENCH_PERSISTENCE_VERSION = 1"

definition decodeWorkbenchSnapshot :: "json \<Rightarrow> snapshot option js" where
  "decodeWorkbenchSnapshot v =
     (case (string_member ''activeTabId'' v, array_member ''tabs'' v) of
        (Some active, Some candidates) \<Rightarrow>
          if member ''version'' v \<noteq> Some (JNum (of_nat WORKBENCH_PERSISTENCE_VERSION)) \<or>
             candidates = []
          then js_return None
          else js_bind (decodeTabs [] [] candidates) (\<lambda>r. js_return
            (case r of
               None \<Rightarrow> None
             | Some ts \<Rightarrow>
                 if active \<in> tabId ` set ts then Some \<lparr>tabs = ts, activeTabId = active\<rparr> else None))
      | _ \<Rightarrow> js_return None)"

section \<open>Writing\<close>

text \<open>A property that may be \<open>undefined\<close>.\<close>

definition optionalMember :: "string \<Rightarrow> json option \<Rightarrow> (string \<times> json) list" where
  "optionalMember k v = (case v of Some w \<Rightarrow> [(k, w)] | None \<Rightarrow> [])"

fun layoutValue :: "layout_node \<Rightarrow> json" where
  "layoutValue (LLeaf i) = JObj [(''type'', JStr ''leaf''), (''id'', JStr i)]"
| "layoutValue (LSplit i d cs zs) = JObj [(''type'', JStr ''split''), (''id'', JStr i),
     (''dir'', JStr (if d = SplitRight then ''right'' else ''down'')),
     (''children'', JArr (map layoutValue cs)), (''sizes'', JArr (map JNum zs))]"

definition columnValue :: "column \<Rightarrow> json" where
  "columnValue c = JObj [(''id'', JStr (columnId c)), (''width'', JNum (columnWidth c)),
     (''paneIds'', JArr (map JStr (paneIds c))), (''shares'', JArr (map JNum (shares c)))]"

definition columnsValue :: "column list \<Rightarrow> json" where
  "columnsValue cs = JArr (map columnValue cs)"

definition layoutMemoryValue :: "layout_memory \<Rightarrow> json" where
  "layoutMemoryValue m = JObj ((''version'', JNum (of_nat (memoryVersion m))) #
     optionalMember ''bsp'' (map_option layoutValue (memoryBsp m)) @
     optionalMember ''columns'' (map_option columnsValue (memoryColumns m)))"

fun viewTargetValue :: "view_target \<Rightarrow> json" where
  "viewTargetValue (TWelcome d) =
     JObj ((''kind'', JStr ''welcome'') # optionalMember ''definitionId'' (map_option JStr d))"
| "viewTargetValue (TProject e p d) =
     JObj ([(''kind'', JStr ''project''), (''environmentId'', JStr e), (''projectId'', JStr p)] @
       optionalMember ''definitionId'' (map_option JStr d))"
| "viewTargetValue (TWorkspace e w ip rl d) =
     JObj ([(''kind'', JStr ''workspace''), (''environmentId'', JStr e), (''workspaceId'', JStr w)] @
       optionalMember ''initialPath'' (map_option JStr ip) @
       optionalMember ''revealLine'' (map_option (\<lambda>n. JNum (of_int n)) rl) @
       optionalMember ''definitionId'' (map_option JStr d))"
| "viewTargetValue (TAgentSession e w i d) =
     JObj ([(''kind'', JStr ''agentSession''), (''environmentId'', JStr e), (''workspaceId'', JStr w),
       (''agentSessionId'', JStr i)] @ optionalMember ''definitionId'' (map_option JStr d))"
| "viewTargetValue (TNewAgentSession e w i d) =
     JObj ([(''kind'', JStr ''newAgentSession''), (''environmentId'', JStr e), (''workspaceId'', JStr w),
       (''draftId'', JStr i)] @ optionalMember ''definitionId'' (map_option JStr d))"
| "viewTargetValue (TWorkspaceTerminal e w i d) =
     JObj ([(''kind'', JStr ''workspaceTerminal''), (''environmentId'', JStr e),
       (''workspaceId'', JStr w), (''terminalSessionId'', JStr i)] @
       optionalMember ''definitionId'' (map_option JStr d))"

definition viewInstanceValue :: "view_instance \<Rightarrow> json" where
  "viewInstanceValue v = JObj [(''id'', JStr (viewId v)), (''definitionId'', JStr (definitionId v)),
     (''target'', viewTargetValue (viewTarget v))]"

definition layoutModeValue :: "layout_mode \<Rightarrow> json" where
  "layoutModeValue m = JStr (case m of Bsp \<Rightarrow> ''bsp'' | Scrolling \<Rightarrow> ''scrolling'')"

definition tabValue :: "workbench_tab \<Rightarrow> json" where
  "tabValue t = JObj ([(''id'', JStr (tabId t)), (''layout'', layoutValue (layout t))] @
     optionalMember ''layoutMode'' (map_option layoutModeValue (layoutMode t)) @
     optionalMember ''columns'' (map_option columnsValue (columns t)) @
     optionalMember ''layoutMemory'' (map_option layoutMemoryValue (layoutMemory t)) @
     [(''focusedPaneId'', JStr (focusedPaneId t)),
      (''titleMode'', JStr (case titleMode t of Auto \<Rightarrow> ''auto'' | Manual \<Rightarrow> ''manual'')),
      (''titleOverride'', case titleOverride t of Some s \<Rightarrow> JStr s | None \<Rightarrow> JNull),
      (''panes'', JArr (map (\<lambda>(i, v). JArr [JStr i, viewInstanceValue v]) (panes t)))])"

definition serializeWorkbenchSnapshot :: "snapshot \<Rightarrow> json" where
  "serializeWorkbenchSnapshot snap = JObj
     [(''version'', JNum (of_nat WORKBENCH_PERSISTENCE_VERSION)),
      (''activeTabId'', JStr (activeTabId snap)), (''tabs'', JArr (map tabValue (tabs snap)))]"

section \<open>Storage\<close>

text \<open>
  The browser's storage: readable or not, its items, and which writes it takes (a full or blocked
  storage throws). A storage that is absent is None.
\<close>

datatype stored_text = Unreadable string | Document json

record workbench_storage =
  storageReadable :: bool
  storageItems :: "string \<rightharpoonup> stored_text"
  storageAccepts :: "string \<Rightarrow> stored_text \<Rightarrow> bool"

definition WORKBENCH_PERSISTENCE_KEY :: string where
  "WORKBENCH_PERSISTENCE_KEY = ''awen:workbench:v1''"

definition WORKBENCH_PERSISTENCE_BACKUP_KEY :: string where
  "WORKBENCH_PERSISTENCE_BACKUP_KEY = ''awen:workbench:v1.backup''"

definition deserializeWorkbenchSnapshot :: "stored_text \<Rightarrow> snapshot option js" where
  "deserializeWorkbenchSnapshot raw = (case raw of
     Unreadable _ \<Rightarrow> js_return None
   | Document v \<Rightarrow> decodeWorkbenchSnapshot v)"

definition readWorkbenchSnapshot :: "workbench_storage option \<Rightarrow> snapshot option js" where
  "readWorkbenchSnapshot storage = (case storage of
     None \<Rightarrow> js_return None
   | Some st \<Rightarrow>
       if \<not> storageReadable st then js_return None
       else (case storageItems st WORKBENCH_PERSISTENCE_KEY of
           None \<Rightarrow> js_return None
         | Some raw \<Rightarrow> deserializeWorkbenchSnapshot raw))"

text \<open>\<open>setItem\<close>; None when it throws.\<close>

definition setItem :: "string \<Rightarrow> stored_text \<Rightarrow> workbench_storage \<Rightarrow> workbench_storage option" where
  "setItem k v st =
     (if storageAccepts st k v then Some (st\<lparr>storageItems := (storageItems st)(k \<mapsto> v)\<rparr>) else None)"

definition writeWorkbenchSnapshot ::
  "snapshot \<Rightarrow> workbench_storage \<Rightarrow> workbench_storage js" where
  "writeWorkbenchSnapshot snap st =
     (if \<not> storageReadable st then js_return st
      else (let write = (\<lambda>st'. js_return
              (case setItem WORKBENCH_PERSISTENCE_KEY (Document (serializeWorkbenchSnapshot snap)) st' of
                 Some st'' \<Rightarrow> st'' | None \<Rightarrow> st')) in
        case storageItems st WORKBENCH_PERSISTENCE_KEY of
          None \<Rightarrow> write st
        | Some existing \<Rightarrow>
            js_bind (deserializeWorkbenchSnapshot existing) (\<lambda>r.
              if r = None \<and> storageItems st WORKBENCH_PERSISTENCE_BACKUP_KEY = None
              then (case setItem WORKBENCH_PERSISTENCE_BACKUP_KEY existing st of
                  None \<Rightarrow> js_return st
                | Some st' \<Rightarrow> write st')
              else write st)))"

section \<open>Reading what was written\<close>

lemma optionalMember_lookup [simp]:
  "map_of (optionalMember k v @ ms) j =
     (if j = k then (case v of None \<Rightarrow> map_of ms j | Some w \<Rightarrow> Some w) else map_of ms j)"
  "map_of (optionalMember k v) j = (if j = k then v else None)"
  by (auto simp: optionalMember_def split: option.split)

lemma read_simps [simp]:
  "stringOf (JStr s) = Some s" "numberOf (JNum r) = Some r" "arrayOf (JArr vs) = Some vs"
  "isRecord (JObj ms)"
  by (simp_all add: stringOf_def numberOf_def arrayOf_def isRecord_def)

lemma array_member_JObj [simp]: "array_member k (JObj ms) = Option.bind (map_of ms k) arrayOf"
  by (simp add: array_member_def)

lemma those_of_eq: "(\<And>x. x \<in> set xs \<Longrightarrow> f x = Some x) \<Longrightarrow> those_of f xs = Some xs"
  using those_of_map [of xs f id] by simp

lemma positiveNumber_JNum: "\<forall>z \<in> set zs. 0 < z \<Longrightarrow> those_of positiveNumber (map JNum zs) = Some zs"
  by (rule those_of_map) (simp add: positiveNumber_def)

lemma layoutNodeOf_layoutValue:
  "wf_layout l \<Longrightarrow> [] \<notin> set (leafIds l) \<Longrightarrow> layoutNodeOf (layoutValue l) = Some l"
proof (induction l)
  case (LLeaf i)
  then show ?case by (simp add: layoutNodeOf.simps)
next
  case (LSplit i d cs zs)
  then have "those_of layoutNodeOf (map layoutValue cs) = Some cs" by (intro those_of_map) auto
  moreover have "those_of positiveNumber (map JNum zs) = Some zs"
    using LSplit.prems by (intro positiveNumber_JNum) (simp add: sizes_ok_def)
  moreover have "2 \<le> length cs" "length zs = length cs" using LSplit.prems by simp_all
  ultimately show ?case
    by (cases d; subst layoutNodeOf.simps) (simp_all del: map_map)
qed

text \<open>Columns that pass the test of the code.\<close>

definition storable_columns :: "column list \<Rightarrow> bool" where
  "storable_columns cs \<longleftrightarrow> cs \<noteq> [] \<and> distinct (map columnId cs) \<and> distinct (colIds cs) \<and>
     [] \<notin> set (colIds cs) \<and>
     (\<forall>c \<in> set cs. MIN_COLUMN_WIDTH \<le> columnWidth c \<and> columnWidth c \<le> MAX_COLUMN_WIDTH \<and>
        paneIds c \<noteq> [] \<and> length (shares c) = length (paneIds c) \<and> (\<forall>z \<in> set (shares c). 0 < z))"

lemma newPaneIds_eq:
  "distinct ps \<Longrightarrow> [] \<notin> set ps \<Longrightarrow> set ps \<inter> set seen = {} \<Longrightarrow>
     newPaneIds seen (map JStr ps) = Some ps"
  by (induction ps arbitrary: seen) auto

lemma columnsFrom_eq:
  assumes "distinct (map columnId cs)" "distinct (colIds cs)" "[] \<notin> set (colIds cs)"
    and "\<forall>c \<in> set cs. MIN_COLUMN_WIDTH \<le> columnWidth c \<and> columnWidth c \<le> MAX_COLUMN_WIDTH \<and>
        paneIds c \<noteq> [] \<and> length (shares c) = length (paneIds c) \<and> (\<forall>z \<in> set (shares c). 0 < z)"
    and "columnId ` set cs \<inter> set ids = {}" "set (colIds cs) \<inter> set seen = {}"
  shows "columnsFrom ids seen (map columnValue cs) = Some cs"
  using assms
proof (induction cs arbitrary: ids seen)
  case (Cons c cs)
  have "set (paneIds c) \<inter> set seen = {}" using Cons.prems(6) by auto
  then have "columnOf ids seen (columnValue c) = Some c"
    using Cons.prems newPaneIds_eq [of "paneIds c" seen] positiveNumber_JNum [of "shares c"]
    by (auto simp: columnOf_def columnValue_def simp del: map_map)
  moreover have "columnsFrom (columnId c # ids) (paneIds c @ seen) (map columnValue cs) = Some cs"
    using Cons.prems by (intro Cons.IH) auto
  ultimately show ?case by simp
qed simp

lemma columnsOf_columnsValue: "storable_columns cs \<Longrightarrow> columnsOf (columnsValue cs) = Some cs"
  using columnsFrom_eq [of cs "[]" "[]"]
  by (auto simp: storable_columns_def columnsOf_def columnsValue_def)

lemma definitionIdMember_written [simp]:
  "map_of ms ''definitionId'' = map_option JStr d \<Longrightarrow> definitionIdMember (JObj ms) = Some d"
  by (cases d) (simp_all add: definitionIdMember_def)

lemma string_member_written [simp]:
  "map_of ms k = map_option JStr d \<Longrightarrow> string_member k (JObj ms) = d"
  by (cases d) simp_all

lemma integer_member_written [simp]:
  "map_of ms k = map_option (\<lambda>n. JNum (of_int n)) d \<Longrightarrow> integer_member k (JObj ms) = d"
  by (cases d) (simp_all add: integer_member_def)

lemma string_member_Some [simp]: "map_of ms k = Some (JStr s) \<Longrightarrow> string_member k (JObj ms) = Some s"
  by simp

lemma viewTargetOf_viewTargetValue: "viewTargetOf (viewTargetValue target) = Some target"
proof (cases target)
  case (TWorkspace e w ip rl d)
  then show ?thesis
    by (cases ip; cases rl)
      (simp_all add: viewTargetOf_def Let_def del: string_member_JObj map_of_append)
qed (simp_all add: viewTargetOf_def Let_def del: string_member_JObj map_of_append)

lemma viewInstanceOf_viewInstanceValue:
  "viewId v \<noteq> [] \<Longrightarrow> definitionId v \<noteq> [] \<Longrightarrow> viewInstanceOf (viewInstanceValue v) = Some v"
  by (simp add: viewInstanceOf_def viewInstanceValue_def viewTargetOf_viewTargetValue)

text \<open>The keys of the views that a tab may show only once.\<close>

definition uniqueKeys :: "(ident \<times> view_instance) list \<Rightarrow> string list" where
  "uniqueKeys ps = map (\<lambda>(_, v). targetKey (viewTarget v))
     (filter (\<lambda>(_, v). uniqueInTab (viewTarget v)) ps)"

lemma uniqueKeys_simps [simp]:
  "uniqueKeys [] = []"
  "uniqueKeys ((i, v) # ps) =
     (if uniqueInTab (viewTarget v) then [targetKey (viewTarget v)] else []) @ uniqueKeys ps"
  by (simp_all add: uniqueKeys_def)

lemma readPanes_eq:
  assumes "distinct (keys (acc @ ps))" "distinct (uniqueKeys ps)"
    and "set (uniqueKeys ps) \<inter> set ks = {}"
    and "\<forall>(_, v) \<in> set ps. viewId v \<noteq> [] \<and> definitionId v \<noteq> []"
  shows "readPanes acc ks (map (\<lambda>(i, v). JArr [JStr i, viewInstanceValue v]) ps) = Some (acc @ ps)"
  using assms
proof (induction ps arbitrary: acc ks)
  case (Cons p ps)
  obtain i v where p: "p = (i, v)" by (cases p)
  show ?case
  proof (cases "uniqueInTab (viewTarget v)")
    case True
    then show ?thesis
      using Cons.prems Cons.IH [of "acc @ [p]" "targetKey (viewTarget v) # ks"]
      by (auto simp: p viewInstanceOf_viewInstanceValue)
  next
    case False
    then show ?thesis
      using Cons.prems Cons.IH [of "acc @ [p]" ks] by (auto simp: p viewInstanceOf_viewInstanceValue)
  qed
qed simp

lemma readPanes_None:
  assumes "distinct (keys (acc @ ps))" "\<forall>(_, v) \<in> set ps. viewId v \<noteq> [] \<and> definitionId v \<noteq> []"
    and "\<not> distinct (uniqueKeys ps) \<or> set (uniqueKeys ps) \<inter> set ks \<noteq> {}"
  shows "readPanes acc ks (map (\<lambda>(i, v). JArr [JStr i, viewInstanceValue v]) ps) = None"
  using assms
proof (induction ps arbitrary: acc ks)
  case (Cons p ps)
  obtain i v where p: "p = (i, v)" by (cases p)
  show ?case
  proof (cases "uniqueInTab (viewTarget v)")
    case True
    have "\<not> distinct (uniqueKeys ps) \<or> set (uniqueKeys ps) \<inter> set (targetKey (viewTarget v) # ks) \<noteq> {}"
      if "targetKey (viewTarget v) \<notin> set ks"
      using Cons.prems(3) True that by (auto simp: p)
    then show ?thesis
      using True Cons.prems Cons.IH [of "acc @ [p]" "targetKey (viewTarget v) # ks"]
      by (auto simp: p viewInstanceOf_viewInstanceValue)
  next
    case False
    then show ?thesis
      using Cons.prems Cons.IH [of "acc @ [p]" ks] by (auto simp: p viewInstanceOf_viewInstanceValue)
  qed
qed simp

text \<open>
  What a snapshot must satisfy for the reader to accept it: its shape, and the rules on views that
  may be shown once.
\<close>

definition storable_memory :: "layout_memory \<Rightarrow> bool" where
  "storable_memory m \<longleftrightarrow> memoryVersion m = LAYOUT_VERSION \<and>
     (\<forall>l. memoryBsp m = Some l \<longrightarrow> [] \<notin> set (leafIds l)) \<and>
     (\<forall>cs. memoryColumns m = Some cs \<longrightarrow> storable_columns cs)"

definition storable_shape :: "workbench_tab \<Rightarrow> bool" where
  "storable_shape t \<longleftrightarrow> tabId t \<noteq> [] \<and> [] \<notin> set (keys (panes t)) \<and>
     (\<forall>(_, v) \<in> set (panes t). viewId v \<noteq> [] \<and> definitionId v \<noteq> []) \<and>
     (titleMode t = Manual \<longrightarrow> (\<exists>s. titleOverride t = Some s \<and> WorkbenchState.js_trim s \<noteq> [])) \<and>
     (\<forall>m. layoutMemory t = Some m \<longrightarrow> storable_memory m) \<and>
     (\<forall>cs. columns t = Some cs \<longrightarrow> storable_columns cs)"

definition storable_tab :: "workbench_tab \<Rightarrow> bool" where
  "storable_tab t \<longleftrightarrow> storable_shape t \<and> distinct (uniqueKeys (panes t))"

definition storable :: "snapshot \<Rightarrow> bool" where
  "storable snap \<longleftrightarrow> (\<forall>t \<in> set (tabs snap). storable_tab t) \<and>
     distinct (concat (map draftWorkspaceKeys (tabs snap)))"

lemma layoutMemoryOf_written:
  assumes "\<And>m. layoutMemory t = Some m \<Longrightarrow> storable_memory m \<and> wf_memory m"
    and "member ''layoutMemory'' v = map_option layoutMemoryValue (layoutMemory t)"
  shows "layoutMemoryOf v = layoutMemory t"
proof (cases "layoutMemory t")
  case None
  then show ?thesis using assms(2) by (simp add: layoutMemoryOf_def)
next
  case (Some m)
  obtain l cs where m: "m = \<lparr>memoryVersion = LAYOUT_VERSION, memoryBsp = l, memoryColumns = cs\<rparr>"
    using assms(1) [OF Some] by (cases m) (auto simp: storable_memory_def)
  have "layoutNodeOf (layoutValue b) = Some b \<and> distinct (leafIds b)" if "l = Some b" for b
    using assms(1) [OF Some] that by (simp add: m storable_memory_def wf_memory_def layoutNodeOf_layoutValue)
  moreover have "columnsOf (columnsValue c) = Some c" if "cs = Some c" for c
    using assms(1) [OF Some] that by (simp add: m storable_memory_def columnsOf_columnsValue)
  ultimately show ?thesis
    using assms(2) Some
    by (cases l; cases cs) (simp_all add: layoutMemoryOf_def layoutMemoryValue_def m del: map_of_append)
qed

lemma length_leafIds_panes: "wf_tab t \<Longrightarrow> length (leafIds (layout t)) = length (panes t)"
  using distinct_card [of "leafIds (layout t)"] distinct_card [of "keys (panes t)"]
  by (simp add: wf_tab_def tab_core_def layout_covers_def)

lemma tabValue_members:
  "string_member ''id'' (tabValue t) = Some (tabId t)"
  "member ''layout'' (tabValue t) = Some (layoutValue (layout t))"
  "string_member ''focusedPaneId'' (tabValue t) = Some (focusedPaneId t)"
  "array_member ''panes'' (tabValue t) =
     Some (map (\<lambda>(i, v). JArr [JStr i, viewInstanceValue v]) (panes t))"
  by (simp_all add: tabValue_def del: map_of_append)

lemma tabValue_optional:
  "member ''layoutMode'' (tabValue t) = map_option layoutModeValue (layoutMode t)"
  "member ''columns'' (tabValue t) = map_option columnsValue (columns t)"
  "member ''layoutMemory'' (tabValue t) = map_option layoutMemoryValue (layoutMemory t)"
  by (cases "layoutMode t"; simp add: tabValue_def del: map_of_append)
    (cases "columns t"; cases "layoutMemory t"; simp add: tabValue_def del: map_of_append)+

lemma tabValue_title:
  "titleModeMember (tabValue t) = Some (titleMode t)"
  "titleOverrideMember (tabValue t) = Some (titleOverride t)"
  by (cases "titleMode t"; simp add: tabValue_def titleModeMember_def del: map_of_append)
    (cases "titleOverride t"; simp add: tabValue_def titleOverrideMember_def del: map_of_append)

lemma storedTab_tabValue:
  assumes "wf_tab t" "storable_tab t"
  shows "storedTab (tabValue t) = Some t"
proof -
  have layout: "layoutNodeOf (layoutValue (layout t)) = Some (layout t)"
    using assms by (intro layoutNodeOf_layoutValue) (auto simp: wf_tab_def layout_covers_def storable_tab_def storable_shape_def)
  have "readPanes [] [] (map (\<lambda>(i, v). JArr [JStr i, viewInstanceValue v]) (panes t)) = Some (panes t)"
    using assms by (subst readPanes_eq) (auto simp: wf_tab_def tab_core_def storable_tab_def storable_shape_def)
  moreover have "Option.bind (map_option columnsValue (columns t)) columnsOf = columns t"
    using assms(2) by (cases "columns t") (auto simp: storable_tab_def storable_shape_def columnsOf_columnsValue)
  moreover have "layoutMemoryOf (tabValue t) = layoutMemory t"
    using assms by (intro layoutMemoryOf_written)
      (auto simp: tabValue_members tabValue_optional tabValue_title wf_tab_def tab_core_def storable_tab_def storable_shape_def)
  moreover have "layoutModeMember (tabValue t) = Some (layoutMode t)"
    by (cases "layoutMode t"; cases "the (layoutMode t)")
      (simp_all add: layoutModeMember_def tabValue_members tabValue_optional tabValue_title layoutModeValue_def)
  moreover have "list_all (has_key (panes t)) (leafIds (layout t))" "has_key (panes t) (focusedPaneId t)"
    and "distinct (leafIds (layout t))" "tabId t \<noteq> []"
    using assms by (auto simp: list_all_iff wf_tab_def tab_core_def layout_covers_def storable_tab_def storable_shape_def)
  moreover have "\<not> (titleMode t = Manual \<and>
      WorkbenchState.js_trim (case titleOverride t of Some s \<Rightarrow> s | None \<Rightarrow> []) = [])"
    using assms(2) by (auto simp: storable_tab_def storable_shape_def)
  ultimately show ?thesis
    using layout length_leafIds_panes [OF assms(1)]
    by (simp add: storedTab_def tabValue_members tabValue_optional tabValue_title del: has_key_iff)
qed

lemma storedTab_duplicate:
  assumes "wf_tab t" "storable_shape t" "\<not> distinct (uniqueKeys (panes t))"
  shows "storedTab (tabValue t) = None"
proof -
  have "readPanes [] [] (map (\<lambda>(i, v). JArr [JStr i, viewInstanceValue v]) (panes t)) = None"
    using assms by (intro readPanes_None) (auto simp: wf_tab_def tab_core_def storable_shape_def)
  then show ?thesis by (simp add: storedTab_def tabValue_members split: option.split)
qed

section \<open>The round trip\<close>

text \<open>The same tab, up to the columns that a tab keeps while it is not scrolling.\<close>

definition same_work :: "workbench_tab \<Rightarrow> workbench_tab \<Rightarrow> bool" where
  "same_work t t' \<longleftrightarrow> t' = t\<lparr>columns := columns t'\<rparr> \<and>
     (layoutMode t = Some Scrolling \<or> columns t = None \<longrightarrow> t' = t)"

lemma storable_columns_pos: "storable_columns cs \<Longrightarrow> cols_pos cs"
  by (auto simp: storable_columns_def cols_pos_def col_pos_def MIN_COLUMN_WIDTH_def)

lemma same_workE: "same_work t t' \<Longrightarrow> (\<And>cs. t' = t\<lparr>columns := cs\<rparr> \<Longrightarrow> P) \<Longrightarrow> P"
  unfolding same_work_def by blast

lemma js_bind_return: "js_bind (js_return x) f = f x"
  by (simp add: js_bind_def js_return_def)

lemma recoverColumns_written:
  assumes I: "supply_inv I" "I s" and wf: "wf_tab t" and st: "storable_tab t"
  shows "wp (recoverColumns t) (\<lambda>t' s'. same_work t t' \<and> I s') s"
proof (cases "layoutMode t = Some Scrolling")
  case True
  then obtain cs where cs: "columns t = Some cs" "cols_ok cs" "layout t = columnsTree cs"
    "set (colIds cs) = set (keys (panes t))"
    using wf_tab_columns [OF wf] by blast
  have "set (leafIds (layout t)) = set (colIds cs)"
    using wf cs(4) by (simp add: wf_tab_def layout_covers_def)
  then have "reconcileColumns cs (leafIds (layout t)) = js_return cs"
    using cs(2) by (intro reconcileColumns_same) (simp_all add: cols_ok_def)
  moreover have "t\<lparr>columns := columns t, layout := layout t\<rparr> = t" by simp
  then have "t\<lparr>columns := Some cs, layout := columnsTree cs\<rparr> = t" by (simp only: cs(1,3))
  ultimately have "recoverColumns t = js_return t"
    using cs(1) True by (simp add: recoverColumns_def js_bind_return)
  then show ?thesis using I by (simp add: same_work_def)
next
  case False
  show ?thesis
  proof (cases "columns t")
    case None
    then show ?thesis using False I by (simp add: recoverColumns_def same_work_def)
  next
    case (Some cs)
    then have pos: "cols_pos cs" using st by (auto simp: storable_tab_def storable_shape_def storable_columns_pos)
    have "wp (reconcileColumns cs (leafIds (layout t))) (\<lambda>r s'. I s') s"
      by (rule wp_mono [OF reconcileColumns_wp [OF I pos]]) blast
    then show ?thesis using False Some by (auto simp: recoverColumns_def same_work_def elim!: wp_mono)
  qed
qed

lemma same_work_ids: "list_all2 same_work ts ts' \<Longrightarrow> map tabId ts' = map tabId ts"
  by (induction rule: list_all2_induct) (auto elim!: same_workE)

lemma addDraftKeys_eq:
  "distinct ks \<Longrightarrow> set ks \<inter> set seen = {} \<Longrightarrow> addDraftKeys seen ks = Some (rev ks @ seen)"
  by (induction ks arbitrary: seen) auto

lemma draftWorkspaceKeys_columns [simp]: "draftWorkspaceKeys (t\<lparr>columns := cs\<rparr>) = draftWorkspaceKeys t"
  by (simp add: draftWorkspaceKeys_def)

lemma decodeTabs_written:
  assumes "supply_inv I" "I s" "\<forall>t \<in> set ts. wf_tab t \<and> storable_tab t"
    and "distinct (map tabId acc @ map tabId ts)"
    and "distinct (concat (map draftWorkspaceKeys ts))"
    and "set (concat (map draftWorkspaceKeys ts)) \<inter> set drafts = {}"
  shows "wp (decodeTabs acc drafts (map tabValue ts))
    (\<lambda>r s'. (\<exists>ts'. r = Some (acc @ ts') \<and> list_all2 same_work ts ts') \<and> I s') s"
  using assms(2-)
proof (induction ts arbitrary: acc drafts s)
  case (Cons t ts)
  have decode: "decodeWorkbenchTab (tabValue t) = js_bind (recoverColumns t) (\<lambda>t'. js_return (Some t'))"
    using Cons.prems by (simp add: decodeWorkbenchTab_def storedTab_tabValue)
  have ts: "wf_tab t" "storable_tab t" using Cons.prems by simp_all
  show ?case
    unfolding list.map decodeTabs.simps decode wp_bind wp_return
  proof (rule wp_mono [OF recoverColumns_written [OF assms(1) Cons.prems(1) ts]])
    fix t' s' assume t': "same_work t t' \<and> I s'"
    then obtain cs where eq: "t' = t\<lparr>columns := cs\<rparr>" by (auto elim: same_workE)
    have "set (draftWorkspaceKeys t) \<inter> set drafts = {}" using Cons.prems(5) by auto
    then have drafts: "addDraftKeys drafts (draftWorkspaceKeys t') = Some (rev (draftWorkspaceKeys t) @ drafts)"
      using Cons.prems(4) eq by (simp add: addDraftKeys_eq)
    have "wp (decodeTabs (acc @ [t']) (rev (draftWorkspaceKeys t) @ drafts) (map tabValue ts))
        (\<lambda>r s'. (\<exists>ts'. r = Some ((acc @ [t']) @ ts') \<and> list_all2 same_work ts ts') \<and> I s') s'"
      using Cons.prems t' eq by (intro Cons.IH) auto
    then have "wp (decodeTabs (acc @ [t']) (rev (draftWorkspaceKeys t) @ drafts) (map tabValue ts))
        (\<lambda>r s'. (\<exists>ts'. r = Some (acc @ ts') \<and> list_all2 same_work (t # ts) ts') \<and> I s') s'"
      by (rule wp_mono) (use t' in auto)
    moreover have "tabId t' \<notin> tabId ` set acc" using Cons.prems(3) eq by auto
    ultimately show "wp (case Some t' of None \<Rightarrow> js_return None
        | Some t \<Rightarrow> if tabId t \<in> tabId ` set acc then js_return None
          else (case addDraftKeys drafts (draftWorkspaceKeys t) of None \<Rightarrow> js_return None
            | Some drafts' \<Rightarrow> decodeTabs (acc @ [t]) drafts' (map tabValue ts)))
        (\<lambda>r s'. (\<exists>ts'. r = Some (acc @ ts') \<and> list_all2 same_work (t # ts) ts') \<and> I s') s'"
      using drafts by simp
  qed
qed simp

lemma decode_written:
  assumes "supply_inv I" "I s" "wf_snapshot U snap" "storable snap"
  shows "wp (decodeWorkbenchSnapshot (serializeWorkbenchSnapshot snap))
    (\<lambda>r s'. (\<exists>snap'. r = Some snap' \<and> activeTabId snap' = activeTabId snap \<and>
       list_all2 same_work (tabs snap) (tabs snap')) \<and> I s') s"
proof -
  have "wp (decodeTabs [] [] (map tabValue (tabs snap)))
      (\<lambda>r s'. (\<exists>ts'. r = Some ([] @ ts') \<and> list_all2 same_work (tabs snap) ts') \<and> I s') s"
    using assms by (intro decodeTabs_written) (auto simp: wf_snapshot_def storable_def)
  moreover have "tabs snap \<noteq> []" using assms(3) by (auto simp: wf_snapshot_def)
  moreover have "activeTabId snap \<in> tabId ` set ts'" if "list_all2 same_work (tabs snap) ts'" for ts'
    using assms(3) same_work_ids [OF that] by (metis list.set_map wf_snapshot_def)
  ultimately show ?thesis
    by (auto simp: decodeWorkbenchSnapshot_def serializeWorkbenchSnapshot_def elim!: wp_mono)
qed

section \<open>Reading anything\<close>

text \<open>What the reader guarantees of a tab, whatever the document was.\<close>

fun pos_layout :: "layout_node \<Rightarrow> bool" where
  "pos_layout (LLeaf _) = True"
| "pos_layout (LSplit _ _ cs zs) \<longleftrightarrow> 2 \<le> length cs \<and> length zs = length cs \<and>
     (\<forall>z \<in> set zs. 0 < z) \<and> (\<forall>c \<in> set cs. pos_layout c)"

lemma wf_pos_layout: "wf_layout l \<Longrightarrow> pos_layout l"
  by (induction l) (auto simp: sizes_ok_def)

definition restored_ok :: "workbench_tab \<Rightarrow> bool" where
  "restored_ok t \<longleftrightarrow> distinct (keys (panes t)) \<and> focusedPaneId t \<in> set (keys (panes t)) \<and>
     pos_layout (layout t) \<and> distinct (leafIds (layout t)) \<and>
     set (leafIds (layout t)) = set (keys (panes t)) \<and>
     (layoutMode t = Some Scrolling \<longrightarrow>
        (\<exists>cs. columns t = Some cs \<and> cols_ok cs \<and> layout t = columnsTree cs))"

lemma positiveNumbers_pos: "those_of positiveNumber vs = Some zs \<Longrightarrow> z \<in> set zs \<Longrightarrow> 0 < z"
  by (auto dest!: those_of_set simp: positiveNumber_def split: option.splits if_splits)

lemma layoutNodeOf_pos: "layoutNodeOf v = Some l \<Longrightarrow> pos_layout l"
proof (induction v arbitrary: l rule: layoutNodeOf.induct)
  case (1 v)
  note IH = "1.IH" and run = "1.prems"
  show ?case
  proof (cases l)
    case (LSplit i d cs zs)
    obtain k children sizes where r: "string_member ''type'' v \<noteq> Some ''leaf''"
      "string_member ''type'' v = Some ''split''" "string_member ''id'' v = Some i"
      "string_member ''dir'' v = Some k" "\<not> (k \<noteq> ''right'' \<and> k \<noteq> ''down'')"
      "array_member ''children'' v = Some children" "array_member ''sizes'' v = Some sizes"
      "\<not> (length children < 2 \<or> length sizes \<noteq> length children)"
      "those_of positiveNumber sizes = Some zs" "those_of layoutNodeOf children = Some cs"
      using run LSplit by (subst (asm) layoutNodeOf.simps) (auto split: option.splits if_splits)
    have "pos_layout c" if c: "c \<in> set cs" for c
    proof -
      obtain x where x: "x \<in> set children" "layoutNodeOf x = Some c"
        using those_of_set [OF r(10) c] by blast
      show ?thesis
        by (rule IH [OF r(1) _ _ _ _ r(5) _ _ _ r(8,9) x]) (rule refl | rule r | simp add: r)+
    qed
    then show ?thesis
      using r(8) those_of_length [OF r(9)] those_of_length [OF r(10)] positiveNumbers_pos [OF r(9)] LSplit
      by auto
  qed simp
qed

lemma columnsFrom_pos: "columnsFrom ids seen vs = Some cs \<Longrightarrow> cols_pos cs"
proof (induction vs arbitrary: ids seen cs)
  case (Cons v vs)
  then obtain c rest where c: "columnOf ids seen v = Some c" "cs = c # rest"
    "columnsFrom (columnId c # ids) (paneIds c @ seen) vs = Some rest"
    by (auto split: option.splits)
  have "col_pos c"
    using c(1) by (auto simp: columnOf_def col_pos_def MIN_COLUMN_WIDTH_def
        dest: positiveNumbers_pos split: option.splits if_splits)
  then show ?case using Cons.IH [OF c(3)] c(2) by (simp add: cols_pos_def)
qed (simp add: cols_pos_def)

lemma readPanes_distinct:
  "readPanes acc ks vs = Some ps \<Longrightarrow> distinct (keys acc) \<Longrightarrow> distinct (keys ps)"
proof (induction acc ks vs arbitrary: ps rule: readPanes.induct)
  case (2 acc ks entry rest)
  then show ?case by (auto split: option.splits list.splits if_splits)
qed simp

lemma storedTab_ok:
  assumes "storedTab v = Some t"
  shows "distinct (keys (panes t)) \<and> focusedPaneId t \<in> set (keys (panes t)) \<and>
     pos_layout (layout t) \<and> distinct (leafIds (layout t)) \<and>
     set (leafIds (layout t)) = set (keys (panes t)) \<and> (\<forall>cs. columns t = Some cs \<longrightarrow> cols_pos cs)"
proof -
  obtain l entries where r: "Option.bind (member ''layout'' v) layoutNodeOf = Some l" "layout t = l"
    "readPanes [] [] entries = Some (panes t)" "distinct (leafIds l)"
    "length (leafIds l) = length (panes t)" "list_all (has_key (panes t)) (leafIds l)"
    "has_key (panes t) (focusedPaneId t)" "columns t = Option.bind (member ''columns'' v) columnsOf"
    using assms by (auto simp: storedTab_def simp del: has_key_iff split: option.splits if_splits)
  have keys: "distinct (keys (panes t))" using readPanes_distinct [OF r(3)] by simp
  have "set (leafIds l) \<subseteq> set (keys (panes t))" using r(6) by (auto simp: list_all_iff)
  moreover have "card (set (leafIds l)) = card (set (keys (panes t)))"
    using r(4,5) keys distinct_card [of "leafIds l"] distinct_card [of "keys (panes t)"] by simp
  ultimately have "set (leafIds l) = set (keys (panes t))" by (intro card_subset_eq) simp_all
  moreover have "pos_layout l"
    using r(1) by (auto simp: bind_eq_Some_conv intro: layoutNodeOf_pos)
  moreover have "cols_pos cs" if "columns t = Some cs" for cs
    using that r(8) by (auto simp: bind_eq_Some_conv columnsOf_def intro: columnsFrom_pos
        split: option.splits if_splits)
  ultimately show ?thesis using keys r by auto
qed

lemma recoverColumns_restored:
  assumes I: "supply_inv I" "I s" and t: "storedTab v = Some t"
  shows "wp (recoverColumns t) (\<lambda>t' s'. (tabId t' = tabId t \<and> restored_ok t') \<and> I s') s"
proof -
  note ok = storedTab_ok [OF t]
  let ?cs = "theColumns t"
  have pos: "cols_pos ?cs" using ok by (cases "columns t") (simp_all add: cols_pos_def)
  have ids: "leafIds (layout t) \<noteq> []" using ok by auto
  have recover: "wp (reconcileColumns ?cs (leafIds (layout t)))
      (\<lambda>r s'. (cols_ok r \<and> set (colIds r) = set (leafIds (layout t))) \<and> I s') s"
    by (rule wp_mono [OF reconcileColumns_wp [OF I pos]]) (use ids in simp)
  show ?thesis
  proof (cases "layoutMode t = Some Scrolling")
    case True
    then have "recoverColumns t = js_bind (reconcileColumns ?cs (leafIds (layout t)))
        (\<lambda>r. js_return (t\<lparr>columns := Some r, layout := columnsTree r\<rparr>))"
      by (auto simp: recoverColumns_def Let_def js_bind_def js_return_def fun_eq_iff
          split: option.split sum.split prod.split)
    moreover have "restored_ok (t\<lparr>columns := Some r, layout := columnsTree r\<rparr>)"
      if "cols_ok r" "set (colIds r) = set (leafIds (layout t))" for r
      using that ok columnsTree_spec [of r] by (simp add: restored_ok_def cols_ok_def wf_pos_layout)
    ultimately show ?thesis using recover by (auto elim!: wp_mono)
  next
    case False
    have "restored_ok (t\<lparr>columns := c\<rparr>)" for c using False ok by (simp add: restored_ok_def)
    then show ?thesis
      using False I recover by (cases "columns t") (auto simp: recoverColumns_def elim!: wp_mono)
  qed
qed

lemma decodeTabs_restored:
  assumes "supply_inv I" "I s" "distinct (map tabId acc)" "\<forall>t \<in> set acc. restored_ok t"
  shows "wp (decodeTabs acc drafts vs)
    (\<lambda>r s'. (case r of None \<Rightarrow> True | Some ts \<Rightarrow>
        distinct (map tabId ts) \<and> (\<forall>t \<in> set ts. restored_ok t)) \<and> I s') s"
  using assms(2-)
proof (induction vs arbitrary: acc drafts s)
  case (Cons v vs)
  show ?case
  proof (cases "storedTab v")
    case None
    then show ?thesis using Cons.prems by (simp add: decodeWorkbenchTab_def js_bind_return)
  next
    case (Some t)
    have "wp (case addDraftKeys drafts (draftWorkspaceKeys t') of None \<Rightarrow> js_return None
        | Some drafts' \<Rightarrow> decodeTabs (acc @ [t']) drafts' vs)
        (\<lambda>r s'. (case r of None \<Rightarrow> True | Some ts \<Rightarrow>
          distinct (map tabId ts) \<and> (\<forall>t \<in> set ts. restored_ok t)) \<and> I s') s'"
      if "tabId t' \<notin> tabId ` set acc" "restored_ok t'" "I s'" for t' s'
      using that Cons.prems by (auto intro!: Cons.IH split: option.split)
    then show ?thesis
      using Some
      by (auto simp: decodeWorkbenchTab_def Cons.prems(1)
          intro!: wp_mono [OF recoverColumns_restored [OF assms(1) Cons.prems(1) Some]])
  qed
qed simp

lemma deserialize_restored:
  assumes "supply_inv I" "I s"
  shows "wp (deserializeWorkbenchSnapshot raw)
    (\<lambda>r s'. (case r of None \<Rightarrow> True | Some snap \<Rightarrow> distinct (map tabId (tabs snap)) \<and>
        activeTabId snap \<in> tabId ` set (tabs snap) \<and> (\<forall>t \<in> set (tabs snap). restored_ok t)) \<and> I s') s"
proof (cases raw)
  case (Document v)
  have "wp (decodeTabs [] [] vs) (\<lambda>r s'. (case r of None \<Rightarrow> True | Some ts \<Rightarrow>
      distinct (map tabId ts) \<and> (\<forall>t \<in> set ts. restored_ok t)) \<and> I s') s" for vs
    using assms by (intro decodeTabs_restored) simp_all
  note decoded = wp_mono [OF this]
  show ?thesis
    using assms(2) Document
    by (auto simp: deserializeWorkbenchSnapshot_def decodeWorkbenchSnapshot_def intro!: decoded
        split: option.splits)
qed (use assms in \<open>simp add: deserializeWorkbenchSnapshot_def\<close>)

section \<open>What storage guarantees\<close>

lemma keys_differ: "WORKBENCH_PERSISTENCE_KEY \<noteq> WORKBENCH_PERSISTENCE_BACKUP_KEY"
  by (simp add: WORKBENCH_PERSISTENCE_KEY_def WORKBENCH_PERSISTENCE_BACKUP_KEY_def)

lemma writeWorkbenchSnapshot_wp:
  assumes I: "supply_inv I" "I s"
    and st: "storageReadable st" "\<And>k v. storageAccepts st k v"
  shows "wp (writeWorkbenchSnapshot snap st) (\<lambda>st' s'. (storageReadable st' \<and>
    storageAccepts st' = storageAccepts st \<and> storageItems st' WORKBENCH_PERSISTENCE_KEY = Some (Document (serializeWorkbenchSnapshot snap))) \<and>
    I s') s"
proof (cases "storageItems st WORKBENCH_PERSISTENCE_KEY")
  case None
  then show ?thesis using I st by (simp add: writeWorkbenchSnapshot_def setItem_def)
next
  case (Some raw)
  note read = wp_mono [OF deserialize_restored [OF I, of raw]]
  show ?thesis
    using Some st keys_differ
    by (auto simp: writeWorkbenchSnapshot_def setItem_def Let_def intro!: read)
qed

text \<open>
  C19: What is written is read back, for a workbench that is well formed and storable: its ids are
  not empty, its manual titles not blank, its columns and layout memories of the documented shape,
  no tab shows a workspace view or a draft twice, and no two drafts belong to one workspace. When
  the storage can be read and takes every write, then, whatever it held before, reading it gives the
  same active tab and the same tabs with the same panes, views, layout, focus, titles and layout
  memory; only columns that a tab keeps while it is not scrolling may have been reconciled with its
  panes.
\<close>

theorem persistence_roundtrip:
  assumes "wf_snapshot U snap" and "storable snap"
    and "storageReadable st" and "\<And>k v. storageAccepts st k v"
  shows "\<exists>st' s1 snap' s2. writeWorkbenchSnapshot snap st s = Inr (st', s1) \<and>
    readWorkbenchSnapshot (Some st') s1 = Inr (Some snap', s2) \<and>
    activeTabId snap' = activeTabId snap \<and> list_all2 same_work (tabs snap) (tabs snap')"
proof -
  obtain st' s1 where w: "writeWorkbenchSnapshot snap st s = Inr (st', s1)" "storageReadable st'"
    "storageItems st' WORKBENCH_PERSISTENCE_KEY = Some (Document (serializeWorkbenchSnapshot snap))"
    using writeWorkbenchSnapshot_wp [OF supply_inv_True TrueI assms(3,4), of snap s]
    unfolding wp_def by blast
  obtain snap' s2 where "decodeWorkbenchSnapshot (serializeWorkbenchSnapshot snap) s1 = Inr (Some snap', s2)"
    "activeTabId snap' = activeTabId snap" "list_all2 same_work (tabs snap) (tabs snap')"
    using decode_written [OF supply_inv_True TrueI assms(1,2), of s1] unfolding wp_def by blast
  then show ?thesis using w by (auto simp: readWorkbenchSnapshot_def deserializeWorkbenchSnapshot_def)
qed

definition ex_storage :: workbench_storage where
  "ex_storage = \<lparr>storageReadable = True, storageItems = Map.empty, storageAccepts = (\<lambda>_ _. True)\<rparr>"

lemma ex_storable: "storable ex_snap"
  by (simp add: storable_def storable_tab_def storable_shape_def ex_snap_def ex_tab1_def ex_tab2_def ex_view_def
      ex_agent_def ex_terminal_def uniqueKeys_def uniqueInTab_def isSessionViewTarget_def
      draftWorkspaceKeys_def)

theorem persistence_roundtrip_witness:
  "\<exists>st' s1 snap' s2. writeWorkbenchSnapshot ex_snap ex_storage counter_ids = Inr (st', s1) \<and>
    readWorkbenchSnapshot (Some st') s1 = Inr (Some snap', s2) \<and>
    activeTabId snap' = ''t1'' \<and> list_all2 same_work (tabs ex_snap) (tabs snap')"
  using persistence_roundtrip [OF ex_wf ex_storable, of ex_storage counter_ids]
  by (simp add: ex_storage_def) (simp add: ex_snap_def)

text \<open>
  C23: Reading never throws, and whatever the storage holds, it gives nothing or a workbench whose
  tabs have different ids, among them the active one, and show in their layout exactly their panes,
  each once, with positive sizes and the focus on one of them.
\<close>

theorem stored_wellformed:
  "\<exists>r s'. deserializeWorkbenchSnapshot raw s = Inr (r, s') \<and>
    (case r of None \<Rightarrow> True | Some snap \<Rightarrow> distinct (map tabId (tabs snap)) \<and>
       activeTabId snap \<in> tabId ` set (tabs snap) \<and> (\<forall>t \<in> set (tabs snap). restored_ok t))"
  using deserialize_restored [OF supply_inv_True TrueI, of raw s] unfolding wp_def by blast

definition ex_damaged :: json where
  "ex_damaged = JObj [(''version'', JNum 1), (''activeTabId'', JStr ''t1''), (''tabs'', JArr [JObj
     [(''id'', JStr ''t1''), (''layout'', JObj [(''type'', JStr ''leaf''), (''id'', JStr ''p1'')]),
      (''layoutMode'', JStr ''scrolling''), (''columns'', JStr ''damaged''),
      (''focusedPaneId'', JStr ''p1''), (''titleMode'', JStr ''auto''), (''titleOverride'', JNull),
      (''panes'', JArr [JArr [JStr ''p1'', JObj [(''id'', JStr ''v1''), (''definitionId'', JStr ''welcome''),
         (''target'', JObj [(''kind'', JStr ''welcome'')])]]])]])]"

lemma ex_damaged_read:
  "\<exists>t s. deserializeWorkbenchSnapshot (Document ex_damaged) counter_ids =
    Inr (Some \<lparr>tabs = [t], activeTabId = ''t1''\<rparr>, s) \<and> layoutMode t = Some Scrolling"
  by (simp add: ex_damaged_def deserializeWorkbenchSnapshot_def decodeWorkbenchSnapshot_def
      decodeWorkbenchTab_def storedTab_def array_member_def arrayOf_def layoutNodeOf.simps
      titleModeMember_def titleOverrideMember_def stringOf_def viewInstanceOf_def viewTargetOf_def
      definitionIdMember_def uniqueInTab_def layoutModeMember_def columnsOf_def layoutMemoryOf_def
      WORKBENCH_PERSISTENCE_VERSION_def recoverColumns_def reconcileColumns_def newColumn_def newTab_def
      has_key_def draftWorkspaceKeys_def js_simps counter_ids_def)

theorem stored_wellformed_witness:
  "\<exists>t s. deserializeWorkbenchSnapshot (Document ex_damaged) counter_ids =
      Inr (Some \<lparr>tabs = [t], activeTabId = ''t1''\<rparr>, s) \<and>
    layoutMode t = Some Scrolling \<and> restored_ok t"
  using stored_wellformed [of "Document ex_damaged" counter_ids] ex_damaged_read by auto
text \<open>
  Writes one after another; at each of them the storage may be blocked or refuse any item. What
  they keep of the storage \<open>old\<close> they found: a backup, or the document that no reading restores.
\<close>

definition writeLater ::
  "snapshot \<times> bool \<times> (string \<Rightarrow> stored_text \<Rightarrow> bool) \<Rightarrow> workbench_storage \<Rightarrow> workbench_storage js" where
  "writeLater w st = (case w of (snap, readable, accepts) \<Rightarrow>
     writeWorkbenchSnapshot snap (st\<lparr>storageReadable := readable, storageAccepts := accepts\<rparr>))"

definition unreadable :: "stored_text \<Rightarrow> bool" where
  "unreadable raw \<longleftrightarrow> (\<forall>s. \<exists>s1. deserializeWorkbenchSnapshot raw s = Inr (None, s1))"

definition keeps :: "workbench_storage \<Rightarrow> workbench_storage \<Rightarrow> bool" where
  "keeps old st \<longleftrightarrow> (case storageItems old WORKBENCH_PERSISTENCE_BACKUP_KEY of
     Some backup \<Rightarrow> storageItems st WORKBENCH_PERSISTENCE_BACKUP_KEY = Some backup
   | None \<Rightarrow> \<forall>raw. storageItems old WORKBENCH_PERSISTENCE_KEY = Some raw \<and> unreadable raw \<longrightarrow>
       storageItems st WORKBENCH_PERSISTENCE_BACKUP_KEY = Some raw \<or>
       storageItems st WORKBENCH_PERSISTENCE_BACKUP_KEY = None \<and>
       storageItems st WORKBENCH_PERSISTENCE_KEY = Some raw)"

lemma write_backup:
  "wp (writeWorkbenchSnapshot snap st) (\<lambda>st' s'.
     storageItems st WORKBENCH_PERSISTENCE_BACKUP_KEY \<noteq> None \<longrightarrow>
     storageItems st' WORKBENCH_PERSISTENCE_BACKUP_KEY = storageItems st WORKBENCH_PERSISTENCE_BACKUP_KEY) s"
proof (cases "storageItems st WORKBENCH_PERSISTENCE_KEY")
  case (Some raw)
  show ?thesis
    using Some keys_differ
    by (auto simp: writeWorkbenchSnapshot_def setItem_def Let_def
        intro!: wp_mono [OF deserialize_restored [OF supply_inv_True TrueI, of raw]])
qed (use keys_differ in \<open>simp add: writeWorkbenchSnapshot_def setItem_def\<close>)

lemma write_unreadable:
  assumes "storageItems st WORKBENCH_PERSISTENCE_KEY = Some raw" and "unreadable raw"
    and "storageItems st WORKBENCH_PERSISTENCE_BACKUP_KEY = None"
  shows "wp (writeWorkbenchSnapshot snap st) (\<lambda>st' s'.
     storageItems st' WORKBENCH_PERSISTENCE_BACKUP_KEY = Some raw \<or>
     storageItems st' WORKBENCH_PERSISTENCE_BACKUP_KEY = None \<and>
     storageItems st' WORKBENCH_PERSISTENCE_KEY = Some raw) s"
proof -
  obtain s1 where "deserializeWorkbenchSnapshot raw s = Inr (None, s1)"
    using assms(2) by (auto simp: unreadable_def)
  then show ?thesis
    using assms(1,3) keys_differ
    by (auto simp: wp_def writeWorkbenchSnapshot_def setItem_def js_bind_def js_return_def Let_def)
qed

lemma writeLater_keeps:
  assumes "keeps old st"
  shows "wp (writeLater w st) (\<lambda>st' s'. keeps old st') s"
proof -
  obtain snap readable accepts where w: "w = (snap, readable, accepts)" by (cases w)
  let ?st = "st\<lparr>storageReadable := readable, storageAccepts := accepts\<rparr>"
  show ?thesis
  proof (cases "storageItems st WORKBENCH_PERSISTENCE_BACKUP_KEY")
    case (Some b)
    show ?thesis
      unfolding writeLater_def w prod.case
      by (rule wp_mono [OF write_backup])
        (use assms Some in \<open>auto simp: keeps_def split: option.splits\<close>)
  next
    case None
    show ?thesis
    proof (cases "\<exists>raw. storageItems old WORKBENCH_PERSISTENCE_KEY = Some raw \<and> unreadable raw")
      case True
      then obtain raw where raw: "storageItems old WORKBENCH_PERSISTENCE_KEY = Some raw" "unreadable raw"
        by blast
      then have "storageItems ?st WORKBENCH_PERSISTENCE_KEY = Some raw"
        "storageItems ?st WORKBENCH_PERSISTENCE_BACKUP_KEY = None"
        "storageItems old WORKBENCH_PERSISTENCE_BACKUP_KEY = None"
        using assms None by (auto simp: keeps_def split: option.splits)
      then show ?thesis
        unfolding writeLater_def w prod.case
        by (intro wp_mono [OF write_unreadable [OF _ raw(2)]])
          (use raw(1) in \<open>auto simp: keeps_def\<close>)
    next
      case False
      then show ?thesis
        unfolding writeLater_def w prod.case
        by (intro wp_mono [OF write_backup]) (use assms None in \<open>auto simp: keeps_def split: option.splits\<close>)
    qed
  qed
qed

interpretation storage: stepper writeLater "\<lambda>st s. keeps old st" for old
  by unfold_locales (rule writeLater_keeps)

text \<open>
  C24: The first document that cannot be read is never lost, and neither is a backup: whatever is
  written afterwards, and whichever of the writes a blocked or full storage refuses, a backup that
  is there stays as it is; and when there is none, an unreadable document is in the backup or still
  in its place. No write throws. (While a backup is there, it is not replaced: a second unreadable
  document is overwritten.)
\<close>

theorem unreadable_kept:
  "\<exists>st' s'. run_all writeLater ws st s = Inr (st', s') \<and>
     (case storageItems st WORKBENCH_PERSISTENCE_BACKUP_KEY of
        Some backup \<Rightarrow> storageItems st' WORKBENCH_PERSISTENCE_BACKUP_KEY = Some backup
      | None \<Rightarrow> \<forall>raw. storageItems st WORKBENCH_PERSISTENCE_KEY = Some raw \<and> unreadable raw \<longrightarrow>
          storageItems st' WORKBENCH_PERSISTENCE_BACKUP_KEY = Some raw \<or>
          storageItems st' WORKBENCH_PERSISTENCE_BACKUP_KEY = None \<and>
          storageItems st' WORKBENCH_PERSISTENCE_KEY = Some raw)"
  using storage.run_returns [of st st ws s] unfolding keeps_def by (auto split: option.splits)

theorem unreadable_kept_witness:
  "\<exists>st' s'. run_all writeLater [(ex_snap, True, \<lambda>_ _. False), (ex_snap, True, \<lambda>_ _. True)]
      (ex_storage\<lparr>storageItems := [WORKBENCH_PERSISTENCE_KEY \<mapsto> Unreadable ''{'']\<rparr>) counter_ids =
      Inr (st', s') \<and>
     (storageItems st' WORKBENCH_PERSISTENCE_BACKUP_KEY = Some (Unreadable ''{'') \<or>
      storageItems st' WORKBENCH_PERSISTENCE_BACKUP_KEY = None \<and>
      storageItems st' WORKBENCH_PERSISTENCE_KEY = Some (Unreadable ''{''))"
proof -
  have "unreadable (Unreadable ''{'')"
    by (simp add: unreadable_def deserializeWorkbenchSnapshot_def js_return_def)
  then show ?thesis
    using unreadable_kept [of "[(ex_snap, True, \<lambda>_ _. False), (ex_snap, True, \<lambda>_ _. True)]"
        "ex_storage\<lparr>storageItems := [WORKBENCH_PERSISTENCE_KEY \<mapsto> Unreadable ''{'']\<rparr>" counter_ids]
      keys_differ by simp
qed

section \<open>What is not restored\<close>

lemma addDraftKeys_None:
  "\<not> distinct ks \<or> set ks \<inter> set seen \<noteq> {} \<Longrightarrow> addDraftKeys seen ks = None"
proof (induction ks arbitrary: seen)
  case (Cons k ks)
  then have "k \<in> set seen \<or> \<not> distinct ks \<or> set ks \<inter> set (k # seen) \<noteq> {}" by auto
  then show ?case using Cons.IH [of "k # seen"] by (cases "k \<in> set seen") simp_all
qed simp

lemma decodeTabs_rejected:
  assumes "\<forall>t \<in> set ts. wf_tab t \<and> storable_shape t"
    and "(\<exists>t \<in> set ts. \<not> distinct (uniqueKeys (panes t))) \<or> \<not> distinct (concat (map draftWorkspaceKeys ts)) \<or>
      set (concat (map draftWorkspaceKeys ts)) \<inter> set drafts \<noteq> {}"
  shows "wp (decodeTabs acc drafts (map tabValue ts)) (\<lambda>r s'. r = None) s"
  using assms
proof (induction ts arbitrary: acc drafts s)
  case (Cons t ts)
  show ?case
  proof (cases "distinct (uniqueKeys (panes t))")
    case False
    then show ?thesis using Cons.prems(1) by (simp add: decodeWorkbenchTab_def storedTab_duplicate)
  next
    case unique: True
    have ts: "wf_tab t" "storable_tab t" using Cons.prems unique by (simp_all add: storable_tab_def)
  have decode: "decodeWorkbenchTab (tabValue t) = js_bind (recoverColumns t) (\<lambda>t'. js_return (Some t'))"
    using ts by (simp add: decodeWorkbenchTab_def storedTab_tabValue)
  show ?thesis
    unfolding list.map decodeTabs.simps decode wp_bind wp_return
  proof (rule wp_mono [OF recoverColumns_written [OF supply_inv_True TrueI ts]])
    fix t' s' assume "same_work t t' \<and> True"
    then obtain cs where eq: "t' = t\<lparr>columns := cs\<rparr>" by (auto elim: same_workE)
    let ?ks = "draftWorkspaceKeys t"
    have "wp (case addDraftKeys drafts ?ks of None \<Rightarrow> js_return None
        | Some drafts' \<Rightarrow> decodeTabs (acc @ [t']) drafts' (map tabValue ts)) (\<lambda>r s'. r = None) s'"
    proof (cases "distinct ?ks \<and> set ?ks \<inter> set drafts = {}")
      case True
      let ?rest = "concat (map draftWorkspaceKeys ts)"
      have "(\<exists>t \<in> set ts. \<not> distinct (uniqueKeys (panes t))) \<or> \<not> distinct ?rest \<or> set ?rest \<inter> set (rev ?ks @ drafts) \<noteq> {}"
        using Cons.prems(2) True unique by auto
      then have "wp (decodeTabs (acc @ [t']) (rev ?ks @ drafts) (map tabValue ts)) (\<lambda>r s'. r = None) s'"
        using Cons.prems(1) by (intro Cons.IH) simp_all
      then show ?thesis using True by (simp add: addDraftKeys_eq)
    next
      case False
      then show ?thesis by (simp add: addDraftKeys_None)
    qed
    then show "wp (case Some t' of None \<Rightarrow> js_return None
        | Some t \<Rightarrow> if tabId t \<in> tabId ` set acc then js_return None
          else (case addDraftKeys drafts (draftWorkspaceKeys t) of None \<Rightarrow> js_return None
            | Some drafts' \<Rightarrow> decodeTabs (acc @ [t]) drafts' (map tabValue ts))) (\<lambda>r s'. r = None) s'"
      unfolding eq by simp
  qed
qed
qed simp

text \<open>When a written document is read back as nothing: two views that a tab may show once, or two drafts.\<close>

definition unrestorable :: "snapshot \<Rightarrow> bool" where
  "unrestorable snap \<longleftrightarrow> (\<exists>t \<in> set (tabs snap). \<not> distinct (uniqueKeys (panes t))) \<or>
     \<not> distinct (concat (map draftWorkspaceKeys (tabs snap)))"

lemma read_written:
  assumes "wf_snapshot U snap" "\<forall>t \<in> set (tabs snap). storable_shape t"
  shows "wp (deserializeWorkbenchSnapshot (Document (serializeWorkbenchSnapshot snap)))
    (\<lambda>r s'. r = None \<longleftrightarrow> unrestorable snap) s"
proof (cases "unrestorable snap")
  case True
  then have "wp (decodeTabs [] [] (map tabValue (tabs snap))) (\<lambda>r s'. r = None) s"
    using assms by (intro decodeTabs_rejected) (auto simp: wf_snapshot_def unrestorable_def)
  then show ?thesis
    using True by (auto simp: deserializeWorkbenchSnapshot_def decodeWorkbenchSnapshot_def
        serializeWorkbenchSnapshot_def elim!: wp_mono)
next
  case False
  then have "storable snap"
    using assms(2) by (auto simp: storable_def storable_tab_def unrestorable_def)
  from decode_written [OF supply_inv_True TrueI assms(1) this, of s] show ?thesis
    using False by (auto simp: deserializeWorkbenchSnapshot_def elim!: wp_mono)
qed

text \<open>
  C22: When a workbench is written and read back, all of it is restored or nothing is: nothing
  exactly when some tab shows a workspace view or a draft twice, or when two drafts belong to one
  workspace. The operations allow both.
\<close>

theorem restored_exactly:
  assumes "wf_snapshot U snap" and "\<forall>t \<in> set (tabs snap). storable_shape t"
  shows "\<exists>r s'. deserializeWorkbenchSnapshot (Document (serializeWorkbenchSnapshot snap)) s = Inr (r, s') \<and>
    (r = None \<longleftrightarrow> (\<exists>t \<in> set (tabs snap). \<not> distinct (uniqueKeys (panes t))) \<or>
       \<not> distinct (concat (map draftWorkspaceKeys (tabs snap))))"
  using read_written [OF assms, of s] unfolding wp_def unrestorable_def by blast

text \<open>
  The files of a workspace are dragged from the sidebar beside the pane that shows them. The drop is
  accepted, although one view of them exists per tab; the written workbench is not restored.
\<close>

definition ex_files :: view_target where
  "ex_files = TWorkspace ''env'' ''ws'' None None (Some ''fileView'')"

definition ex_dropped :: "js_error + snapshot \<times> ids" where
  "ex_dropped = js_bind emptyWorkbenchSnapshot (run_all runOp
     [OpOpen ex_files, OpDrop (FromSidebar ex_files) (OnPane ''#i'' ''#'' (Edge ERight))]) counter_ids"

lemma new_workbench_wf:
  assumes "js_bind emptyWorkbenchSnapshot (run_all runOp ops) counter_ids = Inr (snap, s)"
  shows "wf_snapshot True snap"
proof -
  have "fresh counter_ids {}" by (rule counter_ids_fresh) simp
  then have "wp (js_bind emptyWorkbenchSnapshot (run_all runOp ops)) (good True) counter_ids"
    unfolding wp_bind by (intro wp_mono [OF emptyWorkbenchSnapshot_wp] wb.run_inv) blast+
  from wp_result [OF this assms] show ?thesis by (simp add: good_def)
qed

lemmas run_simps = counter_ids_def emptyWorkbenchSnapshot_def welcomeTab_def newTab_def
  viewInstance_def js_simps presentationTab_def applyOpenTarget_def existingDraft_def
  getActiveTab_def findTab_def findPaneByTarget_def Let_def updateTab_def reconcileTab_def replaceTab_def

lemma jsonArray_not_welcome [simp]: "jsonArray xs \<noteq> ''welcome''" "''welcome'' \<noteq> jsonArray xs"
  by (simp_all add: jsonArray_def)

lemma ex_dropped_run:
  "\<exists>snap s. ex_dropped = Inr (snap, s) \<and> (\<forall>t \<in> set (tabs snap). storable_shape t) \<and>
     (\<exists>t \<in> set (tabs snap). \<not> distinct (uniqueKeys (panes t)))"
  by (simp add: ex_dropped_def ex_files_def run_simps applyViewDrop_def dropSidebarOnPane_def
      takeDraggedSessionView_def findSessionViewPane_def isSessionViewTarget_def
      placeSidebarViewInPane_def placeViewInTab_def placedLayout_def placePane_def
      placeLayout_def leaf_def AList.update.simps)
    (simp add: storable_shape_def uniqueKeys_def uniqueInTab_def isSessionViewTarget_def)

theorem restored_exactly_witness:
  "\<exists>snap s1 s2. ex_dropped = Inr (snap, s1) \<and>
     deserializeWorkbenchSnapshot (Document (serializeWorkbenchSnapshot snap)) s1 = Inr (None, s2)"
proof -
  obtain snap s where run: "ex_dropped = Inr (snap, s)" "\<forall>t \<in> set (tabs snap). storable_shape t"
    "\<exists>t \<in> set (tabs snap). \<not> distinct (uniqueKeys (panes t))" using ex_dropped_run by blast
  have "wf_snapshot True snap" using run(1) unfolding ex_dropped_def by (rule new_workbench_wf)
  from restored_exactly [OF this run(2), of s] run(1,3) show ?thesis by blast
qed

text \<open>Two new sessions that are started in one workspace.\<close>

definition ex_draft :: "ident \<Rightarrow> view_target" where
  "ex_draft d = TNewAgentSession ''env'' ''ws'' d None"

definition ex_drafts :: "js_error + snapshot \<times> ids" where
  "ex_drafts = js_bind emptyWorkbenchSnapshot
     (run_all runOp [OpOpen (ex_draft ''d1''), OpOpen (ex_draft ''d2'')]) counter_ids"

lemma ex_drafts_run:
  "\<exists>snap s. ex_drafts = Inr (snap, s) \<and> (\<forall>t \<in> set (tabs snap). storable_shape t) \<and>
     concat (map draftWorkspaceKeys (tabs snap)) = [''env:ws'', ''env:ws'']"
  by (simp add: ex_drafts_def ex_draft_def run_simps findNewAgentSessionPane_def isDraft_def
      insertPresentationTab_def insert_at_def)
    (simp add: storable_shape_def draftWorkspaceKeys_def uniqueKeys_def)

theorem drafts_lost:
  "\<exists>snap s1 s2. ex_drafts = Inr (snap, s1) \<and>
     deserializeWorkbenchSnapshot (Document (serializeWorkbenchSnapshot snap)) s1 = Inr (None, s2)"
proof -
  obtain snap s where run: "ex_drafts = Inr (snap, s)" "\<forall>t \<in> set (tabs snap). storable_shape t"
    "concat (map draftWorkspaceKeys (tabs snap)) = [''env:ws'', ''env:ws'']"
    using ex_drafts_run by blast
  have "wf_snapshot True snap" using run(1) unfolding ex_drafts_def by (rule new_workbench_wf)
  from read_written [OF this run(2), of s] run(1,3) show ?thesis by (auto simp: wp_def unrestorable_def)
qed

end
