(* ===== verification/WorkbenchSupply.thy ===== *)
theory WorkbenchSupply
  imports WorkbenchReach
begin

text \<open>
  Every operation of the workbench only takes identifiers off the supply: \<open>draws m\<close>. So whatever
  the identifiers to come were disjoint from before an operation, they still are after it, and an
  operation can be interleaved with results that were computed earlier.
\<close>

named_theorems draws_intro

definition draws :: "'a js \<Rightarrow> bool" where
  "draws m \<longleftrightarrow> (\<forall>s x s'. m s = Inr (x, s') \<longrightarrow> (\<exists>n. s' = sdrop n s))"

lemma fresh_sdrop: "fresh s A \<Longrightarrow> fresh (sdrop n s) A"
  by (induction n arbitrary: s) (auto intro: fresh_stl')

lemma wp_draws:
  assumes "draws m" "wp m Q s" "\<And>A. A \<in> \<A> \<Longrightarrow> fresh s A"
  shows "wp m (\<lambda>x s'. Q x s' \<and> (\<forall>A \<in> \<A>. fresh s' A)) s"
  using assms fresh_sdrop unfolding wp_def draws_def by metis

section \<open>Combinators\<close>

lemma draws_return [draws_intro]: "draws (js_return x)"
  by (auto simp: draws_def js_return_def intro: exI [of _ 0])

lemma draws_throw [draws_intro]: "draws (js_throw msg)"
  by (simp add: draws_def js_throw_def)

lemma draws_lift [draws_intro]: "draws (js_lift r)"
  by (cases r) (auto simp: draws_def js_lift_def intro: exI [of _ 0])

lemma draws_generateId [draws_intro]: "draws generateId"
  by (auto simp: draws_def generateId_def intro: exI [of _ "Suc 0"])

lemma draws_bind [draws_intro]:
  assumes "draws m" "\<And>x. draws (f x)"
  shows "draws (js_bind m f)"
  unfolding draws_def
proof (intro allI impI)
  fix s y s' assume "js_bind m f s = Inr (y, s')"
  then obtain x t where "m s = Inr (x, t)" "f x t = Inr (y, s')"
    by (auto simp: js_bind_def split: sum.splits prod.splits)
  moreover obtain i where "t = sdrop i s" using calculation(1) assms(1) unfolding draws_def by blast
  moreover obtain k where "s' = sdrop k t" using calculation(2) assms(2) unfolding draws_def by blast
  ultimately show "\<exists>n. s' = sdrop n s" using sdrop_add by metis
qed

lemma draws_map [draws_intro]: "(\<And>x. draws (f x)) \<Longrightarrow> draws (js_map f xs)"
  by (induction xs) (auto intro!: draws_intro)

lemma draws_map_in: "(\<And>x. x \<in> set xs \<Longrightarrow> draws (f x)) \<Longrightarrow> draws (js_map f xs)"
  by (induction xs) (auto intro!: draws_intro)

lemma draws_cases [draws_intro]:
  "draws m \<Longrightarrow> draws m' \<Longrightarrow> draws (if b then m else m')"
  "draws m \<Longrightarrow> (\<And>y. draws (f y)) \<Longrightarrow> draws (case x of None \<Rightarrow> m | Some y \<Rightarrow> f y)"
  "(\<And>a b. draws (g a b)) \<Longrightarrow> draws (case p of (a, b) \<Rightarrow> g a b)"
  "draws m \<Longrightarrow> (\<And>y ys. draws (h y ys)) \<Longrightarrow> draws (case xs of [] \<Rightarrow> m | y # ys \<Rightarrow> h y ys)"
  by (auto split: option.split prod.split list.split)

lemma draws_let [draws_intro]: "(\<And>x. draws (f x)) \<Longrightarrow> draws (Let y f)"
  by (simp add: Let_def)

lemma draws_zone [draws_intro]:
  "draws m \<Longrightarrow> (\<And>e. draws (f e)) \<Longrightarrow> draws (case z of Replace \<Rightarrow> m | Edge e \<Rightarrow> f e)"
  by (cases z) auto

lemma draws_target [draws_intro]:
  "(\<And>t p z. draws (f t p z)) \<Longrightarrow> (\<And>t. draws (g t)) \<Longrightarrow> (\<And>i. draws (h i)) \<Longrightarrow>
     draws (case target of OnPane t p z \<Rightarrow> f t p z | OnExistingTab t \<Rightarrow> g t | OnNewTab i \<Rightarrow> h i)"
  by (cases target) auto

lemma draws_source [draws_intro]:
  "(\<And>g. draws (f g)) \<Longrightarrow> (\<And>t p. draws (g t p)) \<Longrightarrow> (\<And>t. draws (h t)) \<Longrightarrow>
     draws (case source of FromSidebar g \<Rightarrow> f g | FromPane t p \<Rightarrow> g t p | FromTab t \<Rightarrow> h t)"
  by (cases source) auto

lemma draws_number [draws_intro]:
  "(\<And>r. draws (f r)) \<Longrightarrow> draws m \<Longrightarrow> draws (case z of Finite r \<Rightarrow> f r | NotFinite \<Rightarrow> m)"
  by (cases z) auto

section \<open>Operations\<close>

lemma draws_splitPane [draws_intro]: "draws (splitPane l f d n)"
  by (induction l) (auto intro!: draws_intro draws_map_in split: option.split simp: Let_def)

lemma draws_wrapBeside [draws_intro]: "draws (wrapBeside l f n d p)"
  by (induction l) (auto intro!: draws_intro draws_map_in)

lemma draws_newTab [draws_intro]: "draws (newTab x1)"
  unfolding newTab_def Let_def by (intro draws_intro)

lemma draws_viewInstance [draws_intro]: "draws (viewInstance x1)"
  unfolding viewInstance_def Let_def by (intro draws_intro)

lemma draws_welcomeTab [draws_intro]: "draws welcomeTab"
  unfolding welcomeTab_def Let_def by (intro draws_intro)

lemma draws_emptyWorkbenchSnapshot [draws_intro]: "draws emptyWorkbenchSnapshot"
  unfolding emptyWorkbenchSnapshot_def Let_def by (intro draws_intro)

lemma draws_newColumn [draws_intro]: "draws (newColumn x1)"
  unfolding newColumn_def Let_def by (intro draws_intro)

lemma draws_reconcileColumns [draws_intro]: "draws (reconcileColumns x1 x2)"
  unfolding reconcileColumns_def Let_def by (intro draws_intro)

lemma draws_placeLayout [draws_intro]: "draws (placeLayout x1 x2 x3 x4)"
  unfolding placeLayout_def Let_def by (intro draws_intro)

lemma draws_movePane [draws_intro]: "draws (movePane x1 x2 x3 x4)"
  unfolding movePane_def Let_def by (intro draws_intro)

lemma draws_placePane [draws_intro]: "draws (placePane x1 x2 x3 x4)"
  unfolding placePane_def Let_def by (intro draws_intro)

lemma draws_placeInColumns [draws_intro]: "draws (placeInColumns x1 x2 x3 x4)"
  unfolding placeInColumns_def Let_def by (intro draws_intro)

lemma draws_addMissing [draws_intro]: "draws (addMissing tree ids)"
  by (induction tree ids rule: addMissing.induct) (auto intro!: draws_intro)

lemma draws_reconcileBsp [draws_intro]: "draws (reconcileBsp x1 x2)"
  unfolding reconcileBsp_def Let_def by (intro draws_intro)

lemma draws_reconcileTab [draws_intro]: "draws (reconcileTab x1)"
  unfolding reconcileTab_def Let_def by (intro draws_intro)

lemma draws_updateTab [draws_intro]: "draws (updateTab x1 x2)"
  unfolding updateTab_def Let_def by (intro draws_intro)

lemma draws_clearedTab [draws_intro]: "draws (clearedTab x1)"
  unfolding clearedTab_def Let_def by (intro draws_intro)

lemma draws_placedLayout [draws_intro]: "draws (placedLayout x1 x2 x3 x4)"
  unfolding placedLayout_def Let_def by (intro draws_intro)

lemma draws_insertPresentationTab [draws_intro]: "draws (insertPresentationTab x1 x2 x3 x4)"
  unfolding insertPresentationTab_def Let_def by (intro draws_intro)

lemma draws_applyCreateTab [draws_intro]: "draws (applyCreateTab x1)"
  unfolding applyCreateTab_def Let_def by (intro draws_intro)

lemma draws_applyRenameTab [draws_intro]: "draws (applyRenameTab x1 x2 x3)"
  unfolding applyRenameTab_def Let_def by (intro draws_intro)

lemma draws_removeViewFromTab [draws_intro]: "draws (removeViewFromTab x1 x2)"
  unfolding removeViewFromTab_def Let_def by (intro draws_intro)

lemma draws_applySetLayoutMode [draws_intro]: "draws (applySetLayoutMode x1 x2)"
  unfolding applySetLayoutMode_def Let_def by (intro draws_intro)

lemma draws_applyColumnChange [draws_intro]: "draws (applyColumnChange x1 x2 x3)"
  unfolding applyColumnChange_def Let_def by (intro draws_intro)

lemma draws_applyMoveInColumn [draws_intro]: "draws (applyMoveInColumn x1 x2 x3)"
  unfolding applyMoveInColumn_def Let_def by (intro draws_intro)

lemma draws_applySetFocused [draws_intro]: "draws (applySetFocused x1 x2)"
  unfolding applySetFocused_def Let_def by (intro draws_intro)

lemma draws_applySetSplitRatio [draws_intro]: "draws (applySetSplitRatio x1 x2 x3 x4)"
  unfolding applySetSplitRatio_def Let_def by (intro draws_intro)

lemma draws_placeViewInTab [draws_intro]: "draws (placeViewInTab x1 x2 x3 x4 x5)"
  unfolding placeViewInTab_def Let_def by (intro draws_intro)

lemma draws_detachView [draws_intro]: "draws (detachView x1 x2)"
  unfolding detachView_def Let_def by (intro draws_intro)

lemma draws_placeDetachedViewBeside [draws_intro]: "draws (placeDetachedViewBeside x1 x2 x3 x4)"
  unfolding placeDetachedViewBeside_def Let_def by (intro draws_intro)

lemma draws_applyOpenTarget [draws_intro]: "draws (applyOpenTarget x1 x2)"
  unfolding applyOpenTarget_def Let_def by (intro draws_intro)

lemma draws_applyOpenDeepLinkTarget [draws_intro]: "draws (applyOpenDeepLinkTarget x1 x2)"
  unfolding applyOpenDeepLinkTarget_def Let_def by (intro draws_intro)

lemma draws_applySplitPane [draws_intro]: "draws (applySplitPane x1 x2 x3 x4)"
  unfolding applySplitPane_def Let_def by (intro draws_intro)

lemma draws_applySplitFocused [draws_intro]: "draws (applySplitFocused x1 x2 x3)"
  unfolding applySplitFocused_def Let_def by (intro draws_intro)

lemma draws_applyClosePane [draws_intro]: "draws (applyClosePane x1 x2)"
  unfolding applyClosePane_def Let_def by (intro draws_intro)

lemma draws_applyReplacePaneTarget [draws_intro]: "draws (applyReplacePaneTarget x1 x2 x3)"
  unfolding applyReplacePaneTarget_def Let_def by (intro draws_intro)

lemma draws_takeDraggedSessionView [draws_intro]: "draws (takeDraggedSessionView x1 x2)"
  unfolding takeDraggedSessionView_def Let_def by (intro draws_intro)

lemma draws_openSidebarViewInTab [draws_intro]: "draws (openSidebarViewInTab x1 x2 x3)"
  unfolding openSidebarViewInTab_def Let_def by (intro draws_intro)

lemma draws_placeSidebarViewInPane [draws_intro]: "draws (placeSidebarViewInPane x1 x2 x3 x4 x5)"
  unfolding placeSidebarViewInPane_def Let_def by (intro draws_intro)

lemma draws_dropSidebarOnTab [draws_intro]: "draws (dropSidebarOnTab x1 x2 x3)"
  unfolding dropSidebarOnTab_def Let_def by (intro draws_intro)

lemma draws_dropSidebarOnNewTab [draws_intro]: "draws (dropSidebarOnNewTab x1 x2 x3)"
  unfolding dropSidebarOnNewTab_def Let_def by (intro draws_intro)

lemma draws_dropSidebarOnPane [draws_intro]: "draws (dropSidebarOnPane x1 x2 x3 x4 x5)"
  unfolding dropSidebarOnPane_def Let_def by (intro draws_intro)

lemma draws_dropTabOnPane [draws_intro]: "draws (dropTabOnPane x1 x2 x3 x4 x5 x6)"
  unfolding dropTabOnPane_def Let_def by (intro draws_intro)

lemma draws_dropTab [draws_intro]: "draws (dropTab x1 x2 x3)"
  unfolding dropTab_def Let_def by (intro draws_intro)

lemma draws_dropPaneOnPane [draws_intro]: "draws (dropPaneOnPane x1 x2 x3 x4 x5 x6)"
  unfolding dropPaneOnPane_def Let_def by (intro draws_intro)

lemma draws_dropPaneOnTab [draws_intro]: "draws (dropPaneOnTab x1 x2 x3 x4)"
  unfolding dropPaneOnTab_def Let_def by (intro draws_intro)

lemma draws_dropPaneOnNewTab [draws_intro]: "draws (dropPaneOnNewTab x1 x2 x3 x4)"
  unfolding dropPaneOnNewTab_def Let_def by (intro draws_intro)

lemma draws_applyViewDrop [draws_intro]: "draws (applyViewDrop x1 x2 x3)"
  unfolding applyViewDrop_def Let_def by (intro draws_intro)

lemma draws_removePaneIdsFromTab [draws_intro]: "draws (removePaneIdsFromTab x1 x2)"
  unfolding removePaneIdsFromTab_def Let_def by (intro draws_intro)

lemma draws_settleEmptied [draws_intro]: "draws (settleEmptied x1 x2 x3 x4)"
  unfolding settleEmptied_def Let_def by (intro draws_intro)

lemma draws_removePaneIdsFromTabs [draws_intro]: "draws (removePaneIdsFromTabs x1 x2 x3)"
  unfolding removePaneIdsFromTabs_def Let_def by (intro draws_intro)

lemma draws_applyRemoveMatchingViews [draws_intro]: "draws (applyRemoveMatchingViews x1 x2 x3)"
  unfolding applyRemoveMatchingViews_def Let_def by (intro draws_intro)

lemma draws_applyRemoveSessionViews [draws_intro]: "draws (applyRemoveSessionViews x1 x2)"
  unfolding applyRemoveSessionViews_def Let_def by (intro draws_intro)

lemma draws_applyDedupeSessionViews [draws_intro]: "draws (applyDedupeSessionViews x1)"
  unfolding applyDedupeSessionViews_def Let_def by (intro draws_intro)

lemma draws_applyRemoveWorkspaceViews [draws_intro]: "draws (applyRemoveWorkspaceViews x1)"
  unfolding applyRemoveWorkspaceViews_def Let_def by (intro draws_intro)

lemma draws_applyRemoveNewAgentSessionViews [draws_intro]: "draws (applyRemoveNewAgentSessionViews x1 x2 x3 x4)"
  unfolding applyRemoveNewAgentSessionViews_def Let_def by (intro draws_intro)

lemma draws_applyPruneWorkspaceViews [draws_intro]: "draws (applyPruneWorkspaceViews x1 x2 x3)"
  unfolding applyPruneWorkspaceViews_def Let_def by (intro draws_intro)

lemma draws_runOp [draws_intro]: "draws (runOp x snap)"
  by (cases x) (auto intro!: draws_intro)

end
