(* ===== verification/WorkbenchStore.thy ===== *)
theory WorkbenchStore
  imports WorkbenchPersistence WorkbenchSupply
begin

text \<open>
  The store of the workbench (\<open>apps/web/src/workbench/workbenchStore.ts\<close>): the snapshot with the
  tabs that are collapsing. A tab that is closed is marked first and removed by a timer when its
  animation has ended; meanwhile any other command may run. A drop is previewed against the
  snapshot of the moment and committed later, if the snapshot is still that one. The delays of the
  timers depend on the motion settings, so the pending removals may fire in any order.

  Whether a list of tabs is still the same array is told by its version, which counts the lists
  that certainly are new ones. The subscription that writes each new snapshot is added in
  \<open>WorkbenchWindow\<close>; the asynchronous close guards are not part of the model.
\<close>

section \<open>State\<close>

record removal_task =
  taskTabIds :: "ident list"
  taskNotifies :: bool

text \<open>
  A previewed drop: the snapshot that it leads to, and what the store was like. Most results are
  built by spreading the whole store, so that they also carry the closing tabs of that moment.
\<close>

record drop_preview =
  previewResult :: snapshot
  previewTabsVersion :: nat
  previewActiveTabId :: ident
  previewClosing :: "ident list option"

record workbench_store =
  storeSnapshot :: snapshot
  tabsVersion :: nat
  focusRequestId :: nat
  closingTabIds :: "ident list"
  closeTimers :: "removal_task list"
  previews :: "drop_preview list"
  closedViews :: "view_target list list"

text \<open>A new snapshot; its tabs are a new list when they differ, or when the code builds a new one.\<close>

definition withSnapshot :: "bool \<Rightarrow> snapshot \<Rightarrow> workbench_store \<Rightarrow> workbench_store" where
  "withSnapshot newTabs snap st = st\<lparr>storeSnapshot := snap,
     tabsVersion := tabsVersion st + (if newTabs \<or> tabs snap \<noteq> tabs (storeSnapshot st) then 1 else 0)\<rparr>"

text \<open>What the listeners are told: the targets of the views that are gone.\<close>

definition snapshotViews :: "snapshot \<Rightarrow> view_instance list" where
  "snapshotViews snap = concat (map (\<lambda>t. map snd (panes t)) (tabs snap))"

definition notifyClosedViews :: "snapshot \<Rightarrow> snapshot \<Rightarrow> workbench_store \<Rightarrow> workbench_store" where
  "notifyClosedViews before after st =
     (let removed = map viewTarget (filter (\<lambda>v. viewId v \<notin> viewId ` set (snapshotViews after))
            (snapshotViews before)) in
      if removed \<noteq> [] then st\<lparr>closedViews := closedViews st @ [removed]\<rparr> else st)"

section \<open>Closing tabs\<close>

definition activeTabIdAfterMarking :: "snapshot \<Rightarrow> ident list \<Rightarrow> js_error + ident" where
  "activeTabIdAfterMarking snap closing =
     (let survivors = filter (\<lambda>t. tabId t \<notin> set closing) (tabs snap) in
      if activeTabId snap \<in> set closing \<and> survivors \<noteq> []
      then activeTabIdAfterClose snap survivors (set closing)
      else Inr (activeTabId snap))"

text \<open>The closing tabs with those of the given tabs that exist and are not closing yet.\<close>

fun addClosing :: "snapshot \<Rightarrow> ident list \<Rightarrow> ident list \<Rightarrow> ident list" where
  "addClosing snap closing [] = closing"
| "addClosing snap closing (i # rest) =
     (if i \<in> set closing \<or> i \<notin> tabId ` set (tabs snap) then addClosing snap closing rest
      else addClosing snap (closing @ [i]) rest)"

definition markTabsClosing :: "workbench_store \<Rightarrow> ident list \<Rightarrow> workbench_store option js" where
  "markTabsClosing st tabIds =
     (let closing = addClosing (storeSnapshot st) (closingTabIds st) tabIds in
      if closing = closingTabIds st then js_return None
      else js_bind (js_lift (activeTabIdAfterMarking (storeSnapshot st) closing)) (\<lambda>active.
        js_return (Some (st\<lparr>closingTabIds := closing,
          storeSnapshot := (storeSnapshot st)\<lparr>activeTabId := active\<rparr>\<rparr>))))"

definition scheduleTabRemoval :: "ident list \<Rightarrow> bool \<Rightarrow> workbench_store \<Rightarrow> workbench_store" where
  "scheduleTabRemoval tabIds notifyRemoved st =
     st\<lparr>closeTimers := closeTimers st @ [\<lparr>taskTabIds = tabIds, taskNotifies = notifyRemoved\<rparr>]\<rparr>"

text \<open>What the timer does when the animation has ended.\<close>

definition removeClosedTabs :: "removal_task \<Rightarrow> workbench_store \<Rightarrow> workbench_store js" where
  "removeClosedTabs task st =
     (let previous = storeSnapshot st;
          closing = filter (\<lambda>i. i \<in> set (closingTabIds st)) (taskTabIds task);
          st' = st\<lparr>closingTabIds := filter (\<lambda>i. i \<notin> set (taskTabIds task)) (closingTabIds st)\<rparr>;
          tabs' = filter (\<lambda>t. tabId t \<notin> set closing) (tabs previous);
          finish = (\<lambda>snap. js_return
            (let st'' = withSnapshot True snap st' in
             if taskNotifies task then notifyClosedViews previous snap st'' else st'')) in
      if closing = [] then js_return st'
      else if tabs' = [] then
        (case (case List.find (\<lambda>t. tabId t \<in> set closing \<and> tabId t = activeTabId previous)
                 (tabs previous) of
               Some t \<Rightarrow> Some t
             | None \<Rightarrow> List.find (\<lambda>t. tabId t \<in> set closing) (tabs previous)) of
           None \<Rightarrow> js_throw ''TypeError: no closing Tab''
         | Some keeper \<Rightarrow> js_bind (clearedTab keeper) (\<lambda>recovered.
             finish \<lparr>tabs = [recovered], activeTabId = tabId recovered\<rparr>))
      else if activeTabId previous \<in> set closing then
        js_bind (js_lift (activeTabIdAfterClose previous tabs' (set closing))) (\<lambda>active.
          finish \<lparr>tabs = tabs', activeTabId = active\<rparr>)
      else finish \<lparr>tabs = tabs', activeTabId = activeTabId previous\<rparr>)"

definition closeTab :: "ident \<Rightarrow> workbench_store \<Rightarrow> workbench_store js" where
  "closeTab i st =
     (if i \<in> set (closingTabIds st) \<or>
         int (length (tabs (storeSnapshot st))) - int (length (closingTabIds st)) \<le> 1
      then js_return st
      else js_bind (markTabsClosing st [i]) (\<lambda>marked. js_return
        (case marked of None \<Rightarrow> st | Some st' \<Rightarrow> scheduleTabRemoval [i] True st')))"

text \<open>
  A transition that empties tabs: these become Welcome tabs at once, are marked as closing and
  are removed later.
\<close>

definition emptiedTabIds :: "snapshot \<Rightarrow> snapshot \<Rightarrow> ident list" where
  "emptiedTabIds before after =
     filter (\<lambda>i. i \<notin> tabId ` set (tabs after)) (map tabId (tabs before))"

definition transitionTab ::
  "snapshot \<Rightarrow> ident list \<Rightarrow> ident list \<Rightarrow> workbench_tab \<Rightarrow> workbench_tab js" where
  "transitionTab after emptied closing t =
     (if tabId t \<in> set emptied \<and> tabId t \<in> set closing then clearedTab t
      else js_return (case findTab after (tabId t) of Some t' \<Rightarrow> t' | None \<Rightarrow> t))"

definition commitTransition :: "bool \<Rightarrow> snapshot \<Rightarrow> workbench_store \<Rightarrow> workbench_store js" where
  "commitTransition notifyViewClosure after st =
     (let before = storeSnapshot st;
          emptied = emptiedTabIds before after;
          closing = addClosing before (closingTabIds st) emptied;
          notify = (\<lambda>st'. if notifyViewClosure then notifyClosedViews before (storeSnapshot st') st'
            else st') in
      if emptied = [] then js_return (notify (withSnapshot False after st))
      else js_bind (js_map (transitionTab after emptied closing) (tabs before)) (\<lambda>ts.
        js_bind (js_lift (activeTabIdAfterMarking before closing)) (\<lambda>active.
        js_return (scheduleTabRemoval emptied False (notify
          (withSnapshot True \<lparr>tabs = ts, activeTabId = active\<rparr> (st\<lparr>closingTabIds := closing\<rparr>)))))))"

definition runCloseTransition ::
  "(snapshot \<Rightarrow> snapshot option js) \<Rightarrow> bool \<Rightarrow> workbench_store \<Rightarrow> workbench_store js" where
  "runCloseTransition transition notifyViewClosure st =
     js_bind (transition (storeSnapshot st)) (\<lambda>r. case r of
         None \<Rightarrow> js_return st
       | Some after \<Rightarrow> commitTransition notifyViewClosure after st)"

section \<open>Commands\<close>

datatype store_command =
    SetLayoutMode layout_mode
  | ChangeColumn ident column_change
  | MoveInColumn ident step_direction
  | CreateTab
  | ActivateTab ident
  | CloseTab ident
  | MoveTab int int
  | RenameTab ident "string option"
  | CloseView ident
  | RemoveSessionViews view_target
  | ReplaceTarget ident view_target
  | PreviewDrop drag_source drop_target
  | CommitDrop nat bool
  | DropView drag_source drop_target
  | OpenTarget view_target
  | OpenDeepLinkTarget view_target
  | PruneWorkspaceViews "(ident \<times> ident) list" "ident list"
  | SplitFocused view_target split_dir
  | SplitPane ident view_target split_dir
  | SetFocused ident
  | SetSplitRatio ident int js_number
  | RemovalDue nat
  | ResetStore

text \<open>The commands that commit a drop previewed before.\<close>

fun commits :: "store_command \<Rightarrow> bool" where
  "commits (CommitDrop _ _) = True"
| "commits _ = False"

text \<open>A command that replaces the snapshot; some also request the focus.\<close>

definition setSnapshot :: "bool \<Rightarrow> snapshot js \<Rightarrow> workbench_store \<Rightarrow> workbench_store js" where
  "setSnapshot requestsFocus m st = js_bind m (\<lambda>snap. js_return
     (withSnapshot False snap
        (st\<lparr>focusRequestId := focusRequestId st + (if requestsFocus then 1 else 0)\<rparr>)))"

text \<open>The results of \<open>insertPresentationTab\<close>, and of a pane on an existing tab, are plain snapshots.\<close>

fun carriesStore :: "drag_source \<Rightarrow> drop_target \<Rightarrow> bool" where
  "carriesStore (FromPane t p) (OnPane _ _ _) = True"
| "carriesStore (FromPane t p) target = False"
| "carriesStore (FromTab t) target = True"
| "carriesStore (FromSidebar g) (OnNewTab i) = False"
| "carriesStore (FromSidebar g) target = True"

definition previewOf :: "drag_source \<Rightarrow> drop_target \<Rightarrow> snapshot \<Rightarrow> workbench_store \<Rightarrow> drop_preview" where
  "previewOf source target result st =
     \<lparr>previewResult = result, previewTabsVersion = tabsVersion st,
      previewActiveTabId = activeTabId (storeSnapshot st),
      previewClosing = (if carriesStore source target then Some (closingTabIds st) else None)\<rparr>"

definition previewDrop ::
  "drag_source \<Rightarrow> drop_target \<Rightarrow> workbench_store \<Rightarrow> workbench_store js" where
  "previewDrop source target st =
     js_bind (applyViewDrop (storeSnapshot st) source target) (\<lambda>r. js_return
       (case r of
          None \<Rightarrow> st
        | Some d \<Rightarrow> st\<lparr>previews := previews st @ [previewOf source target (dropSnapshot d) st]\<rparr>))"

text \<open>
  Committing a previewed drop. An operation may also build a new list of equal tabs: whether
  the list of the preview is still the one in place is then a choice of the model (\<open>sameTabs\<close>).
\<close>

definition commitDrop :: "nat \<Rightarrow> bool \<Rightarrow> workbench_store \<Rightarrow> workbench_store" where
  "commitDrop k sameTabs st =
     (if length (previews st) \<le> k then st
      else (let p = previews st ! k;
                st' = st\<lparr>previews := remove_at k (previews st)\<rparr> in
        if previewTabsVersion p \<noteq> tabsVersion st \<or> \<not> sameTabs \<or>
           previewActiveTabId p \<noteq> activeTabId (storeSnapshot st)
        then st'
        else withSnapshot False (previewResult p)
          (st'\<lparr>closingTabIds := (case previewClosing p of Some ids \<Rightarrow> ids | None \<Rightarrow> closingTabIds st),
               focusRequestId := focusRequestId st + 1\<rparr>)))"

text \<open>The end of a drag previews the drop and commits it at once.\<close>

definition dropView :: "drag_source \<Rightarrow> drop_target \<Rightarrow> workbench_store \<Rightarrow> workbench_store js" where
  "dropView source target st = js_bind (previewDrop source target st) (\<lambda>st'. js_return
     (if length (previews st') = length (previews st) then st'
      else commitDrop (length (previews st)) True st'))"

text \<open>The reset between tests: the pending removals are cancelled.\<close>

definition cancelPendingCloseTasks :: "workbench_store \<Rightarrow> workbench_store" where
  "cancelPendingCloseTasks st = st\<lparr>closeTimers := []\<rparr>"

definition resetWorkbenchStore :: "workbench_store \<Rightarrow> workbench_store js" where
  "resetWorkbenchStore st = js_bind emptyWorkbenchSnapshot (\<lambda>snap. js_return
     (withSnapshot True snap ((cancelPendingCloseTasks st)\<lparr>focusRequestId := 0, closingTabIds := []\<rparr>)))"

fun runCommand :: "store_command \<Rightarrow> workbench_store \<Rightarrow> workbench_store js" where
  "runCommand (SetLayoutMode m) st = setSnapshot True (applySetLayoutMode (storeSnapshot st) m) st"
| "runCommand (ChangeColumn i c) st = setSnapshot False (applyColumnChange (storeSnapshot st) i c) st"
| "runCommand (MoveInColumn p d) st = setSnapshot False (applyMoveInColumn (storeSnapshot st) p d) st"
| "runCommand CreateTab st = setSnapshot False (applyCreateTab (storeSnapshot st)) st"
| "runCommand (ActivateTab i) st =
     setSnapshot False (js_return (applyActivateTab (storeSnapshot st) i)) st"
| "runCommand (CloseTab i) st = closeTab i st"
| "runCommand (MoveTab i j) st = setSnapshot False (js_return (applyMoveTab (storeSnapshot st) i j)) st"
| "runCommand (RenameTab i t) st = setSnapshot False (applyRenameTab (storeSnapshot st) i t) st"
| "runCommand (CloseView p) st = runCloseTransition (\<lambda>snap. applyClosePane snap p) True st"
| "runCommand (RemoveSessionViews g) st = runCloseTransition
     (\<lambda>snap. js_bind (applyRemoveSessionViews snap g) (\<lambda>snap'. js_return (Some snap'))) False st"
| "runCommand (ReplaceTarget p g) st =
     setSnapshot False (applyReplacePaneTarget (storeSnapshot st) p g) st"
| "runCommand (PreviewDrop source target) st = previewDrop source target st"
| "runCommand (CommitDrop k sameTabs) st = js_return (commitDrop k sameTabs st)"
| "runCommand (DropView source target) st = dropView source target st"
| "runCommand (OpenTarget g) st = setSnapshot True (applyOpenTarget (storeSnapshot st) g) st"
| "runCommand (OpenDeepLinkTarget g) st =
     setSnapshot True (applyOpenDeepLinkTarget (storeSnapshot st) g) st"
| "runCommand (PruneWorkspaceViews ws es) st =
     setSnapshot False (applyPruneWorkspaceViews (storeSnapshot st) ws es) st"
| "runCommand (SplitFocused g d) st = setSnapshot True (applySplitFocused (storeSnapshot st) g d) st"
| "runCommand (SplitPane p g d) st = setSnapshot True (applySplitPane (storeSnapshot st) p g d) st"
| "runCommand (SetFocused p) st = setSnapshot False (applySetFocused (storeSnapshot st) p) st"
| "runCommand (SetSplitRatio k i r) st =
     setSnapshot False (applySetSplitRatio (storeSnapshot st) k i r) st"
| "runCommand (RemovalDue k) st =
     (if length (closeTimers st) \<le> k then js_return st
      else removeClosedTabs (closeTimers st ! k) (st\<lparr>closeTimers := remove_at k (closeTimers st)\<rparr>))"
| "runCommand ResetStore st = resetWorkbenchStore st"

text \<open>The store of a window: what is stored, or a new workbench, repaired.\<close>

definition createWorkbenchStore ::
  "snapshot option \<Rightarrow> workbench_storage option \<Rightarrow> workbench_store js" where
  "createWorkbenchStore given storage =
     js_bind (case given of
         Some snap \<Rightarrow> js_return snap
       | None \<Rightarrow> js_bind (readWorkbenchSnapshot storage) (\<lambda>stored.
           case stored of Some snap \<Rightarrow> js_return snap | None \<Rightarrow> emptyWorkbenchSnapshot)) (\<lambda>snap.
     js_bind (applyRemoveWorkspaceViews snap) (\<lambda>snap'.
     js_bind (applyDedupeSessionViews snap') (\<lambda>initialSnapshot.
     js_return \<lparr>storeSnapshot = initialSnapshot, tabsVersion = 0, focusRequestId = 0,
       closingTabIds = [], closeTimers = [], previews = [], closedViews = []\<rparr>)))"

section \<open>What every command keeps\<close>

text \<open>
  The snapshot is well formed, so are the previewed results, and none of them uses an identifier to
  come. When no stale preview is committed (\<open>w\<close>), each closing tab has a pending removal.
\<close>

abbreviation pending :: "removal_task list \<Rightarrow> ident set" where
  "pending timers \<equiv> \<Union>task \<in> set timers. set (taskTabIds task)"

definition store_ok :: "bool \<Rightarrow> workbench_store \<Rightarrow> ids \<Rightarrow> bool" where
  "store_ok w st s \<longleftrightarrow> good True (storeSnapshot st) s \<and>
     (\<forall>p \<in> set (previews st). wf_snapshot True (previewResult p) \<and> fresh s (wbIds (previewResult p))) \<and>
     (w \<longrightarrow> set (closingTabIds st) \<subseteq> pending (closeTimers st))"

abbreviation previewIds :: "workbench_store \<Rightarrow> ident set set" where
  "previewIds st \<equiv> (wbIds \<circ> previewResult) ` set (previews st)"

lemma withSnapshot_fields [simp]:
  "storeSnapshot (withSnapshot n snap st) = snap"
  "previews (withSnapshot n snap st) = previews st"
  "closingTabIds (withSnapshot n snap st) = closingTabIds st"
  "closeTimers (withSnapshot n snap st) = closeTimers st"
  by (simp_all add: withSnapshot_def)

lemma store_okI:
  assumes "store_ok w st s" "good True snap s'" "\<forall>A \<in> previewIds st. fresh s' A"
    and "storeSnapshot st' = snap" "previews st' = previews st"
    and "w \<longrightarrow> set (closingTabIds st') \<subseteq> pending (closeTimers st')"
  shows "store_ok w st' s'"
  using assms unfolding store_ok_def by fastforce

lemma previews_fresh: "store_ok w st s \<Longrightarrow> A \<in> previewIds st \<Longrightarrow> fresh s A"
  by (auto simp: store_ok_def)

lemma keeps_previews:
  assumes "store_ok w st s" "draws m" "wp m Q s"
  shows "wp m (\<lambda>x s'. Q x s' \<and> (\<forall>A \<in> previewIds st. fresh s' A)) s"
  using assms(2,3) previews_fresh [OF assms(1)] by (rule wp_draws)

lemma set_remove_at_insert: "k < length xs \<Longrightarrow> set xs = insert (xs ! k) (set (remove_at k xs))"
  by (metis mset_remove_at set_mset_add_mset_insert set_mset_mset)

lemma notifyClosedViews_fields [simp]:
  "storeSnapshot (notifyClosedViews b a st) = storeSnapshot st"
  "previews (notifyClosedViews b a st) = previews st"
  "closingTabIds (notifyClosedViews b a st) = closingTabIds st"
  "closeTimers (notifyClosedViews b a st) = closeTimers st"
  by (simp_all add: notifyClosedViews_def Let_def)

lemma setSnapshot_ok:
  assumes ok: "store_ok w st s" and m: "draws m" "wp m (good True) s"
  shows "wp (setSnapshot b m st) (store_ok w) s"
  unfolding setSnapshot_def wp_bind
proof (rule wp_mono [OF keeps_previews [OF ok m]], elim conjE)
  fix snap s' assume "good True snap s'" "\<forall>A \<in> previewIds st. fresh s' A"
  moreover have "w \<longrightarrow> set (closingTabIds st) \<subseteq> pending (closeTimers st)"
    using ok by (simp add: store_ok_def)
  ultimately show "wp (js_return (withSnapshot False snap
      (st\<lparr>focusRequestId := focusRequestId st + (if b then 1 else 0)\<rparr>))) (store_ok w) s'"
    using store_okI [OF ok] by simp
qed

text \<open>Every immediate operation is one of the machine of operations.\<close>

lemma setSnapshot_runOp:
  assumes "store_ok w st s"
  shows "wp (setSnapshot b (runOp x (storeSnapshot st)) st) (store_ok w) s"
  using assms by (intro setSnapshot_ok draws_runOp runOp_good) (simp_all add: store_ok_def)

lemma activeTabIdAfterMarking_ok:
  assumes "activeTabId snap \<in> tabId ` set (tabs snap)"
  obtains a where "activeTabIdAfterMarking snap closing = Inr a" "a \<in> tabId ` set (tabs snap)"
proof (cases "activeTabId snap \<in> set closing \<and> filter (\<lambda>t. tabId t \<notin> set closing) (tabs snap) \<noteq> []")
  case True
  let ?survivors = "filter (\<lambda>t. tabId t \<notin> set closing) (tabs snap)"
  obtain a where "activeTabIdAfterClose snap ?survivors (set closing) = Inr a"
    "a \<in> tabId ` set ?survivors"
    using activeTabIdAfterClose_ok [of ?survivors snap "set closing"] True by metis
  then show ?thesis using that True by (fastforce simp: activeTabIdAfterMarking_def)
next
  case False
  then show ?thesis using that assms by (auto simp: activeTabIdAfterMarking_def Let_def)
qed

lemma set_addClosing:
  "set (addClosing snap closing is) = set closing \<union> (set is \<inter> tabId ` set (tabs snap))"
  by (induction snap closing "is" rule: addClosing.induct) auto

lemma good_active: "good U snap s \<Longrightarrow> a \<in> tabId ` set (tabs snap) \<Longrightarrow> good U (snap\<lparr>activeTabId := a\<rparr>) s"
  by (simp add: good_def wf_snapshot_def wbIds_def occ_def)

lemma closeTab_ok:
  assumes ok: "store_ok w st s"
  shows "wp (closeTab i st) (store_ok w) s"
proof -
  let ?snap = "storeSnapshot st"
  let ?closing = "addClosing ?snap (closingTabIds st) [i]"
  have good: "good True ?snap s" using ok by (simp add: store_ok_def)
  then have "activeTabId ?snap \<in> tabId ` set (tabs ?snap)" by (simp add: good_def wf_snapshot_def)
  then obtain a where a: "activeTabIdAfterMarking ?snap ?closing = Inr a" "a \<in> tabId ` set (tabs ?snap)"
    by (rule activeTabIdAfterMarking_ok)
  have "store_ok w (scheduleTabRemoval [i] True
      (st\<lparr>closingTabIds := ?closing, storeSnapshot := ?snap\<lparr>activeTabId := a\<rparr>\<rparr>)) s"
    using ok good_active [OF good a(2)] previews_fresh [OF ok]
    by (intro store_okI [OF ok])
      (auto simp: scheduleTabRemoval_def set_addClosing store_ok_def simp del: addClosing.simps)
  then show ?thesis
    using ok a(1) by (simp add: closeTab_def markTabsClosing_def Let_def del: addClosing.simps)
qed

lemma clearedTab_good:
  assumes "fresh s {tabId t}"
  shows "wp (clearedTab t) (\<lambda>t' s'. good U \<lparr>tabs = [t'], activeTabId = tabId t'\<rparr> s') s"
  by (rule wp_mono [OF clearedTab_wp [OF assms]])
    (auto simp: good_def wf_snapshot_def occ_def wbIds_def tabOcc_def coh_insert insert_commute)

text \<open>The closing tabs of a task are gone, or one tab is left.\<close>

definition tabs_removed :: "removal_task \<Rightarrow> workbench_store \<Rightarrow> workbench_store \<Rightarrow> bool" where
  "tabs_removed task st st' \<longleftrightarrow> length (tabs (storeSnapshot st')) = 1 \<or>
     tabs (storeSnapshot st') = filter (\<lambda>t. tabId t \<notin> set (taskTabIds task) \<inter> set (closingTabIds st))
       (tabs (storeSnapshot st))"

lemma removeClosedTabs_ok:
  assumes good: "good True (storeSnapshot st) s"
    and pre: "\<forall>p \<in> set (previews st). wf_snapshot True (previewResult p) \<and> fresh s (wbIds (previewResult p))"
    and timers: "w \<longrightarrow> set (closingTabIds st) \<subseteq> set (taskTabIds task) \<union> pending (closeTimers st)"
  shows "wp (removeClosedTabs task st) (\<lambda>st' s'. store_ok w st' s' \<and>
    closingTabIds st' = filter (\<lambda>i. i \<notin> set (taskTabIds task)) (closingTabIds st) \<and>
    closeTimers st' = closeTimers st \<and> tabs_removed task st st') s"
proof -
  let ?previous = "storeSnapshot st"
  let ?closing = "filter (\<lambda>i. i \<in> set (closingTabIds st)) (taskTabIds task)"
  let ?left = "filter (\<lambda>i. i \<notin> set (taskTabIds task)) (closingTabIds st)"
  let ?tabs = "filter (\<lambda>t. tabId t \<notin> set ?closing) (tabs ?previous)"
  let ?st = "st\<lparr>closingTabIds := ?left\<rparr>"
  let ?finish = "\<lambda>snap. let st'' = withSnapshot True snap ?st in
    if taskNotifies task then notifyClosedViews ?previous snap st'' else st''"
  have wf: "wf_snapshot True ?previous" and active: "activeTabId ?previous \<in> tabId ` set (tabs ?previous)"
    using good by (simp_all add: good_def wf_snapshot_def)
  have left: "w \<longrightarrow> set ?left \<subseteq> pending (closeTimers st)" using timers by auto
  have finish: "store_ok w (?finish snap) s' \<and> closingTabIds (?finish snap) = ?left \<and>
      closeTimers (?finish snap) = closeTimers st \<and> tabs_removed task st (?finish snap)"
    if "good True snap s'" "\<forall>A \<in> previewIds st. fresh s' A"
      "length (tabs snap) = 1 \<or> tabs snap = ?tabs" for snap s'
    using that pre left by (auto simp: store_ok_def tabs_removed_def Let_def)
  have previews: "\<forall>A \<in> previewIds st. fresh s A" using pre by auto
  have kept: "good True \<lparr>tabs = ?tabs, activeTabId = a\<rparr> s" if "a \<in> tabId ` set ?tabs" for a
    using wf_filterTabs [OF wf, of "\<lparr>tabs = ?tabs, activeTabId = a\<rparr>"] that good
    by (auto simp: good_def intro: fresh_antimono)
  consider "?closing = []" | "?closing \<noteq> []" "?tabs = []"
    | "?closing \<noteq> []" "?tabs \<noteq> []" "activeTabId ?previous \<in> set ?closing"
    | "?closing \<noteq> []" "?tabs \<noteq> []" "activeTabId ?previous \<notin> set ?closing" by blast
  then show ?thesis
  proof cases
    case 1
    then have "set (taskTabIds task) \<inter> set (closingTabIds st) = {}" by (auto simp: filter_empty_conv)
    then have "tabs_removed task st ?st" by (simp add: tabs_removed_def)
    then show ?thesis using 1 good pre left by (simp add: removeClosedTabs_def Let_def store_ok_def)
  next
    case 2
    let ?keeper = "case List.find (\<lambda>t. tabId t \<in> set ?closing \<and> tabId t = activeTabId ?previous)
        (tabs ?previous) of
      Some t \<Rightarrow> Some t | None \<Rightarrow> List.find (\<lambda>t. tabId t \<in> set ?closing) (tabs ?previous)"
    obtain t where t: "t \<in> set (tabs ?previous)" "tabId t = activeTabId ?previous" using active by force
    have "tabId t \<in> set ?closing" using 2(2) t(1) by (auto simp: filter_empty_conv)
    then have "List.find (\<lambda>t. tabId t \<in> set ?closing \<and> tabId t = activeTabId ?previous)
        (tabs ?previous) \<noteq> None"
      using t unfolding find_None_iff by blast
    then obtain keeper where keeper: "?keeper = Some keeper" by (auto split: option.split)
    have "wp (clearedTab keeper) (\<lambda>t s'. good True \<lparr>tabs = [t], activeTabId = tabId t\<rparr> s' \<and>
        (\<forall>A \<in> previewIds st. fresh s' A)) s"
    proof (rule wp_draws [OF draws_clearedTab clearedTab_good])
      have "keeper \<in> set (tabs ?previous)"
        using keeper find_Some_in by (fastforce split: option.splits)
      then show "fresh s {tabId keeper}"
        using good by (auto simp: good_def wbIds_def intro: fresh_antimono)
    qed (use previews in blast)
    note cleared = wp_mono [OF this]
    have "removeClosedTabs task st = js_bind (clearedTab keeper) (\<lambda>recovered.
        js_return (?finish \<lparr>tabs = [recovered], activeTabId = tabId recovered\<rparr>))"
      using 2 keeper by (simp add: removeClosedTabs_def Let_def)
    then show ?thesis using finish by (auto intro!: cleared)
  next
    case 3
    obtain a where a: "activeTabIdAfterClose ?previous ?tabs (set ?closing) = Inr a" "a \<in> tabId ` set ?tabs"
      using activeTabIdAfterClose_ok [OF 3(2), of ?previous "set ?closing"] 3(3) by metis
    then have "removeClosedTabs task st = js_return (?finish \<lparr>tabs = ?tabs, activeTabId = a\<rparr>)"
      using 3 by (simp add: removeClosedTabs_def Let_def js_bind_def js_lift_def)
    then show ?thesis using finish [OF kept [OF a(2)] previews] by (simp del: filter_filter set_filter)
  next
    case 4
    then have "activeTabId ?previous \<in> tabId ` set ?tabs" using active by auto
    moreover have "removeClosedTabs task st =
        js_return (?finish \<lparr>tabs = ?tabs, activeTabId = activeTabId ?previous\<rparr>)"
      by (simp only: removeClosedTabs_def Let_def 4 if_False)
    ultimately show ?thesis using finish [OF kept previews] by (simp del: filter_filter set_filter)
  qed
qed

text \<open>
  The tabs of a close transition: each is cleared or taken over from the snapshot after the
  transition, so that the occurrences are those and new welcome views.
\<close>

definition covered :: "bool \<Rightarrow> occurrence set \<Rightarrow> ident set \<Rightarrow> workbench_tab list \<Rightarrow> ids \<Rightarrow> bool" where
  "covered U Oc A ts s \<longleftrightarrow> (\<exists>Oc' A'. Oc \<subseteq> Oc' \<and> A \<subseteq> A' \<and> (\<Union>t \<in> set ts. tabOcc t) \<subseteq> Oc' \<and>
     coh U Oc' \<and> occIds Oc' \<subseteq> A' \<and> fresh s A')"

lemma covered_Nil: "coh U Oc \<Longrightarrow> occIds Oc \<subseteq> A \<Longrightarrow> fresh s A \<Longrightarrow> covered U Oc A [] s"
  by (auto simp: covered_def)

lemma covered_Cons:
  "tabOcc t \<subseteq> Oc' \<Longrightarrow> Oc \<subseteq> Oc' \<Longrightarrow> A \<subseteq> A' \<Longrightarrow> covered U Oc' A' ts s \<Longrightarrow> covered U Oc A (t # ts) s"
proof -
  assume t: "tabOcc t \<subseteq> Oc'" "Oc \<subseteq> Oc'" "A \<subseteq> A'" and "covered U Oc' A' ts s"
  then obtain Oc'' A'' where c: "Oc' \<subseteq> Oc''" "A' \<subseteq> A''" "(\<Union>t \<in> set ts. tabOcc t) \<subseteq> Oc''"
    "coh U Oc''" "occIds Oc'' \<subseteq> A''" "fresh s A''" by (auto simp: covered_def)
  have "Oc \<subseteq> Oc''" "A \<subseteq> A''" "(\<Union>t \<in> set (t # ts). tabOcc t) \<subseteq> Oc''" using t c(1-3) by auto
  with c(4-6) show "covered U Oc A (t # ts) s" unfolding covered_def by blast
qed

lemma transitionTab_cases:
  "tabId t \<in> set es \<and> tabId t \<in> set cs \<Longrightarrow> transitionTab after es cs t = clearedTab t"
  "\<not> (tabId t \<in> set es \<and> tabId t \<in> set cs) \<Longrightarrow> transitionTab after es cs t =
     js_return (case findTab after (tabId t) of Some t' \<Rightarrow> t' | None \<Rightarrow> t)"
  unfolding transitionTab_def by (simp_all only: if_P if_False simp_thms)

lemma transition_tabs:
  assumes "occ after \<subseteq> Oc" "coh U Oc" "occIds Oc \<subseteq> A" "fresh s A" "\<forall>t \<in> set (tabs after). wf_tab t"
    and "\<And>u. u \<in> set us \<Longrightarrow> \<not> (tabId u \<in> set es \<and> tabId u \<in> set cs) \<Longrightarrow>
      tabId u \<in> tabId ` set (tabs after)"
  shows "wp (js_map (transitionTab after es cs) us)
    (\<lambda>ts s'. map tabId ts = map tabId us \<and> (\<forall>t \<in> set ts. wf_tab t) \<and> covered U Oc A ts s') s"
    (is "wp (js_map ?f us) (\<lambda>ts s'. ?Q us Oc A ts s') s")
  using assms
proof (induction us arbitrary: Oc A s)
  case Nil
  then show ?case by (auto simp: covered_Nil)
next
  case (Cons u us)
  have rest: "wp (js_map ?f us) (\<lambda>ts. wp (js_return (t # ts)) (?Q (u # us) Oc A)) s'"
    if t: "tabId t = tabId u" "wf_tab t" "tabOcc t \<subseteq> Oc'" "Oc \<subseteq> Oc'"
      "coh U Oc'" "occIds Oc' \<subseteq> A'" "A \<subseteq> A'" "fresh s' A'" for t Oc' A' s'
  proof -
    have "wp (js_map ?f us) (\<lambda>ts s'. ?Q us Oc' A' ts s') s'"
      using Cons.prems t by (intro Cons.IH) auto
    then show ?thesis by (rule wp_mono) (use t covered_Cons [OF t(3,4,7)] in auto)
  qed
  have cleared: "wp (clearedTab u) (\<lambda>t. wp (js_map ?f us) (\<lambda>ts. wp (js_return (t # ts)) (?Q (u # us) Oc A))) s"
  proof (rule wp_mono [OF clearedTab_wp [OF Cons.prems(4)]], elim exE conjE)
    fix t s' p v c l
    assume t: "t = (singleTab (tabId u) p v)\<lparr>titleMode := titleMode u,
        titleOverride := titleOverride u,
        layoutMode := Some (case layoutMode u of Some m \<Rightarrow> m | None \<Rightarrow> Bsp), columns := c, layout := l\<rparr>"
      "isWelcome v" "p \<notin> A" "viewId v \<notin> A" "wf_tab t" "fresh s' ({p, viewId v} \<union> A)"
    have "coh U (insert (tabId u, p, v) Oc)"
      using Cons.prems(2,3) t(2-4) by (intro coh_new) (auto simp: welcome_not_session)
    then show "wp (js_map ?f us) (\<lambda>ts. wp (js_return (t # ts)) (?Q (u # us) Oc A)) s'"
      using t Cons.prems(3)
      by (intro rest [where Oc' = "insert (tabId u, p, v) Oc" and A' = "{p, viewId v} \<union> A"])
        (auto simp: tabOcc_def)
  qed
  have taken: "\<exists>t. findTab after (tabId u) = Some t \<and>
      wp (js_map ?f us) (\<lambda>ts. wp (js_return (t # ts)) (?Q (u # us) Oc A)) s" if kept: "\<not> (tabId u \<in> set es \<and> tabId u \<in> set cs)"
  proof -
    obtain t where t: "findTab after (tabId u) = Some t"
      using Cons.prems(6) [of u] kept findTab_None [of after "tabId u"]
      by (cases "findTab after (tabId u)") auto
    note in_after = findTab_Some [OF t]
    have "tabOcc t \<subseteq> Oc" using in_after occ_in Cons.prems(1) by blast
    then show ?thesis using t in_after Cons.prems(2-5) rest [of t Oc A s] by blast
  qed
  show ?case
    unfolding js_map.simps wp_bind
  proof (cases "tabId u \<in> set es \<and> tabId u \<in> set cs")
    case True
    show "wp (?f u) (\<lambda>t. wp (js_map ?f us) (\<lambda>ts. wp (js_return (t # ts)) (?Q (u # us) Oc A))) s"
      using cleared by (simp only: transitionTab_cases(1) [OF True])
  next
    case False
    then obtain t where "findTab after (tabId u) = Some t"
      "wp (js_map ?f us) (\<lambda>ts. wp (js_return (t # ts)) (?Q (u # us) Oc A)) s" using taken by blast
    then show "wp (?f u) (\<lambda>t. wp (js_map ?f us) (\<lambda>ts. wp (js_return (t # ts)) (?Q (u # us) Oc A))) s"
      by (simp only: transitionTab_cases(2) [OF False] option.case wp_return)
  qed
qed

lemma fresh_Un: "fresh s (A \<union> B) \<longleftrightarrow> fresh s A \<and> fresh s B"
  by (auto simp: fresh_def)

lemma covered_good:
  assumes "covered U Oc A ts s" "\<forall>t \<in> set ts. wf_tab t" "distinct (map tabId ts)"
    and "a \<in> tabId ` set ts" "tabId ` set ts \<subseteq> A"
  shows "good U \<lparr>tabs = ts, activeTabId = a\<rparr> s"
proof -
  let ?snap = "\<lparr>tabs = ts, activeTabId = a\<rparr>"
  obtain Oc' A' where c: "A \<subseteq> A'" "occ ?snap \<subseteq> Oc'" "coh U Oc'" "occIds Oc' \<subseteq> A'" "fresh s A'"
    using assms(1) by (auto simp: covered_def occ_def)
  have "wbIds ?snap \<subseteq> A'" using assms(5) c(1,4) occIds_mono [OF c(2)] by (auto simp: wbIds_def)
  then have "fresh s (wbIds ?snap)" using c(5) by (rule fresh_antimono [rotated])
  moreover have "wf_snapshot U ?snap"
    using assms(2-4) coh_subset [OF c(3,2)] by (simp add: wf_snapshot_def)
  ultimately show ?thesis by (simp add: good_def)
qed

lemma store_ok_later:
  assumes "store_ok w st s" "\<forall>A \<in> insert (wbIds (storeSnapshot st)) (previewIds st). fresh s' A"
  shows "store_ok w st s'"
  using assms by (auto simp: store_ok_def good_def)

lemma draws_transitionTab [draws_intro]: "draws (transitionTab after es cs t)"
  unfolding transitionTab_def by (intro draws_intro)

lemma commitTransition_ok:
  assumes ok: "store_ok w st s" and after: "good True after s"
  shows "wp (commitTransition b after st) (store_ok w) s"
proof -
  let ?before = "storeSnapshot st"
  let ?emptied = "emptiedTabIds ?before after"
  let ?closing = "addClosing ?before (closingTabIds st) ?emptied"
  let ?notify = "\<lambda>st'. if b then notifyClosedViews ?before (storeSnapshot st') st' else st'"
  let ?commit = "\<lambda>ts a. scheduleTabRemoval ?emptied False
    (?notify (withSnapshot True \<lparr>tabs = ts, activeTabId = a\<rparr> (st\<lparr>closingTabIds := ?closing\<rparr>)))"
  have good: "good True ?before s"
    and timers: "w \<longrightarrow> set (closingTabIds st) \<subseteq> pending (closeTimers st)"
    using ok by (simp_all add: store_ok_def)
  show ?thesis
  proof (cases "?emptied = []")
    case True
    then show ?thesis
      using after previews_fresh [OF ok] timers store_okI [OF ok after]
      by (simp add: commitTransition_def Let_def)
  next
    case False
    have "activeTabId ?before \<in> tabId ` set (tabs ?before)"
      using good by (simp add: good_def wf_snapshot_def)
    then obtain a where a: "activeTabIdAfterMarking ?before ?closing = Inr a"
      "a \<in> tabId ` set (tabs ?before)" by (rule activeTabIdAfterMarking_ok)
    let ?A = "wbIds ?before \<union> wbIds after"
    have "wp (js_map (transitionTab after ?emptied ?closing) (tabs ?before))
        (\<lambda>ts s'. (map tabId ts = map tabId (tabs ?before) \<and> (\<forall>t \<in> set ts. wf_tab t) \<and>
          covered True (occ after) ?A ts s') \<and> (\<forall>A \<in> previewIds st. fresh s' A)) s"
      by (rule keeps_previews [OF ok draws_map [OF draws_transitionTab] transition_tabs])
        (use after good in \<open>auto simp: good_def wf_snapshot_def wbIds_def fresh_Un set_addClosing
           emptiedTabIds_def\<close>)
    then have "wp (js_map (transitionTab after ?emptied ?closing) (tabs ?before))
        (\<lambda>ts. store_ok w (?commit ts a)) s"
    proof (rule wp_mono, elim conjE)
      fix ts s' assume ts: "map tabId ts = map tabId (tabs ?before)" "\<forall>t \<in> set ts. wf_tab t"
        "covered True (occ after) ?A ts s'" and pv: "\<forall>A \<in> previewIds st. fresh s' A"
      have ids: "tabId ` set ts = tabId ` set (tabs ?before)" using ts(1) by (metis list.set_map)
      have "good True \<lparr>tabs = ts, activeTabId = a\<rparr> s'"
        using ts a(2) ids good
        by (intro covered_good [OF ts(3)]) (auto simp: good_def wf_snapshot_def wbIds_def)
      then show "store_ok w (?commit ts a) s'"
        using pv timers by (intro store_okI [OF ok]) (auto simp: scheduleTabRemoval_def set_addClosing)
    qed
    then show ?thesis
      unfolding commitTransition_def Let_def if_not_P [OF False] a(1) wp_bind
      by (rule wp_mono) (simp only: wp_bind wp_lift_Inr wp_return)
  qed
qed

lemma runCloseTransition_ok:
  assumes ok: "store_ok w st s" and d: "draws (transition (storeSnapshot st))"
    and t: "wp (transition (storeSnapshot st))
      (\<lambda>r s'. case r of None \<Rightarrow> True | Some after \<Rightarrow> good True after s') s"
  shows "wp (runCloseTransition transition b st) (store_ok w) s"
proof -
  let ?\<A> = "insert (wbIds (storeSnapshot st)) (previewIds st)"
  have "fresh s A" if "A \<in> ?\<A>" for A
    using that ok previews_fresh [OF ok] by (auto simp: store_ok_def good_def)
  with d t have kept: "wp (transition (storeSnapshot st)) (\<lambda>r s'.
      (case r of None \<Rightarrow> True | Some after \<Rightarrow> good True after s') \<and> (\<forall>A \<in> ?\<A>. fresh s' A)) s"
    by (rule wp_draws)
  show ?thesis
    unfolding runCloseTransition_def wp_bind
  proof (rule wp_mono [OF kept], elim conjE)
    fix r s' assume r: "case r of None \<Rightarrow> True | Some after \<Rightarrow> good True after s'"
      "\<forall>A \<in> ?\<A>. fresh s' A"
    then show "wp (case r of None \<Rightarrow> js_return st | Some after \<Rightarrow> commitTransition b after st) (store_ok w) s'"
      using store_ok_later [OF ok r(2)] by (auto intro: commitTransition_ok split: option.split)
  qed
qed

text \<open>A preview of the moment carries the closing tabs of the moment, if any.\<close>

definition current_preview :: "workbench_store \<Rightarrow> drop_preview \<Rightarrow> bool" where
  "current_preview st p \<longleftrightarrow> previewClosing p = None \<or> previewClosing p = Some (closingTabIds st)"

lemma previewDrop_ok:
  assumes ok: "store_ok w st s"
  shows "wp (previewDrop source target st) (\<lambda>st' s'. store_ok w st' s' \<and>
    (st' = st \<or> (\<exists>p. st' = st\<lparr>previews := previews st @ [p]\<rparr> \<and> current_preview st p))) s"
proof -
  have good: "good True (storeSnapshot st) s" using ok by (simp add: store_ok_def)
  let ?\<A> = "insert (wbIds (storeSnapshot st)) (previewIds st)"
  let ?next = "\<lambda>r. case r of None \<Rightarrow> st
    | Some d \<Rightarrow> st\<lparr>previews := previews st @ [previewOf source target (dropSnapshot d) st]\<rparr>"
  have "fresh s A" if "A \<in> ?\<A>" for A
    using that good previews_fresh [OF ok] by (auto simp: good_def)
  with draws_applyViewDrop applyViewDrop_wp [OF good]
  have drop: "wp (applyViewDrop (storeSnapshot st) source target) (\<lambda>r s'.
      drop_ok True (storeSnapshot st) (draggedView (storeSnapshot st) source) r s' \<and>
      (\<forall>A \<in> ?\<A>. fresh s' A)) s"
    by (rule wp_draws)
  show ?thesis
    unfolding previewDrop_def wp_bind wp_return
  proof (rule wp_mono [OF drop], elim conjE)
    fix r s' assume r: "drop_ok True (storeSnapshot st) (draggedView (storeSnapshot st) source) r s'"
      "\<forall>A \<in> ?\<A>. fresh s' A"
    have later: "store_ok w st s'" using store_ok_later [OF ok r(2)] .
    show "store_ok w (?next r) s' \<and>
      (?next r = st \<or> (\<exists>p. ?next r = st\<lparr>previews := previews st @ [p]\<rparr> \<and> current_preview st p))"
    proof (cases r)
      case (Some d)
      have "store_ok w (?next (Some d)) s'"
        using later r(1) Some by (simp add: store_ok_def drop_ok_def good_def previewOf_def)
      moreover have "current_preview st (previewOf source target (dropSnapshot d) st)"
        by (simp add: current_preview_def previewOf_def)
      ultimately show ?thesis unfolding Some option.case by blast
    qed (use later in simp)
  qed
qed

lemma commitDrop_ok:
  assumes ok: "store_ok w st s" and current: "w \<Longrightarrow> k < length (previews st) \<Longrightarrow> current_preview st (previews st ! k)"
  shows "store_ok w (commitDrop k sameTabs st) s"
proof (cases "length (previews st) \<le> k")
  case False
  then have k: "set (previews st) = insert (previews st ! k) (set (remove_at k (previews st)))"
    by (intro set_remove_at_insert) simp
  have "good True (previewResult (previews st ! k)) s" using ok k by (auto simp: store_ok_def good_def)
  moreover have "\<forall>p \<in> set (remove_at k (previews st)).
      wf_snapshot True (previewResult p) \<and> fresh s (wbIds (previewResult p))"
    using ok k by (auto simp: store_ok_def)
  moreover have "w \<longrightarrow> set (case previewClosing (previews st ! k) of Some ids \<Rightarrow> ids
      | None \<Rightarrow> closingTabIds st) \<subseteq> pending (closeTimers st)"
    using ok current False by (auto simp: store_ok_def current_preview_def split: option.split)
  ultimately show ?thesis using False ok by (simp add: commitDrop_def store_ok_def Let_def)
qed (simp add: commitDrop_def ok)

lemma dropView_ok:
  assumes "store_ok w st s"
  shows "wp (dropView source target st) (store_ok w) s"
  unfolding dropView_def wp_bind wp_return
  by (rule wp_mono [OF previewDrop_ok [OF assms]])
    (auto intro!: commitDrop_ok simp: current_preview_def)

lemma removalDue_ok:
  assumes ok: "store_ok w st s" and k: "k < length (closeTimers st)"
  shows "wp (runCommand (RemovalDue k) st) (\<lambda>st' s'. store_ok w st' s' \<and>
    closingTabIds st' = filter (\<lambda>i. i \<notin> set (taskTabIds (closeTimers st ! k))) (closingTabIds st) \<and>
    closeTimers st' = remove_at k (closeTimers st) \<and>
    tabs_removed (closeTimers st ! k) st st') s"
proof -
  let ?st = "st\<lparr>closeTimers := remove_at k (closeTimers st)\<rparr>"
  have "w \<longrightarrow> set (closingTabIds st) \<subseteq> set (taskTabIds (closeTimers st ! k)) \<union>
      pending (remove_at k (closeTimers st))"
    using ok set_remove_at_insert [OF k] by (simp add: store_ok_def)
  then show ?thesis
    using removeClosedTabs_ok [of ?st s w "closeTimers st ! k"] ok k
    by (simp add: store_ok_def tabs_removed_def)
qed

lemma resetWorkbenchStore_ok:
  assumes ok: "store_ok w st s"
  shows "wp (resetWorkbenchStore st) (store_ok w) s"
proof -
  have "fresh s {}" using ok by (auto simp: store_ok_def good_def intro: fresh_antimono)
  from keeps_previews [OF ok draws_emptyWorkbenchSnapshot emptyWorkbenchSnapshot_wp [OF this, of True]]
  show ?thesis
    unfolding resetWorkbenchStore_def wp_bind wp_return
    by (rule wp_mono) (auto intro!: store_okI [OF ok] simp: cancelPendingCloseTasks_def)
qed

lemma runCommand_ok:
  assumes ok: "store_ok w st s" and commits: "w \<Longrightarrow> \<not> commits c"
  shows "wp (runCommand c st) (store_ok w) s"
proof (cases c)
  case (CloseView p)
  have "wp (applyClosePane (storeSnapshot st) p)
      (\<lambda>r s'. case r of None \<Rightarrow> True | Some after \<Rightarrow> good True after s') s"
    by (rule wp_mono [OF applyClosePane_wp]) (use ok in \<open>auto simp: store_ok_def split: option.splits\<close>)
  then show ?thesis
    unfolding CloseView runCommand.simps by (intro runCloseTransition_ok [OF ok] draws_intro)
next
  case (RemoveSessionViews g)
  have "wp (js_bind (applyRemoveSessionViews (storeSnapshot st) g) (\<lambda>snap'. js_return (Some snap')))
      (\<lambda>r s'. case r of None \<Rightarrow> True | Some after \<Rightarrow> good True after s') s"
    unfolding applyRemoveSessionViews_def wp_bind
    by (rule wp_mono [OF removal_good]) (use ok in \<open>simp_all add: store_ok_def\<close>)
  then show ?thesis
    unfolding RemoveSessionViews runCommand.simps
    by (intro runCloseTransition_ok [OF ok] draws_intro)
next
  case (RemovalDue k)
  show ?thesis
  proof (cases "k < length (closeTimers st)")
    case True
    show ?thesis unfolding RemovalDue by (rule wp_mono [OF removalDue_ok [OF ok True]]) blast
  qed (use RemovalDue ok in simp)
next
  case (PreviewDrop source target)
  then show ?thesis using wp_mono [OF previewDrop_ok [OF ok]] by auto
next
  case (CommitDrop k sameTabs)
  then show ?thesis using commitDrop_ok [OF ok] commits by auto
next
  case ResetStore
  then show ?thesis using resetWorkbenchStore_ok [OF ok] by simp
next
  case (DropView source target)
  then show ?thesis using dropView_ok [OF ok] by simp
next
  case (CloseTab i)
  then show ?thesis using closeTab_ok [OF ok] by simp
qed (simp_all only: runCommand.simps runOp.simps [symmetric] setSnapshot_runOp [OF ok])

interpretation store: stepper runCommand "store_ok False"
  by unfold_locales (rule runCommand_ok, simp_all)

text \<open>A window that drops at once, as the end of a drag does, and commits no earlier preview.\<close>

definition windowCommand :: "store_command \<Rightarrow> workbench_store \<Rightarrow> workbench_store js" where
  "windowCommand c st = (if commits c then js_return st else runCommand c st)"

interpretation window: stepper windowCommand "store_ok True"
  by unfold_locales (simp add: windowCommand_def runCommand_ok)

lemma run_windowCommand:
  "list_all (\<lambda>c. \<not> commits c) cs \<Longrightarrow> run_all windowCommand cs = run_all runCommand cs"
proof (induction cs)
  case (Cons c cs)
  then show ?case by (simp add: windowCommand_def [abs_def] fun_eq_iff [where f = "run_all _ (_ # _)"])
qed (simp add: fun_eq_iff)

section \<open>The start of a window\<close>

text \<open>
  What the storage may hold: nothing, text that cannot be read, or what was written of a
  well-formed workbench. The identifiers to come are new to it.
\<close>

definition holds_work :: "workbench_storage option \<Rightarrow> ids \<Rightarrow> bool" where
  "holds_work storage s \<longleftrightarrow> fresh s {} \<and> (case storage of
     None \<Rightarrow> True
   | Some st \<Rightarrow> (case storageItems st WORKBENCH_PERSISTENCE_KEY of
         Some (Document v) \<Rightarrow> \<exists>U snap. v = serializeWorkbenchSnapshot snap \<and> good U snap s \<and>
           (\<forall>t \<in> set (tabs snap). storable_shape t)
       | _ \<Rightarrow> True))"

lemma same_work_wf: "same_work t t' \<Longrightarrow> wf_tab t \<Longrightarrow> wf_tab t'"
proof -
  assume s: "same_work t t'" and wf: "wf_tab t"
  obtain cs where t': "t' = t\<lparr>columns := cs\<rparr>" using s by (rule same_workE)
  show "wf_tab t'"
  proof (cases "layoutMode t = Some Scrolling")
    case True
    then have "t' = t" using s by (simp add: same_work_def)
    then show ?thesis using wf by simp
  qed (use wf t' in \<open>simp add: wf_tab_def tab_core_def layout_covers_def\<close>)
qed

lemma same_work_occ: "list_all2 same_work ts ts' \<Longrightarrow> (\<Union>t \<in> set ts'. tabOcc t) = (\<Union>t \<in> set ts. tabOcc t)"
  by (induction rule: list_all2_induct) (auto elim!: same_workE)

lemma good_same_work:
  assumes g: "good U snap s" and f: "fresh s' (wbIds snap)"
    and a: "activeTabId snap' = activeTabId snap" and ts: "list_all2 same_work (tabs snap) (tabs snap')"
  shows "good U snap' s'"
proof -
  have ids: "map tabId (tabs snap') = map tabId (tabs snap)" by (rule same_work_ids [OF ts])
  have occ: "occ snap' = occ snap" using same_work_occ [OF ts] by (simp add: occ_def)
  have idset: "tabId ` set (tabs snap') = tabId ` set (tabs snap)" using ids by (metis list.set_map)
  have "\<forall>t \<in> set (tabs snap'). wf_tab t"
    using ts g same_work_wf by (fastforce simp: good_def wf_snapshot_def list_all2_conv_all_nth in_set_conv_nth)
  then show ?thesis using g f a ids idset occ by (simp add: good_def wf_snapshot_def wbIds_def)
qed

lemma written_good:
  assumes g: "good U snap s" and shape: "\<forall>t \<in> set (tabs snap). storable_shape t"
  shows "wp (deserializeWorkbenchSnapshot (Document (serializeWorkbenchSnapshot snap)))
    (\<lambda>r s'. case r of None \<Rightarrow> fresh s' {} | Some snap' \<Rightarrow> good U snap' s') s"
proof (cases "unrestorable snap")
  case True
  have "fresh s {}" "wf_snapshot U snap" using g by (auto simp: good_def intro: fresh_antimono)
  from wp_conj [OF deserialize_restored [OF supply_inv_fresh this(1)] read_written [OF this(2) shape]]
  show ?thesis by (rule wp_mono) (use True in \<open>auto split: option.split\<close>)
next
  case False
  then have st: "storable snap"
    using shape by (auto simp: storable_def storable_tab_def unrestorable_def)
  have "wp (decodeWorkbenchSnapshot (serializeWorkbenchSnapshot snap)) (\<lambda>r s'. (\<exists>snap'. r = Some snap' \<and>
      activeTabId snap' = activeTabId snap \<and> list_all2 same_work (tabs snap) (tabs snap')) \<and>
      fresh s' (wbIds snap)) s"
    using g st by (intro decode_written supply_inv_fresh) (auto simp: good_def)
  then show ?thesis
    unfolding deserializeWorkbenchSnapshot_def stored_text.case
    by (rule wp_mono) (use good_same_work [OF g] in auto)
qed

lemma initialSnapshot_wp:
  assumes "holds_work storage s"
  shows "wp (js_bind (readWorkbenchSnapshot storage) (\<lambda>stored.
      case stored of Some snap \<Rightarrow> js_return snap | None \<Rightarrow> emptyWorkbenchSnapshot))
    (\<lambda>snap s'. \<exists>U. good U snap s') s"
proof -
  have new: "wp emptyWorkbenchSnapshot (\<lambda>snap s'. \<exists>U. good U snap s') s"
    using assms by (intro wp_mono [OF emptyWorkbenchSnapshot_wp [where U = True]]) (auto simp: holds_work_def)
  show ?thesis
  proof (cases "readWorkbenchSnapshot storage = js_return None")
    case True
    then show ?thesis using new by simp
  next
    case False
    then obtain st v where st: "storage = Some st" "storageReadable st"
      "storageItems st WORKBENCH_PERSISTENCE_KEY = Some (Document v)"
      by (auto simp: readWorkbenchSnapshot_def deserializeWorkbenchSnapshot_def
          split: option.splits if_splits stored_text.splits)
    then obtain U snap where snap: "v = serializeWorkbenchSnapshot snap" "good U snap s"
      "\<forall>t \<in> set (tabs snap). storable_shape t" and f: "fresh s {}"
      using assms by (auto simp: holds_work_def)
    have "wp (readWorkbenchSnapshot storage) (\<lambda>r s'. case r of None \<Rightarrow> fresh s' {} | Some snap' \<Rightarrow> good U snap' s') s"
      using written_good [OF snap(2,3)] st f
      by (simp add: readWorkbenchSnapshot_def snap(1))
    then show ?thesis
      unfolding wp_bind
      by (rule wp_mono) (auto split: option.splits intro: wp_mono [OF emptyWorkbenchSnapshot_wp [where U = True]])
  qed
qed

lemma createWorkbenchStore_ok:
  assumes "holds_work storage s"
  shows "wp (createWorkbenchStore None storage) (store_ok w) s"
  unfolding createWorkbenchStore_def option.case wp_bind [of "js_bind _ _" "\<lambda>snap. js_bind (applyRemoveWorkspaceViews snap) _"]
proof (rule wp_mono [OF initialSnapshot_wp [OF assms]], elim exE)
  fix snap s' U assume g: "good U snap s'"
  show "wp (js_bind (applyRemoveWorkspaceViews snap) (\<lambda>snap'.
      js_bind (applyDedupeSessionViews snap') (\<lambda>initialSnapshot. js_return
        \<lparr>storeSnapshot = initialSnapshot, tabsVersion = 0, focusRequestId = 0, closingTabIds = [], closeTimers = [],
         previews = [], closedViews = []\<rparr>))) (store_ok w) s'"
    unfolding wp_bind applyRemoveWorkspaceViews_def
  proof (rule wp_mono [OF removal_good [OF g]])
    fix snap' s'' assume "good U snap' s''"
    then show "wp (applyDedupeSessionViews snap') (\<lambda>x. wp (js_return
        \<lparr>storeSnapshot = x, tabsVersion = 0, focusRequestId = 0, closingTabIds = [], closeTimers = [],
         previews = [], closedViews = []\<rparr>) (store_ok w)) s''"
      by (rule wp_mono [OF applyDedupeSessionViews_wp]) (simp add: store_ok_def)
  qed
qed

lemma window_run:
  assumes "holds_work storage s"
  shows "wp (js_bind (createWorkbenchStore None storage) (run_all runCommand cs)) (\<lambda>st s'.
    store_ok (list_all (\<lambda>c. \<not> commits c) cs) st s') s"
proof (cases "list_all (\<lambda>c. \<not> commits c) cs")
  case True
  have "wp (js_bind (createWorkbenchStore None storage) (run_all windowCommand cs)) (store_ok True) s"
    unfolding wp_bind by (rule wp_mono [OF createWorkbenchStore_ok [OF assms]]) (rule window.run_inv)
  then show ?thesis using True by (simp add: run_windowCommand)
next
  case False
  have "wp (js_bind (createWorkbenchStore None storage) (run_all runCommand cs)) (store_ok False) s"
    unfolding wp_bind by (rule wp_mono [OF createWorkbenchStore_ok [OF assms]]) (rule store.run_inv)
  then show ?thesis using False by simp
qed

text \<open>
  C18: A window that starts from its storage never gets stuck: whatever work was stored by an
  earlier window, and whatever commands, previews, commits and due removals follow in whatever
  order, nothing throws and the workbench stays well formed with one view per session. Every tab
  that is marked as closing has a pending removal, as long as drops are committed at once.
\<close>

theorem store_safe:
  assumes "holds_work storage s"
  shows "\<exists>st s'. js_bind (createWorkbenchStore None storage) (run_all runCommand cs) s = Inr (st, s') \<and>
    wf_snapshot True (storeSnapshot st) \<and>
    (list_all (\<lambda>c. \<not> commits c) cs \<longrightarrow> set (closingTabIds st) \<subseteq> pending (closeTimers st))"
  using window_run [OF assms, of cs] unfolding wp_def store_ok_def good_def by blast

definition ex_stored :: workbench_storage where
  "ex_stored = ex_storage\<lparr>storageItems :=
     [WORKBENCH_PERSISTENCE_KEY \<mapsto> Document (serializeWorkbenchSnapshot ex_snap)]\<rparr>"

lemma ex_holds_work: "holds_work (Some ex_stored) counter_ids"
proof -
  have "fresh counter_ids {}" by (rule counter_ids_fresh) simp
  then show ?thesis using ex_good ex_storable by (auto simp: holds_work_def ex_stored_def storable_def storable_tab_def)
qed

theorem store_safe_witness:
  "\<exists>st s'. js_bind (createWorkbenchStore None (Some ex_stored)) (run_all runCommand
      [PreviewDrop (FromPane ''t1'' ''p1'') (OnNewTab 2), CloseTab ''t2'',
       DropView (FromPane ''t1'' ''p1'') (OnNewTab 2), CloseView ''p2'', RemovalDue 0,
       OpenTarget ex_agent]) counter_ids = Inr (st, s') \<and>
    wf_snapshot True (storeSnapshot st) \<and> set (closingTabIds st) \<subseteq> pending (closeTimers st)"
  using store_safe [OF ex_holds_work, of "[PreviewDrop (FromPane ''t1'' ''p1'') (OnNewTab 2),
    CloseTab ''t2'', DropView (FromPane ''t1'' ''p1'') (OnNewTab 2), CloseView ''p2'', RemovalDue 0,
    OpenTarget ex_agent]"]
  by (simp del: run_all.simps runCommand.simps)

section \<open>Closing ends\<close>

text \<open>The pending removals fire in any order: the positions among those that are left.\<close>

fun firing_order :: "nat list \<Rightarrow> bool" where
  "firing_order [] \<longleftrightarrow> True"
| "firing_order (k # ks) \<longleftrightarrow> k \<le> length ks \<and> firing_order ks"

definition closing_left :: "ident set \<Rightarrow> workbench_store \<Rightarrow> bool" where
  "closing_left C st \<longleftrightarrow> length (tabs (storeSnapshot st)) = 1 \<or>
     (\<forall>t \<in> set (tabs (storeSnapshot st)). tabId t \<in> C \<longrightarrow> tabId t \<in> set (closingTabIds st))"

lemma closing_left_step:
  assumes "closing_left C st" "tabs_removed task st st'" "tabs (storeSnapshot st') \<noteq> []"
    and "closingTabIds st' = filter (\<lambda>i. i \<notin> set (taskTabIds task)) (closingTabIds st)"
  shows "closing_left C st'"
proof (cases "length (tabs (storeSnapshot st)) = 1")
  case True
  then have "length (tabs (storeSnapshot st')) \<le> 1"
    using assms(2) length_filter_le [of _ "tabs (storeSnapshot st)"] unfolding tabs_removed_def
    by (metis order_refl)
  then show ?thesis using assms(3) by (cases "tabs (storeSnapshot st')") (auto simp: closing_left_def)
next
  case False
  then show ?thesis using assms(1,2,4) by (auto simp: closing_left_def tabs_removed_def)
qed

lemma removals_run:
  assumes "store_ok True st s" "closing_left C st" "firing_order ks" "length ks = length (closeTimers st)"
  shows "wp (run_all runCommand (map RemovalDue ks) st)
    (\<lambda>st' s'. store_ok True st' s' \<and> closing_left C st' \<and> closeTimers st' = []) s"
  using assms
proof (induction ks arbitrary: st s)
  case (Cons k ks)
  then have k: "k < length (closeTimers st)" by simp
  show ?case
    unfolding list.map run_all.simps wp_bind
  proof (rule wp_mono [OF removalDue_ok [OF Cons.prems(1) k]], elim conjE)
    fix st' s' assume st': "store_ok True st' s'"
      "closingTabIds st' = filter (\<lambda>i. i \<notin> set (taskTabIds (closeTimers st ! k))) (closingTabIds st)"
      "closeTimers st' = remove_at k (closeTimers st)" "tabs_removed (closeTimers st ! k) st st'"
    have "tabs (storeSnapshot st') \<noteq> []" using st'(1) by (auto simp: store_ok_def good_def wf_snapshot_def)
    then show "wp (run_all runCommand (map RemovalDue ks) st')
        (\<lambda>st' s'. store_ok True st' s' \<and> closing_left C st' \<and> closeTimers st' = []) s'"
      using Cons.prems st' k by (intro Cons.IH) (auto intro: closing_left_step simp: length_remove_at)
  qed
qed simp

text \<open>
  C21: Closing a tab ends, in a window that commits no earlier preview (its drops are previewed and
  committed in one command, as the drag code does) and starts from what an earlier window wrote:
  from any state it reaches, when the pending removals have fired, in whatever order, no tab is
  marked as closing, no removal is pending, and each tab that was closing is gone, unless only one
  tab is left.
\<close>

theorem closing_settles:
  assumes "holds_work storage s"
    and "js_bind (createWorkbenchStore None storage) (run_all runCommand cs) s = Inr (st, s1)"
    and "list_all (\<lambda>c. \<not> commits c) cs"
    and "firing_order ks" and "length ks = length (closeTimers st)"
  shows "\<exists>st' s2. run_all runCommand (map RemovalDue ks) st s1 = Inr (st', s2) \<and>
    closingTabIds st' = [] \<and> closeTimers st' = [] \<and>
    (length (tabs (storeSnapshot st')) = 1 \<or>
     (\<forall>t \<in> set (tabs (storeSnapshot st')). tabId t \<notin> set (closingTabIds st)))"
proof -
  have "store_ok True st s1" using wp_result [OF window_run [OF assms(1)] assms(2)] assms(3) by simp
  then have "wp (run_all runCommand (map RemovalDue ks) st) (\<lambda>st' s'. store_ok True st' s' \<and>
      closing_left (set (closingTabIds st)) st' \<and> closeTimers st' = []) s1"
    using assms(4,5) by (intro removals_run) (auto simp: closing_left_def)
  then show ?thesis unfolding wp_def by (fastforce simp: store_ok_def closing_left_def)
qed

lemmas store_run_simps = createWorkbenchStore_def readWorkbenchSnapshot_def run_simps
  applyRemoveWorkspaceViews_def applyRemoveMatchingViews_def paneIdsMatching_def occurrences_def
  isWorkspaceTarget_def removePaneIdsFromTabs_def applyDedupeSessionViews_def duplicateRemovals_def
  addOccurrence_def isSessionViewTarget_def setSnapshot_def withSnapshot_def applyCreateTab_def
  closeTab_def markTabsClosing_def activeTabIdAfterMarking_def activeTabIdAfterClose_def
  scheduleTabRemoval_def

definition ex_window :: "js_error + workbench_store \<times> ids" where
  "ex_window = js_bind (createWorkbenchStore None None)
     (run_all runCommand [OpenTarget ex_agent, CreateTab, CloseTab ''#i'']) counter_ids"

lemma ex_window_run:
  "\<exists>st s. ex_window = Inr (st, s) \<and> length (closeTimers st) = 1 \<and> closingTabIds st = [''#i''] \<and> length (tabs (storeSnapshot st)) = 2"
  by (simp add: ex_window_def store_run_simps ex_agent_def)

theorem closing_settles_witness:
  "\<exists>st s1 st' s2. ex_window = Inr (st, s1) \<and> closingTabIds st = [''#i''] \<and>
    run_all runCommand [RemovalDue 0] st s1 = Inr (st', s2) \<and>
    closingTabIds st' = [] \<and> closeTimers st' = []"
proof -
  obtain st s where run: "ex_window = Inr (st, s)" "length (closeTimers st) = 1" "closingTabIds st = [''#i'']"
    using ex_window_run by blast
  have "holds_work None counter_ids"
    using counter_ids_fresh [of "{}"] by (simp add: holds_work_def)
  from closing_settles [OF this run(1) [unfolded ex_window_def], of "[0]"] run(2)
  obtain st' s2 where "run_all runCommand (map RemovalDue [0]) st s = Inr (st', s2)"
    "closingTabIds st' = []" "closeTimers st' = []" by (auto simp del: run_all.simps)
  then show ?thesis using run(1,3) unfolding list.map by blast
qed

section \<open>Stale previews\<close>

text \<open>
  A drop that was previewed before a tab is closed, and is committed after it, also restores the
  closing tabs of the preview. The tab is no longer closing, and its removal does nothing.
\<close>

definition ex_stale :: "js_error + workbench_store \<times> ids" where
  "ex_stale = js_bind (createWorkbenchStore None None) (run_all runCommand
     [OpenTarget ex_agent, CreateTab, PreviewDrop (FromTab ''#i'') (OnExistingTab ''#i''),
      CloseTab ''#i'', CommitDrop 0 True, RemovalDue 0]) counter_ids"

theorem stale_commit_revives:
  "\<exists>st s. ex_stale = Inr (st, s) \<and> ''#i'' \<in> tabId ` set (tabs (storeSnapshot st)) \<and>
    length (tabs (storeSnapshot st)) = 2 \<and> closingTabIds st = [] \<and> closeTimers st = []"
  by (simp add: ex_stale_def store_run_simps ex_agent_def previewDrop_def applyViewDrop_def dropTab_def
      findIndex_def leaf_def previewOf_def commitDrop_def remove_at_def removeClosedTabs_def)

end
