(* ===== verification/WorkbenchWindow.thy ===== *)
theory WorkbenchWindow
  imports WorkbenchStore
begin

text \<open>
  A window over time: the store (\<open>workbenchStore.ts\<close>) with the subscription that writes each new
  snapshot to the storage. A command changes the store with at most one new snapshot, so that the
  subscription runs at most once for it.
\<close>

section \<open>The subscription\<close>

text \<open>
  Nothing is written when the tabs are the same list and the active tab is the same. The version
  rises with every list that is certainly new; that an operation built a new list of equal tabs is
  a choice of the model (\<open>rebuilt\<close>).
\<close>

definition persistChange ::
  "bool \<Rightarrow> workbench_store \<Rightarrow> workbench_store \<Rightarrow> workbench_storage \<Rightarrow> workbench_storage js" where
  "persistChange rebuilt previous st storage =
     (if \<not> rebuilt \<and> tabsVersion st = tabsVersion previous \<and>
         activeTabId (storeSnapshot st) = activeTabId (storeSnapshot previous)
      then js_return storage
      else writeWorkbenchSnapshot (storeSnapshot st) storage)"

fun windowStep :: "store_command \<times> bool \<Rightarrow> workbench_store \<times> workbench_storage \<Rightarrow>
    (workbench_store \<times> workbench_storage) js" where
  "windowStep (c, rebuilt) (st, storage) =
     js_bind (runCommand c st) (\<lambda>st'.
     js_bind (persistChange rebuilt st st' storage) (\<lambda>storage'. js_return (st', storage')))"

definition runWindow :: "workbench_storage \<Rightarrow> (store_command \<times> bool) list \<Rightarrow>
    (workbench_store \<times> workbench_storage) js" where
  "runWindow storage cs =
     js_bind (createWorkbenchStore None (Some storage)) (\<lambda>st. run_all windowStep cs (st, storage))"

section \<open>The version tells when the tabs change\<close>

text \<open>What holds of each result of a computation, if it has one.\<close>

definition yields :: "'a js \<Rightarrow> ('a \<Rightarrow> bool) \<Rightarrow> bool" where
  "yields m P \<longleftrightarrow> (\<forall>s x s'. m s = Inr (x, s') \<longrightarrow> P x)"

lemma yields_return [simp]: "yields (js_return x) P \<longleftrightarrow> P x"
  by (simp add: yields_def js_return_def)

lemma yields_throw [simp]: "yields (js_throw msg) P"
  by (simp add: yields_def js_throw_def)

lemma yields_bind:
  assumes "yields m R" "\<And>x. R x \<Longrightarrow> yields (f x) P"
  shows "yields (js_bind m f) P"
  using assms by (fastforce simp: yields_def js_bind_def split: sum.splits prod.splits)

lemma yields_any: "yields m (\<lambda>_. True)"
  by (simp add: yields_def)

lemma wp_yields: "yields m P \<Longrightarrow> wp m Q s \<Longrightarrow> wp m (\<lambda>x s'. P x \<and> Q x s') s"
  by (fastforce simp: yields_def wp_def)

definition same_version :: "workbench_store \<Rightarrow> workbench_store \<Rightarrow> bool" where
  "same_version st st' \<longleftrightarrow> tabsVersion st \<le> tabsVersion st' \<and> (tabsVersion st' = tabsVersion st \<longrightarrow>
     tabs (storeSnapshot st') = tabs (storeSnapshot st))"

lemma notifyClosedViews_version [simp]: "tabsVersion (notifyClosedViews b a st) = tabsVersion st"
  by (simp add: notifyClosedViews_def Let_def)

lemma scheduleTabRemoval_fields [simp]:
  "tabsVersion (scheduleTabRemoval is n st) = tabsVersion st"
  "storeSnapshot (scheduleTabRemoval is n st) = storeSnapshot st"
  by (simp_all add: scheduleTabRemoval_def)

lemma same_version_simps [simp]:
  "same_version st st"
  "same_version st (notifyClosedViews b a st') \<longleftrightarrow> same_version st st'"
  "same_version st (scheduleTabRemoval is n st') \<longleftrightarrow> same_version st st'"
  by (simp_all add: same_version_def)

lemma same_version_withSnapshot:
  "tabsVersion st' = tabsVersion st \<Longrightarrow> storeSnapshot st' = storeSnapshot st \<Longrightarrow>
     same_version st (withSnapshot n snap st')"
  by (simp add: same_version_def withSnapshot_def)

lemma setSnapshot_version: "yields (setSnapshot b m st) (same_version st)"
  unfolding setSnapshot_def
  by (rule yields_bind [OF yields_any]) (simp add: same_version_withSnapshot)

lemma closeTab_version: "yields (closeTab i st) (same_version st)"
proof -
  have "yields (markTabsClosing st [i]) (\<lambda>r. case r of None \<Rightarrow> True | Some st' \<Rightarrow> same_version st st')"
    unfolding markTabsClosing_def Let_def
    by (auto intro!: yields_bind [OF yields_any] simp: same_version_def)
  then show ?thesis
    unfolding closeTab_def by (auto intro!: yields_bind simp: same_version_def split: option.splits)
qed

lemma commitTransition_version: "yields (commitTransition b after st) (same_version st)"
  unfolding commitTransition_def Let_def
  by (auto intro!: yields_bind [OF yields_any] same_version_withSnapshot)

lemma runCloseTransition_version: "yields (runCloseTransition transition b st) (same_version st)"
  unfolding runCloseTransition_def
  by (rule yields_bind [OF yields_any]) (auto simp: commitTransition_version split: option.split)

lemma removeClosedTabs_version: "yields (removeClosedTabs task st) (same_version st)"
  unfolding removeClosedTabs_def Let_def
  by (auto intro!: yields_bind [OF yields_any] split: option.split)
    (auto simp: same_version_def withSnapshot_def)

lemma previewDrop_version:
  "yields (previewDrop source target st)
     (\<lambda>st'. storeSnapshot st' = storeSnapshot st \<and> tabsVersion st' = tabsVersion st)"
  unfolding previewDrop_def
  by (rule yields_bind [OF yields_any]) (auto split: option.split)

lemma commitDrop_version:
  "storeSnapshot st' = storeSnapshot st \<Longrightarrow> tabsVersion st' = tabsVersion st \<Longrightarrow>
     same_version st (commitDrop k sameTabs st')"
  by (auto simp: commitDrop_def Let_def intro!: same_version_withSnapshot) (auto simp: same_version_def)

lemma runCommand_version: "yields (runCommand c st) (same_version st)"
proof (cases c)
  case (PreviewDrop source target)
  then show ?thesis using previewDrop_version [of source target st] by (simp add: yields_def same_version_def)
next
  case (DropView source target)
  show ?thesis
    unfolding DropView runCommand.simps dropView_def
    by (rule yields_bind [OF previewDrop_version]) (auto simp: commitDrop_version, auto simp: same_version_def)
next
  case (RemovalDue k)
  then show ?thesis
    using removeClosedTabs_version [of "closeTimers st ! k" "st\<lparr>closeTimers := remove_at k (closeTimers st)\<rparr>"]
    by (cases "length (closeTimers st) \<le> k") (simp_all add: same_version_def [abs_def])
next
  case ResetStore
  show ?thesis
    unfolding ResetStore runCommand.simps resetWorkbenchStore_def
    by (rule yields_bind [OF yields_any]) (simp add: same_version_withSnapshot cancelPendingCloseTasks_def)
qed (simp_all add: setSnapshot_version closeTab_version runCloseTransition_version commitDrop_version)

section \<open>What is stored is what is shown\<close>

text \<open>
  The store is in order, and once something was written, the storage holds the snapshot of the
  store.
\<close>

definition stores :: "workbench_storage \<Rightarrow> workbench_storage \<Rightarrow> snapshot \<Rightarrow> bool" where
  "stores initial storage snap \<longleftrightarrow> storageReadable storage \<and> (\<forall>k v. storageAccepts storage k v) \<and>
     (storage = initial \<or> storageItems storage WORKBENCH_PERSISTENCE_KEY =
        Some (Document (serializeWorkbenchSnapshot snap)))"

definition persisted ::
  "workbench_storage \<Rightarrow> workbench_store \<times> workbench_storage \<Rightarrow> ids \<Rightarrow> bool" where
  "persisted initial w s \<longleftrightarrow> store_ok False (fst w) s \<and> stores initial (snd w) (storeSnapshot (fst w))"

lemma supply_inv_store_ok: "supply_inv (store_ok w st)"
  unfolding supply_inv_def store_ok_def good_def by (blast intro: fresh_stl')

lemma persistChange_ok:
  assumes before: "stores initial storage (storeSnapshot previous)" and ok: "store_ok False st s"
    and version: "same_version previous st"
  shows "wp (persistChange rebuilt previous st storage) (\<lambda>storage'. persisted initial (st, storage')) s"
proof (cases "\<not> rebuilt \<and> tabsVersion st = tabsVersion previous \<and>
    activeTabId (storeSnapshot st) = activeTabId (storeSnapshot previous)")
  case True
  then have "storeSnapshot st = storeSnapshot previous"
    using version by (simp add: same_version_def)
  then show ?thesis using True before ok by (simp add: persistChange_def persisted_def)
next
  case False
  have storage: "storageReadable storage" "\<And>k v. storageAccepts storage k v"
    using before by (simp_all add: stores_def)
  show ?thesis
    unfolding persistChange_def if_not_P [OF False]
    by (rule wp_mono [OF writeWorkbenchSnapshot_wp [OF supply_inv_store_ok ok storage]])
      (simp add: persisted_def stores_def storage)
qed

lemma windowStep_ok:
  assumes "persisted initial w s"
  shows "wp (windowStep x w) (persisted initial) s"
proof -
  obtain c rebuilt st storage where x: "x = (c, rebuilt)" and w: "w = (st, storage)"
    by (metis surj_pair)
  have ok: "store_ok False st s" and before: "stores initial storage (storeSnapshot st)"
    using assms by (simp_all add: persisted_def w)
  have "wp (runCommand c st) (\<lambda>st' s'. same_version st st' \<and> store_ok False st' s') s"
    by (rule wp_yields [OF runCommand_version runCommand_ok [OF ok]]) simp
  then show ?thesis
    unfolding x w windowStep.simps wp_bind wp_return
    by (rule wp_mono) (blast intro: persistChange_ok [OF before])
qed

interpretation persisted: stepper windowStep "persisted initial" for initial
  by unfold_locales (rule windowStep_ok)

lemma runWindow_ok:
  assumes "holds_work (Some storage) s" "storageReadable storage" "\<And>k v. storageAccepts storage k v"
  shows "wp (runWindow storage cs) (persisted storage) s"
  unfolding runWindow_def wp_bind
proof (rule wp_mono [OF createWorkbenchStore_ok [OF assms(1)]])
  fix st s' assume "store_ok False st s'"
  then show "wp (run_all windowStep cs (st, storage)) (persisted storage) s'"
    using assms(2,3) by (intro persisted.run_inv) (simp add: persisted_def stores_def)
qed

text \<open>
  C20: A reload keeps the work, as far as it was written. A window starts from a storage that can be
  read, takes every write and holds nothing, a text that cannot be parsed or what an earlier window
  wrote; after any commands that have changed the storage and led to a workbench of storable shape,
  what the next window reads is the workbench as it stands (the same active tab and the same tabs
  with their panes, views, layouts, focus and titles), unless it is one that the reader refuses (a tab shows a
  workspace view or a draft twice, or two drafts belong to one workspace). In any case the storage
  is again one from which a window can start.
\<close>

theorem reload_restores:
  assumes "holds_work (Some storage) s" and "storageReadable storage" and "\<And>k v. storageAccepts storage k v"
    and "runWindow storage cs s = Inr ((st, storage'), s1)" and "storage' \<noteq> storage"
    and "\<forall>t \<in> set (tabs (storeSnapshot st)). storable_shape t"
  shows "holds_work (Some storage') s1 \<and> (unrestorable (storeSnapshot st) \<or>
    (\<exists>snap s2. readWorkbenchSnapshot (Some storage') s1 = Inr (Some snap, s2) \<and>
       activeTabId snap = activeTabId (storeSnapshot st) \<and>
       list_all2 same_work (tabs (storeSnapshot st)) (tabs snap)))"
proof -
  let ?snap = "storeSnapshot st"
  have "persisted storage (st, storage') s1"
    by (rule wp_result [OF runWindow_ok [OF assms(1-3)] assms(4)])
  then have good: "good True ?snap s1" and readable: "storageReadable storage'"
    and stored: "storageItems storage' WORKBENCH_PERSISTENCE_KEY = Some (Document (serializeWorkbenchSnapshot ?snap))"
    using assms(5) by (auto simp: persisted_def stores_def store_ok_def)
  have "fresh s1 {}" using good by (auto simp: good_def intro: fresh_antimono)
  then have holds: "holds_work (Some storage') s1" using good stored assms(6) by (auto simp: holds_work_def)
  show ?thesis
  proof (cases "unrestorable ?snap")
    case False
    then have "storable ?snap" using assms(6) by (auto simp: storable_def storable_tab_def unrestorable_def)
    with good have "wp (decodeWorkbenchSnapshot (serializeWorkbenchSnapshot ?snap))
        (\<lambda>r s'. (\<exists>snap'. r = Some snap' \<and> activeTabId snap' = activeTabId ?snap \<and>
          list_all2 same_work (tabs ?snap) (tabs snap')) \<and> True) s1"
      by (intro decode_written [where U = True] supply_inv_True) (simp_all add: good_def)
    then show ?thesis
      using holds readable stored
      by (auto simp: wp_def readWorkbenchSnapshot_def deserializeWorkbenchSnapshot_def)
  qed (use holds in simp)
qed

lemma ex_reload_run:
  "\<exists>st storage s. runWindow ex_storage [(OpenTarget ex_agent, False)] counter_ids = Inr ((st, storage), s) \<and>
     storage \<noteq> ex_storage \<and> (\<forall>t \<in> set (tabs (storeSnapshot st)). storable_shape t) \<and>
     \<not> unrestorable (storeSnapshot st)"
  by (simp add: runWindow_def store_run_simps ex_agent_def ex_storage_def persistChange_def
      writeWorkbenchSnapshot_def setItem_def)
    (simp add: storable_shape_def unrestorable_def draftWorkspaceKeys_def uniqueKeys_def uniqueInTab_def
      isSessionViewTarget_def)

theorem reload_restores_witness:
  "\<exists>st storage s1 snap s2.
     runWindow ex_storage [(OpenTarget ex_agent, False)] counter_ids = Inr ((st, storage), s1) \<and>
     readWorkbenchSnapshot (Some storage) s1 = Inr (Some snap, s2) \<and>
     activeTabId snap = activeTabId (storeSnapshot st) \<and>
     list_all2 same_work (tabs (storeSnapshot st)) (tabs snap)"
proof -
  obtain st storage s where run: "runWindow ex_storage [(OpenTarget ex_agent, False)] counter_ids =
      Inr ((st, storage), s)" "storage \<noteq> ex_storage" "\<forall>t \<in> set (tabs (storeSnapshot st)). storable_shape t"
    "\<not> unrestorable (storeSnapshot st)" using ex_reload_run by blast
  have "holds_work (Some ex_storage) counter_ids"
    using counter_ids_fresh [of "{}"] by (simp add: holds_work_def ex_storage_def)
  from reload_restores [OF this _ _ run(1-3)] run(1,4) show ?thesis by (auto simp: ex_storage_def)
qed

end
