(* ===== verification/ChangeRequestUrl.thy ===== *)
theory ChangeRequestUrl
  imports JsString
begin

text \<open>
  Change request URLs (\<open>packages/shared/src/changeRequestUrl.ts\<close>): the repository and number
  behind a pull request link of the supported hosts, and the link a host writes for them.
  \<open>new URL\<close> is the platform's parser, an argument here: None where the constructor throws.
  The regular expressions are written over the \<open>/\<close>-separated segments of the path, which is
  what \<open>[^/]+\<close> matches; a greedy repetition takes the longest prefix that still matches.
\<close>

section \<open>URLs and path segments\<close>

record url =
  protocol :: string
  hostname :: string
  url_host :: string
  pathname :: string
  origin :: string

type_synonym url_parser = "string \<Rightarrow> url option"

record change_request_link =
  cr_host :: string
  cr_repository :: string
  cr_number :: nat
  cr_authority :: "string option"

definition MAX_SAFE_INTEGER :: nat where
  "MAX_SAFE_INTEGER = 2 ^ 53 - 1"

text \<open>The segments after the leading slash, None when the path does not begin with one.\<close>

definition path_segments :: "string \<Rightarrow> string list option" where
  "path_segments p = (case splitOn (CHR ''/'') p of [] # segs \<Rightarrow> Some segs | _ \<Rightarrow> None)"

definition number_segment :: "string \<Rightarrow> bool" where
  "number_segment s \<longleftrightarrow> s \<noteq> [] \<and> list_all is_digit s"

text \<open>The marker segments and a number follow the first \<open>k\<close> segments, none of them empty.\<close>

definition matches_after :: "nat \<Rightarrow> string list \<Rightarrow> string list \<Rightarrow> bool" where
  "matches_after k markers segs \<longleftrightarrow>
     k \<le> length segs \<and> list_all (\<lambda>s. s \<noteq> []) (take k segs) \<and>
     take (length markers) (drop k segs) = markers \<and>
     (case drop (k + length markers) segs of n # _ \<Rightarrow> number_segment n | [] \<Rightarrow> False)"

text \<open>The repository and the number of the match with the longest repository among \<open>ok\<close>.\<close>

definition path_match ::
  "(nat \<Rightarrow> bool) \<Rightarrow> string list \<Rightarrow> string list \<Rightarrow> (string \<times> string) option" where
  "path_match ok markers segs =
     map_option (\<lambda>k. (joinWith ''/'' (take k segs), segs ! (k + length markers)))
       (List.find (\<lambda>k. ok k \<and> matches_after k markers segs) (rev [0..<Suc (length segs)]))"

definition claim :: "string \<Rightarrow> (string \<times> string) option \<Rightarrow> change_request_link option" where
  "claim h m = (case m of
     None \<Rightarrow> None
   | Some (r, n) \<Rightarrow>
       if r \<noteq> [] \<and> digits_value n \<le> MAX_SAFE_INTEGER \<and> 0 < digits_value n
       then Some \<lparr> cr_host = h, cr_repository = toLowerCase r, cr_number = digits_value n,
                   cr_authority = None \<rparr>
       else None)"

definition isHostOf :: "string \<Rightarrow> string \<Rightarrow> string option \<Rightarrow> bool" where
  "isHostOf h apex label \<longleftrightarrow>
     h = apex \<or> endsWith h (''.'' @ apex) \<or>
     (case label of None \<Rightarrow> False | Some l \<Rightarrow> l \<in> set (splitOn (CHR ''.'') h))"

section \<open>Reading a link\<close>

definition githubMatch :: "string list \<Rightarrow> (string \<times> string) option" where
  "githubMatch = path_match (\<lambda>k. k = 2) [''pull'']"

definition forgejoMatch :: "string list \<Rightarrow> (string \<times> string) option" where
  "forgejoMatch = path_match (\<lambda>k. 2 \<le> k) [''pulls'']"

definition gitlabMatch :: "string list \<Rightarrow> (string \<times> string) option" where
  "gitlabMatch = path_match (\<lambda>k. 2 \<le> k) [''-'', ''merge_requests'']"

definition bitbucketMatch :: "string list \<Rightarrow> (string \<times> string) option" where
  "bitbucketMatch = path_match (\<lambda>k. k = 2) [''pull-requests'']"

definition azureMatch :: "string list \<Rightarrow> (string \<times> string) option" where
  "azureMatch segs =
     path_match (\<lambda>k. 2 \<le> k \<and> segs ! (k - 2) = ''_git'') [''pullrequest''] segs"

definition parseChangeRequestUrl :: "url_parser \<Rightarrow> string \<Rightarrow> change_request_link option" where
  "parseChangeRequestUrl parseUrl targetUrl = (case parseUrl targetUrl of
     None \<Rightarrow> None
   | Some u \<Rightarrow>
       if protocol u \<noteq> ''https:'' \<and> protocol u \<noteq> ''http:'' then None
       else case path_segments (pathname u) of
         None \<Rightarrow> None
       | Some segs \<Rightarrow>
           (let h = toLowerCase (hostname u) in
            if isHostOf h ''github.com'' (Some ''github'') \<and> githubMatch segs \<noteq> None
            then claim h (githubMatch segs)
            else if forgejoMatch segs \<noteq> None
            then map_option (\<lambda>l. l\<lparr>cr_authority := Some (toLowerCase (url_host u))\<rparr>)
                   (claim h (forgejoMatch segs))
            else if gitlabMatch segs \<noteq> None then claim h (gitlabMatch segs)
            else if isHostOf h ''bitbucket.org'' (Some ''bitbucket'')
            then claim h (bitbucketMatch segs)
            else if isHostOf h ''dev.azure.com'' None \<or> endsWith h ''.visualstudio.com''
            then claim h (azureMatch segs)
            else None))"

section \<open>Canonical repository keys\<close>

text \<open>
  \<open>canonicalRepositoryKey\<close> of \<open>sourceControl.ts\<close>: the SSH form and the per-organisation host of
  an Azure DevOps repository become the form of its current host.
\<close>

definition azureSshKey :: "string \<Rightarrow> string" where
  "azureSshKey key = (case splitOn (CHR ''/'') key of
     [h, v, a, b, c] \<Rightarrow>
       if h \<in> {''ssh.dev.azure.com'', ''vs-ssh.visualstudio.com''} \<and> v = ''v3'' \<and>
          a \<noteq> [] \<and> b \<noteq> [] \<and> c \<noteq> []
       then ''dev.azure.com/'' @ a @ ''/'' @ b @ ''/_git/'' @ c
       else key
   | _ \<Rightarrow> key)"

definition visualStudioKey :: "string \<Rightarrow> string" where
  "visualStudioKey key =
     (let org = takeWhile (\<lambda>c. c \<noteq> CHR ''.'') key;
          rest = drop (length org) key;
          suffix = ''.visualstudio.com/'';
          renamed = (\<lambda>p r. ''dev.azure.com/'' @ org @ ''/'' @ p @ ''/_git/'' @ r) in
      if org \<noteq> [] \<and> startsWith rest suffix
      then (case splitOn (CHR ''/'') (drop (length suffix) rest) of
          [p, g, r] \<Rightarrow> if g = ''_git'' \<and> p \<noteq> [] \<and> r \<noteq> [] then renamed p r else key
        | [d, p, g, r] \<Rightarrow>
            if d = ''defaultcollection'' \<and> g = ''_git'' \<and> p \<noteq> [] \<and> r \<noteq> []
            then renamed p r else key
        | _ \<Rightarrow> key)
      else key)"

definition canonicalRepositoryKey :: "string \<Rightarrow> string" where
  "canonicalRepositoryKey key = visualStudioKey (azureSshKey key)"

section \<open>Writing a link\<close>

definition forgejoOrigin :: "url_parser \<Rightarrow> string \<Rightarrow> string option \<Rightarrow> string option" where
  "forgejoOrigin parseUrl h remoteUrl =
     (case parseUrl (case remoteUrl of None \<Rightarrow> [] | Some r \<Rightarrow> r) of
        None \<Rightarrow> None
      | Some u \<Rightarrow>
          if (protocol u = ''http:'' \<or> protocol u = ''https:'') \<and>
             (toLowerCase (hostname u) = toLowerCase h \<or> toLowerCase (url_host u) = toLowerCase h)
          then Some (origin u) else None)"

definition changeRequestUrlFor ::
  "url_parser \<Rightarrow> string option \<Rightarrow> string \<Rightarrow> string \<Rightarrow> nat \<Rightarrow> string option \<Rightarrow> string option" where
  "changeRequestUrlFor parseUrl kind h repository n remoteUrl =
     (if kind = Some ''github''
      then Some (''https://'' @ h @ ''/'' @ repository @ ''/pull/'' @ decimal n)
      else if kind = Some ''forgejo''
      then Some ((case forgejoOrigin parseUrl h remoteUrl of
                    Some o' \<Rightarrow> o' | None \<Rightarrow> ''https://'' @ h)
                 @ ''/'' @ repository @ ''/pulls/'' @ decimal n)
      else if kind = Some ''gitlab''
      then Some (''https://'' @ h @ ''/'' @ repository @ ''/-/merge_requests/'' @ decimal n)
      else if kind = Some ''bitbucket''
      then Some (''https://'' @ h @ ''/'' @ repository @ ''/pull-requests/'' @ decimal n)
      else if kind = Some ''azure-devops''
      then Some (''https://'' @ canonicalRepositoryKey (toLowerCase (h @ ''/'' @ repository))
                 @ ''/pullrequest/'' @ decimal n)
      else None)"

definition matchesLinkedPullRequestUrl :: "url_parser \<Rightarrow> string \<Rightarrow> string \<Rightarrow> bool" where
  "matchesLinkedPullRequestUrl parseUrl linkedUrl targetUrl =
     (case (parseChangeRequestUrl parseUrl linkedUrl, parseChangeRequestUrl parseUrl targetUrl) of
        (Some l, Some t) \<Rightarrow>
          cr_host l = cr_host t \<and> cr_repository l = cr_repository t \<and>
          cr_number l = cr_number t \<and> cr_authority l = cr_authority t
      | _ \<Rightarrow> False)"

section \<open>Matching\<close>

lemma number_segment_decimal [simp]: "number_segment (decimal n)"
  using decimal_digits by (simp add: number_segment_def list_all_iff)

lemma find_skip: "\<forall>x \<in> set xs. \<not> P x \<Longrightarrow> List.find P (xs @ ys) = List.find P ys"
  by (induction xs) auto

lemma path_match_exact:
  assumes "ok (length segs)" and "list_all (\<lambda>s. s \<noteq> []) segs" and "number_segment n"
  shows "path_match ok markers (segs @ markers @ [n]) = Some (joinWith ''/'' segs, n)"
proof -
  let ?all = "segs @ markers @ [n]" and ?k = "length segs"
  let ?P = "\<lambda>k. ok k \<and> matches_after k markers ?all"
  have hit: "?P ?k" using assms by (simp add: matches_after_def)
  have miss: "\<not> ?P j" if "?k < j" for j
    using that by (auto simp: matches_after_def split: list.splits)
  have "[0..<Suc (length ?all)] = [0..<?k] @ [?k..<Suc (length ?all)]"
    using upt_add_eq_append [of 0 ?k "Suc (length ?all) - ?k"] by (simp del: upt_Suc)
  then have "[0..<Suc (length ?all)] = [0..<?k] @ ?k # [Suc ?k..<Suc (length ?all)]"
    by (simp add: upt_conv_Cons del: upt_Suc)
  then have "rev [0..<Suc (length ?all)] = rev [Suc ?k..<Suc (length ?all)] @ ?k # rev [0..<?k]"
    by (simp del: upt_Suc)
  moreover have "\<forall>j \<in> set (rev [Suc ?k..<Suc (length ?all)]). \<not> ?P j"
    by (intro ballI miss) auto
  ultimately have "List.find ?P (rev [0..<Suc (length ?all)]) = Some ?k"
    using hit find_skip [of "rev [Suc ?k..<Suc (length ?all)]" ?P] by (simp del: upt_Suc)
  then show ?thesis by (simp add: path_match_def nth_append)
qed

lemma path_match_none:
  assumes "m \<notin> set segs" and "m \<in> set markers"
  shows "path_match ok markers segs = None"
proof -
  have "\<not> matches_after k markers segs" for k
    using assms by (metis in_set_dropD in_set_takeD matches_after_def)
  then show ?thesis by (simp add: path_match_def find_None_iff)
qed

lemma path_segments_joinWith:
  assumes "ps \<noteq> []" and "\<And>p. p \<in> set ps \<Longrightarrow> CHR ''/'' \<notin> set p"
  shows "path_segments (''/'' @ joinWith ''/'' ps) = Some ps"
  using splitOn_joinWith [of ps "CHR ''/''"] assms by (simp add: path_segments_def)

section \<open>Round trip\<close>

text \<open>
  A repository path as a host writes it: at least two segments, none of them empty and none a
  marker of a host's pull request pages.
\<close>

definition repository_path :: "string list \<Rightarrow> bool" where
  "repository_path segs \<longleftrightarrow>
     2 \<le> length segs \<and>
     (\<forall>s \<in> set segs. s \<noteq> [] \<and> CHR ''/'' \<notin> set s \<and> s \<noteq> ''pull'' \<and> s \<noteq> ''pulls'')"

text \<open>The hosts and path lengths on which the pages of a provider are recognised.\<close>

definition served_by :: "string \<Rightarrow> string \<Rightarrow> nat \<Rightarrow> bool" where
  "served_by kind h k \<longleftrightarrow>
     kind = ''github'' \<and> isHostOf h ''github.com'' (Some ''github'') \<and> k = 2 \<or>
     kind = ''bitbucket'' \<and> isHostOf h ''bitbucket.org'' (Some ''bitbucket'') \<and> k = 2 \<or>
     kind \<in> {''gitlab'', ''forgejo''}"

definition page_markers :: "string \<Rightarrow> string list" where
  "page_markers kind =
     (if kind = ''github'' then [''pull'']
      else if kind = ''forgejo'' then [''pulls'']
      else if kind = ''gitlab'' then [''-'', ''merge_requests'']
      else [''pull-requests''])"

lemma joinWith_append:
  "ps \<noteq> [] \<Longrightarrow> qs \<noteq> [] \<Longrightarrow> joinWith d (ps @ qs) = joinWith d ps @ d @ joinWith d qs"
proof (induction ps rule: induct_list012)
  case (2 p)
  then show ?case by (cases qs) auto
qed auto

lemma page_url:
  assumes kind: "served_by kind h k" and segs: "segs \<noteq> []"
    and target: "changeRequestUrlFor parseUrl (Some kind) h (joinWith ''/'' segs) n None = Some target"
    and no_remote: "parseUrl [] = None"
  shows "target = ''https://'' @ h @ ''/'' @ joinWith ''/'' (segs @ page_markers kind @ [decimal n])"
proof -
  consider "kind = ''github''" | "kind = ''bitbucket''" | "kind = ''gitlab''" | "kind = ''forgejo''"
    using kind unfolding served_by_def by blast
  then show ?thesis
    by cases (use target segs no_remote in
      \<open>simp_all add: changeRequestUrlFor_def page_markers_def joinWith_append forgejoOrigin_def\<close>)
qed

lemma page_markers_plain: "m \<in> set (page_markers kind) \<Longrightarrow> CHR ''/'' \<notin> set m"
  by (cases "kind = ''github''"; cases "kind = ''forgejo''"; cases "kind = ''gitlab''")
    (auto simp: page_markers_def)

lemma segments_page:
  assumes "repository_path segs"
  shows "path_segments (''/'' @ joinWith ''/'' (segs @ page_markers kind @ [decimal n]))
     = Some (segs @ page_markers kind @ [decimal n])"
proof (rule path_segments_joinWith)
  fix p assume "p \<in> set (segs @ page_markers kind @ [decimal n])"
  then consider "p \<in> set segs" | "p \<in> set (page_markers kind)" | "p = decimal n" by auto
  then show "CHR ''/'' \<notin> set p"
  proof cases
    case 1
    then show ?thesis using assms unfolding repository_path_def by blast
  qed (use page_markers_plain no_slash_decimal in blast)+
qed simp

lemma numeral_not_marker:
  "decimal n \<noteq> ''pull''" "decimal n \<noteq> ''pulls''" "decimal n \<noteq> ''-''"
proof -
  have "\<not> list_all is_digit ''pull''" "\<not> list_all is_digit ''pulls''" "\<not> list_all is_digit ''-''"
    by (simp_all add: is_digit_def)
  then show "decimal n \<noteq> ''pull''" "decimal n \<noteq> ''pulls''" "decimal n \<noteq> ''-''"
    using decimal_digits [of n] by (auto simp: list_all_iff)
qed

lemma claim_decimal:
  assumes "r \<noteq> []" and "0 < n" and "n \<le> MAX_SAFE_INTEGER"
  shows "claim h (Some (r, decimal n)) =
    Some \<lparr>cr_host = h, cr_repository = toLowerCase r, cr_number = n, cr_authority = None\<rparr>"
  using assms by (simp add: claim_def)

lemma repository_path_joined: "repository_path segs \<Longrightarrow> joinWith ''/'' segs \<noteq> []"
  by (cases segs rule: remdups_adj.cases) (auto simp: repository_path_def)

lemma other_pages:
  assumes "repository_path segs"
  shows "kind \<noteq> ''github'' \<Longrightarrow> githubMatch (segs @ page_markers kind @ [decimal n]) = None"
    and "kind \<noteq> ''forgejo'' \<Longrightarrow> forgejoMatch (segs @ page_markers kind @ [decimal n]) = None"
proof -
  have markers: "\<forall>m \<in> set (page_markers kind).
      (kind \<noteq> ''github'' \<longrightarrow> m \<noteq> ''pull'') \<and> (kind \<noteq> ''forgejo'' \<longrightarrow> m \<noteq> ''pulls'')"
    by (cases "kind = ''github''"; cases "kind = ''forgejo''"; cases "kind = ''gitlab''")
      (auto simp: page_markers_def)
  show "githubMatch (segs @ page_markers kind @ [decimal n]) = None" if "kind \<noteq> ''github''"
    unfolding githubMatch_def using assms markers numeral_not_marker(1) [of n] that
    by (intro path_match_none [where m = "''pull''"])
      (auto simp: repository_path_def)
  show "forgejoMatch (segs @ page_markers kind @ [decimal n]) = None" if "kind \<noteq> ''forgejo''"
    unfolding forgejoMatch_def using assms markers numeral_not_marker(2) [of n] that
    by (intro path_match_none [where m = "''pulls''"])
      (auto simp: repository_path_def)
qed

lemma own_page:
  assumes "repository_path segs"
  shows "length segs = 2 \<Longrightarrow>
      githubMatch (segs @ [''pull''] @ [decimal n]) = Some (joinWith ''/'' segs, decimal n)"
    and "length segs = 2 \<Longrightarrow>
      bitbucketMatch (segs @ [''pull-requests''] @ [decimal n]) = Some (joinWith ''/'' segs, decimal n)"
    and "forgejoMatch (segs @ [''pulls''] @ [decimal n]) = Some (joinWith ''/'' segs, decimal n)"
    and "gitlabMatch (segs @ [''-'', ''merge_requests''] @ [decimal n])
      = Some (joinWith ''/'' segs, decimal n)"
  unfolding githubMatch_def bitbucketMatch_def forgejoMatch_def gitlabMatch_def
  using assms by (intro path_match_exact; simp add: repository_path_def list_all_iff)+

lemma bitbucket_not_gitlab:
  assumes "repository_path segs" and "length segs = 2"
  shows "gitlabMatch (segs @ [''pull-requests''] @ [decimal n]) = None"
proof -
  have "\<not> (2 \<le> k \<and> matches_after k [''-'', ''merge_requests''] (segs @ [''pull-requests''] @ [decimal n]))"
    for k
    using assms(2) numeral_not_marker(3) [of n]
    by (auto simp: matches_after_def drop_Cons' split: if_splits list.splits)
  then show ?thesis unfolding gitlabMatch_def path_match_def by (simp add: find_None_iff)
qed

lemma parse_page:
  assumes kind: "served_by kind (toLowerCase h) (length segs)" and segs: "repository_path segs"
    and n: "0 < n" "n \<le> MAX_SAFE_INTEGER"
    and u: "parseUrl target = Some u" "protocol u = ''https:''" "hostname u = h"
      "pathname u = ''/'' @ joinWith ''/'' (segs @ page_markers kind @ [decimal n])"
  shows "parseChangeRequestUrl parseUrl target = Some
     \<lparr>cr_host = toLowerCase h, cr_repository = toLowerCase (joinWith ''/'' segs), cr_number = n,
      cr_authority = (if kind = ''forgejo'' then Some (toLowerCase (url_host u)) else None)\<rparr>"
proof -
  let ?segs = "segs @ page_markers kind @ [decimal n]"
  have segments: "path_segments (pathname u) = Some ?segs"
    unfolding u(4) by (rule segments_page [OF segs])
  note parse = parseChangeRequestUrl_def Let_def u(1-3) segments
  note claimed = claim_decimal [OF repository_path_joined [OF segs] n]
  note other = other_pages [OF segs, of kind n]
  consider "kind = ''github''" "isHostOf (toLowerCase h) ''github.com'' (Some ''github'')" "length segs = 2"
    | "kind = ''bitbucket''" "isHostOf (toLowerCase h) ''bitbucket.org'' (Some ''bitbucket'')" "length segs = 2"
    | "kind = ''gitlab''" | "kind = ''forgejo''"
    using kind unfolding served_by_def by blast
  then show ?thesis
  proof cases
    case 1
    have "githubMatch ?segs = Some (joinWith ''/'' segs, decimal n)"
      using own_page(1) [OF segs 1(3)] 1(1) by (simp add: page_markers_def)
    then show ?thesis using 1 claimed by (simp add: parse)
  next
    case 2
    have "bitbucketMatch ?segs = Some (joinWith ''/'' segs, decimal n)" "gitlabMatch ?segs = None"
      using own_page(2) [OF segs 2(3)] bitbucket_not_gitlab [OF segs 2(3)] 2(1)
      by (simp_all add: page_markers_def)
    then show ?thesis using 2 claimed other by (simp add: parse)
  next
    case 3
    have "gitlabMatch ?segs = Some (joinWith ''/'' segs, decimal n)"
      using own_page(4) [OF segs] 3 by (simp add: page_markers_def)
    then show ?thesis using 3 claimed other by (simp add: parse)
  next
    case 4
    have "forgejoMatch ?segs = Some (joinWith ''/'' segs, decimal n)"
      using own_page(3) [OF segs] 4 by (simp add: page_markers_def)
    then show ?thesis using 4 claimed other by (simp add: parse)
  qed
qed

text \<open>
  C17: Reading back the page that \<open>changeRequestUrlFor\<close> writes, without a remote URL, for a change
  request of GitHub, GitLab, Bitbucket or Forgejo gives that change request: its host, its
  repository path in lower case and its number, with the authority on Forgejo only. The host is in
  lower case and one that the reader believes: any for GitLab and Forgejo, for GitHub and Bitbucket
  one of that name or label, with a path of two segments (pages of these two on other hosts read
  back as nothing). The path has at least two segments, none empty and none called pull or pulls;
  the number is positive and a safe integer. Azure DevOps is left out: its pages are written for
  dev.azure.com whatever the host of the remote is. The platform's URL parser is only assumed to
  reject the empty string and to split the written URL into its scheme, host and path.
\<close>

theorem changeRequestUrl_roundtrip:
  assumes "served_by kind h (length segs)" and "toLowerCase h = h" and "repository_path segs"
    and "0 < n" and "n \<le> MAX_SAFE_INTEGER"
    and "changeRequestUrlFor parseUrl (Some kind) h (joinWith ''/'' segs) n None = Some target"
    and "parseUrl [] = None"
    and "parseUrl target = Some u" and "protocol u = ''https:''" and "hostname u = h"
    and "''https://'' @ h @ pathname u = target"
  shows "parseChangeRequestUrl parseUrl target = Some
     \<lparr>cr_host = h, cr_repository = toLowerCase (joinWith ''/'' segs), cr_number = n,
      cr_authority = (if kind = ''forgejo'' then Some (toLowerCase (url_host u)) else None)\<rparr>"
proof -
  have "segs \<noteq> []"
    using assms(3) unfolding repository_path_def by (cases segs) (simp, blast)
  from trans [OF assms(11) page_url [OF assms(1) this assms(6,7)]]
  have "pathname u = ''/'' @ joinWith ''/'' (segs @ page_markers kind @ [decimal n])"
    by (simp only: same_append_eq)
  moreover have "served_by kind (toLowerCase h) (length segs)"
    unfolding assms(2) by (rule assms(1))
  ultimately show ?thesis
    using parse_page [of kind h segs n parseUrl target u] assms(3-5,8-10) unfolding assms(2) by blast
qed

definition example_url_parser :: url_parser where
  "example_url_parser s =
     (if s = [] then None
      else Some \<lparr>protocol = ''https:'', hostname = ''code.acme.io'', url_host = ''code.acme.io'',
        pathname = drop 20 s, origin = ''https://code.acme.io''\<rparr>)"

theorem changeRequestUrl_roundtrip_witness:
  "parseChangeRequestUrl example_url_parser ''https://code.acme.io/Team/Sub/App/-/merge_requests/42''
     = Some \<lparr>cr_host = ''code.acme.io'', cr_repository = ''team/sub/app'', cr_number = 42,
        cr_authority = None\<rparr>"
proof -
  have dec: "decimal 42 = ''42''" by code_simp
  have lower: "toLowerCase ''code.acme.io'' = ''code.acme.io''"
    "toLowerCase ''Team/Sub/App'' = ''team/sub/app''" by code_simp+
  have "parseChangeRequestUrl example_url_parser
      ''https://code.acme.io/Team/Sub/App/-/merge_requests/42'' = Some
     \<lparr>cr_host = ''code.acme.io'', cr_repository = toLowerCase (joinWith ''/'' [''Team'', ''Sub'', ''App'']),
      cr_number = 42, cr_authority = (if ''gitlab'' = ''forgejo''
        then Some (toLowerCase (url_host (the (example_url_parser
          ''https://code.acme.io/Team/Sub/App/-/merge_requests/42'')))) else None)\<rparr>"
    by (rule changeRequestUrl_roundtrip)
      (simp_all add: served_by_def lower repository_path_def
        MAX_SAFE_INTEGER_def changeRequestUrlFor_def example_url_parser_def dec)
  then show ?thesis by (simp add: lower)
qed

end
