(* ===== verification/PullRequests.thy ===== *)
theory PullRequests
  imports ChangeRequestUrl Json
begin

text \<open>
  The pull requests linked to a thread (\<open>packages/shared/src/threadPullRequests.ts\<close> and the
  link types of \<open>packages/contracts/src/orchestration.ts\<close>): the identity of a link, the stacks
  a thread's links form, and the single link that clients of the old protocol see.
  \<open>Date.parse\<close> is an argument, None for \<open>NaN\<close>.
\<close>

section \<open>Links\<close>

type_synonym date_parser = "string \<Rightarrow> int option"

datatype pull_request_state = PrOpen | PrClosed | PrMerged

datatype link_source = LinkManual | LinkCreated | LinkAgent | LinkStack | LinkStackDismissed

record thread_linked_pull_request =
  linked_projectId :: ident
  linked_repository :: string
  linked_number :: nat
  linked_url :: string

record pull_request_snapshot =
  snap_state :: pull_request_state
  snap_title :: string
  snap_headBranch :: string
  snap_baseBranch :: string
  snap_isDraft :: bool
  snap_updatedAt :: "string option"
  snap_syncedAt :: string
  snap_closedAt :: "string option"
  snap_mergedAt :: "string option"
  snap_overview :: json

record stack_layer =
  layer_number :: nat
  layer_headBranch :: string
  layer_state :: pull_request_state

record pull_request_stack =
  stack_id :: string
  stack_number :: nat
  stack_url :: string
  stack_base :: string
  stack_layers :: "stack_layer list"

record pull_request_key =
  key_host :: string
  key_repository :: string
  key_number :: nat

record pull_request_link =
  link_host :: string
  link_repository :: string
  link_number :: nat
  link_url :: string
  link_source :: link_source
  link_linkedAt :: string
  link_snapshot :: "pull_request_snapshot option"
  link_stack :: "pull_request_stack option"

record repository_identity =
  canonicalKey :: string
  remoteUrl :: string
  displayName :: "string option"
  provider :: "string option"
  identity_owner :: "string option"
  identity_name :: "string option"

section \<open>The identity of a link\<close>

record key_source = pull_request_key +
  source_authority :: "string option"
  source_url :: "string option"

definition linkSource :: "pull_request_link \<Rightarrow> key_source" where
  "linkSource l = \<lparr>key_host = link_host l, key_repository = link_repository l,
     key_number = link_number l, source_authority = None, source_url = Some (link_url l)\<rparr>"

definition keySource :: "pull_request_key \<Rightarrow> key_source" where
  "keySource k = \<lparr>key_host = key_host k, key_repository = key_repository k,
     key_number = key_number k, source_authority = None, source_url = None\<rparr>"

definition parsedSource :: "change_request_link \<Rightarrow> key_source" where
  "parsedSource p = \<lparr>key_host = cr_host p, key_repository = cr_repository p,
     key_number = cr_number p, source_authority = cr_authority p, source_url = None\<rparr>"

definition recoveredAuthority :: "url_parser \<Rightarrow> key_source \<Rightarrow> string option" where
  "recoveredAuthority parseUrl k =
     (case Option.bind (source_url k) (parseChangeRequestUrl parseUrl) of
        None \<Rightarrow> None
      | Some p \<Rightarrow>
          if cr_repository p = toLowerCase (js_trim (key_repository k)) \<and> cr_number p = key_number k
          then cr_authority p else None)"

definition normalizeThreadPullRequestKey :: "url_parser \<Rightarrow> key_source \<Rightarrow> pull_request_key" where
  "normalizeThreadPullRequestKey parseUrl k =
     (let authority = (case source_authority k of
            Some a \<Rightarrow> Some a | None \<Rightarrow> recoveredAuthority parseUrl k);
          canonical = canonicalRepositoryKey
            (toLowerCase (js_trim (case authority of Some a \<Rightarrow> a | None \<Rightarrow> key_host k)) @ ''/'' @
             toLowerCase (js_trim (key_repository k)));
          h = takeWhile (\<lambda>c. c \<noteq> CHR ''/'') canonical in
      \<lparr>key_host = h, key_repository = drop (length h + 1) canonical, key_number = key_number k\<rparr>)"

definition threadPullRequestKeyOf :: "url_parser \<Rightarrow> key_source \<Rightarrow> string" where
  "threadPullRequestKeyOf parseUrl k =
     (let n = normalizeThreadPullRequestKey parseUrl k in
      key_host n @ ''/'' @ key_repository n @ ''#'' @ decimal (key_number n))"

definition threadPullRequestKeysEqual :: "url_parser \<Rightarrow> key_source \<Rightarrow> key_source \<Rightarrow> bool" where
  "threadPullRequestKeysEqual parseUrl a b \<longleftrightarrow>
     threadPullRequestKeyOf parseUrl a = threadPullRequestKeyOf parseUrl b"

text \<open>The key of a stored link, the form in which every lookup below uses it.\<close>

abbreviation linkKey :: "url_parser \<Rightarrow> pull_request_link \<Rightarrow> string" where
  "linkKey parseUrl l \<equiv> threadPullRequestKeyOf parseUrl (linkSource l)"

definition legacyThreadPullRequestKey ::
  "url_parser \<Rightarrow> string \<Rightarrow> nat \<Rightarrow> string \<Rightarrow> string option \<Rightarrow> pull_request_key" where
  "legacyThreadPullRequestKey parseUrl repository n url fallbackHost =
     (let plain =
        (let h = (case fallbackHost of
                Some f \<Rightarrow> f
              | None \<Rightarrow> (case parseUrl url of Some u \<Rightarrow> hostname u | None \<Rightarrow> ''unknown''));
             h' = toLowerCase (js_trim h) in
         \<lparr>key_host = (if h' = [] then ''unknown'' else h'),
          key_repository = toLowerCase (js_trim repository), key_number = n\<rparr>) in
      case parseChangeRequestUrl parseUrl url of
        None \<Rightarrow> plain
      | Some p \<Rightarrow>
          if cr_number p = n \<and>
             (cr_authority p \<noteq> None \<or>
              startsWith (canonicalRepositoryKey (cr_host p @ ''/'' @ cr_repository p))
                ''dev.azure.com/'')
          then normalizeThreadPullRequestKey parseUrl (parsedSource p)
          else plain)"

section \<open>Stacks\<close>

definition visibleThreadPullRequests :: "pull_request_link list \<Rightarrow> pull_request_link list" where
  "visibleThreadPullRequests links = filter (\<lambda>l. link_source l \<noteq> LinkStackDismissed) links"

definition isOpen :: "pull_request_link \<Rightarrow> bool" where
  "isOpen l = (case link_snapshot l of None \<Rightarrow> True | Some s \<Rightarrow> snap_state s = PrOpen)"

definition latestUpdatedAt :: "date_parser \<Rightarrow> pull_request_link \<Rightarrow> int" where
  "latestUpdatedAt parseDate l =
     (let value = (case Option.bind (link_snapshot l) snap_updatedAt of
            Some u \<Rightarrow> u | None \<Rightarrow> link_linkedAt l) in
      case parseDate value of Some ms \<Rightarrow> ms | None \<Rightarrow> 0)"

datatype chain_kind = NativeChain | DerivedChain

type_synonym chain = "chain_kind \<times> pull_request_link list"

abbreviation layersOf :: "chain \<Rightarrow> pull_request_link list" where
  "layersOf c \<equiv> snd c"

text \<open>The links of one host-native stack, by the stack's key, in insertion order.\<close>

definition stackKey :: "url_parser \<Rightarrow> pull_request_link \<Rightarrow> pull_request_stack \<Rightarrow> string" where
  "stackKey parseUrl l s =
     (let k = normalizeThreadPullRequestKey parseUrl (linkSource l) in
      key_host k @ ''/'' @ key_repository k @ ''#stack:'' @ stack_id s)"

definition addToStack ::
  "url_parser \<Rightarrow> (string \<times> pull_request_link list) list \<Rightarrow> pull_request_link \<Rightarrow>
     (string \<times> pull_request_link list) list" where
  "addToStack parseUrl stacks l = (case link_stack l of
     None \<Rightarrow> stacks
   | Some s \<Rightarrow>
       (let k = stackKey parseUrl l s in
        AList.update k ((case map_of stacks k of Some ms \<Rightarrow> ms | None \<Rightarrow> []) @ [l]) stacks))"

definition nativeStacks ::
  "url_parser \<Rightarrow> pull_request_link list \<Rightarrow> (string \<times> pull_request_link list) list" where
  "nativeStacks parseUrl visible = foldl (addToStack parseUrl) [] visible"

text \<open>The position of a link in the stack of the group's first member; a later layer with the
  same number overrides an earlier one, as in a \<open>Map\<close>.\<close>

definition layerOrder :: "pull_request_link list \<Rightarrow> nat \<Rightarrow> int" where
  "layerOrder members n =
     (case members of
        [] \<Rightarrow> 0
      | m # _ \<Rightarrow>
          (case link_stack m of
             None \<Rightarrow> 0
           | Some s \<Rightarrow>
               (case map_of (rev (zip (map layer_number (stack_layers s))
                       [0..<length (stack_layers s)])) n of
                  Some i \<Rightarrow> int i | None \<Rightarrow> 0)))"

definition nativeChain :: "pull_request_link list \<Rightarrow> chain" where
  "nativeChain members =
     (NativeChain, toSorted (\<lambda>a b. layerOrder members (link_number a)
                                  - layerOrder members (link_number b)) members)"

definition branchKey :: "url_parser \<Rightarrow> pull_request_link \<Rightarrow> string \<Rightarrow> string" where
  "branchKey parseUrl l branch =
     (let k = normalizeThreadPullRequestKey parseUrl (linkSource l) in
      key_host k @ ''/'' @ key_repository k @ '':'' @ branch)"

text \<open>Head branches; None marks a reused name, which identifies no parent.\<close>

definition addHead ::
  "url_parser \<Rightarrow> (string \<times> pull_request_link option) list \<Rightarrow> pull_request_link \<Rightarrow>
     (string \<times> pull_request_link option) list" where
  "addHead parseUrl heads l = (case link_snapshot l of
     None \<Rightarrow> heads
   | Some s \<Rightarrow>
       (let k = branchKey parseUrl l (snap_headBranch s) in
        AList.update k (if has_key heads k then None else Some l) heads))"

definition byHead ::
  "url_parser \<Rightarrow> pull_request_link list \<Rightarrow> (string \<times> pull_request_link option) list" where
  "byHead parseUrl remaining = foldl (addHead parseUrl) [] remaining"

text \<open>The link a snapshot's base branch leads to.\<close>

definition parentOf ::
  "url_parser \<Rightarrow> (string \<times> pull_request_link option) list \<Rightarrow> pull_request_link \<Rightarrow>
     pull_request_link option" where
  "parentOf parseUrl heads l = (case link_snapshot l of
     None \<Rightarrow> None
   | Some s \<Rightarrow> Option.bind (map_of heads (branchKey parseUrl l (snap_baseBranch s))) id)"

definition hasChild ::
  "url_parser \<Rightarrow> (string \<times> pull_request_link option) list \<Rightarrow> pull_request_link list \<Rightarrow> string list" where
  "hasChild parseUrl heads remaining =
     concat (map (\<lambda>l. case parentOf parseUrl heads l of
        Some p \<Rightarrow> if p \<noteq> l then [linkKey parseUrl p] else []
      | None \<Rightarrow> []) remaining)"

text \<open>
  Walking down from a top. The loop runs while the cursor is a link that no chain holds yet;
  each round places one, and the links to place are the top and the values of \<open>byHead\<close>.
\<close>

function walkDown ::
  "url_parser \<Rightarrow> (string \<times> pull_request_link option) list \<Rightarrow> string list \<Rightarrow>
     pull_request_link list \<Rightarrow> pull_request_link option \<Rightarrow> pull_request_link list \<times> string list" where
  "walkDown parseUrl heads placed layers cursor =
     (case cursor of
        None \<Rightarrow> (layers, placed)
      | Some c \<Rightarrow>
          if linkKey parseUrl c \<in> set placed then (layers, placed)
          else walkDown parseUrl heads (placed @ [linkKey parseUrl c]) (c # layers)
                 (parentOf parseUrl heads c))"
  by pat_completeness auto

lemma parentOf_value:
  "parentOf parseUrl heads l = Some p \<Longrightarrow> Some p \<in> snd ` set heads"
  by (force simp: parentOf_def bind_eq_Some_conv split: option.splits dest!: map_of_SomeD)

definition unplaced ::
  "url_parser \<Rightarrow> (string \<times> pull_request_link option) list \<Rightarrow> string list \<Rightarrow>
     pull_request_link option \<Rightarrow> string set" where
  "unplaced parseUrl heads placed cursor =
     linkKey parseUrl ` {l. cursor = Some l \<or> Some l \<in> snd ` set heads} - set placed"

lemma finite_unplaced [simp]: "finite (unplaced parseUrl heads placed cursor)"
proof -
  have "{l. cursor = Some l \<or> Some l \<in> snd ` set heads} \<subseteq> the ` (insert cursor (snd ` set heads))"
    by force
  then have "finite {l. cursor = Some l \<or> Some l \<in> snd ` set heads}"
    by (rule finite_subset) simp
  then show ?thesis by (simp add: unplaced_def)
qed

lemma unplaced_decreases:
  assumes "linkKey parseUrl c \<notin> set placed"
  shows "unplaced parseUrl heads (placed @ [linkKey parseUrl c]) (parentOf parseUrl heads c)
    \<subset> unplaced parseUrl heads placed (Some c)"
proof -
  have "linkKey parseUrl c \<in> unplaced parseUrl heads placed (Some c)"
    using assms by (auto simp: unplaced_def)
  then show ?thesis
    by (auto simp: unplaced_def dest: parentOf_value)
qed

termination walkDown
proof (relation "measure (\<lambda>(parseUrl, heads, placed, layers, cursor).
    card (unplaced parseUrl heads placed cursor))")
  fix parseUrl heads placed and layers :: "pull_request_link list" and cursor c
  assume "cursor = Some c" and "linkKey parseUrl c \<notin> set placed"
  then show "((parseUrl, heads, placed @ [linkKey parseUrl c], c # layers, parentOf parseUrl heads c),
      parseUrl, heads, placed, layers, cursor) \<in> measure (\<lambda>(parseUrl, heads, placed, layers, cursor).
        card (unplaced parseUrl heads placed cursor))"
    using unplaced_decreases [of parseUrl c placed heads] by (simp add: psubset_card_mono)
qed simp

declare walkDown.simps [simp del]

text \<open>The chains below every top, in the order of the links.\<close>

fun derivedChains ::
  "url_parser \<Rightarrow> (string \<times> pull_request_link option) list \<Rightarrow> string list \<Rightarrow>
     pull_request_link list \<Rightarrow> string list \<Rightarrow> chain list \<times> string list" where
  "derivedChains parseUrl heads children [] placed = ([], placed)"
| "derivedChains parseUrl heads children (t # ts) placed =
     (if linkKey parseUrl t \<in> set children
      then derivedChains parseUrl heads children ts placed
      else (let (layers, placed') = walkDown parseUrl heads placed [] (Some t);
                (chains, placed'') = derivedChains parseUrl heads children ts placed' in
            (if layers \<noteq> [] then (DerivedChain, layers) # chains else chains, placed'')))"

definition resolveThreadPullRequestChains ::
  "url_parser \<Rightarrow> pull_request_link list \<Rightarrow> chain list" where
  "resolveThreadPullRequestChains parseUrl links =
     (let visible = visibleThreadPullRequests links;
          native = map (nativeChain \<circ> snd) (nativeStacks parseUrl visible);
          placed = concat (map (map (linkKey parseUrl) \<circ> layersOf) native);
          remaining = filter (\<lambda>l. linkKey parseUrl l \<notin> set placed) visible;
          heads = byHead parseUrl remaining;
          children = hasChild parseUrl heads remaining;
          (derived, placed') = derivedChains parseUrl heads children remaining placed;
          cycles = map (\<lambda>l. (DerivedChain, [l]))
            (filter (\<lambda>l. linkKey parseUrl l \<notin> set placed') remaining) in
      native @ derived @ cycles)"

section \<open>The current pull request\<close>

datatype current_pull_request =
    SingleCurrent pull_request_link
  | StackCurrent "pull_request_link list" pull_request_link

text \<open>\<open>Math.max\<close> over the link times of a chain, None for \<open>NaN\<close>.\<close>

definition latestLinkedAt :: "date_parser \<Rightarrow> pull_request_link list \<Rightarrow> int option" where
  "latestLinkedAt parseDate ls =
     (let ts = map (\<lambda>l. parseDate (link_linkedAt l)) ls in
      if None \<in> set ts then None else Some (Max (the ` set ts)))"

definition laterFirst :: "date_parser \<Rightarrow> pull_request_link list \<Rightarrow> pull_request_link list \<Rightarrow> int" where
  "laterFirst parseDate a b = (case (latestLinkedAt parseDate b, latestLinkedAt parseDate a) of
     (Some tb, Some ta) \<Rightarrow> tb - ta | _ \<Rightarrow> 0)"

definition resolveThreadCurrentPullRequest ::
  "url_parser \<Rightarrow> date_parser \<Rightarrow> pull_request_link list \<Rightarrow> current_pull_request option" where
  "resolveThreadCurrentPullRequest parseUrl parseDate links =
     (let visible = visibleThreadPullRequests links; open = filter isOpen visible in
      if visible = [] then None
      else if length open = 1 then Some (SingleCurrent (hd open))
      else (let chains = resolveThreadPullRequestChains parseUrl visible in
        if length open > 1
        then (let openChains = filter (\<lambda>ls. ls \<noteq> [])
                    (map (\<lambda>c. filter isOpen (rev (layersOf c))) chains);
                  ordered = concat (toSorted (laterFirst parseDate) openChains) in
              Some (StackCurrent ordered (hd ordered)))
        else if length chains = 1 then Some (SingleCurrent (last (layersOf (hd chains))))
        else Some (SingleCurrent (hd (toSorted
               (\<lambda>a b. latestUpdatedAt parseDate b - latestUpdatedAt parseDate a) visible)))))"

definition resolveThreadCurrentPullRequestLink ::
  "url_parser \<Rightarrow> date_parser \<Rightarrow> pull_request_link list \<Rightarrow> pull_request_link option" where
  "resolveThreadCurrentPullRequestLink parseUrl parseDate links =
     (case resolveThreadCurrentPullRequest parseUrl parseDate links of
        None \<Rightarrow> None
      | Some (SingleCurrent l) \<Rightarrow> Some l
      | Some (StackCurrent ls t) \<Rightarrow> Some t)"

section \<open>The link of the old protocol\<close>

definition sourceControlRepositorySelector :: "repository_identity \<Rightarrow> string option" where
  "sourceControlRepositorySelector identity =
     (let nonempty = (\<lambda>s. case s of Some [] \<Rightarrow> None | _ \<Rightarrow> s) in
      if provider identity = Some ''azure-devops''
      then (let segments = filter (\<lambda>p. p \<noteq> ''_git'')
                (splitOn (CHR ''/'') (case displayName identity of Some d \<Rightarrow> d | None \<Rightarrow> [])) in
            case nonempty (identity_name identity) of
              Some n \<Rightarrow> Some n
            | None \<Rightarrow> if segments = [] then None else nonempty (Some (last segments)))
      else case nonempty (displayName identity) of
        Some d \<Rightarrow> Some d
      | None \<Rightarrow>
          (case (nonempty (identity_owner identity), nonempty (identity_name identity)) of
             (Some ow, Some n) \<Rightarrow> Some (ow @ ''/'' @ n)
           | _ \<Rightarrow> None))"

definition httpRemote :: "url_parser \<Rightarrow> repository_identity \<Rightarrow> url option" where
  "httpRemote parseUrl identity = (case parseUrl (remoteUrl identity) of
     None \<Rightarrow> None
   | Some u \<Rightarrow> if protocol u = ''http:'' \<or> protocol u = ''https:'' then Some u else None)"

text \<open>The first segment of the canonical key; the provider's name when it is blank.\<close>

definition pullRequestHostOf :: "url_parser \<Rightarrow> repository_identity \<Rightarrow> string option" where
  "pullRequestHostOf parseUrl identity =
     (let named = (let h = js_trim (hd (splitOn (CHR ''/'') (canonicalKey identity))) in
            if h = [] then provider identity else Some (toLowerCase h)) in
      if provider identity = Some ''forgejo''
      then (case httpRemote parseUrl identity of
              Some u \<Rightarrow> Some (toLowerCase (url_host u)) | None \<Rightarrow> named)
      else named)"

text \<open>
  Whether a link belongs to the repository of the thread's own project. The host is missing only
  for an identity with neither a host in its key nor a provider, where the code would throw.
\<close>

definition inOwnRepository ::
  "url_parser \<Rightarrow> repository_identity \<Rightarrow> string \<Rightarrow> pull_request_link \<Rightarrow> bool" where
  "inOwnRepository parseUrl identity repository l =
     (if provider identity = Some ''azure-devops''
      then (let key = legacyThreadPullRequestKey parseUrl (link_repository l) (link_number l)
                  (link_url l) (Some (link_host l)) in
            canonicalRepositoryKey (key_host key @ ''/'' @ key_repository key)
              = canonicalRepositoryKey (toLowerCase (canonicalKey identity)))
      else (let ownHost = pullRequestHostOf parseUrl identity;
                plain = (Some (toLowerCase (link_host l)) = map_option toLowerCase ownHost \<and>
                         toLowerCase (link_repository l) = toLowerCase repository) in
        case parseChangeRequestUrl parseUrl (link_url l) of
          None \<Rightarrow> plain
        | Some p \<Rightarrow>
            (case cr_authority p of
               None \<Rightarrow> plain
             | Some a \<Rightarrow>
                 (case httpRemote parseUrl identity of
                    Some u \<Rightarrow> a = url_host u \<and> cr_repository p = toLowerCase repository
                  | None \<Rightarrow> Some (cr_host p) = ownHost \<and>
                      cr_repository p = toLowerCase repository))))"

definition legacyLinkedPullRequestOf ::
  "url_parser \<Rightarrow> date_parser \<Rightarrow> pull_request_link list \<Rightarrow> ident \<Rightarrow> repository_identity option \<Rightarrow>
     thread_linked_pull_request option" where
  "legacyLinkedPullRequestOf parseUrl parseDate links projectId identity = (case identity of
     None \<Rightarrow> None
   | Some i \<Rightarrow>
       (case sourceControlRepositorySelector i of
          None \<Rightarrow> None
        | Some repository \<Rightarrow>
            map_option (\<lambda>l. \<lparr>linked_projectId = projectId,
                linked_repository = (if provider i = Some ''azure-devops'' then repository
                                     else link_repository l),
                linked_number = link_number l, linked_url = link_url l\<rparr>)
              (resolveThreadCurrentPullRequestLink parseUrl parseDate
                 (filter (inOwnRepository parseUrl i repository) links))))"

section \<open>Badges and search\<close>

datatype badge_state = BadgeOpen | BadgeClosed | BadgeMerged | BadgeDraft

datatype pull_request_badge = StackBadge nat badge_state | PullRequestBadge nat badge_state

definition badgeState :: "pull_request_link list \<Rightarrow> badge_state" where
  "badgeState visible =
     (let states = map (\<lambda>l. case link_snapshot l of Some s \<Rightarrow> snap_state s | None \<Rightarrow> PrOpen) visible in
      if list_all (\<lambda>l. case link_snapshot l of
             Some s \<Rightarrow> snap_state s = PrOpen \<and> snap_isDraft s | None \<Rightarrow> False) visible
      then BadgeDraft
      else if PrOpen \<in> set states then BadgeOpen
      else if list_all (\<lambda>s. s = PrMerged) states then BadgeMerged
      else BadgeClosed)"

definition resolveThreadPullRequestBadge ::
  "url_parser \<Rightarrow> pull_request_link list option \<Rightarrow> pull_request_badge option" where
  "resolveThreadPullRequestBadge parseUrl pullRequests =
     (let visible = visibleThreadPullRequests (case pullRequests of Some ls \<Rightarrow> ls | None \<Rightarrow> []);
          state = badgeState visible in
      if visible = [] then None
      else if length visible > 1 \<and> length (resolveThreadPullRequestChains parseUrl visible) = 1
      then Some (StackBadge (length visible) state)
      else Some (PullRequestBadge (length visible - 1) state))"

definition threadPullRequestSearchTerms ::
  "pull_request_link list option \<Rightarrow> thread_linked_pull_request option \<Rightarrow> string list" where
  "threadPullRequestSearchTerms pullRequests linkedPullRequest =
     (case pullRequests of
        Some (l # ls) \<Rightarrow>
          concat (map (\<lambda>l. [''#'' @ decimal (link_number l),
              link_repository l @ ''#'' @ decimal (link_number l), link_url l,
              (case link_snapshot l of Some s \<Rightarrow> snap_title s | None \<Rightarrow> [])])
            (visibleThreadPullRequests (l # ls)))
      | _ \<Rightarrow>
          (case linkedPullRequest of
             Some p \<Rightarrow> [''#'' @ decimal (linked_number p),
               linked_repository p @ ''#'' @ decimal (linked_number p), linked_url p]
           | None \<Rightarrow> []))"

section \<open>Every visible link is in exactly one chain\<close>

lemma addToStack_mset:
  "mset (concat (map snd (AList.update k ((case map_of m k of Some v \<Rightarrow> v | None \<Rightarrow> []) @ [l]) m)))
     = add_mset l (mset (concat (map snd m)))"
  by (induction m) (auto split: option.splits)

lemma nativeStacks_mset:
  "mset (concat (map snd (foldl (addToStack parseUrl) acc ls)))
     = mset (concat (map snd acc)) + mset (filter (\<lambda>l. link_stack l \<noteq> None) ls)"
proof (induction ls arbitrary: acc)
  case (Cons l ls)
  then show ?case
    by (cases "link_stack l") (simp_all add: addToStack_def addToStack_mset Let_def del: mset_concat)
qed simp

lemma native_layers_mset:
  "mset (concat (map (layersOf \<circ> (nativeChain \<circ> snd)) stacks)) = mset (concat (map snd stacks))"
  by (induction stacks) (simp_all add: nativeChain_def)

text \<open>What a loop over the links to place adds: links that were not placed, each once.\<close>

definition places ::
  "url_parser \<Rightarrow> pull_request_link set \<Rightarrow> string list \<Rightarrow> string list \<Rightarrow> pull_request_link list \<Rightarrow> bool"
where
  "places parseUrl R placed placed' new \<longleftrightarrow>
     placed' = placed @ map (linkKey parseUrl) new \<and> set new \<subseteq> R \<and>
     distinct (map (linkKey parseUrl) new) \<and> linkKey parseUrl ` set new \<inter> set placed = {}"

lemma places_nil [simp]: "places parseUrl R placed placed' [] \<longleftrightarrow> placed' = placed"
  by (simp add: places_def)

lemma places_append:
  "places parseUrl R p p' xs \<Longrightarrow> places parseUrl R p' p'' ys \<Longrightarrow> places parseUrl R p p'' (xs @ ys)"
  unfolding places_def by auto

lemma places_single:
  "c \<in> R \<Longrightarrow> linkKey parseUrl c \<notin> set p \<Longrightarrow> places parseUrl R p (p @ [linkKey parseUrl c]) [c]"
  by (simp add: places_def)

lemma walkDown_places:
  assumes "\<And>l. Some l \<in> snd ` set heads \<Longrightarrow> l \<in> R" and "\<And>c. cursor = Some c \<Longrightarrow> c \<in> R"
    and "walkDown parseUrl heads placed layers cursor = (layers', placed')"
  shows "\<exists>new. layers' = rev new @ layers \<and> places parseUrl R placed placed' new"
  using assms
proof (induction parseUrl heads placed layers cursor arbitrary: layers' placed' rule: walkDown.induct)
  case (1 parseUrl heads placed layers cursor)
  show ?case
  proof (cases "\<exists>c. cursor = Some c \<and> linkKey parseUrl c \<notin> set placed")
    case False
    then have "(layers', placed') = (layers, placed)"
      using "1.prems"(3) by (subst (asm) walkDown.simps) (auto split: option.splits if_splits)
    then show ?thesis by (intro exI [of _ "[]"]) simp
  next
    case True
    then obtain c where c: "cursor = Some c" "linkKey parseUrl c \<notin> set placed" by blast
    then have "walkDown parseUrl heads (placed @ [linkKey parseUrl c]) (c # layers)
        (parentOf parseUrl heads c) = (layers', placed')"
      using "1.prems"(3) by (subst (asm) walkDown.simps) simp
    moreover have "c' \<in> R" if "parentOf parseUrl heads c = Some c'" for c'
      using parentOf_value [OF that] "1.prems"(1) by blast
    ultimately obtain new where new: "layers' = rev new @ c # layers"
        "places parseUrl R (placed @ [linkKey parseUrl c]) placed' new"
      using "1.IH" [OF c "1.prems"(1)] by blast
    have "places parseUrl R placed placed' ([c] @ new)"
      by (rule places_append [OF places_single new(2)]) (use c "1.prems"(2) in auto)
    then show ?thesis using new(1) by (intro exI [of _ "c # new"]) simp
  qed
qed

lemma derivedChains_places:
  assumes "\<And>l. Some l \<in> snd ` set heads \<Longrightarrow> l \<in> R" and "set ts \<subseteq> R"
    and "derivedChains parseUrl heads children ts placed = (ch, placed')"
  shows "\<exists>new. mset (concat (map layersOf ch)) = mset new \<and> places parseUrl R placed placed' new"
  using assms
proof (induction ts arbitrary: placed ch placed')
  case Nil
  then show ?case by (intro exI [of _ "[]"]) simp
next
  case (Cons t ts)
  show ?case
  proof (cases "linkKey parseUrl t \<in> set children")
    case True
    then show ?thesis using Cons.IH [of placed ch placed'] Cons.prems by simp
  next
    case False
    obtain layers q where w: "walkDown parseUrl heads placed [] (Some t) = (layers, q)"
      by (cases "walkDown parseUrl heads placed [] (Some t)")
    obtain cs where d: "derivedChains parseUrl heads children ts q = (cs, placed')"
      and chains: "ch = (if layers \<noteq> [] then (DerivedChain, layers) # cs else cs)"
      using False Cons.prems(3) w by (auto split: prod.splits)
    obtain xs where xs: "layers = rev xs @ []" "places parseUrl R placed q xs"
      using walkDown_places [OF Cons.prems(1) _ w] Cons.prems(2) by force
    obtain ys where ys: "mset (concat (map layersOf cs)) = mset ys" "places parseUrl R q placed' ys"
      using Cons.IH [OF Cons.prems(1) _ d] Cons.prems(2) by auto
    have "mset (concat (map layersOf ch)) = mset (xs @ ys)"
      using xs(1) ys(1) chains by simp
    then show ?thesis using places_append [OF xs(2) ys(2)] by blast
  qed
qed

lemma update_values: "snd ` set (AList.update k v m) \<subseteq> insert v (snd ` set m)"
  by (induction m) auto

lemma update_values_cases:
  "w \<in> snd ` set (AList.update k v m) \<Longrightarrow> w = v \<or> w \<in> snd ` set m"
  using update_values [of k v m] by blast

lemma byHead_values:
  "Some l \<in> snd ` set (foldl (addHead parseUrl) heads ls) \<Longrightarrow> l \<in> set ls \<or> Some l \<in> snd ` set heads"
proof (induction ls arbitrary: heads)
  case (Cons x ls)
  have "l = x \<or> Some l \<in> snd ` set heads" if "Some l \<in> snd ` set (addHead parseUrl heads x)"
  proof (cases "link_snapshot x")
    case (Some sn)
    let ?k = "branchKey parseUrl x (snap_headBranch sn)"
    from that Some have "Some l \<in> snd ` set (AList.update ?k (if has_key heads ?k then None else Some x) heads)"
      unfolding addHead_def Let_def by (simp only: option.case)
    from update_values_cases [OF this] show ?thesis by (cases "has_key heads ?k") simp_all
  qed (use that in \<open>simp add: addHead_def\<close>)
  with Cons show ?case by auto
qed simp

lemma places_filter:
  assumes "places parseUrl (set rest) placed placed' new"
    and inj: "inj_on (linkKey parseUrl) (set rest)"
    and "\<forall>l \<in> set rest. linkKey parseUrl l \<notin> set placed"
  shows "set (filter (\<lambda>l. linkKey parseUrl l \<in> set placed') rest) = set new"
proof -
  have new: "placed' = placed @ map (linkKey parseUrl) new" "set new \<subseteq> set rest"
    using assms(1) by (auto simp: places_def)
  have "linkKey parseUrl l \<in> set placed' \<longleftrightarrow> l \<in> set new" if "l \<in> set rest" for l
    using assms(3) that inj_on_image_mem_iff [OF inj that new(2)] by (auto simp: new(1))
  then show ?thesis using new(2) by auto
qed

text \<open>What is not part of a native stack is placed once, below its base or alone.\<close>

lemma derived_and_cycles:
  assumes inj: "inj_on (linkKey parseUrl) (set rest)" and dist: "distinct rest"
    and apart: "\<forall>l \<in> set rest. linkKey parseUrl l \<notin> set placed"
    and run: "derivedChains parseUrl (byHead parseUrl rest) children rest placed = (derived, placed')"
  shows "mset (concat (map layersOf derived)) + mset (filter (\<lambda>l. linkKey parseUrl l \<notin> set placed') rest) = mset rest"
proof -
  let ?key = "linkKey parseUrl"
  obtain new where new: "mset (concat (map layersOf derived)) = mset new"
      "places parseUrl (set rest) placed placed' new"
    using derivedChains_places [OF _ _ run, of "set rest"] byHead_values [of _ parseUrl "[]" rest]
    by (auto simp: byHead_def)
  have "distinct new" using new(2) by (auto simp: places_def distinct_map)
  moreover have "set (filter (\<lambda>l. ?key l \<in> set placed') rest) = set new"
    by (rule places_filter [OF new(2) inj apart])
  ultimately have "mset (filter (\<lambda>l. ?key l \<in> set placed') rest) = mset new"
    using dist by (intro iffD1 [OF set_eq_iff_mset_eq_distinct]) simp_all
  then show ?thesis unfolding new(1) by (metis mset_filter multiset_partition)
qed

lemma native_layers:
  "mset (concat (map layersOf (map (nativeChain \<circ> snd) (nativeStacks parseUrl ls))))
     = mset (filter (\<lambda>l. link_stack l \<noteq> None) ls)"
  using native_layers_mset [of "nativeStacks parseUrl ls"] nativeStacks_mset [of parseUrl "[]" ls]
  by (simp add: nativeStacks_def del: mset_concat)

lemma resolved_chains_mset:
  assumes "distinct (map (linkKey parseUrl) (visibleThreadPullRequests links))"
  shows "mset (concat (map layersOf (resolveThreadPullRequestChains parseUrl links)))
    = mset (visibleThreadPullRequests links)"
proof -
  let ?key = "linkKey parseUrl" and ?vs = "visibleThreadPullRequests links"
  define native where "native = map (nativeChain \<circ> snd) (nativeStacks parseUrl ?vs)"
  define placed where "placed = concat (map (map ?key \<circ> layersOf) native)"
  define rest where "rest = filter (\<lambda>l. ?key l \<notin> set placed) ?vs"
  let ?heads = "byHead parseUrl rest"
  obtain derived placed' where derived:
      "derivedChains parseUrl ?heads (hasChild parseUrl ?heads rest) rest placed = (derived, placed')"
    by (cases "derivedChains parseUrl ?heads (hasChild parseUrl ?heads rest) rest placed")
  define cycles where "cycles = filter (\<lambda>l. ?key l \<notin> set placed') rest"
  have chains: "resolveThreadPullRequestChains parseUrl links =
      native @ derived @ map (\<lambda>l. (DerivedChain, [l])) cycles"
    using derived unfolding resolveThreadPullRequestChains_def Let_def native_def placed_def
      rest_def cycles_def by simp
  note native = native_layers [of parseUrl ?vs, folded native_def]
  have "set placed = ?key ` set (concat (map layersOf native))" by (auto simp: placed_def)
  then have placed: "set placed = ?key ` {l \<in> set ?vs. link_stack l \<noteq> None}"
    by (simp only: mset_eq_setD [OF native] set_filter)
  have inj: "inj_on ?key (set ?vs)" and dist: "distinct ?vs" using assms by (simp_all add: distinct_map)
  have rest: "rest = filter (\<lambda>l. link_stack l = None) ?vs"
    unfolding rest_def placed using inj by (auto simp: inj_on_def intro!: filter_cong)
  have "mset (concat (map layersOf derived)) + mset cycles = mset rest"
    unfolding cycles_def by (rule derived_and_cycles [OF _ _ _ derived])
      (use inj dist in \<open>auto simp: rest_def inj_on_def\<close>)
  moreover have "mset (concat (map layersOf native)) + mset rest = mset ?vs"
    unfolding native rest by (metis (no_types, lifting) add.commute filter_cong mset_filter
        multiset_partition)
  moreover have "mset (concat (map layersOf (map (\<lambda>l. (DerivedChain, [l])) cycles))) = mset cycles"
    by (induction cycles) auto
  ultimately show ?thesis unfolding chains map_append concat_append mset_append by (metis add.assoc)
qed

text \<open>
  C15: The chains partition the links a user sees: when no two of them are the same pull
  request, every visible link is in exactly one chain, in one place, whatever native stacks,
  reused branch names or cycles of base branches there are.
\<close>

theorem chains_partition:
  assumes "distinct (map (linkKey parseUrl) (visibleThreadPullRequests links))"
  shows "mset (concat (map layersOf (resolveThreadPullRequestChains parseUrl links)))
    = mset (visibleThreadPullRequests links)"
  using assms by (rule resolved_chains_mset)

definition ex_pr_snapshot :: "string \<Rightarrow> string \<Rightarrow> pull_request_state \<Rightarrow> pull_request_snapshot" where
  "ex_pr_snapshot head base state = \<lparr>snap_state = state, snap_title = ''Change'',
     snap_headBranch = head, snap_baseBranch = base, snap_isDraft = False, snap_updatedAt = None,
     snap_syncedAt = ''2026-01-01T00:00:00Z'', snap_closedAt = None, snap_mergedAt = None,
     snap_overview = JNull\<rparr>"

definition ex_pr_link ::
  "nat \<Rightarrow> string \<Rightarrow> pull_request_snapshot option \<Rightarrow> pull_request_link" where
  "ex_pr_link n url snapshot = \<lparr>link_host = ''github.com'', link_repository = ''acme/app'',
     link_number = n, link_url = url, link_source = LinkManual,
     link_linkedAt = ''2026-01-01T00:00:00Z'', link_snapshot = snapshot, link_stack = None\<rparr>"

text \<open>Three pull requests: the second is stacked on the first, the third was never synced.\<close>

definition ex_links :: "pull_request_link list" where
  "ex_links =
     [ex_pr_link 1 ''u1'' (Some (ex_pr_snapshot ''a'' ''main'' PrMerged)),
      ex_pr_link 2 ''u2'' (Some (ex_pr_snapshot ''b'' ''a'' PrOpen)),
      ex_pr_link 3 ''u3'' None]"

lemma ex_links_distinct:
  "distinct (map (linkKey (\<lambda>_. None)) (visibleThreadPullRequests ex_links))"
proof -
  have canonical: "canonicalRepositoryKey ''github.com/acme/app'' = ''github.com/acme/app''"
    by (simp add: canonicalRepositoryKey_def azureSshKey_def visualStudioKey_def Let_def startsWith_def)
  have trim: "js_trim ''github.com'' = ''github.com''" "js_trim ''acme/app'' = ''acme/app''"
    by (simp_all add: js_trim_def strip_def js_space_def)
  have lower: "toLowerCase ''github.com'' = ''github.com''" "toLowerCase ''acme/app'' = ''acme/app''"
    by (simp_all add: toLowerCase_def lower_char_def)
  have "linkKey (\<lambda>_. None) (ex_pr_link n u sn) = ''github.com/acme/app#'' @ decimal n" for n u sn
    by (simp add: threadPullRequestKeyOf_def normalizeThreadPullRequestKey_def linkSource_def
        recoveredAuthority_def parseChangeRequestUrl_def ex_pr_link_def Let_def trim lower canonical)
  moreover have "visibleThreadPullRequests ex_links = ex_links"
    by (simp add: visibleThreadPullRequests_def ex_links_def ex_pr_link_def)
  ultimately show ?thesis by (simp add: ex_links_def decimal_inject)
qed

theorem chains_partition_witness:
  "distinct (map (linkKey (\<lambda>_. None)) (visibleThreadPullRequests ex_links)) \<and>
   mset (concat (map layersOf (resolveThreadPullRequestChains (\<lambda>_. None) ex_links)))
     = mset (visibleThreadPullRequests ex_links)"
  using chains_partition [OF ex_links_distinct] ex_links_distinct by blast

section \<open>The link a one-slot surface shows\<close>

lemma kept_members:
  "set (concat (filter (\<lambda>ls. ls \<noteq> []) (map (\<lambda>c. filter P (rev (f c))) xs)))
     = {l \<in> set (concat (map f xs)). P l}"
  by (induction xs) (auto simp: filter_empty_conv simp flip: rev_filter)

lemma visible_idem [simp]:
  "visibleThreadPullRequests (visibleThreadPullRequests links) = visibleThreadPullRequests links"
  by (simp add: visibleThreadPullRequests_def)

text \<open>The current link, by how many links are open and whether there is one chain.\<close>

lemma current_one_open:
  assumes "length (filter isOpen (visibleThreadPullRequests links)) = 1"
  shows "resolveThreadCurrentPullRequestLink parseUrl parseDate links =
    Some (hd (filter isOpen (visibleThreadPullRequests links)))"
  using assms by (auto simp: resolveThreadCurrentPullRequestLink_def resolveThreadCurrentPullRequest_def Let_def)

lemma current_several_open:
  assumes chains: "set (concat (map layersOf (resolveThreadPullRequestChains parseUrl
      (visibleThreadPullRequests links)))) = set (visibleThreadPullRequests links)"
    and several: "length (filter isOpen (visibleThreadPullRequests links)) > 1"
  shows "\<exists>l \<in> set (filter isOpen (visibleThreadPullRequests links)).
    resolveThreadCurrentPullRequestLink parseUrl parseDate links = Some l"
proof -
  let ?vs = "visibleThreadPullRequests links"
  let ?chains = "resolveThreadPullRequestChains parseUrl ?vs"
  define groups where "groups = toSorted (laterFirst parseDate)
    (filter (\<lambda>ls. ls \<noteq> []) (map (\<lambda>c. filter isOpen (rev (layersOf c))) ?chains))"
  have "set (concat groups) = {l \<in> set (concat (map layersOf ?chains)). isOpen l}"
    unfolding groups_def set_concat set_toSorted by (simp only: kept_members flip: set_concat)
  then have open_set: "set (concat groups) = set (filter isOpen ?vs)" unfolding chains by simp
  then have "concat groups \<noteq> []"
    using several by (metis length_greater_0_conv less_trans set_empty zero_less_one)
  then have "hd (concat groups) \<in> set (filter isOpen ?vs)" using open_set hd_in_set by blast
  moreover have "?vs \<noteq> []" using several by auto
  then have "resolveThreadCurrentPullRequestLink parseUrl parseDate links = Some (hd (concat groups))"
    using several by (simp add: resolveThreadCurrentPullRequestLink_def
        resolveThreadCurrentPullRequest_def Let_def groups_def)
  ultimately show ?thesis by blast
qed

lemma current_none_open:
  assumes chains: "set (concat (map layersOf (resolveThreadPullRequestChains parseUrl
      (visibleThreadPullRequests links)))) = set (visibleThreadPullRequests links)"
    and none: "filter isOpen (visibleThreadPullRequests links) = []" "visibleThreadPullRequests links \<noteq> []"
  shows "\<exists>l \<in> set (visibleThreadPullRequests links).
    resolveThreadCurrentPullRequestLink parseUrl parseDate links = Some l"
proof -
  let ?vs = "visibleThreadPullRequests links"
  let ?chains = "resolveThreadPullRequestChains parseUrl ?vs"
  note current = resolveThreadCurrentPullRequestLink_def resolveThreadCurrentPullRequest_def Let_def
  show ?thesis
  proof (cases "length ?chains = 1")
    case True
    then obtain c where c: "?chains = [c]" by (auto simp: length_Suc_conv)
    then have "last (layersOf c) \<in> set ?vs" using chains none(2) by (metis concat.simps last_in_set
        list.simps(8,9) append_Nil2 set_empty)
    moreover have "resolveThreadCurrentPullRequestLink parseUrl parseDate links = Some (last (layersOf c))"
      using none c by (simp add: current)
    ultimately show ?thesis by blast
  next
    case False
    define sorted where "sorted =
      toSorted (\<lambda>a b. latestUpdatedAt parseDate b - latestUpdatedAt parseDate a) ?vs"
    have "set sorted = set ?vs" by (simp add: sorted_def)
    then have "hd sorted \<in> set ?vs" using none(2) by (metis hd_in_set set_empty)
    moreover have "resolveThreadCurrentPullRequestLink parseUrl parseDate links = Some (hd sorted)"
      using none False by (simp add: current sorted_def)
    ultimately show ?thesis by blast
  qed
qed

text \<open>
  C16: A thread with a visible link has a current one; it is a visible link of the thread, and
  it is an open one whenever the thread has an open one: finished work never hides work in
  progress.
\<close>

theorem current_link_open:
  assumes "distinct (map (linkKey parseUrl) (visibleThreadPullRequests links))"
    and "visibleThreadPullRequests links \<noteq> []"
  shows "\<exists>l \<in> set (visibleThreadPullRequests links).
     resolveThreadCurrentPullRequestLink parseUrl parseDate links = Some l \<and>
     (isOpen l \<or> \<not> (\<exists>l' \<in> set (visibleThreadPullRequests links). isOpen l'))"
proof -
  let ?vs = "visibleThreadPullRequests links"
  have "mset (concat (map layersOf (resolveThreadPullRequestChains parseUrl ?vs))) = mset ?vs"
    using resolved_chains_mset [of parseUrl ?vs] assms(1) by simp
  note chains = mset_eq_setD [OF this]
  consider "length (filter isOpen ?vs) = 1" | "length (filter isOpen ?vs) > 1" | "filter isOpen ?vs = []"
    by (cases "filter isOpen ?vs") auto
  then show ?thesis
  proof cases
    case 1
    then have "hd (filter isOpen ?vs) \<in> set (filter isOpen ?vs)" by (cases "filter isOpen ?vs") auto
    then show ?thesis using current_one_open [OF 1] by auto
  next
    case 2
    from current_several_open [OF chains 2] show ?thesis by auto
  next
    case 3
    from current_none_open [OF chains 3 assms(2)] show ?thesis using 3 by (auto simp: filter_empty_conv)
  qed
qed

theorem current_link_open_witness:
  "resolveThreadCurrentPullRequestLink (\<lambda>_. None) (\<lambda>_. Some 0) ex_links \<noteq> None"
  using current_link_open [OF ex_links_distinct, of "\<lambda>_. Some 0"]
  by (auto simp: ex_links_def visibleThreadPullRequests_def ex_pr_link_def)

end
