(* ===== verification/OrchModel.thy ===== *)
theory OrchModel
  imports PullRequests
begin

text \<open>
  The data of the orchestration core (\<open>packages/contracts/src/orchestration.ts\<close>): projects,
  threads with their messages, plans, activities, checkpoints and session, the read model that
  the server keeps of them, and the events that change it. A field that is optional and nullable
  is an option: the code reads \<open>undefined\<close> and \<open>null\<close> alike. In a patch, where the two
  differ, the outer option is presence and the inner one \<open>null\<close>. Values that are only passed on
  (model selections, attachments, message context, answers) are \<open>json\<close>.
\<close>

section \<open>Projects\<close>

type_synonym iso_date_time = string

record project_script =
  script_id :: string
  script_name :: string
  script_command :: string
  script_icon :: string
  script_runOnWorktreeCreate :: bool
  script_async :: "bool option"
  script_previewUrl :: "string option"
  script_autoOpenPreview :: "bool option"

datatype project_icon =
    LucideIcon string string
  | EmojiIcon string
  | MonogramIcon string string

record orchestration_project =
  project_id :: ident
  project_title :: string
  project_workspaceRoot :: string
  project_repositoryIdentity :: "repository_identity option"
  project_defaultModelSelection :: "json option"
  project_defaultThreadEnvMode :: "json option"
  project_autoPull :: bool
  project_faviconPath :: "string option"
  project_projectIcon :: "project_icon option"
  project_scripts :: "project_script list"
  project_createdAt :: iso_date_time
  project_updatedAt :: iso_date_time
  project_deletedAt :: "iso_date_time option"

section \<open>What a thread holds\<close>

datatype message_role = UserRole | AssistantRole | SystemRole

record orchestration_message =
  msg_id :: ident
  msg_role :: message_role
  msg_text :: string
  msg_attachments :: "json list option"
  msg_context :: "json option"
  msg_turnId :: "ident option"
  msg_streaming :: bool
  msg_createdAt :: iso_date_time
  msg_updatedAt :: iso_date_time

record proposed_plan =
  plan_id :: ident
  plan_turnId :: "ident option"
  plan_markdown :: string
  plan_implementedAt :: "iso_date_time option"
  plan_implementationThreadId :: "ident option"
  plan_createdAt :: iso_date_time
  plan_updatedAt :: iso_date_time

record plan_reference =
  ref_threadId :: ident
  ref_planId :: ident

datatype session_status =
  SIdle | SStarting | SRunning | SReady | SInterrupted | SStopped | SError

record orchestration_session =
  sess_threadId :: ident
  sess_status :: session_status
  sess_providerName :: "string option"
  sess_providerInstanceId :: "string option"
  sess_runtimeMode :: string
  sess_activeTurnId :: "ident option"
  sess_lastError :: "string option"
  sess_updatedAt :: iso_date_time

datatype checkpoint_status = CpReady | CpMissing | CpError

record checkpoint_summary =
  cp_turnId :: ident
  cp_turnCount :: nat
  cp_ref :: string
  cp_status :: checkpoint_status
  cp_files :: "json list"
  cp_assistantMessageId :: "ident option"
  cp_completedAt :: iso_date_time

record thread_activity =
  act_id :: ident
  act_tone :: string
  act_kind :: string
  act_summary :: string
  act_payload :: json
  act_turnId :: "ident option"
  act_sequence :: "nat option"
  act_createdAt :: iso_date_time

datatype latest_turn_state = TurnRunning | TurnInterrupted | TurnCompleted | TurnError

record latest_turn =
  turn_id :: ident
  turn_state :: latest_turn_state
  turn_requestedAt :: iso_date_time
  turn_startedAt :: "iso_date_time option"
  turn_completedAt :: "iso_date_time option"
  turn_assistantMessageId :: "ident option"
  turn_sourceProposedPlan :: "plan_reference option"

datatype title_source = ManualTitle | GeneratedTitle

record thread_title_state =
  title_source :: title_source
  title_version :: ident
  title_needsRefinement :: bool

record title_regeneration =
  regen_requestId :: ident
  regen_startedAt :: iso_date_time

datatype settled_override = OverrideSettled | OverrideActive

section \<open>Threads and the read model\<close>

record orchestration_thread =
  thread_id :: ident
  thread_projectId :: ident
  thread_title :: string
  thread_modelSelection :: json
  thread_runtimeMode :: string
  thread_interactionMode :: string
  thread_branch :: "string option"
  thread_worktreePath :: "string option"
  thread_linkedPullRequest :: "thread_linked_pull_request option"
  thread_pullRequests :: "pull_request_link list"
  thread_branchPullRequest :: "thread_linked_pull_request option"
  thread_latestTurn :: "latest_turn option"
  thread_createdAt :: iso_date_time
  thread_updatedAt :: iso_date_time
  thread_archivedAt :: "iso_date_time option"
  thread_settledOverride :: "settled_override option"
  thread_settledAt :: "iso_date_time option"
  thread_unsettledAt :: "iso_date_time option"
  thread_snoozedUntil :: "iso_date_time option"
  thread_snoozedAt :: "iso_date_time option"
  thread_pinnedAt :: "iso_date_time option"
  thread_pinOrderKey :: "string option"
  thread_activeOrderKey :: "string option"
  thread_titleRegeneration :: "title_regeneration option"
  thread_titleState :: "thread_title_state option"
  thread_deletedAt :: "iso_date_time option"
  thread_messages :: "orchestration_message list"
  thread_proposedPlans :: "proposed_plan list"
  thread_activities :: "thread_activity list"
  thread_checkpoints :: "checkpoint_summary list"
  thread_session :: "orchestration_session option"

record read_model =
  snapshotSequence :: nat
  model_projects :: "orchestration_project list"
  model_threads :: "orchestration_thread list"
  model_updatedAt :: iso_date_time

end
