(* ===== verification/OrchEvents.thy ===== *)
theory OrchEvents
  imports OrchModel
begin

text \<open>
  The events of the orchestration log and the commands that the decider accepts, one
  constructor for each \<open>type\<close>. Payloads are as their schemas decode them; the fields that an
  event shares with the stored record it carries (a message, a checkpoint) are that record.
\<close>

section \<open>Patches\<close>

record project_meta_patch =
  pm_title :: "string option"
  pm_workspaceRoot :: "string option"
  pm_defaultModelSelection :: "json option option"
  pm_defaultThreadEnvMode :: "json option option"
  pm_autoPull :: "bool option"
  pm_faviconPath :: "string option option"
  pm_projectIcon :: "project_icon option option"
  pm_scripts :: "project_script list option"

record thread_meta_patch =
  tm_activeOrderKey :: "string option option"
  tm_title :: "string option"
  tm_regenerateTitle :: bool
  tm_previousTitle :: "string option"
  tm_titleRegeneration :: "title_regeneration option option"
  tm_titleState :: "thread_title_state option option"
  tm_modelSelection :: "json option"
  tm_branch :: "string option option"
  tm_worktreePath :: "string option option"
  tm_linkedPullRequest :: "thread_linked_pull_request option option"
  tm_branchPullRequest :: "thread_linked_pull_request option option"

text \<open>The patch in which every field is absent.\<close>

definition no_thread_meta :: thread_meta_patch where
  "no_thread_meta = \<lparr>tm_activeOrderKey = None, tm_title = None, tm_regenerateTitle = False,
     tm_previousTitle = None, tm_titleRegeneration = None, tm_titleState = None,
     tm_modelSelection = None, tm_branch = None, tm_worktreePath = None,
     tm_linkedPullRequest = None, tm_branchPullRequest = None\<rparr>"

section \<open>Events\<close>

datatype reset_reason = ByUser | ByActivity

record project_created_payload =
  pc_projectId :: ident
  pc_title :: string
  pc_workspaceRoot :: string
  pc_awenWorkspace :: "json option"
  pc_defaultModelSelection :: "json option"
  pc_faviconPath :: "string option"
  pc_projectIcon :: "project_icon option"
  pc_scripts :: "project_script list"
  pc_createdAt :: iso_date_time
  pc_updatedAt :: iso_date_time

record thread_created_payload =
  tc_threadId :: ident
  tc_projectId :: ident
  tc_title :: string
  tc_modelSelection :: json
  tc_runtimeMode :: string
  tc_interactionMode :: string
  tc_branch :: "string option"
  tc_worktreePath :: "string option"
  tc_createdAt :: iso_date_time
  tc_updatedAt :: iso_date_time

record turn_start_requested_payload =
  ts_threadId :: ident
  ts_messageId :: ident
  ts_modelSelection :: "json option"
  ts_titleSeed :: "string option"
  ts_runtimeMode :: string
  ts_interactionMode :: string
  ts_sourceProposedPlan :: "plan_reference option"
  ts_createdAt :: iso_date_time

datatype event_body =
    ProjectCreated project_created_payload
  | ProjectMetaUpdated ident project_meta_patch iso_date_time
  | ProjectDeleted ident iso_date_time
  | ThreadCreated thread_created_payload
  | ThreadDeleted ident iso_date_time
  | ThreadArchived ident iso_date_time iso_date_time
  | ThreadUnarchived ident iso_date_time
  | ThreadSettled ident iso_date_time iso_date_time
  | ThreadUnsettled ident reset_reason iso_date_time
  | ThreadSnoozed ident iso_date_time iso_date_time iso_date_time
  | ThreadUnsnoozed ident reset_reason iso_date_time
  | ThreadPinned ident iso_date_time "string option" iso_date_time
  | ThreadUnpinned ident iso_date_time
  | ThreadPinReordered ident string iso_date_time
  | ThreadMetaUpdated ident thread_meta_patch iso_date_time
  | ThreadPullRequestLinked ident pull_request_link iso_date_time
  | ThreadPullRequestUnlinked ident pull_request_key iso_date_time
  | ThreadPullRequestSynced ident pull_request_key pull_request_snapshot
      "pull_request_stack option" iso_date_time
  | ThreadRuntimeModeSet ident string iso_date_time
  | ThreadInteractionModeSet ident string iso_date_time
  | ThreadMessageSent ident orchestration_message
  | ThreadTurnStartRequested turn_start_requested_payload
  | ThreadTurnInterruptRequested ident "ident option" iso_date_time
  | ThreadApprovalResponseRequested ident ident json iso_date_time
  | ThreadUserInputResponseRequested ident ident "(string \<times> json) list"
      "(string \<times> json list) list option" iso_date_time
  | ThreadCheckpointRevertRequested ident nat "bool option" iso_date_time
  | ThreadReverted ident nat
  | ThreadSessionStopRequested ident iso_date_time
  | ThreadSessionSet ident orchestration_session
  | ThreadProposedPlanUpserted ident proposed_plan
  | ThreadTurnDiffCompleted ident checkpoint_summary
  | ThreadActivityAppended ident thread_activity

datatype aggregate_kind = ProjectAggregate | ThreadAggregate

record event_metadata =
  meta_requestId :: "ident option"
  meta_historyImport :: "bool option"
  meta_deferredTurn :: "bool option"
  meta_origin :: "json option"

definition no_metadata :: event_metadata where
  "no_metadata = \<lparr>meta_requestId = None, meta_historyImport = None, meta_deferredTurn = None,
     meta_origin = None\<rparr>"

record planned_event =
  ev_eventId :: ident
  ev_aggregateKind :: aggregate_kind
  ev_aggregateId :: ident
  ev_occurredAt :: iso_date_time
  ev_commandId :: ident
  ev_causationEventId :: "ident option"
  ev_correlationId :: ident
  ev_metadata :: event_metadata
  ev_body :: event_body

record orchestration_event =
  ev_sequence :: nat
  ev_planned :: planned_event

end
