(* ===== verification/DateTimes.thy ===== *)
theory DateTimes
  imports PullRequests
begin

text \<open>
  Comparing date-time strings (\<open>packages/shared/src/dateTime.ts\<close>), and the functions of the
  platform that the orchestration core calls, collected in one record: the URL parser,
  \<open>Date.parse\<close> (None for \<open>NaN\<close>), the month and day that Effect's \<open>DateTime\<close> reads in a
  UTC instant, \<open>localeCompare\<close>, and the number of graphemes of a text.
\<close>

record host =
  parseUrl :: url_parser
  parseDate :: date_parser
  utcMonthDay :: "string \<Rightarrow> (nat \<times> nat) option"
  localeCompare :: "string \<Rightarrow> string \<Rightarrow> int"
  graphemes :: "string \<Rightarrow> nat"

section \<open>Zoned ISO date-times\<close>

definition two_digits :: "string \<Rightarrow> nat option" where
  "two_digits s = (if length s = 2 \<and> list_all is_digit s then Some (digits_value s) else None)"

definition in_range :: "nat \<Rightarrow> nat \<Rightarrow> string \<Rightarrow> bool" where
  "in_range lo hi s = (case two_digits s of None \<Rightarrow> False | Some n \<Rightarrow> lo \<le> n \<and> n \<le> hi)"

text \<open>What follows a four-digit year or a signed six-digit one.\<close>

definition after_year :: "string \<Rightarrow> string option" where
  "after_year s =
     (if length s \<ge> 4 \<and> list_all is_digit (take 4 s) then Some (drop 4 s)
      else if s \<noteq> [] \<and> hd s \<in> {CHR ''+'', CHR ''-''} \<and> length s \<ge> 7 \<and>
              list_all is_digit (take 6 (drop 1 s))
      then Some (drop 7 s) else None)"

definition month_day :: "string \<Rightarrow> bool" where
  "month_day s \<longleftrightarrow> length s = 6 \<and> s ! 0 = CHR ''-'' \<and> in_range 1 12 (take 2 (drop 1 s)) \<and>
     s ! 3 = CHR ''-'' \<and> in_range 1 31 (drop 4 s)"

definition zone_length :: "string \<Rightarrow> nat option" where
  "zone_length s =
     (if endsWith s ''Z'' then Some 1
      else if length s \<ge> 6 \<and>
        (let z = drop (length s - 6) s in
         z ! 0 \<in> {CHR ''+'', CHR ''-''} \<and> in_range 0 23 (take 2 (drop 1 z)) \<and>
         z ! 3 = CHR '':'' \<and> in_range 0 59 (drop 4 z))
      then Some 6 else None)"

definition fraction :: "(char \<Rightarrow> bool) \<Rightarrow> string \<Rightarrow> bool" where
  "fraction P s \<longleftrightarrow> (case s of [] \<Rightarrow> True | d # ds \<Rightarrow> d = CHR ''.'' \<and> ds \<noteq> [] \<and> list_all P ds)"

definition clock_time :: "string \<Rightarrow> bool" where
  "clock_time t \<longleftrightarrow>
     (let hh = take 2 t; mm = take 2 (drop 3 t); rest = drop 5 t in
      length t \<ge> 5 \<and> t ! 2 = CHR '':'' \<and>
      (in_range 0 23 hh \<and> in_range 0 59 mm \<and>
         (rest = [] \<or> hd rest = CHR '':'' \<and> in_range 0 59 (take 2 (drop 1 rest)) \<and>
            fraction is_digit (drop 3 rest)) \<or>
       hh = ''24'' \<and> mm = ''00'' \<and>
         (rest = [] \<or> take 3 rest = '':00'' \<and> fraction (\<lambda>c. c = CHR ''0'') (drop 3 rest))))"

definition isZonedIsoDateTime :: "string \<Rightarrow> bool" where
  "isZonedIsoDateTime s = (case after_year s of
     None \<Rightarrow> False
   | Some r \<Rightarrow>
       month_day (take 6 r) \<and> drop 6 r \<noteq> [] \<and> r ! 6 = CHR ''T'' \<and>
       (let t = drop 7 r in
        case zone_length t of
          None \<Rightarrow> False
        | Some n \<Rightarrow> clock_time (take (length t - n) t)))"

section \<open>Comparison\<close>

definition parseTimestamp :: "host \<Rightarrow> string \<Rightarrow> int option" where
  "parseTimestamp H s =
     (if \<not> isZonedIsoDateTime s then None
      else (let datePart = takeWhile (\<lambda>c. c \<noteq> CHR ''T'') s; n = length datePart in
        case utcMonthDay H (datePart @ ''T00:00:00.000Z'') of
          None \<Rightarrow> None
        | Some (month, day) \<Rightarrow>
            if month \<noteq> digits_value (take 2 (drop (n - 5) datePart)) \<or>
               day \<noteq> digits_value (drop (n - 2) datePart)
            then None else parseDate H s))"

definition compareDateTimeStrings :: "host \<Rightarrow> string \<Rightarrow> string \<Rightarrow> int" where
  "compareDateTimeStrings H left right =
     (case (parseTimestamp H left, parseTimestamp H right) of
        (Some l, Some r) \<Rightarrow> l - r
      | (Some l, None) \<Rightarrow> 1
      | (None, Some r) \<Rightarrow> -1
      | (None, None) \<Rightarrow> if string_less left right then -1
                        else if string_less right left then 1 else 0)"

lemma string_less_irrefl [simp]: "\<not> string_less s s"
  by (induction s) auto

lemma string_less_trans: "string_less s t \<Longrightarrow> string_less t u \<Longrightarrow> string_less s u"
proof (induction s t arbitrary: u rule: string_less.induct)
  case (2 d t)
  then show ?case by (cases u) auto
next
  case (3 c s d t)
  then show ?case by (cases u) auto
qed auto

lemma string_less_total: "string_less s t \<or> s = t \<or> string_less t s"
proof (induction s t rule: string_less.induct)
  case (1 s)
  then show ?case by (cases s) auto
next
  case (3 c s d t)
  have "(of_char c :: nat) = of_char d \<longleftrightarrow> c = d" by simp
  with 3 show ?case by (metis linorder_neqE_nat string_less.simps(3))
qed auto

lemma compare_nonpos:
  "compareDateTimeStrings H x y \<le> 0 \<longleftrightarrow>
     (case (parseTimestamp H x, parseTimestamp H y) of
        (Some l, Some r) \<Rightarrow> l \<le> r
      | (Some l, None) \<Rightarrow> False
      | (None, Some r) \<Rightarrow> True
      | (None, None) \<Rightarrow> \<not> string_less y x)"
  using string_less_trans [of x y x]
  by (auto simp: compareDateTimeStrings_def split: option.splits)

lemma string_not_less_trans: "\<not> string_less y x \<Longrightarrow> \<not> string_less z y \<Longrightarrow> \<not> string_less z x"
  by (metis string_less_total string_less_trans)

text \<open>
  The comparison of date-time strings is a total preorder on all strings, malformed ones
  included, whatever the platform's date parser returns; so every sort by it is well defined.
\<close>

theorem compareDateTimeStrings_order: "comparator (compareDateTimeStrings H)"
proof
  fix x y z
  show "compareDateTimeStrings H x y \<le> 0 \<or> compareDateTimeStrings H y x \<le> 0"
    using string_less_trans [of x y x] by (auto simp: compare_nonpos split: option.splits)
  assume "compareDateTimeStrings H x y \<le> 0" and "compareDateTimeStrings H y z \<le> 0"
  then show "compareDateTimeStrings H x z \<le> 0"
    by (cases "parseTimestamp H x"; cases "parseTimestamp H y"; cases "parseTimestamp H z")
      (auto simp: compare_nonpos dest: string_not_less_trans)
qed

end
