(* ===== verification/ProjectPaths.thy ===== *)
theory ProjectPaths
  imports JsString
begin

text \<open>
  Project paths (\<open>packages/shared/src/path.ts\<close>): the normal form in which two workspace roots
  are compared. \<open>CHR 0x5C\<close> is the backslash.
\<close>

abbreviation backslash :: char where "backslash \<equiv> CHR 0x5C"

definition is_separator :: "char \<Rightarrow> bool" where
  "is_separator c \<longleftrightarrow> c = CHR ''/'' \<or> c = backslash"

definition isWindowsDrivePath :: "string \<Rightarrow> bool" where
  "isWindowsDrivePath s = (case s of
     c # d # rest \<Rightarrow> is_letter c \<and> d = CHR '':'' \<and> (rest = [] \<or> is_separator (hd rest))
   | _ \<Rightarrow> False)"

definition isUncPath :: "string \<Rightarrow> bool" where
  "isUncPath s \<longleftrightarrow> startsWith s [backslash, backslash]"

definition isWindowsAbsolutePath :: "string \<Rightarrow> bool" where
  "isWindowsAbsolutePath s \<longleftrightarrow> isUncPath s \<or> isWindowsDrivePath s"

definition isExplicitRelativePath :: "string \<Rightarrow> bool" where
  "isExplicitRelativePath s \<longleftrightarrow>
     s = ''.'' \<or> s = ''..'' \<or> startsWith s ''./'' \<or> startsWith s ''../'' \<or>
     startsWith s (''.'' @ [backslash]) \<or> startsWith s (''..'' @ [backslash])"

definition isRootPath :: "string \<Rightarrow> bool" where
  "isRootPath s \<longleftrightarrow> s = ''/'' \<or> s = [backslash] \<or>
     (case s of [c, d, e] \<Rightarrow> is_letter c \<and> d = CHR '':'' \<and> is_separator e | _ \<Rightarrow> False)"

definition trimTrailingPathSeparators :: "string \<Rightarrow> string" where
  "trimTrailingPathSeparators s =
     (if s = [] \<or> isRootPath s then s
      else (let trimmed = strip (if hd s = CHR ''/'' then (\<lambda>c. c = CHR ''/'') else is_separator) s in
        if trimmed = [] then s
        else case trimmed of
          [c, d] \<Rightarrow> if is_letter c \<and> d = CHR '':'' then trimmed @ [backslash] else trimmed
        | _ \<Rightarrow> trimmed))"

definition normalizeProjectPathForDispatch :: "string \<Rightarrow> string" where
  "normalizeProjectPathForDispatch s = trimTrailingPathSeparators (js_trim s)"

definition normalizeProjectPathForComparison :: "string \<Rightarrow> string" where
  "normalizeProjectPathForComparison s =
     (let normalized = normalizeProjectPathForDispatch s in
      if isWindowsDrivePath normalized \<or> isUncPath normalized
      then toLowerCase (map (\<lambda>c. if c = CHR ''/'' then backslash else c) normalized)
      else normalized)"

section \<open>What the normal form identifies\<close>

lemma strip_idem [simp]: "strip P (strip P s) = strip P s"
  by (simp add: strip_def dropWhile_idem)

lemma strip_no_change: "s = [] \<or> \<not> P (last s) \<Longrightarrow> strip P s = s"
  by (cases s rule: rev_cases) (auto simp: strip_def)

lemma strip_snoc: "P c \<Longrightarrow> strip P (s @ [c]) = strip P s"
  by (simp add: strip_def)

lemma strip_hd: "strip P s \<noteq> [] \<Longrightarrow> hd (strip P s) = hd s"
proof -
  have "s = strip P s @ rev (takeWhile P (rev s))"
    unfolding strip_def by (metis rev_append rev_rev_ident takeWhile_dropWhile_id)
  then show "strip P s \<noteq> [] \<Longrightarrow> ?thesis" by (metis hd_append2)
qed

text \<open>Slashes after a POSIX path do not make it another root.\<close>

lemma path_trailing_slash:
  assumes "hd s = CHR ''/''" and "s \<noteq> ''/''" and "s \<noteq> []" and "strip (\<lambda>c. c = CHR ''/'') s \<noteq> []"
  shows "trimTrailingPathSeparators (s @ ''/'') = trimTrailingPathSeparators s"
proof -
  have "\<not> isRootPath s" "\<not> isRootPath (s @ ''/'')"
    using assms(1-3) by (auto simp: isRootPath_def is_letter_def split: list.splits)
  with assms strip_snoc [of "\<lambda>c. c = CHR ''/''" "CHR ''/''" s] show ?thesis
    by (simp add: trimTrailingPathSeparators_def)
qed

end
