(* ===== verification/OrchCommands.thy ===== *)
theory OrchCommands
  imports OrchEvents DateTimes ProjectPaths
begin

text \<open>
  The commands of the orchestration core, one constructor for each \<open>type\<close>, the ways in which
  one is rejected (\<open>Errors.ts\<close>), and the guards of \<open>commandInvariants.ts\<close>. Deciding a command
  draws event ids and reads the clock: a decider takes the streams of what these will return,
  in call order, and hands back what is left.
\<close>

section \<open>Commands\<close>

record project_create =
  pcc_projectId :: ident
  pcc_title :: string
  pcc_workspaceRoot :: string
  pcc_awenWorkspace :: "json option"
  pcc_createdAt :: iso_date_time

record thread_create =
  tcc_threadId :: ident
  tcc_projectId :: ident
  tcc_title :: string
  tcc_modelSelection :: json
  tcc_runtimeMode :: string
  tcc_interactionMode :: string
  tcc_branch :: "string option"
  tcc_worktreePath :: "string option"
  tcc_createdAt :: iso_date_time
  tcc_historyImport :: bool

record thread_meta_change =
  mu_title :: "string option"
  mu_regenerateTitle :: bool
  mu_modelSelection :: "json option"
  mu_branch :: "string option option"
  mu_expectedBranch :: "string option option"
  mu_worktreePath :: "string option option"
  mu_linkedPullRequest :: "thread_linked_pull_request option option"

record user_message =
  um_messageId :: ident
  um_text :: string
  um_attachments :: "json list"
  um_context :: "json option"

record turn_start =
  tsc_message :: user_message
  tsc_modelSelection :: "json option"
  tsc_titleSeed :: "string option"
  tsc_sourceProposedPlan :: "plan_reference option"

record user_input_answer =
  ua_requestId :: ident
  ua_answers :: "(string \<times> json) list"
  ua_attachments :: "(string \<times> json list) list option"

record imported_message =
  im_messageId :: ident
  im_role :: message_role
  im_text :: string
  im_createdAt :: iso_date_time

record pull_request_expectation =
  ex_workspaceRoot :: string
  ex_branch :: "string option"
  ex_worktreePath :: "string option"
  ex_linkedPullRequest :: "thread_linked_pull_request option"
  ex_branchPullRequest :: "thread_linked_pull_request option"

record link_request =
  lr_key :: pull_request_key
  lr_url :: string
  lr_source :: link_source

text \<open>Commands about a thread; the thread and the command id stand beside them.\<close>

datatype thread_op =
    DeleteThread
  | ArchiveThread
  | UnarchiveThread
  | SettleThread
  | AutoSettleThread nat iso_date_time
  | UnsettleThread
  | SnoozeThread iso_date_time
  | UnsnoozeThread
  | PinThread "string option"
  | UnpinThread
  | ReorderPin string
  | ReorderActive string
  | UpdateThreadMeta thread_meta_change
  | LinkPullRequest link_request
  | UnlinkPullRequest pull_request_key
  | SyncPullRequestLink pull_request_key pull_request_snapshot "pull_request_stack option"
  | SyncPullRequest ident nat pull_request_expectation "thread_linked_pull_request option"
      "thread_linked_pull_request option"
  | CompleteTitleGeneration string "ident option" string bool
  | RefineTitle ident
  | CompleteTitleRegeneration ident "string option"
  | SetRuntimeMode string
  | SetInteractionMode string
  | StartTurn turn_start iso_date_time
  | AppendUserMessage user_message iso_date_time
  | InterruptTurn "ident option" iso_date_time
  | RespondApproval ident json iso_date_time
  | RespondUserInput user_input_answer iso_date_time
  | DismissUserInput ident iso_date_time
  | RevertConversation nat iso_date_time
  | RevertCheckpoint nat iso_date_time
  | StopSession bool iso_date_time
  | SetSession orchestration_session iso_date_time
  | AssistantDelta ident string "ident option" iso_date_time
  | AssistantComplete ident "ident option" iso_date_time
  | ImportHistory "imported_message list"
  | UpsertProposedPlan proposed_plan iso_date_time
  | CompleteTurnDiff checkpoint_summary iso_date_time
  | CompleteRevert nat iso_date_time
  | AppendActivity thread_activity iso_date_time

datatype orchestration_command =
    CreateProject ident project_create
  | UpdateProjectMeta ident ident project_meta_patch
  | DeleteProject ident ident bool
  | CreateThread ident thread_create
  | ThreadCommand ident ident thread_op

fun thread_op_type :: "thread_op \<Rightarrow> string" where
  "thread_op_type DeleteThread = ''thread.delete''"
| "thread_op_type ArchiveThread = ''thread.archive''"
| "thread_op_type UnarchiveThread = ''thread.unarchive''"
| "thread_op_type SettleThread = ''thread.settle''"
| "thread_op_type (AutoSettleThread _ _) = ''thread.auto-settle''"
| "thread_op_type UnsettleThread = ''thread.unsettle''"
| "thread_op_type (SnoozeThread _) = ''thread.snooze''"
| "thread_op_type UnsnoozeThread = ''thread.unsnooze''"
| "thread_op_type (PinThread _) = ''thread.pin''"
| "thread_op_type UnpinThread = ''thread.unpin''"
| "thread_op_type (ReorderPin _) = ''thread.pin.reorder''"
| "thread_op_type (ReorderActive _) = ''thread.active.reorder''"
| "thread_op_type (UpdateThreadMeta _) = ''thread.meta.update''"
| "thread_op_type (LinkPullRequest _) = ''thread.pull-request.link''"
| "thread_op_type (UnlinkPullRequest _) = ''thread.pull-request.unlink''"
| "thread_op_type (SyncPullRequestLink _ _ _) = ''thread.pull-request-link.sync''"
| "thread_op_type (SyncPullRequest _ _ _ _ _) = ''thread.pull-request.sync''"
| "thread_op_type (CompleteTitleGeneration _ _ _ _) = ''thread.title.generate.complete''"
| "thread_op_type (RefineTitle _) = ''thread.title.refine''"
| "thread_op_type (CompleteTitleRegeneration _ _) = ''thread.title.regeneration.complete''"
| "thread_op_type (SetRuntimeMode _) = ''thread.runtime-mode.set''"
| "thread_op_type (SetInteractionMode _) = ''thread.interaction-mode.set''"
| "thread_op_type (StartTurn _ _) = ''thread.turn.start''"
| "thread_op_type (AppendUserMessage _ _) = ''thread.message.user.append''"
| "thread_op_type (InterruptTurn _ _) = ''thread.turn.interrupt''"
| "thread_op_type (RespondApproval _ _ _) = ''thread.approval.respond''"
| "thread_op_type (RespondUserInput _ _) = ''thread.user-input.respond''"
| "thread_op_type (DismissUserInput _ _) = ''thread.user-input.dismiss''"
| "thread_op_type (RevertConversation _ _) = ''thread.conversation.revert''"
| "thread_op_type (RevertCheckpoint _ _) = ''thread.checkpoint.revert''"
| "thread_op_type (StopSession _ _) = ''thread.session.stop''"
| "thread_op_type (SetSession _ _) = ''thread.session.set''"
| "thread_op_type (AssistantDelta _ _ _ _) = ''thread.message.assistant.delta''"
| "thread_op_type (AssistantComplete _ _ _) = ''thread.message.assistant.complete''"
| "thread_op_type (ImportHistory _) = ''thread.history.import''"
| "thread_op_type (UpsertProposedPlan _ _) = ''thread.proposed-plan.upsert''"
| "thread_op_type (CompleteTurnDiff _ _) = ''thread.turn.diff.complete''"
| "thread_op_type (CompleteRevert _ _) = ''thread.revert.complete''"
| "thread_op_type (AppendActivity _ _) = ''thread.activity.append''"

fun command_type :: "orchestration_command \<Rightarrow> string" where
  "command_type (CreateProject _ _) = ''project.create''"
| "command_type (UpdateProjectMeta _ _ _) = ''project.meta.update''"
| "command_type (DeleteProject _ _ _) = ''project.delete''"
| "command_type (CreateThread _ _) = ''thread.create''"
| "command_type (ThreadCommand _ _ c) = thread_op_type c"

fun command_id :: "orchestration_command \<Rightarrow> ident" where
  "command_id (CreateProject c _) = c"
| "command_id (UpdateProjectMeta c _ _) = c"
| "command_id (DeleteProject c _ _) = c"
| "command_id (CreateThread c _) = c"
| "command_id (ThreadCommand c _ _) = c"

end
