(* ===== verification/OrchProjector.thy ===== *)
theory OrchProjector
  imports OrchEvents DateTimes
begin

text \<open>
  The projector (\<open>apps/server/src/orchestration/projector.ts\<close>): how an event changes the read
  model. One definition per event type, named \<open>on\<close> and the type, and \<open>projectEvent\<close> over
  them. An event carries a payload that its schema has already decoded, so the decoding errors of
  the code, which a payload of the declared type never meets, are no branch here.
\<close>

section \<open>Retention of activities\<close>

definition MAX_THREAD_MESSAGES :: nat where "MAX_THREAD_MESSAGES = 2000"
definition MAX_THREAD_CHECKPOINTS :: nat where "MAX_THREAD_CHECKPOINTS = 500"
definition MAX_THREAD_ACTIVITIES :: nat where "MAX_THREAD_ACTIVITIES = 500"
definition MAX_THREAD_PLANS :: nat where "MAX_THREAD_PLANS = 200"

definition WORKTREE_SETUP_ACTIVITY_KIND :: string where
  "WORKTREE_SETUP_ACTIVITY_KIND = ''worktree-setup''"

definition asksByMessage :: "thread_activity \<Rightarrow> bool" where
  "asksByMessage a \<longleftrightarrow> member ''responseMode'' (act_payload a) = Some (JStr ''message'')"

text \<open>The asynchronous questions still pending after the activities, by request id.\<close>

definition pendingStep ::
  "(string \<times> thread_activity) list \<Rightarrow> thread_activity \<Rightarrow> (string \<times> thread_activity) list" where
  "pendingStep pending a = (case string_member ''requestId'' (act_payload a) of
     None \<Rightarrow> pending
   | Some r \<Rightarrow>
       if act_kind a = ''user-input.requested'' \<and> asksByMessage a then AList.update r a pending
       else if act_kind a = ''user-input.resolved'' then AList.delete r pending
       else pending)"

definition retainThreadActivities :: "thread_activity list \<Rightarrow> thread_activity list" where
  "retainThreadActivities activities =
     (let recentStart = length activities - MAX_THREAD_ACTIVITIES;
          pending = map snd (foldl pendingStep [] activities) in
      if length activities \<le> MAX_THREAD_ACTIVITIES then activities
      else map snd (filter (\<lambda>(i, a). recentStart \<le> i \<or> a \<in> set pending \<or>
                              act_kind a = WORKTREE_SETUP_ACTIVITY_KIND)
                     (enumerate 0 activities)))"

definition compareThreadActivities :: "host \<Rightarrow> thread_activity \<Rightarrow> thread_activity \<Rightarrow> int" where
  "compareThreadActivities H left right =
     (let byTime = (let c = localeCompare H (act_createdAt left) (act_createdAt right) in
            if c \<noteq> 0 then c else localeCompare H (act_id left) (act_id right)) in
      case (act_sequence left, act_sequence right) of
        (Some l, Some r) \<Rightarrow> if l \<noteq> r then int l - int r else byTime
      | (Some l, None) \<Rightarrow> 1
      | (None, Some r) \<Rightarrow> -1
      | (None, None) \<Rightarrow> byTime)"

section \<open>Turns and checkpoints\<close>

fun checkpointStatusToLatestTurnState :: "checkpoint_status \<Rightarrow> latest_turn_state" where
  "checkpointStatusToLatestTurnState CpError = TurnError"
| "checkpointStatusToLatestTurnState _ = TurnCompleted"

fun settledTurnStateForSessionStatus :: "session_status \<Rightarrow> latest_turn_state option" where
  "settledTurnStateForSessionStatus SIdle = Some TurnCompleted"
| "settledTurnStateForSessionStatus SReady = Some TurnCompleted"
| "settledTurnStateForSessionStatus SError = Some TurnError"
| "settledTurnStateForSessionStatus SInterrupted = Some TurnInterrupted"
| "settledTurnStateForSessionStatus SStopped = Some TurnInterrupted"
| "settledTurnStateForSessionStatus SStarting = None"
| "settledTurnStateForSessionStatus SRunning = None"

definition updateThread ::
  "orchestration_thread list \<Rightarrow> ident \<Rightarrow> (orchestration_thread \<Rightarrow> orchestration_thread) \<Rightarrow>
     orchestration_thread list" where
  "updateThread threads i patch = map (\<lambda>t. if thread_id t = i then patch t else t) threads"

definition findThread :: "read_model \<Rightarrow> ident \<Rightarrow> orchestration_thread option" where
  "findThread m i = List.find (\<lambda>t. thread_id t = i) (model_threads m)"

definition findProject :: "read_model \<Rightarrow> ident \<Rightarrow> orchestration_project option" where
  "findProject m i = List.find (\<lambda>p. project_id p = i) (model_projects m)"

section \<open>Pull request links\<close>

definition pullRequestsPatch ::
  "host \<Rightarrow> orchestration_thread \<Rightarrow> pull_request_link list \<Rightarrow> read_model \<Rightarrow>
     orchestration_thread \<Rightarrow> orchestration_thread" where
  "pullRequestsPatch H thread links m t =
     t\<lparr>thread_pullRequests := links,
       thread_linkedPullRequest :=
         legacyLinkedPullRequestOf (parseUrl H) (parseDate H) links (thread_projectId thread)
           (Option.bind (findProject m (thread_projectId thread)) project_repositoryIdentity)\<rparr>"

definition upsertPullRequestLink ::
  "host \<Rightarrow> pull_request_link list \<Rightarrow> pull_request_link \<Rightarrow> pull_request_link list" where
  "upsertPullRequestLink H links link =
     (case findIndex (\<lambda>e. threadPullRequestKeysEqual (parseUrl H) (linkSource e) (linkSource link)) links of
        None \<Rightarrow> links @ [link]
      | Some i \<Rightarrow> links[i := link])"

definition removePullRequestLink ::
  "host \<Rightarrow> pull_request_link list \<Rightarrow> pull_request_key \<Rightarrow> pull_request_link list" where
  "removePullRequestLink H links key =
     filter (\<lambda>e. \<not> threadPullRequestKeysEqual (parseUrl H) (linkSource e) (keySource key)) links"

definition urlHostname :: "host \<Rightarrow> string \<Rightarrow> string option" where
  "urlHostname H u = map_option hostname (parseUrl H u)"

definition legacyPullRequestHost ::
  "host \<Rightarrow> orchestration_project option \<Rightarrow> thread_linked_pull_request \<Rightarrow> string" where
  "legacyPullRequestHost H project linked =
     (case Option.bind project project_repositoryIdentity of
        Some i \<Rightarrow>
          (let canonicalHost = hd (splitOn (CHR ''/'') (canonicalKey i)) in
           if canonicalHost \<noteq> [] then toLowerCase canonicalHost
           else case urlHostname H (linked_url linked) of
             Some h \<Rightarrow> toLowerCase h | None \<Rightarrow> ''unknown'')
      | None \<Rightarrow>
          (case urlHostname H (linked_url linked) of
             Some h \<Rightarrow> toLowerCase h | None \<Rightarrow> ''unknown''))"

text \<open>A link made of a key and the fields that a new link has.\<close>

definition newLink ::
  "pull_request_key \<Rightarrow> string \<Rightarrow> link_source \<Rightarrow> iso_date_time \<Rightarrow> pull_request_link" where
  "newLink key url source linkedAt =
     \<lparr>link_host = key_host key, link_repository = key_repository key, link_number = key_number key,
      link_url = url, link_source = source, link_linkedAt = linkedAt, link_snapshot = None,
      link_stack = None\<rparr>"

definition legacyLinkToPullRequests ::
  "host \<Rightarrow> orchestration_thread \<Rightarrow> orchestration_project option \<Rightarrow>
     thread_linked_pull_request option \<Rightarrow> iso_date_time \<Rightarrow> pull_request_link list" where
  "legacyLinkToPullRequests H thread project linked linkedAt =
     (let withoutManual = filter (\<lambda>e. link_source e \<noteq> LinkManual) (thread_pullRequests thread) in
      case linked of
        None \<Rightarrow> withoutManual
      | Some l \<Rightarrow> upsertPullRequestLink H withoutManual
          (newLink (legacyThreadPullRequestKey (parseUrl H) (linked_repository l) (linked_number l)
                     (linked_url l) (Some (legacyPullRequestHost H project l)))
                   (linked_url l) LinkManual linkedAt))"

section \<open>Reverting\<close>

definition isImportedAgentSessionMessageId :: "ident \<Rightarrow> bool" where
  "isImportedAgentSessionMessageId i \<longleftrightarrow> startsWith i ''import:''"

definition compareMessages ::
  "host \<Rightarrow> orchestration_message \<Rightarrow> orchestration_message \<Rightarrow> int" where
  "compareMessages H left right =
     (let c = compareDateTimeStrings H (msg_createdAt left) (msg_createdAt right) in
      if c \<noteq> 0 then c else localeCompare H (msg_id left) (msg_id right))"

definition inRetainedTurn :: "ident set \<Rightarrow> ident option \<Rightarrow> bool" where
  "inRetainedTurn turns t = (case t of None \<Rightarrow> False | Some i \<Rightarrow> i \<in> turns)"

definition retainedOutright :: "ident set \<Rightarrow> orchestration_message \<Rightarrow> bool" where
  "retainedOutright turns msg \<longleftrightarrow>
     msg_role msg = SystemRole \<or> isImportedAgentSessionMessageId (msg_id msg) \<or>
     inRetainedTurn turns (msg_turnId msg)"

text \<open>
  The ids of one role's oldest messages that make up for the turns of which no message of
  that role was retained.
\<close>

definition fallbackMessages ::
  "host \<Rightarrow> message_role \<Rightarrow> orchestration_message list \<Rightarrow> ident set \<Rightarrow> ident set \<Rightarrow> nat \<Rightarrow> ident set" where
  "fallbackMessages H role messages retained turns turnCount =
     (let count = length (filter (\<lambda>x. msg_role x = role \<and>
            \<not> isImportedAgentSessionMessageId (msg_id x) \<and> msg_id x \<in> retained) messages);
          candidates = filter (\<lambda>x. msg_role x = role \<and> msg_id x \<notin> retained \<and>
            (msg_turnId x = None \<or> inRetainedTurn turns (msg_turnId x))) messages in
      set (map msg_id (take (turnCount - count) (toSorted (compareMessages H) candidates))))"

definition retainThreadMessagesAfterRevert ::
  "host \<Rightarrow> orchestration_message list \<Rightarrow> ident set \<Rightarrow> nat \<Rightarrow> orchestration_message list" where
  "retainThreadMessagesAfterRevert H messages turns turnCount =
     (let outright = set (map msg_id (filter (retainedOutright turns) messages));
          withUsers = outright \<union> fallbackMessages H UserRole messages outright turns turnCount;
          withAssistants =
            withUsers \<union> fallbackMessages H AssistantRole messages withUsers turns turnCount in
      filter (\<lambda>x. msg_id x \<in> withAssistants) messages)"

definition retainThreadActivitiesAfterRevert ::
  "thread_activity list \<Rightarrow> ident set \<Rightarrow> thread_activity list" where
  "retainThreadActivitiesAfterRevert activities turns =
     filter (\<lambda>a. act_turnId a = None \<or> inRetainedTurn turns (act_turnId a)) activities"

definition retainThreadProposedPlansAfterRevert ::
  "proposed_plan list \<Rightarrow> ident set \<Rightarrow> proposed_plan list" where
  "retainThreadProposedPlansAfterRevert plans turns =
     filter (\<lambda>p. plan_turnId p = None \<or> inRetainedTurn turns (plan_turnId p)) plans"

definition createEmptyReadModel :: "iso_date_time \<Rightarrow> read_model" where
  "createEmptyReadModel nowIso =
     \<lparr>snapshotSequence = 0, model_projects = [], model_threads = [], model_updatedAt = nowIso\<rparr>"

section \<open>Events of projects\<close>

text \<open>A field of a patch: present it replaces the old value.\<close>

definition patched :: "'a option \<Rightarrow> 'a \<Rightarrow> 'a" where
  "patched new old = (case new of None \<Rightarrow> old | Some x \<Rightarrow> x)"

definition onProjectCreated :: "project_created_payload \<Rightarrow> read_model \<Rightarrow> read_model" where
  "onProjectCreated p m =
     (let nextProject =
        \<lparr>project_id = pc_projectId p, project_title = pc_title p,
         project_workspaceRoot = pc_workspaceRoot p, project_repositoryIdentity = None,
         project_defaultModelSelection = pc_defaultModelSelection p,
         project_defaultThreadEnvMode = None, project_autoPull = False,
         project_faviconPath = pc_faviconPath p, project_projectIcon = pc_projectIcon p,
         project_scripts = pc_scripts p, project_createdAt = pc_createdAt p,
         project_updatedAt = pc_updatedAt p, project_deletedAt = None\<rparr> in
      m\<lparr>model_projects :=
         (if findProject m (pc_projectId p) \<noteq> None
          then map (\<lambda>e. if project_id e = pc_projectId p then nextProject else e) (model_projects m)
          else model_projects m @ [nextProject])\<rparr>)"

definition updateProject ::
  "orchestration_project list \<Rightarrow> ident \<Rightarrow> (orchestration_project \<Rightarrow> orchestration_project) \<Rightarrow>
     orchestration_project list" where
  "updateProject projects i patch = map (\<lambda>p. if project_id p = i then patch p else p) projects"

definition onProjectMetaUpdated ::
  "ident \<Rightarrow> project_meta_patch \<Rightarrow> iso_date_time \<Rightarrow> read_model \<Rightarrow> read_model" where
  "onProjectMetaUpdated i p updatedAt m =
     m\<lparr>model_projects := updateProject (model_projects m) i (\<lambda>project. project\<lparr>
         project_title := patched (pm_title p) (project_title project),
         project_workspaceRoot := patched (pm_workspaceRoot p) (project_workspaceRoot project),
         project_defaultModelSelection :=
           patched (pm_defaultModelSelection p) (project_defaultModelSelection project),
         project_defaultThreadEnvMode :=
           patched (pm_defaultThreadEnvMode p) (project_defaultThreadEnvMode project),
         project_autoPull := patched (pm_autoPull p) (project_autoPull project),
         project_faviconPath := patched (pm_faviconPath p) (project_faviconPath project),
         project_projectIcon := patched (pm_projectIcon p) (project_projectIcon project),
         project_scripts := patched (pm_scripts p) (project_scripts project),
         project_updatedAt := updatedAt\<rparr>)\<rparr>"

definition onProjectDeleted :: "ident \<Rightarrow> iso_date_time \<Rightarrow> read_model \<Rightarrow> read_model" where
  "onProjectDeleted i deletedAt m =
     m\<lparr>model_projects := updateProject (model_projects m) i (\<lambda>project. project\<lparr>
         project_deletedAt := Some deletedAt, project_updatedAt := deletedAt\<rparr>)\<rparr>"

section \<open>Events of a thread's lifecycle\<close>

abbreviation patchThread ::
  "ident \<Rightarrow> (orchestration_thread \<Rightarrow> orchestration_thread) \<Rightarrow> read_model \<Rightarrow> read_model" where
  "patchThread i f m \<equiv> m\<lparr>model_threads := updateThread (model_threads m) i f\<rparr>"

definition newThread :: "thread_created_payload \<Rightarrow> orchestration_thread" where
  "newThread p =
     \<lparr>thread_id = tc_threadId p, thread_projectId = tc_projectId p, thread_title = tc_title p,
      thread_modelSelection = tc_modelSelection p, thread_runtimeMode = tc_runtimeMode p,
      thread_interactionMode = tc_interactionMode p, thread_branch = tc_branch p,
      thread_worktreePath = tc_worktreePath p, thread_linkedPullRequest = None,
      thread_pullRequests = [], thread_branchPullRequest = None, thread_latestTurn = None,
      thread_createdAt = tc_createdAt p, thread_updatedAt = tc_updatedAt p,
      thread_archivedAt = None, thread_settledOverride = None, thread_settledAt = None,
      thread_unsettledAt = None, thread_snoozedUntil = None, thread_snoozedAt = None,
      thread_pinnedAt = None, thread_pinOrderKey = None, thread_activeOrderKey = None,
      thread_titleRegeneration = None, thread_titleState = None, thread_deletedAt = None,
      thread_messages = [], thread_proposedPlans = [], thread_activities = [],
      thread_checkpoints = [], thread_session = None\<rparr>"

definition onThreadCreated :: "thread_created_payload \<Rightarrow> read_model \<Rightarrow> read_model" where
  "onThreadCreated p m =
     (let thread = newThread p in
      m\<lparr>model_threads :=
         (if findThread m (thread_id thread) \<noteq> None
          then map (\<lambda>e. if thread_id e = thread_id thread then thread else e) (model_threads m)
          else model_threads m @ [thread])\<rparr>)"

definition onThreadDeleted :: "ident \<Rightarrow> iso_date_time \<Rightarrow> read_model \<Rightarrow> read_model" where
  "onThreadDeleted i deletedAt m =
     patchThread i (\<lambda>t. t\<lparr>thread_deletedAt := Some deletedAt, thread_updatedAt := deletedAt\<rparr>) m"

definition onThreadArchived ::
  "ident \<Rightarrow> iso_date_time \<Rightarrow> iso_date_time \<Rightarrow> read_model \<Rightarrow> read_model" where
  "onThreadArchived i archivedAt updatedAt m =
     patchThread i (\<lambda>t. t\<lparr>thread_archivedAt := Some archivedAt, thread_titleRegeneration := None,
       thread_updatedAt := updatedAt\<rparr>) m"

definition onThreadUnarchived :: "ident \<Rightarrow> iso_date_time \<Rightarrow> read_model \<Rightarrow> read_model" where
  "onThreadUnarchived i updatedAt m =
     patchThread i (\<lambda>t. t\<lparr>thread_archivedAt := None, thread_updatedAt := updatedAt\<rparr>) m"

definition onThreadSettled ::
  "ident \<Rightarrow> iso_date_time \<Rightarrow> iso_date_time \<Rightarrow> read_model \<Rightarrow> read_model" where
  "onThreadSettled i settledAt updatedAt m =
     patchThread i (\<lambda>t. t\<lparr>thread_settledOverride := Some OverrideSettled,
       thread_settledAt := Some settledAt, thread_unsettledAt := None,
       thread_activeOrderKey := None, thread_updatedAt := updatedAt\<rparr>) m"

definition onThreadUnsettled ::
  "ident \<Rightarrow> reset_reason \<Rightarrow> iso_date_time \<Rightarrow> read_model \<Rightarrow> read_model" where
  "onThreadUnsettled i reason updatedAt m =
     (let existing = findThread m i in
      patchThread i (\<lambda>t. t\<lparr>
        thread_settledOverride := (if reason = ByUser then Some OverrideActive else None),
        thread_settledAt := None,
        thread_unsettledAt :=
          (if Option.bind existing thread_settledOverride = Some OverrideActive
           then Option.bind existing thread_unsettledAt else Some updatedAt),
        thread_updatedAt := updatedAt\<rparr>) m)"

definition onThreadSnoozed ::
  "ident \<Rightarrow> iso_date_time \<Rightarrow> iso_date_time \<Rightarrow> iso_date_time \<Rightarrow> read_model \<Rightarrow> read_model" where
  "onThreadSnoozed i snoozedUntil snoozedAt updatedAt m =
     patchThread i (\<lambda>t. t\<lparr>thread_snoozedUntil := Some snoozedUntil,
       thread_snoozedAt := Some snoozedAt, thread_updatedAt := updatedAt\<rparr>) m"

definition onThreadUnsnoozed :: "ident \<Rightarrow> iso_date_time \<Rightarrow> read_model \<Rightarrow> read_model" where
  "onThreadUnsnoozed i updatedAt m =
     patchThread i (\<lambda>t. t\<lparr>thread_snoozedUntil := None, thread_snoozedAt := None,
       thread_updatedAt := updatedAt\<rparr>) m"

definition onThreadPinned ::
  "ident \<Rightarrow> iso_date_time \<Rightarrow> string option \<Rightarrow> iso_date_time \<Rightarrow> read_model \<Rightarrow> read_model" where
  "onThreadPinned i pinnedAt pinOrderKey updatedAt m =
     patchThread i (\<lambda>t. t\<lparr>thread_pinnedAt := Some pinnedAt,
       thread_pinOrderKey :=
         (case pinOrderKey of Some k \<Rightarrow> Some k | None \<Rightarrow> thread_pinOrderKey t),
       thread_updatedAt := updatedAt\<rparr>) m"

definition onThreadUnpinned :: "ident \<Rightarrow> iso_date_time \<Rightarrow> read_model \<Rightarrow> read_model" where
  "onThreadUnpinned i updatedAt m =
     patchThread i (\<lambda>t. t\<lparr>thread_pinnedAt := None, thread_pinOrderKey := None,
       thread_updatedAt := updatedAt\<rparr>) m"

definition onThreadPinReordered ::
  "ident \<Rightarrow> string \<Rightarrow> iso_date_time \<Rightarrow> read_model \<Rightarrow> read_model" where
  "onThreadPinReordered i orderKey updatedAt m =
     patchThread i (\<lambda>t. t\<lparr>thread_pinOrderKey := Some orderKey, thread_updatedAt := updatedAt\<rparr>) m"

section \<open>Events of a thread's metadata and links\<close>

definition onThreadMetaUpdated ::
  "host \<Rightarrow> ident \<Rightarrow> thread_meta_patch \<Rightarrow> iso_date_time \<Rightarrow> read_model \<Rightarrow> read_model" where
  "onThreadMetaUpdated H i p updatedAt m =
     (let legacyLinkPatch = (case (findThread m i, tm_linkedPullRequest p) of
            (Some thread, Some linked) \<Rightarrow>
              pullRequestsPatch H thread
                (legacyLinkToPullRequests H thread (findProject m (thread_projectId thread)) linked
                   updatedAt) m
          | _ \<Rightarrow> id) in
      patchThread i (\<lambda>t. (legacyLinkPatch (t\<lparr>
        thread_title := patched (tm_title p) (thread_title t),
        thread_titleState := patched (tm_titleState p) (thread_titleState t),
        thread_titleRegeneration := patched (tm_titleRegeneration p) (thread_titleRegeneration t),
        thread_modelSelection := patched (tm_modelSelection p) (thread_modelSelection t),
        thread_branch := patched (tm_branch p) (thread_branch t),
        thread_worktreePath := patched (tm_worktreePath p) (thread_worktreePath t),
        thread_activeOrderKey := patched (tm_activeOrderKey p) (thread_activeOrderKey t),
        thread_branchPullRequest := patched (tm_branchPullRequest p) (thread_branchPullRequest t)\<rparr>))
        \<lparr>thread_updatedAt := updatedAt\<rparr>) m)"

text \<open>The handlers that look the thread up first and leave the model as it is without it.\<close>

definition withThread ::
  "read_model \<Rightarrow> ident \<Rightarrow> (orchestration_thread \<Rightarrow> read_model) \<Rightarrow> read_model" where
  "withThread m i f = (case findThread m i of None \<Rightarrow> m | Some thread \<Rightarrow> f thread)"

definition onThreadPullRequestLinked ::
  "host \<Rightarrow> ident \<Rightarrow> pull_request_link \<Rightarrow> iso_date_time \<Rightarrow> read_model \<Rightarrow> read_model" where
  "onThreadPullRequestLinked H i link updatedAt m = withThread m i (\<lambda>thread.
     patchThread i (\<lambda>t. (pullRequestsPatch H thread
       (upsertPullRequestLink H (thread_pullRequests thread) link) m t)
       \<lparr>thread_updatedAt := updatedAt\<rparr>) m)"

definition onThreadPullRequestUnlinked ::
  "host \<Rightarrow> ident \<Rightarrow> pull_request_key \<Rightarrow> iso_date_time \<Rightarrow> read_model \<Rightarrow> read_model" where
  "onThreadPullRequestUnlinked H i key updatedAt m = withThread m i (\<lambda>thread.
     patchThread i (\<lambda>t. (pullRequestsPatch H thread
       (removePullRequestLink H (thread_pullRequests thread) key) m t)
       \<lparr>thread_updatedAt := updatedAt\<rparr>) m)"

definition onThreadPullRequestSynced ::
  "host \<Rightarrow> ident \<Rightarrow> pull_request_key \<Rightarrow> pull_request_snapshot \<Rightarrow> pull_request_stack option \<Rightarrow>
     iso_date_time \<Rightarrow> read_model \<Rightarrow> read_model" where
  "onThreadPullRequestSynced H i key snapshot stack updatedAt m = withThread m i (\<lambda>thread.
     (let same = (\<lambda>l. threadPullRequestKeysEqual (parseUrl H) (linkSource l) (keySource key));
          links = map (\<lambda>l. if same l then l\<lparr>link_snapshot := Some snapshot, link_stack := stack\<rparr> else l)
                    (thread_pullRequests thread) in
      if \<not> list_ex same (thread_pullRequests thread) then m
      else patchThread i (\<lambda>t. (pullRequestsPatch H thread links m t)
             \<lparr>thread_updatedAt := updatedAt\<rparr>) m))"

definition onThreadRuntimeModeSet ::
  "ident \<Rightarrow> string \<Rightarrow> iso_date_time \<Rightarrow> read_model \<Rightarrow> read_model" where
  "onThreadRuntimeModeSet i mode updatedAt m =
     patchThread i (\<lambda>t. t\<lparr>thread_runtimeMode := mode, thread_updatedAt := updatedAt\<rparr>) m"

definition onThreadInteractionModeSet ::
  "ident \<Rightarrow> string \<Rightarrow> iso_date_time \<Rightarrow> read_model \<Rightarrow> read_model" where
  "onThreadInteractionModeSet i mode updatedAt m =
     patchThread i (\<lambda>t. t\<lparr>thread_interactionMode := mode, thread_updatedAt := updatedAt\<rparr>) m"

section \<open>Events of a thread's contents\<close>

text \<open>A streamed part is appended; a final text replaces what was streamed unless it is empty.\<close>

definition mergeMessage ::
  "orchestration_message \<Rightarrow> orchestration_message \<Rightarrow> orchestration_message" where
  "mergeMessage new old = old\<lparr>
     msg_text := (if msg_streaming new then msg_text old @ msg_text new
                  else if msg_text new \<noteq> [] then msg_text new else msg_text old),
     msg_streaming := msg_streaming new, msg_updatedAt := msg_updatedAt new,
     msg_turnId := msg_turnId new,
     msg_attachments := (case msg_attachments new of
        Some a \<Rightarrow> Some a | None \<Rightarrow> msg_attachments old),
     msg_context := (case msg_context new of Some c \<Rightarrow> Some c | None \<Rightarrow> msg_context old)\<rparr>"

definition onThreadMessageSent ::
  "ident \<Rightarrow> orchestration_message \<Rightarrow> iso_date_time \<Rightarrow> read_model \<Rightarrow> read_model" where
  "onThreadMessageSent i msg occurredAt m = withThread m i (\<lambda>thread.
     (let messages =
        (if list_ex (\<lambda>e. msg_id e = msg_id msg) (thread_messages thread)
         then map (\<lambda>e. if msg_id e = msg_id msg then mergeMessage msg e else e) (thread_messages thread)
         else thread_messages thread @ [msg]) in
      patchThread i (\<lambda>t. t\<lparr>thread_messages := takeLast MAX_THREAD_MESSAGES messages,
        thread_updatedAt := occurredAt\<rparr>) m))"

definition latestTurnOfSession ::
  "orchestration_thread \<Rightarrow> orchestration_session \<Rightarrow> latest_turn option" where
  "latestTurnOfSession thread session =
     (case (sess_status session, sess_activeTurnId session) of
        (SRunning, Some active) \<Rightarrow>
          (let same = (case thread_latestTurn thread of
                 Some t \<Rightarrow> if turn_id t = active then Some t else None | None \<Rightarrow> None) in
           Some \<lparr>turn_id = active, turn_state = TurnRunning,
             turn_requestedAt = (case same of
               Some t \<Rightarrow> turn_requestedAt t | None \<Rightarrow> sess_updatedAt session),
             turn_startedAt = (case Option.bind same turn_startedAt of
               Some s \<Rightarrow> Some s | None \<Rightarrow> Some (sess_updatedAt session)),
             turn_completedAt = None,
             turn_assistantMessageId = Option.bind same turn_assistantMessageId,
             turn_sourceProposedPlan = None\<rparr>)
      | _ \<Rightarrow>
          (case (thread_latestTurn thread,
                 settledTurnStateForSessionStatus (sess_status session)) of
             (Some t, Some settled) \<Rightarrow>
               if turn_state t = TurnRunning
               then Some (t\<lparr>turn_state := settled, turn_completedAt := Some (sess_updatedAt session)\<rparr>)
               else Some t
           | _ \<Rightarrow> thread_latestTurn thread))"

definition onThreadSessionSet ::
  "ident \<Rightarrow> orchestration_session \<Rightarrow> iso_date_time \<Rightarrow> read_model \<Rightarrow> read_model" where
  "onThreadSessionSet i session occurredAt m = withThread m i (\<lambda>thread.
     patchThread i (\<lambda>t. t\<lparr>thread_session := Some session,
       thread_latestTurn := latestTurnOfSession thread session,
       thread_updatedAt := occurredAt\<rparr>) m)"

definition comparePlans :: "host \<Rightarrow> proposed_plan \<Rightarrow> proposed_plan \<Rightarrow> int" where
  "comparePlans H left right =
     (let c = localeCompare H (plan_createdAt left) (plan_createdAt right) in
      if c \<noteq> 0 then c else localeCompare H (plan_id left) (plan_id right))"

definition onThreadProposedPlanUpserted ::
  "host \<Rightarrow> ident \<Rightarrow> proposed_plan \<Rightarrow> iso_date_time \<Rightarrow> read_model \<Rightarrow> read_model" where
  "onThreadProposedPlanUpserted H i plan occurredAt m = withThread m i (\<lambda>thread.
     (let plans = takeLast MAX_THREAD_PLANS (toSorted (comparePlans H)
            (filter (\<lambda>e. plan_id e \<noteq> plan_id plan) (thread_proposedPlans thread) @ [plan])) in
      patchThread i (\<lambda>t. t\<lparr>thread_proposedPlans := plans, thread_updatedAt := occurredAt\<rparr>) m))"

definition compareCheckpoints :: "checkpoint_summary \<Rightarrow> checkpoint_summary \<Rightarrow> int" where
  "compareCheckpoints left right = int (cp_turnCount left) - int (cp_turnCount right)"

definition latestTurnOfCheckpoint ::
  "orchestration_thread \<Rightarrow> checkpoint_summary \<Rightarrow> latest_turn" where
  "latestTurnOfCheckpoint thread cp =
     (let same = (case thread_latestTurn thread of
            Some t \<Rightarrow> if turn_id t = cp_turnId cp then Some t else None | None \<Rightarrow> None) in
      \<lparr>turn_id = cp_turnId cp,
       turn_state =
         (if map_option turn_state same = Some TurnInterrupted then TurnInterrupted
          else checkpointStatusToLatestTurnState (cp_status cp)),
       turn_requestedAt = (case same of
         Some t \<Rightarrow> turn_requestedAt t | None \<Rightarrow> cp_completedAt cp),
       turn_startedAt = (case Option.bind same turn_startedAt of
         Some s \<Rightarrow> Some s | None \<Rightarrow> Some (cp_completedAt cp)),
       turn_completedAt = Some (cp_completedAt cp),
       turn_assistantMessageId = cp_assistantMessageId cp,
       turn_sourceProposedPlan = None\<rparr>)"

definition turnStillRunning :: "orchestration_thread \<Rightarrow> ident \<Rightarrow> bool" where
  "turnStillRunning thread turn = (case thread_session thread of
     None \<Rightarrow> False
   | Some s \<Rightarrow> sess_status s = SRunning \<and> sess_activeTurnId s = Some turn)"

definition onThreadTurnDiffCompleted ::
  "ident \<Rightarrow> checkpoint_summary \<Rightarrow> iso_date_time \<Rightarrow> read_model \<Rightarrow> read_model" where
  "onThreadTurnDiffCompleted i cp occurredAt m = withThread m i (\<lambda>thread.
     (let existing = List.find (\<lambda>e. cp_turnId e = cp_turnId cp) (thread_checkpoints thread) in
      if (case existing of None \<Rightarrow> False | Some e \<Rightarrow> cp_status e \<noteq> CpMissing) \<and>
         cp_status cp = CpMissing
      then m
      else (let checkpoints = takeLast MAX_THREAD_CHECKPOINTS (toSorted compareCheckpoints
                (filter (\<lambda>e. cp_turnId e \<noteq> cp_turnId cp) (thread_checkpoints thread) @ [cp])) in
        patchThread i (\<lambda>t. t\<lparr>thread_checkpoints := checkpoints,
          thread_latestTurn := (if turnStillRunning thread (cp_turnId cp)
            then thread_latestTurn thread else Some (latestTurnOfCheckpoint thread cp)),
          thread_updatedAt := occurredAt\<rparr>) m)))"

definition onThreadReverted ::
  "host \<Rightarrow> ident \<Rightarrow> nat \<Rightarrow> iso_date_time \<Rightarrow> read_model \<Rightarrow> read_model" where
  "onThreadReverted H i turnCount occurredAt m = withThread m i (\<lambda>thread.
     (let checkpoints = takeLast MAX_THREAD_CHECKPOINTS (toSorted compareCheckpoints
            (filter (\<lambda>e. cp_turnCount e \<le> turnCount) (thread_checkpoints thread)));
          turns = set (map cp_turnId checkpoints);
          messages = takeLast MAX_THREAD_MESSAGES
            (retainThreadMessagesAfterRevert H (thread_messages thread) turns turnCount);
          plans = takeLast MAX_THREAD_PLANS
            (retainThreadProposedPlansAfterRevert (thread_proposedPlans thread) turns);
          activities = retainThreadActivitiesAfterRevert (thread_activities thread) turns;
          latestTurn = (if checkpoints = [] then None
            else (let c = last checkpoints in
              Some \<lparr>turn_id = cp_turnId c,
                turn_state = checkpointStatusToLatestTurnState (cp_status c),
                turn_requestedAt = cp_completedAt c, turn_startedAt = Some (cp_completedAt c),
                turn_completedAt = Some (cp_completedAt c),
                turn_assistantMessageId = cp_assistantMessageId c,
                turn_sourceProposedPlan = None\<rparr>)) in
      patchThread i (\<lambda>t. t\<lparr>thread_checkpoints := checkpoints, thread_messages := messages,
        thread_proposedPlans := plans, thread_activities := activities,
        thread_latestTurn := latestTurn, thread_updatedAt := occurredAt\<rparr>) m))"

definition onThreadActivityAppended ::
  "host \<Rightarrow> ident \<Rightarrow> thread_activity \<Rightarrow> iso_date_time \<Rightarrow> read_model \<Rightarrow> read_model" where
  "onThreadActivityAppended H i activity occurredAt m = withThread m i (\<lambda>thread.
     (let activities = retainThreadActivities (toSorted (compareThreadActivities H)
            (filter (\<lambda>e. act_id e \<noteq> act_id activity) (thread_activities thread) @ [activity])) in
      patchThread i (\<lambda>t. t\<lparr>thread_activities := activities, thread_updatedAt := occurredAt\<rparr>) m))"

section \<open>The projector\<close>

definition projectBody ::
  "host \<Rightarrow> event_body \<Rightarrow> iso_date_time \<Rightarrow> read_model \<Rightarrow> read_model" where
  "projectBody H body occurredAt m = (case body of
     ProjectCreated p \<Rightarrow> onProjectCreated p m
   | ProjectMetaUpdated i p u \<Rightarrow> onProjectMetaUpdated i p u m
   | ProjectDeleted i d \<Rightarrow> onProjectDeleted i d m
   | ThreadCreated p \<Rightarrow> onThreadCreated p m
   | ThreadDeleted i d \<Rightarrow> onThreadDeleted i d m
   | ThreadArchived i a u \<Rightarrow> onThreadArchived i a u m
   | ThreadUnarchived i u \<Rightarrow> onThreadUnarchived i u m
   | ThreadSettled i s u \<Rightarrow> onThreadSettled i s u m
   | ThreadUnsettled i r u \<Rightarrow> onThreadUnsettled i r u m
   | ThreadSnoozed i w s u \<Rightarrow> onThreadSnoozed i w s u m
   | ThreadUnsnoozed i r u \<Rightarrow> onThreadUnsnoozed i u m
   | ThreadPinned i p k u \<Rightarrow> onThreadPinned i p k u m
   | ThreadUnpinned i u \<Rightarrow> onThreadUnpinned i u m
   | ThreadPinReordered i k u \<Rightarrow> onThreadPinReordered i k u m
   | ThreadMetaUpdated i p u \<Rightarrow> onThreadMetaUpdated H i p u m
   | ThreadPullRequestLinked i l u \<Rightarrow> onThreadPullRequestLinked H i l u m
   | ThreadPullRequestUnlinked i k u \<Rightarrow> onThreadPullRequestUnlinked H i k u m
   | ThreadPullRequestSynced i k s st u \<Rightarrow> onThreadPullRequestSynced H i k s st u m
   | ThreadRuntimeModeSet i x u \<Rightarrow> onThreadRuntimeModeSet i x u m
   | ThreadInteractionModeSet i x u \<Rightarrow> onThreadInteractionModeSet i x u m
   | ThreadMessageSent i x \<Rightarrow> onThreadMessageSent i x occurredAt m
   | ThreadSessionSet i s \<Rightarrow> onThreadSessionSet i s occurredAt m
   | ThreadProposedPlanUpserted i p \<Rightarrow> onThreadProposedPlanUpserted H i p occurredAt m
   | ThreadTurnDiffCompleted i c \<Rightarrow> onThreadTurnDiffCompleted i c occurredAt m
   | ThreadReverted i n \<Rightarrow> onThreadReverted H i n occurredAt m
   | ThreadActivityAppended i a \<Rightarrow> onThreadActivityAppended H i a occurredAt m
   | _ \<Rightarrow> m)"

definition projectEvent :: "host \<Rightarrow> read_model \<Rightarrow> orchestration_event \<Rightarrow> read_model" where
  "projectEvent H m e =
     projectBody H (ev_body (ev_planned e)) (ev_occurredAt (ev_planned e))
       (m\<lparr>snapshotSequence := ev_sequence e, model_updatedAt := ev_occurredAt (ev_planned e)\<rparr>)"

end
