(* ===== verification/ThreadSettlement.thy ===== *)
theory ThreadSettlement
  imports OrchModel DateTimes
begin

text \<open>
  When a thread settles by itself (\<open>apps/server/src/orchestration/ThreadSettlementPolicy.ts\<close>),
  over the fields of a thread shell that the policy reads. An unparseable time is None; as in
  the code, every comparison with it is false.
\<close>

record thread_shell =
  shell_latestUserMessageAt :: "iso_date_time option"
  shell_latestTurn :: "latest_turn option"
  shell_session :: "orchestration_session option"
  shell_createdAt :: iso_date_time
  shell_pullRequests :: "pull_request_link list"
  shell_archivedAt :: "iso_date_time option"
  shell_settledOverride :: "settled_override option"
  shell_hasPendingApprovals :: bool
  shell_hasPendingUserInput :: bool
  shell_backgroundLiveness :: "string option"
  shell_snoozedUntil :: "iso_date_time option"
  shell_snoozedAt :: "iso_date_time option"

record settlement_pull_request =
  spr_state :: pull_request_state
  spr_closedAt :: "iso_date_time option"
  spr_mergedAt :: "iso_date_time option"

definition DAY_MS :: int where "DAY_MS = 24 * 60 * 60 * 1000"
definition QUEUED_TURN_START_GRACE_MS :: int where "QUEUED_TURN_START_GRACE_MS = 2 * 60 * 1000"

text \<open>Comparisons of numbers that may be \<open>NaN\<close>.\<close>

fun js_less :: "int option \<Rightarrow> int option \<Rightarrow> bool" where
  "js_less (Some a) (Some b) \<longleftrightarrow> a < b"
| "js_less _ _ \<longleftrightarrow> False"

fun js_leq :: "int option \<Rightarrow> int option \<Rightarrow> bool" where
  "js_leq (Some a) (Some b) \<longleftrightarrow> a \<le> b"
| "js_leq _ _ \<longleftrightarrow> False"

text \<open>The latest of the times, the first one on a tie; None when none of them parses.\<close>

definition latestTimestamp :: "host \<Rightarrow> iso_date_time option list \<Rightarrow> iso_date_time option" where
  "latestTimestamp H vs = map_option fst
     (foldl (\<lambda>latest v. case v of
          None \<Rightarrow> latest
        | Some s \<Rightarrow>
            (case parseDate H s of
               None \<Rightarrow> latest
             | Some ms \<Rightarrow>
                 (case latest of
                    None \<Rightarrow> Some (s, ms)
                  | Some (_, latestMs) \<Rightarrow> if ms > latestMs then Some (s, ms) else latest)))
        None vs)"

definition threadHasQueuedTurnStart ::
  "host \<Rightarrow> iso_date_time option \<Rightarrow> latest_turn option \<Rightarrow> orchestration_session option \<Rightarrow>
     iso_date_time \<Rightarrow> bool" where
  "threadHasQueuedTurnStart H latestUserMessageAt latestTurn session now =
     (case latestUserMessageAt of
        None \<Rightarrow> False
      | Some stamp \<Rightarrow>
          if map_option sess_status session = Some SError then False
          else (case (parseDate H now, parseDate H stamp) of
              (Some n, Some ms) \<Rightarrow>
                if \<bar>n - ms\<bar> > QUEUED_TURN_START_GRACE_MS then False
                else (case latestTurn of
                    None \<Rightarrow> True
                  | Some t \<Rightarrow>
                      list_all (\<lambda>v. case v of None \<Rightarrow> True
                          | Some s \<Rightarrow> js_less (parseDate H s) (Some ms))
                        [Some (turn_requestedAt t), turn_startedAt t, turn_completedAt t])
            | _ \<Rightarrow> False))"

definition pullRequestSettles ::
  "host \<Rightarrow> thread_shell \<Rightarrow> settlement_pull_request \<Rightarrow> bool \<Rightarrow> bool" where
  "pullRequestSettles H t pr autoSettleOnMerge =
     (if spr_state pr \<noteq> PrClosed \<and> (spr_state pr \<noteq> PrMerged \<or> \<not> autoSettleOnMerge) then False
      else (case (if spr_state pr = PrMerged then spr_mergedAt pr else spr_closedAt pr) of
          None \<Rightarrow> False
        | Some terminalAt \<Rightarrow>
            (case latestTimestamp H [Some (shell_createdAt t), shell_latestUserMessageAt t,
                    map_option turn_requestedAt (shell_latestTurn t)] of
               None \<Rightarrow> False
             | Some anchor \<Rightarrow> js_leq (parseDate H anchor) (parseDate H terminalAt))))"

text \<open>Cheap checks that run before any source control lookup.\<close>

definition isAutoSettlementCandidate :: "host \<Rightarrow> thread_shell \<Rightarrow> iso_date_time \<Rightarrow> bool" where
  "isAutoSettlementCandidate H t now =
     (if shell_archivedAt t \<noteq> None \<or> shell_settledOverride t \<noteq> None then False
      else if shell_hasPendingApprovals t \<or> shell_hasPendingUserInput t then False
      else if map_option sess_status (shell_session t) \<in> {Some SStarting, Some SRunning} then False
      else if shell_backgroundLiveness t \<noteq> None then False
      else if threadHasQueuedTurnStart H (shell_latestUserMessageAt t) (shell_latestTurn t)
                (shell_session t) now then False
      else case shell_snoozedUntil t of
        None \<Rightarrow> True
      | Some wake \<Rightarrow>
          js_leq (parseDate H wake) (parseDate H now) \<or>
          (case shell_session t of
             Some s \<Rightarrow> sess_status s = SError \<and>
               (case shell_snoozedAt t of
                  None \<Rightarrow> True
                | Some stamp \<Rightarrow> js_less (parseDate H stamp) (parseDate H (sess_updatedAt s)))
           | None \<Rightarrow> False) \<or>
          (case (shell_snoozedAt t, shell_latestTurn t) of
             (Some stamp, Some lt) \<Rightarrow> turn_state lt = TurnCompleted \<and>
               (case turn_completedAt lt of
                  None \<Rightarrow> False
                | Some c \<Rightarrow> js_less (parseDate H stamp) (parseDate H c))
           | _ \<Rightarrow> False))"

text \<open>The time a link's request was finished, None for minus infinity.\<close>

definition terminalTimestamp :: "host \<Rightarrow> pull_request_link \<Rightarrow> int option" where
  "terminalTimestamp H l = Option.bind (link_snapshot l) (\<lambda>s.
     Option.bind (if snap_state s = PrMerged then snap_mergedAt s else snap_closedAt s) (parseDate H))"

definition laterTerminal :: "host \<Rightarrow> pull_request_link \<Rightarrow> pull_request_link \<Rightarrow> pull_request_link" where
  "laterTerminal H current candidate =
     (case (terminalTimestamp H candidate, terminalTimestamp H current) of
        (Some c, Some l) \<Rightarrow> if c > l then candidate else current
      | (Some c, None) \<Rightarrow> candidate
      | _ \<Rightarrow> current)"

definition finishedPullRequest ::
  "host \<Rightarrow> pull_request_link list \<Rightarrow> settlement_pull_request option \<Rightarrow>
     settlement_pull_request option" where
  "finishedPullRequest H links pullRequest = (case links of
     [] \<Rightarrow> pullRequest
   | l # ls \<Rightarrow>
       map_option (\<lambda>s. \<lparr>spr_state = snap_state s, spr_closedAt = snap_closedAt s,
           spr_mergedAt = snap_mergedAt s\<rparr>)
         (link_snapshot (foldl (laterTerminal H) l ls)))"

definition resolveAutoSettlementAt ::
  "host \<Rightarrow> thread_shell \<Rightarrow> settlement_pull_request option \<Rightarrow> iso_date_time \<Rightarrow> int option \<Rightarrow> bool \<Rightarrow>
     iso_date_time option" where
  "resolveAutoSettlementAt H t givenPullRequest now autoSettleAfterDays autoSettleOnMerge =
     (let links = visibleThreadPullRequests (shell_pullRequests t);
          pullRequest = finishedPullRequest H links givenPullRequest;
          activityAt = latestTimestamp H [shell_latestUserMessageAt t,
            map_option turn_requestedAt (shell_latestTurn t),
            Option.bind (shell_latestTurn t) turn_startedAt,
            Option.bind (shell_latestTurn t) turn_completedAt] in
      if list_ex isOpen links then None
      else if \<not> isAutoSettlementCandidate H t now then None
      else if (case pullRequest of None \<Rightarrow> False
               | Some pr \<Rightarrow> pullRequestSettles H t pr autoSettleOnMerge)
      then Some (case activityAt of Some a \<Rightarrow> a | None \<Rightarrow> shell_createdAt t)
      else (case (autoSettleAfterDays, activityAt) of
          (Some days, Some a) \<Rightarrow>
            if js_less (parseDate H a) (map_option (\<lambda>n. n - days * DAY_MS) (parseDate H now))
            then Some a else None
        | _ \<Rightarrow> None))"

section \<open>What automatic settlement never does\<close>

lemma latestTimestamp_in: "latestTimestamp H vs = Some s \<Longrightarrow> Some s \<in> set vs"
proof -
  define step where "step = (\<lambda>latest v. case v of
          None \<Rightarrow> latest
        | Some s \<Rightarrow>
            (case parseDate H s of
               None \<Rightarrow> latest
             | Some ms \<Rightarrow>
                 (case latest of
                    None \<Rightarrow> Some (s, ms)
                  | Some (_, latestMs) \<Rightarrow> if ms > latestMs then Some (s, ms) else latest)))"
  have "map_option fst (foldl step acc vs) = Some s \<Longrightarrow>
      Some s \<in> set vs \<or> map_option fst acc = Some s" for acc
  proof (induction vs arbitrary: acc)
    case (Cons v vs)
    have "map_option fst (step acc v) = Some s \<Longrightarrow> v = Some s \<or> map_option fst acc = Some s"
      by (auto simp: step_def split: option.splits if_splits prod.splits)
    with Cons show ?case by auto
  qed simp
  from this [of None] show "latestTimestamp H vs = Some s \<Longrightarrow> ?thesis"
    by (simp add: latestTimestamp_def step_def)
qed

text \<open>
  C14: Automatic settlement never parks a thread that still needs someone: when it settles one,
  the thread is not archived, carries no explicit mark, waits for no approval or answer, its
  session is neither starting nor running, no background work is alive, no message waits for
  its turn, no visible pull request is open or unsynced, and the settlement time is one of the
  thread's own times.
\<close>

theorem autoSettlement_safe:
  assumes "resolveAutoSettlementAt H t pr now days onMerge = Some settledAt"
  shows "shell_archivedAt t = None \<and> shell_settledOverride t = None \<and>
     \<not> shell_hasPendingApprovals t \<and> \<not> shell_hasPendingUserInput t \<and>
     (\<forall>s. shell_session t = Some s \<longrightarrow> sess_status s \<notin> {SStarting, SRunning}) \<and>
     shell_backgroundLiveness t = None \<and>
     \<not> threadHasQueuedTurnStart H (shell_latestUserMessageAt t) (shell_latestTurn t)
         (shell_session t) now \<and>
     (\<forall>l \<in> set (visibleThreadPullRequests (shell_pullRequests t)). \<not> isOpen l) \<and>
     (settledAt = shell_createdAt t \<or> shell_latestUserMessageAt t = Some settledAt \<or>
      (\<exists>lt. shell_latestTurn t = Some lt \<and>
         (turn_requestedAt lt = settledAt \<or> turn_startedAt lt = Some settledAt \<or> turn_completedAt lt = Some settledAt)))"
proof -
  define activityAt where "activityAt = latestTimestamp H [shell_latestUserMessageAt t,
            map_option turn_requestedAt (shell_latestTurn t),
            Option.bind (shell_latestTurn t) turn_startedAt,
            Option.bind (shell_latestTurn t) turn_completedAt]"
  have none_open: "\<not> list_ex isOpen (visibleThreadPullRequests (shell_pullRequests t))"
    and candidate: "isAutoSettlementCandidate H t now"
    and at: "settledAt = shell_createdAt t \<or> activityAt = Some settledAt"
    using assms unfolding resolveAutoSettlementAt_def Let_def activityAt_def
    by (auto split: if_splits option.splits)
  have "shell_latestUserMessageAt t = Some settledAt \<or> (\<exists>lt. shell_latestTurn t = Some lt \<and>
      (turn_requestedAt lt = settledAt \<or> turn_startedAt lt = Some settledAt \<or> turn_completedAt lt = Some settledAt))"
    if "activityAt = Some settledAt"
    using latestTimestamp_in [OF that [unfolded activityAt_def]]
    by (cases "shell_latestTurn t") auto
  moreover have "shell_archivedAt t = None \<and> shell_settledOverride t = None \<and>
     \<not> shell_hasPendingApprovals t \<and> \<not> shell_hasPendingUserInput t \<and>
     (\<forall>s. shell_session t = Some s \<longrightarrow> sess_status s \<notin> {SStarting, SRunning}) \<and>
     shell_backgroundLiveness t = None \<and>
     \<not> threadHasQueuedTurnStart H (shell_latestUserMessageAt t) (shell_latestTurn t)
         (shell_session t) now"
    using candidate unfolding isAutoSettlementCandidate_def by (auto split: if_splits)
  ultimately show ?thesis using none_open at by (auto simp: list_ex_iff)
qed

definition ex_shell :: thread_shell where
  "ex_shell = \<lparr>shell_latestUserMessageAt = Some ''aaa'', shell_latestTurn = None,
     shell_session = None, shell_createdAt = ''a'', shell_pullRequests = [],
     shell_archivedAt = None, shell_settledOverride = None, shell_hasPendingApprovals = False,
     shell_hasPendingUserInput = False, shell_backgroundLiveness = None,
     shell_snoozedUntil = None, shell_snoozedAt = None\<rparr>"

definition ex_clock :: host where
  "ex_clock = \<lparr>parseUrl = (\<lambda>_. None),
     parseDate = (\<lambda>s. if s = ''now'' then Some (4 * DAY_MS) else Some (int (length s))),
     utcMonthDay = (\<lambda>_. None), localeCompare = (\<lambda>_ _. 0), graphemes = length\<rparr>"

lemma ex_shell_settles:
  "resolveAutoSettlementAt ex_clock ex_shell None ''now'' (Some 3) True = Some ''aaa''"
  by code_simp

theorem autoSettlement_safe_witness:
  "resolveAutoSettlementAt ex_clock ex_shell None ''now'' (Some 3) True = Some ''aaa'' \<and>
   \<not> threadHasQueuedTurnStart ex_clock (shell_latestUserMessageAt ex_shell)
       (shell_latestTurn ex_shell) (shell_session ex_shell) ''now''"
  using autoSettlement_safe [OF ex_shell_settles] ex_shell_settles by blast

end
