(* ===== verification/OrchGuards.thy ===== *)
theory OrchGuards
  imports OrchCommands OrchProjector ThreadSettlement
begin

text \<open>
  Deciding with rejections: the computations of the decider, the guards of
  \<open>commandInvariants.ts\<close> and the derived state that the guards of \<open>decider.ts\<close> look at.
\<close>

section \<open>Deciders\<close>

datatype rejection =
    InvariantError string string
  | SettleBlocked ident

text \<open>\<open>OutOfFuel\<close> stands for a decision that has not ended; see \<open>OrchDecider\<close>.\<close>

datatype decide_error = Rejection rejection | OutOfFuel

record decide_env =
  env_eventIds :: "ident stream"
  env_clock :: "iso_date_time stream"

type_synonym 'a decider = "decide_env \<Rightarrow> decide_error + 'a \<times> decide_env"

definition d_return :: "'a \<Rightarrow> 'a decider" where
  "d_return x = (\<lambda>s. Inr (x, s))"

definition d_fail :: "rejection \<Rightarrow> 'a decider" where
  "d_fail r = (\<lambda>s. Inl (Rejection r))"

definition d_bind :: "'a decider \<Rightarrow> ('a \<Rightarrow> 'b decider) \<Rightarrow> 'b decider" where
  "d_bind m f = (\<lambda>s. case m s of Inl e \<Rightarrow> Inl e | Inr (x, s') \<Rightarrow> f x s')"

text \<open>\<open>nowIso\<close> and \<open>randomUUIDv4\<close>.\<close>

definition nowIso :: "iso_date_time decider" where
  "nowIso = (\<lambda>s. Inr (shd (env_clock s), s\<lparr>env_clock := stl (env_clock s)\<rparr>))"

definition randomUUID :: "ident decider" where
  "randomUUID = (\<lambda>s. Inr (shd (env_eventIds s), s\<lparr>env_eventIds := stl (env_eventIds s)\<rparr>))"

definition reject :: "orchestration_command \<Rightarrow> string \<Rightarrow> 'a decider" where
  "reject cmd detail = d_fail (InvariantError (command_type cmd) detail)"

text \<open>\<open>withEventBase\<close> with the type and payload that the code spreads into it.\<close>

definition withEventBase ::
  "aggregate_kind \<Rightarrow> ident \<Rightarrow> iso_date_time \<Rightarrow> ident \<Rightarrow> event_metadata \<Rightarrow> event_body \<Rightarrow>
     planned_event decider" where
  "withEventBase kind aggregateId occurredAt commandId metadata body =
     d_bind randomUUID (\<lambda>eventId. d_return
       \<lparr>ev_eventId = eventId, ev_aggregateKind = kind, ev_aggregateId = aggregateId,
        ev_occurredAt = occurredAt, ev_commandId = commandId, ev_causationEventId = None,
        ev_correlationId = commandId, ev_metadata = metadata, ev_body = body\<rparr>)"

fun d_map :: "('a \<Rightarrow> 'b decider) \<Rightarrow> 'a list \<Rightarrow> 'b list decider" where
  "d_map f [] = d_return []"
| "d_map f (x # xs) = d_bind (f x) (\<lambda>y. d_bind (d_map f xs) (\<lambda>ys. d_return (y # ys)))"

section \<open>Guards\<close>

definition listThreadsByProjectId :: "read_model \<Rightarrow> ident \<Rightarrow> orchestration_thread list" where
  "listThreadsByProjectId m projectId = filter (\<lambda>t. thread_projectId t = projectId) (model_threads m)"

definition quoted :: "string \<Rightarrow> string" where
  "quoted s = [CHR 0x27] @ s @ [CHR 0x27]"

definition requireProject ::
  "read_model \<Rightarrow> orchestration_command \<Rightarrow> ident \<Rightarrow> orchestration_project decider" where
  "requireProject m cmd projectId = (case findProject m projectId of
     Some project \<Rightarrow> d_return project
   | None \<Rightarrow> reject cmd (''Project '' @ quoted projectId @ '' does not exist for command '' @
       quoted (command_type cmd) @ ''.''))"

definition requireProjectAbsent ::
  "read_model \<Rightarrow> orchestration_command \<Rightarrow> ident \<Rightarrow> unit decider" where
  "requireProjectAbsent m cmd projectId = (case findProject m projectId of
     None \<Rightarrow> d_return ()
   | Some _ \<Rightarrow> reject cmd (''Project '' @ quoted projectId @
       '' already exists and cannot be created twice.''))"

definition requireActiveProjectWorkspaceRootAbsent ::
  "read_model \<Rightarrow> orchestration_command \<Rightarrow> string \<Rightarrow> ident \<Rightarrow> unit decider" where
  "requireActiveProjectWorkspaceRootAbsent m cmd workspaceRoot exceptProjectId =
     (let normalized = normalizeProjectPathForComparison workspaceRoot in
      case List.find (\<lambda>p. project_deletedAt p = None \<and>
             normalizeProjectPathForComparison (project_workspaceRoot p) = normalized \<and>
             project_id p \<noteq> exceptProjectId) (model_projects m) of
        None \<Rightarrow> d_return ()
      | Some p \<Rightarrow> reject cmd (''Active project '' @ quoted (project_id p) @
          '' already exists for workspace root '' @ quoted normalized @ ''.''))"

definition requireThread ::
  "read_model \<Rightarrow> orchestration_command \<Rightarrow> ident \<Rightarrow> orchestration_thread decider" where
  "requireThread m cmd threadId = (case findThread m threadId of
     Some thread \<Rightarrow> d_return thread
   | None \<Rightarrow> reject cmd (''Thread '' @ quoted threadId @ '' does not exist for command '' @
       quoted (command_type cmd) @ ''.''))"

definition requireThreadArchived ::
  "read_model \<Rightarrow> orchestration_command \<Rightarrow> ident \<Rightarrow> orchestration_thread decider" where
  "requireThreadArchived m cmd threadId = d_bind (requireThread m cmd threadId) (\<lambda>thread.
     if thread_archivedAt thread \<noteq> None then d_return thread
     else reject cmd (''Thread '' @ quoted threadId @ '' is not archived for command '' @
       quoted (command_type cmd) @ ''.''))"

definition requireThreadNotArchived ::
  "read_model \<Rightarrow> orchestration_command \<Rightarrow> ident \<Rightarrow> orchestration_thread decider" where
  "requireThreadNotArchived m cmd threadId = d_bind (requireThread m cmd threadId) (\<lambda>thread.
     if thread_archivedAt thread = None then d_return thread
     else reject cmd (''Thread '' @ quoted threadId @
       '' is already archived and cannot handle command '' @ quoted (command_type cmd) @ ''.''))"

definition requireThreadAbsent ::
  "read_model \<Rightarrow> orchestration_command \<Rightarrow> ident \<Rightarrow> unit decider" where
  "requireThreadAbsent m cmd threadId = (case findThread m threadId of
     None \<Rightarrow> d_return ()
   | Some existing \<Rightarrow>
       if thread_deletedAt existing \<noteq> None then d_return ()
       else reject cmd (''Thread '' @ quoted threadId @
         '' already exists and cannot be created twice.''))"

section \<open>Pending requests and queued turns\<close>

definition isStaleRequestFailureDetail :: "json \<Rightarrow> bool" where
  "isStaleRequestFailureDetail payload = (case string_member ''detail'' payload of
     None \<Rightarrow> False
   | Some d \<Rightarrow>
       list_ex (\<lambda>p. js_includes (toLowerCase d) p)
         [''stale pending approval request'', ''unknown pending approval request'',
          ''unknown pending permission request'', ''stale pending user-input request'',
          ''unknown pending user-input request'', ''unknown pending user input request'',
          ''unknown pending codex user input request''])"

definition openStep ::
  "(string \<times> thread_activity) list \<Rightarrow> thread_activity \<Rightarrow> (string \<times> thread_activity) list" where
  "openStep requests a = (case string_member ''requestId'' (act_payload a) of
     None \<Rightarrow> requests
   | Some r \<Rightarrow>
       if act_kind a = ''approval.requested'' \<or> act_kind a = ''user-input.requested''
       then AList.update r a requests
       else if act_kind a = ''approval.resolved'' \<or>
               act_kind a = ''approval.respond.already-resolved'' \<or>
               act_kind a = ''user-input.resolved''
       then AList.delete r requests
       else if (act_kind a = ''provider.approval.respond.failed'' \<or>
                act_kind a = ''provider.user-input.respond.failed'') \<and>
               isStaleRequestFailureDetail (act_payload a)
       then AList.delete r requests
       else requests)"

definition openRequests :: "orchestration_thread \<Rightarrow> (string \<times> thread_activity) list" where
  "openRequests thread = foldl openStep [] (thread_activities thread)"

text \<open>The running maximum of \<open>Math.max\<close>; once \<open>NaN\<close> it stays \<open>NaN\<close>.\<close>

datatype js_max = MinusInfinity | Milliseconds int | NotANumber

fun js_max_with :: "js_max \<Rightarrow> int option \<Rightarrow> js_max" where
  "js_max_with NotANumber _ = NotANumber"
| "js_max_with _ None = NotANumber"
| "js_max_with MinusInfinity (Some k) = Milliseconds k"
| "js_max_with (Milliseconds j) (Some k) = Milliseconds (max j k)"

definition latestUserMessageStep ::
  "host \<Rightarrow> iso_date_time option \<times> js_max \<Rightarrow> orchestration_message \<Rightarrow> iso_date_time option \<times> js_max"
where
  "latestUserMessageStep H acc msg =
     (if msg_role msg \<noteq> UserRole \<or> isImportedAgentSessionMessageId (msg_id msg) then acc
      else (let ms = parseDate H (msg_createdAt msg); latest = js_max_with (snd acc) ms in
        (if \<exists>k \<in> set_option ms. latest = Milliseconds k then Some (msg_createdAt msg) else fst acc,
         latest)))"

definition latestUserMessageAt ::
  "host \<Rightarrow> orchestration_message list \<Rightarrow> iso_date_time option" where
  "latestUserMessageAt H messages =
     (case foldl (latestUserMessageStep H) (None, MinusInfinity) messages of
        (stamp, Milliseconds _) \<Rightarrow> stamp | _ \<Rightarrow> None)"

definition hasQueuedTurnStartForThread :: "host \<Rightarrow> orchestration_thread \<Rightarrow> iso_date_time \<Rightarrow> bool" where
  "hasQueuedTurnStartForThread H thread now =
     threadHasQueuedTurnStart H (latestUserMessageAt H (thread_messages thread))
       (thread_latestTurn thread) (thread_session thread) now"

definition sessionComingAlive :: "orchestration_thread \<Rightarrow> bool" where
  "sessionComingAlive thread \<longleftrightarrow>
     map_option sess_status (thread_session thread) \<in> {Some SStarting, Some SRunning}"

definition findPullRequestLink ::
  "host \<Rightarrow> orchestration_thread \<Rightarrow> pull_request_key \<Rightarrow> pull_request_link option" where
  "findPullRequestLink H thread key =
     List.find (\<lambda>l. threadPullRequestKeysEqual (parseUrl H) (linkSource l) (keySource key))
       (thread_pullRequests thread)"

text \<open>\<open>script.\<close> id \<open>.run\<close> is a shortcut command: at most 24 of the allowed characters.\<close>

definition MAX_SCRIPT_ID_LENGTH :: nat where "MAX_SCRIPT_ID_LENGTH = 24"

definition isScriptRunCommand :: "string \<Rightarrow> bool" where
  "isScriptRunCommand scriptId \<longleftrightarrow>
     scriptId \<noteq> [] \<and> length scriptId \<le> MAX_SCRIPT_ID_LENGTH \<and> is_lower_alnum (hd scriptId) \<and>
     list_all (\<lambda>c. is_lower_alnum c \<or> c = CHR ''-'') (tl scriptId)"

end
