(* ===== verification/OrchLifecycle.thy ===== *)
theory OrchLifecycle
  imports OrchGuards
begin

text \<open>
  The decider's cases for projects and for the lifecycle of threads
  (\<open>apps/server/src/orchestration/decider.ts\<close>): one definition per command, named \<open>decide\<close> and
  the command. Each returns the planned events in order; the code's single event is a list of one.
\<close>

text \<open>An event of the thread with no metadata.\<close>

definition threadEvent ::
  "ident \<Rightarrow> ident \<Rightarrow> iso_date_time \<Rightarrow> event_body \<Rightarrow> planned_event decider" where
  "threadEvent commandId threadId occurredAt body =
     withEventBase ThreadAggregate threadId occurredAt commandId no_metadata body"

definition projectEventBase ::
  "ident \<Rightarrow> ident \<Rightarrow> iso_date_time \<Rightarrow> event_body \<Rightarrow> planned_event decider" where
  "projectEventBase commandId projectId occurredAt body =
     withEventBase ProjectAggregate projectId occurredAt commandId no_metadata body"

definition single :: "planned_event decider \<Rightarrow> planned_event list decider" where
  "single d = d_bind d (\<lambda>e. d_return [e])"

section \<open>Projects\<close>

definition decideCreateProject ::
  "read_model \<Rightarrow> ident \<Rightarrow> project_create \<Rightarrow> planned_event list decider" where
  "decideCreateProject m cid c =
     (let cmd = CreateProject cid c in
      d_bind (requireProjectAbsent m cmd (pcc_projectId c)) (\<lambda>_.
      d_bind (requireActiveProjectWorkspaceRootAbsent m cmd (pcc_workspaceRoot c) (pcc_projectId c)) (\<lambda>_.
      single (projectEventBase cid (pcc_projectId c) (pcc_createdAt c) (ProjectCreated
        \<lparr>pc_projectId = pcc_projectId c, pc_title = pcc_title c,
         pc_workspaceRoot = pcc_workspaceRoot c, pc_awenWorkspace = pcc_awenWorkspace c,
         pc_defaultModelSelection = None, pc_faviconPath = None, pc_projectIcon = None,
         pc_scripts = [], pc_createdAt = pcc_createdAt c, pc_updatedAt = pcc_createdAt c\<rparr>)))))"

definition monogramTooLong :: "host \<Rightarrow> project_meta_patch \<Rightarrow> bool" where
  "monogramTooLong H p = (case pm_projectIcon p of
     Some (Some (MonogramIcon txt _)) \<Rightarrow> graphemes H txt > 2
   | _ \<Rightarrow> False)"

text \<open>The first script whose id is neither already in the project nor a valid new one.\<close>

definition invalidScript :: "orchestration_project \<Rightarrow> project_meta_patch \<Rightarrow> project_script option" where
  "invalidScript project p = (case pm_scripts p of
     None \<Rightarrow> None
   | Some scripts \<Rightarrow>
       List.find (\<lambda>s. script_id s \<notin> set (map script_id (project_scripts project)) \<and>
         \<not> isScriptRunCommand (script_id s)) scripts)"

definition decideUpdateProjectMeta ::
  "host \<Rightarrow> read_model \<Rightarrow> ident \<Rightarrow> ident \<Rightarrow> project_meta_patch \<Rightarrow> planned_event list decider" where
  "decideUpdateProjectMeta H m cid projectId p =
     (let cmd = UpdateProjectMeta cid projectId p in
      d_bind (requireProject m cmd projectId) (\<lambda>project.
      if monogramTooLong H p
      then reject cmd ''Project monograms must contain at most two characters.''
      else case invalidScript project p of
        Some s \<Rightarrow> reject cmd (''Script ID '' @ quoted (script_id s) @ '' must be 1-'' @
          decimal MAX_SCRIPT_ID_LENGTH @
          '' lowercase letters, digits or hyphens, starting with a letter or digit.'')
      | None \<Rightarrow>
          d_bind (case pm_workspaceRoot p of
              None \<Rightarrow> d_return ()
            | Some workspaceRoot \<Rightarrow>
                requireActiveProjectWorkspaceRootAbsent m cmd workspaceRoot projectId) (\<lambda>_.
          d_bind nowIso (\<lambda>occurredAt.
          single (projectEventBase cid projectId occurredAt (ProjectMetaUpdated projectId p occurredAt))))))"

text \<open>
  Deleting a project: with live threads it needs \<open>force\<close> and becomes the sequence of their
  deletions and of its own, decided by the function passed in.
\<close>

definition decideDeleteProject ::
  "(orchestration_command list \<Rightarrow> read_model \<Rightarrow> planned_event list decider) \<Rightarrow>
     read_model \<Rightarrow> ident \<Rightarrow> ident \<Rightarrow> bool \<Rightarrow> planned_event list decider" where
  "decideDeleteProject decideSequence m cid projectId force =
     (let cmd = DeleteProject cid projectId force;
          activeThreads = filter (\<lambda>t. thread_deletedAt t = None) (listThreadsByProjectId m projectId) in
      d_bind (requireProject m cmd projectId) (\<lambda>_.
      if activeThreads \<noteq> [] \<and> \<not> force
      then reject cmd (''Project '' @ quoted projectId @
        '' is not empty and cannot be deleted without force=true.'')
      else if activeThreads \<noteq> []
      then decideSequence
        (map (\<lambda>t. ThreadCommand cid (thread_id t) DeleteThread) activeThreads @
         [DeleteProject cid projectId False]) m
      else d_bind nowIso (\<lambda>occurredAt.
        single (projectEventBase cid projectId occurredAt (ProjectDeleted projectId occurredAt)))))"

section \<open>Creation, deletion and archiving\<close>

definition decideCreateThread ::
  "read_model \<Rightarrow> ident \<Rightarrow> thread_create \<Rightarrow> planned_event list decider" where
  "decideCreateThread m cid c =
     (let cmd = CreateThread cid c in
      d_bind (requireProject m cmd (tcc_projectId c)) (\<lambda>_.
      d_bind (requireThreadAbsent m cmd (tcc_threadId c)) (\<lambda>_.
      single (withEventBase ThreadAggregate (tcc_threadId c) (tcc_createdAt c) cid
        (no_metadata\<lparr>meta_historyImport := (if tcc_historyImport c then Some True else None)\<rparr>)
        (ThreadCreated
          \<lparr>tc_threadId = tcc_threadId c, tc_projectId = tcc_projectId c, tc_title = tcc_title c,
           tc_modelSelection = tcc_modelSelection c, tc_runtimeMode = tcc_runtimeMode c,
           tc_interactionMode = tcc_interactionMode c, tc_branch = tcc_branch c,
           tc_worktreePath = tcc_worktreePath c, tc_createdAt = tcc_createdAt c,
           tc_updatedAt = tcc_createdAt c\<rparr>)))))"

definition decideDeleteThread ::
  "read_model \<Rightarrow> ident \<Rightarrow> ident \<Rightarrow> planned_event list decider" where
  "decideDeleteThread m cid i =
     d_bind (requireThread m (ThreadCommand cid i DeleteThread) i) (\<lambda>_.
     d_bind nowIso (\<lambda>occurredAt.
     single (threadEvent cid i occurredAt (ThreadDeleted i occurredAt))))"

definition decideArchiveThread ::
  "read_model \<Rightarrow> ident \<Rightarrow> ident \<Rightarrow> planned_event list decider" where
  "decideArchiveThread m cid i =
     d_bind (requireThreadNotArchived m (ThreadCommand cid i ArchiveThread) i) (\<lambda>_.
     d_bind nowIso (\<lambda>occurredAt.
     single (threadEvent cid i occurredAt (ThreadArchived i occurredAt occurredAt))))"

definition decideUnarchiveThread ::
  "read_model \<Rightarrow> ident \<Rightarrow> ident \<Rightarrow> planned_event list decider" where
  "decideUnarchiveThread m cid i =
     d_bind (requireThreadArchived m (ThreadCommand cid i UnarchiveThread) i) (\<lambda>_.
     d_bind nowIso (\<lambda>occurredAt.
     single (threadEvent cid i occurredAt (ThreadUnarchived i occurredAt))))"

section \<open>Settling and unsettling\<close>

text \<open>The activity that closes an asynchronous question without an answer.\<close>

definition dismissedActivity ::
  "ident \<Rightarrow> string \<Rightarrow> thread_activity \<Rightarrow> iso_date_time \<Rightarrow> thread_activity" where
  "dismissedActivity activityId requestId request createdAt =
     \<lparr>act_id = activityId, act_tone = ''info'', act_kind = ''user-input.resolved'',
      act_summary = ''User input dismissed'',
      act_payload = JObj [(''requestId'', JStr requestId), (''responseMode'', JStr ''message'')],
      act_turnId = act_turnId request, act_sequence = None, act_createdAt = createdAt\<rparr>"

definition blocksSettling :: "bool \<Rightarrow> thread_activity \<Rightarrow> bool" where
  "blocksSettling auto a \<longleftrightarrow> auto \<or> act_kind a \<noteq> ''user-input.requested'' \<or> \<not> asksByMessage a"

text \<open>Both settle commands; the automatic one brings its own time.\<close>

definition decideSettle ::
  "host \<Rightarrow> read_model \<Rightarrow> ident \<Rightarrow> ident \<Rightarrow> thread_op \<Rightarrow> iso_date_time option \<Rightarrow>
     planned_event list decider" where
  "decideSettle H m cid i c autoSettledAt =
     (let cmd = ThreadCommand cid i c in
      d_bind (requireThreadNotArchived m cmd i) (\<lambda>thread.
      if autoSettledAt \<noteq> None \<and> thread_settledOverride thread \<noteq> None
      then reject cmd (''thread '' @ i @ '' changed before automatic settlement'')
      else if sessionComingAlive thread then d_fail (SettleBlocked i)
      else if list_ex (blocksSettling (autoSettledAt \<noteq> None)) (map snd (openRequests thread))
      then d_fail (SettleBlocked i)
      else d_bind nowIso (\<lambda>occurredAt.
        if hasQueuedTurnStartForThread H thread occurredAt then d_fail (SettleBlocked i)
        else
          (let alreadySettledAt = (if thread_settledOverride thread = Some OverrideSettled
                 then thread_settledAt thread else None) in
           d_bind (threadEvent cid i occurredAt (ThreadSettled i
               (case alreadySettledAt of
                  Some a \<Rightarrow> a
                | None \<Rightarrow> (case autoSettledAt of Some a \<Rightarrow> a | None \<Rightarrow> occurredAt))
               (if alreadySettledAt \<noteq> None then thread_updatedAt thread else occurredAt)))
             (\<lambda>settled.
           d_bind (d_map (\<lambda>(requestId, request). threadEvent cid i occurredAt
               (ThreadActivityAppended i (dismissedActivity
                  (''settle:'' @ cid @ '':'' @ requestId) requestId request occurredAt)))
               (openRequests thread)) (\<lambda>dismissals.
           d_bind (if thread_pinnedAt thread \<noteq> None
               then single (threadEvent cid i occurredAt (ThreadUnpinned i occurredAt))
               else d_return []) (\<lambda>unpin.
           d_bind (if thread_snoozedUntil thread \<noteq> None
               then single (threadEvent cid i occurredAt (ThreadUnsnoozed i ByUser occurredAt))
               else d_return []) (\<lambda>unsnooze.
           d_return (settled # dismissals @ unpin @ unsnooze)))))))))"

definition decideUnsettle ::
  "read_model \<Rightarrow> ident \<Rightarrow> ident \<Rightarrow> planned_event list decider" where
  "decideUnsettle m cid i =
     d_bind (requireThreadNotArchived m (ThreadCommand cid i UnsettleThread) i) (\<lambda>thread.
     d_bind nowIso (\<lambda>occurredAt.
     single (threadEvent cid i occurredAt (ThreadUnsettled i ByUser
       (if thread_settledOverride thread = Some OverrideActive then thread_updatedAt thread
        else occurredAt)))))"

section \<open>Snoozing\<close>

definition decideSnooze ::
  "host \<Rightarrow> read_model \<Rightarrow> ident \<Rightarrow> ident \<Rightarrow> iso_date_time \<Rightarrow> planned_event list decider" where
  "decideSnooze H m cid i snoozedUntil =
     (let cmd = ThreadCommand cid i (SnoozeThread snoozedUntil) in
      d_bind (requireThreadNotArchived m cmd i) (\<lambda>thread.
      d_bind nowIso (\<lambda>occurredAt.
      if \<not> js_less (parseDate H occurredAt) (parseDate H snoozedUntil)
      then reject cmd (''thread '' @ i @ '' snooze wake time '' @ snoozedUntil @
        '' is not in the future'')
      else if openRequests thread \<noteq> []
      then reject cmd (''thread '' @ i @
        '' has a pending approval or user-input request and cannot be snoozed'')
      else if hasQueuedTurnStartForThread H thread occurredAt
      then reject cmd (''thread '' @ i @ '' has a queued turn start and cannot be snoozed'')
      else (let existingSnoozedAt = (if thread_snoozedUntil thread = Some snoozedUntil
              then thread_snoozedAt thread else None) in
        single (threadEvent cid i occurredAt (ThreadSnoozed i snoozedUntil
          (case existingSnoozedAt of Some a \<Rightarrow> a | None \<Rightarrow> occurredAt)
          (if existingSnoozedAt \<noteq> None then thread_updatedAt thread else occurredAt)))))))"

definition decideUnsnooze ::
  "read_model \<Rightarrow> ident \<Rightarrow> ident \<Rightarrow> planned_event list decider" where
  "decideUnsnooze m cid i =
     d_bind (requireThreadNotArchived m (ThreadCommand cid i UnsnoozeThread) i) (\<lambda>thread.
     d_bind nowIso (\<lambda>occurredAt.
     single (threadEvent cid i occurredAt (ThreadUnsnoozed i ByUser
       (if thread_snoozedUntil thread = None then thread_updatedAt thread else occurredAt)))))"

section \<open>Pinning and ordering\<close>

definition decidePin ::
  "read_model \<Rightarrow> ident \<Rightarrow> ident \<Rightarrow> string option \<Rightarrow> planned_event list decider" where
  "decidePin m cid i orderKey =
     d_bind (requireThreadNotArchived m (ThreadCommand cid i (PinThread orderKey)) i) (\<lambda>thread.
     d_bind nowIso (\<lambda>occurredAt.
     (let existingPinnedAt = thread_pinnedAt thread in
      d_bind (threadEvent cid i occurredAt (ThreadPinned i
          (case existingPinnedAt of Some a \<Rightarrow> a | None \<Rightarrow> occurredAt)
          (if existingPinnedAt = None then orderKey else None)
          (if existingPinnedAt \<noteq> None then thread_updatedAt thread else occurredAt))) (\<lambda>pinned.
      d_bind (if thread_settledOverride thread = Some OverrideSettled
          then single (threadEvent cid i occurredAt (ThreadUnsettled i ByUser occurredAt))
          else d_return []) (\<lambda>unsettle.
      d_bind (if thread_snoozedUntil thread \<noteq> None
          then single (threadEvent cid i occurredAt (ThreadUnsnoozed i ByUser occurredAt))
          else d_return []) (\<lambda>unsnooze.
      d_return (pinned # unsettle @ unsnooze)))))))"

definition decideUnpin ::
  "read_model \<Rightarrow> ident \<Rightarrow> ident \<Rightarrow> planned_event list decider" where
  "decideUnpin m cid i =
     d_bind (requireThreadNotArchived m (ThreadCommand cid i UnpinThread) i) (\<lambda>thread.
     d_bind nowIso (\<lambda>occurredAt.
     single (threadEvent cid i occurredAt (ThreadUnpinned i
       (if thread_pinnedAt thread = None then thread_updatedAt thread else occurredAt)))))"

definition decideReorderPin ::
  "read_model \<Rightarrow> ident \<Rightarrow> ident \<Rightarrow> string \<Rightarrow> planned_event list decider" where
  "decideReorderPin m cid i orderKey =
     (let cmd = ThreadCommand cid i (ReorderPin orderKey) in
      d_bind (requireThreadNotArchived m cmd i) (\<lambda>thread.
      if thread_pinnedAt thread = None
      then reject cmd (''thread '' @ i @ '' is not pinned and cannot be reordered'')
      else d_bind nowIso (\<lambda>occurredAt.
        single (threadEvent cid i occurredAt (ThreadPinReordered i orderKey
          (if thread_pinOrderKey thread = Some orderKey then thread_updatedAt thread
           else occurredAt))))))"

definition decideReorderActive ::
  "read_model \<Rightarrow> ident \<Rightarrow> ident \<Rightarrow> string \<Rightarrow> planned_event list decider" where
  "decideReorderActive m cid i orderKey =
     (let cmd = ThreadCommand cid i (ReorderActive orderKey) in
      d_bind (requireThreadNotArchived m cmd i) (\<lambda>thread.
      d_bind nowIso (\<lambda>occurredAt.
      if thread_deletedAt thread \<noteq> None \<or> thread_pinnedAt thread \<noteq> None \<or>
         thread_settledOverride thread = Some OverrideSettled
      then reject cmd (''thread '' @ i @ '' is not active and cannot be reordered'')
      else single (threadEvent cid i occurredAt (ThreadMetaUpdated i
        (no_thread_meta\<lparr>tm_activeOrderKey := Some (Some orderKey)\<rparr>) (thread_updatedAt thread))))))"

end
