(* ===== verification/OrchThreadOps.thy ===== *)
theory OrchThreadOps
  imports OrchLifecycle
begin

text \<open>
  The decider's cases for a thread's metadata, pull requests, titles, turns, answers and
  provider results (\<open>apps/server/src/orchestration/decider.ts\<close>), one definition per command.
\<close>

section \<open>Metadata\<close>

definition metaCommand :: "ident \<Rightarrow> ident \<Rightarrow> thread_meta_change \<Rightarrow> orchestration_command" where
  "metaCommand cid i c = ThreadCommand cid i (UpdateThreadMeta (c\<lparr>mu_linkedPullRequest := None\<rparr>))"

definition hasMetadata :: "thread_meta_change \<Rightarrow> bool" where
  "hasMetadata c \<longleftrightarrow> mu_title c \<noteq> None \<or> mu_regenerateTitle c \<or> mu_modelSelection c \<noteq> None \<or>
     mu_branch c \<noteq> None \<or> mu_expectedBranch c \<noteq> None \<or> mu_worktreePath c \<noteq> None"

text \<open>The link that clients of the old protocol see, among the thread's links.\<close>

definition currentLegacyLink ::
  "host \<Rightarrow> read_model \<Rightarrow> orchestration_thread \<Rightarrow> pull_request_link option" where
  "currentLegacyLink H m thread =
     Option.bind (legacyLinkedPullRequestOf (parseUrl H) (parseDate H) (thread_pullRequests thread)
         (thread_projectId thread)
         (Option.bind (findProject m (thread_projectId thread)) project_repositoryIdentity))
       (\<lambda>legacy. List.find (\<lambda>l. link_url l = linked_url legacy \<and> link_number l = linked_number legacy)
          (thread_pullRequests thread))"

definition unlinkCommand :: "ident \<Rightarrow> ident \<Rightarrow> pull_request_link \<Rightarrow> orchestration_command" where
  "unlinkCommand cid i l = ThreadCommand cid i (UnlinkPullRequest
     \<lparr>key_host = link_host l, key_repository = link_repository l, key_number = link_number l\<rparr>)"

definition legacyCommandHost ::
  "host \<Rightarrow> orchestration_project option \<Rightarrow> string \<Rightarrow> string" where
  "legacyCommandHost H project url = (case parseUrl H url of
     Some u \<Rightarrow> hostname u
   | None \<Rightarrow>
       (case Option.bind project project_repositoryIdentity of
          Some identity \<Rightarrow> hd (splitOn (CHR ''/'') (canonicalKey identity))
        | None \<Rightarrow> ''unknown''))"

text \<open>What the event of a metadata update carries besides a changed link.\<close>

definition metaPatch ::
  "ident \<Rightarrow> orchestration_thread \<Rightarrow> thread_meta_change \<Rightarrow> iso_date_time \<Rightarrow> thread_meta_patch" where
  "metaPatch cid thread c occurredAt =
     (let branch = (if mu_branch c \<noteq> None \<and>
              (case mu_expectedBranch c of None \<Rightarrow> False | Some e \<Rightarrow> thread_branch thread \<noteq> e)
            then Some (thread_branch thread) else mu_branch c);
          titled = (if mu_title c \<noteq> None
            then no_thread_meta\<lparr>tm_title := mu_title c,
              tm_titleState := Some (Some \<lparr>title_source = ManualTitle, title_version = cid,
                title_needsRefinement = False\<rparr>)\<rparr>
            else no_thread_meta);
          regenerated = (if mu_regenerateTitle c
            then titled\<lparr>
              tm_titleState := Some (Some \<lparr>title_source = GeneratedTitle, title_version = cid,
                title_needsRefinement = False\<rparr>),
              tm_regenerateTitle := True, tm_previousTitle := Some (thread_title thread),
              tm_titleRegeneration := Some (Some \<lparr>regen_requestId = cid,
                regen_startedAt = occurredAt\<rparr>)\<rparr>
            else titled);
          cancelled = (if mu_title c \<noteq> None \<and> thread_titleRegeneration thread \<noteq> None
            then regenerated\<lparr>tm_titleRegeneration := Some None\<rparr> else regenerated) in
      cancelled\<lparr>tm_modelSelection := mu_modelSelection c, tm_branch := branch,
        tm_worktreePath := mu_worktreePath c, tm_linkedPullRequest := mu_linkedPullRequest c\<rparr>)"

definition decideThreadMeta ::
  "(orchestration_command list \<Rightarrow> read_model \<Rightarrow> planned_event list decider) \<Rightarrow>
     host \<Rightarrow> read_model \<Rightarrow> ident \<Rightarrow> ident \<Rightarrow> thread_meta_change \<Rightarrow> planned_event list decider" where
  "decideThreadMeta decideSequence H m cid i c =
     d_bind (requireThread m (ThreadCommand cid i (UpdateThreadMeta c)) i) (\<lambda>thread.
     (let current = currentLegacyLink H m thread;
          metadata = (if hasMetadata c then [metaCommand cid i c] else []);
          unlinkManual = (case current of
            Some l \<Rightarrow> if link_source l = LinkManual then [unlinkCommand cid i l] else []
          | None \<Rightarrow> []);
          plain = d_bind nowIso (\<lambda>occurredAt. single (threadEvent cid i occurredAt
            (ThreadMetaUpdated i (metaPatch cid thread c occurredAt) occurredAt))) in
      case mu_linkedPullRequest c of
        Some (Some linked) \<Rightarrow>
          (let h = legacyCommandHost H (findProject m (thread_projectId thread)) (linked_url linked);
               key = legacyThreadPullRequestKey (parseUrl H) (linked_repository linked)
                       (linked_number linked) (linked_url linked) (Some h) in
           decideSequence (metadata @ unlinkManual @
             [ThreadCommand cid i (LinkPullRequest
                \<lparr>lr_key = key, lr_url = linked_url linked, lr_source = LinkManual\<rparr>)]) m)
      | Some None \<Rightarrow>
          (case current of
             Some l \<Rightarrow> decideSequence (metadata @ [unlinkCommand cid i l]) m
           | None \<Rightarrow> plain)
      | None \<Rightarrow> plain))"

section \<open>Pull requests\<close>

definition showKey :: "pull_request_key \<Rightarrow> string" where
  "showKey k = key_host k @ ''/'' @ key_repository k @ ''#'' @ decimal (key_number k)"

definition requestSource :: "link_request \<Rightarrow> key_source" where
  "requestSource r = \<lparr>key_host = key_host (lr_key r), key_repository = key_repository (lr_key r),
     key_number = key_number (lr_key r), source_authority = None, source_url = Some (lr_url r)\<rparr>"

definition decideLinkPullRequest ::
  "host \<Rightarrow> read_model \<Rightarrow> ident \<Rightarrow> ident \<Rightarrow> link_request \<Rightarrow> planned_event list decider" where
  "decideLinkPullRequest H m cid i r =
     (let cmd = ThreadCommand cid i (LinkPullRequest r) in
      d_bind (requireThread m cmd i) (\<lambda>thread.
      (let key = normalizeThreadPullRequestKey (parseUrl H) (requestSource r);
           existing = findPullRequestLink H thread key;
           undismisses = (map_option link_source existing = Some LinkStackDismissed \<and>
             lr_source r \<in> {LinkManual, LinkAgent, LinkCreated}) in
       if existing \<noteq> None \<and> \<not> undismisses
       then reject cmd (''pull request '' @ showKey key @ '' is already linked to thread '' @ i)
       else d_bind nowIso (\<lambda>occurredAt.
         single (threadEvent cid i occurredAt (ThreadPullRequestLinked i
           (case existing of
              Some l \<Rightarrow> l\<lparr>link_url := lr_url r, link_source := lr_source r\<rparr>
            | None \<Rightarrow> newLink key (lr_url r) (lr_source r) occurredAt)
           occurredAt))))))"

definition belongsToStack ::
  "orchestration_thread \<Rightarrow> pull_request_link \<Rightarrow> pull_request_key \<Rightarrow> bool" where
  "belongsToStack thread existing key \<longleftrightarrow>
     link_source existing = LinkStack \<or> link_stack existing \<noteq> None \<or>
     list_ex (\<lambda>l. toLowerCase (link_host l) = key_host key \<and>
        toLowerCase (link_repository l) = key_repository key \<and>
        (case link_stack l of None \<Rightarrow> False
         | Some s \<Rightarrow> list_ex (\<lambda>layer. layer_number layer = key_number key) (stack_layers s)))
       (thread_pullRequests thread)"

definition decideUnlinkPullRequest ::
  "host \<Rightarrow> read_model \<Rightarrow> ident \<Rightarrow> ident \<Rightarrow> pull_request_key \<Rightarrow> planned_event list decider" where
  "decideUnlinkPullRequest H m cid i k =
     (let cmd = ThreadCommand cid i (UnlinkPullRequest k) in
      d_bind (requireThread m cmd i) (\<lambda>thread.
      (let key = normalizeThreadPullRequestKey (parseUrl H) (keySource k) in
       case findPullRequestLink H thread key of
         None \<Rightarrow> reject cmd (''pull request '' @ showKey key @ '' is not linked to thread '' @ i)
       | Some existing \<Rightarrow> d_bind nowIso (\<lambda>occurredAt.
           single (threadEvent cid i occurredAt
             (if belongsToStack thread existing key
              then ThreadPullRequestLinked i (existing\<lparr>link_source := LinkStackDismissed\<rparr>) occurredAt
              else ThreadPullRequestUnlinked i key occurredAt))))))"

definition decideSyncPullRequestLink ::
  "host \<Rightarrow> read_model \<Rightarrow> ident \<Rightarrow> ident \<Rightarrow> pull_request_key \<Rightarrow> pull_request_snapshot \<Rightarrow>
     pull_request_stack option \<Rightarrow> planned_event list decider" where
  "decideSyncPullRequestLink H m cid i k snapshot stack =
     (let cmd = ThreadCommand cid i (SyncPullRequestLink k snapshot stack) in
      d_bind (requireThread m cmd i) (\<lambda>thread.
      (let key = normalizeThreadPullRequestKey (parseUrl H) (keySource k) in
       if findPullRequestLink H thread key = None
       then reject cmd (''pull request '' @ showKey key @ '' is not linked to thread '' @ i)
       else d_bind nowIso (\<lambda>occurredAt.
         single (threadEvent cid i occurredAt
           (ThreadPullRequestSynced i key snapshot stack occurredAt))))))"

definition decideSyncPullRequest ::
  "read_model \<Rightarrow> ident \<Rightarrow> ident \<Rightarrow> thread_op \<Rightarrow> ident \<Rightarrow> pull_request_expectation \<Rightarrow>
     thread_linked_pull_request option \<Rightarrow> thread_linked_pull_request option \<Rightarrow>
     planned_event list decider" where
  "decideSyncPullRequest m cid i c projectId expected branchPullRequest linkedPullRequest =
     (let cmd = ThreadCommand cid i c in
      d_bind (requireThreadNotArchived m cmd i) (\<lambda>thread.
      if thread_deletedAt thread \<noteq> None
      then reject cmd (''thread '' @ i @ '' was deleted before pull request discovery'')
      else if thread_projectId thread \<noteq> projectId \<or>
        thread_branch thread \<noteq> ex_branch expected \<or>
        thread_worktreePath thread \<noteq> ex_worktreePath expected \<or>
        thread_linkedPullRequest thread \<noteq> ex_linkedPullRequest expected \<or>
        thread_branchPullRequest thread \<noteq> ex_branchPullRequest expected
      then reject cmd (''thread '' @ i @ '' changed before pull request discovery'')
      else d_bind (requireProject m cmd projectId) (\<lambda>project.
        if project_deletedAt project \<noteq> None \<or>
           project_workspaceRoot project \<noteq> ex_workspaceRoot expected
        then reject cmd (''project '' @ projectId @ '' changed before pull request discovery'')
        else d_bind nowIso (\<lambda>occurredAt.
          single (threadEvent cid i occurredAt (ThreadMetaUpdated i
            (no_thread_meta\<lparr>tm_branchPullRequest := Some branchPullRequest,
              tm_linkedPullRequest := map_option Some linkedPullRequest\<rparr>)
            (thread_updatedAt thread)))))))"

section \<open>Titles\<close>

definition decideTitleGeneration ::
  "read_model \<Rightarrow> ident \<Rightarrow> ident \<Rightarrow> string \<Rightarrow> ident option \<Rightarrow> string \<Rightarrow> bool \<Rightarrow>
     planned_event list decider" where
  "decideTitleGeneration m cid i expectedTitle expectedVersion title needsRefinement =
     d_bind (requireThread m (ThreadCommand cid i
         (CompleteTitleGeneration expectedTitle expectedVersion title needsRefinement)) i) (\<lambda>thread.
     (let current = (thread_deletedAt thread = None \<and>
            map_option title_source (thread_titleState thread) \<noteq> Some ManualTitle \<and>
            thread_title thread = expectedTitle \<and>
            map_option title_version (thread_titleState thread) = expectedVersion \<and>
            thread_titleRegeneration thread = None) in
      d_bind nowIso (\<lambda>occurredAt.
      single (threadEvent cid i occurredAt (ThreadMetaUpdated i
        (if current
         then no_thread_meta\<lparr>tm_title := Some title,
           tm_titleState := Some (Some \<lparr>title_source = GeneratedTitle, title_version = cid,
             title_needsRefinement = needsRefinement\<rparr>)\<rparr>
         else no_thread_meta)
        (thread_updatedAt thread))))))"

definition decideTitleRefine ::
  "read_model \<Rightarrow> ident \<Rightarrow> ident \<Rightarrow> ident \<Rightarrow> planned_event list decider" where
  "decideTitleRefine m cid i expectedVersion =
     d_bind (requireThread m (ThreadCommand cid i (RefineTitle expectedVersion)) i) (\<lambda>thread.
     (let current = (thread_deletedAt thread = None \<and>
            map_option turn_state (thread_latestTurn thread) = Some TurnCompleted \<and>
            map_option sess_status (thread_session thread) = Some SReady \<and>
            (case thread_titleState thread of
               None \<Rightarrow> False
             | Some s \<Rightarrow> title_source s = GeneratedTitle \<and> title_version s = expectedVersion \<and>
                 title_needsRefinement s) \<and>
            thread_titleRegeneration thread = None) in
      d_bind nowIso (\<lambda>occurredAt.
      single (threadEvent cid i occurredAt (ThreadMetaUpdated i
        (if current
         then no_thread_meta\<lparr>
           tm_titleState := Some (Some \<lparr>title_source = GeneratedTitle, title_version = cid,
             title_needsRefinement = False\<rparr>),
           tm_regenerateTitle := True, tm_previousTitle := Some (thread_title thread),
           tm_titleRegeneration := Some (Some \<lparr>regen_requestId = cid,
             regen_startedAt = occurredAt\<rparr>)\<rparr>
         else no_thread_meta)
        (thread_updatedAt thread))))))"

definition decideTitleRegeneration ::
  "read_model \<Rightarrow> ident \<Rightarrow> ident \<Rightarrow> ident \<Rightarrow> string option \<Rightarrow> planned_event list decider" where
  "decideTitleRegeneration m cid i requestId title =
     d_bind (requireThread m (ThreadCommand cid i (CompleteTitleRegeneration requestId title)) i)
       (\<lambda>thread.
     (let requestIsCurrent =
            (map_option regen_requestId (thread_titleRegeneration thread) = Some requestId) in
      d_bind nowIso (\<lambda>occurredAt.
      single (threadEvent cid i occurredAt (ThreadMetaUpdated i
        (if requestIsCurrent
         then no_thread_meta\<lparr>tm_title := title, tm_titleRegeneration := Some None\<rparr>
         else no_thread_meta)
        (if requestIsCurrent then occurredAt else thread_updatedAt thread))))))"

definition decideRuntimeMode ::
  "read_model \<Rightarrow> ident \<Rightarrow> ident \<Rightarrow> string \<Rightarrow> planned_event list decider" where
  "decideRuntimeMode m cid i mode =
     d_bind (requireThread m (ThreadCommand cid i (SetRuntimeMode mode)) i) (\<lambda>_.
     d_bind nowIso (\<lambda>occurredAt.
     single (threadEvent cid i occurredAt (ThreadRuntimeModeSet i mode occurredAt))))"

definition decideInteractionMode ::
  "read_model \<Rightarrow> ident \<Rightarrow> ident \<Rightarrow> string \<Rightarrow> planned_event list decider" where
  "decideInteractionMode m cid i mode =
     d_bind (requireThread m (ThreadCommand cid i (SetInteractionMode mode)) i) (\<lambda>_.
     d_bind nowIso (\<lambda>occurredAt.
     single (threadEvent cid i occurredAt (ThreadInteractionModeSet i mode occurredAt))))"

end
