(* ===== verification/OrchTurns.thy ===== *)
theory OrchTurns
  imports OrchThreadOps
begin

text \<open>
  The decider's cases for a thread's turns, answers and provider results
  (\<open>apps/server/src/orchestration/decider.ts\<close>), one definition per command.
\<close>

section \<open>Turns and messages\<close>

definition userMessage :: "user_message \<Rightarrow> iso_date_time \<Rightarrow> orchestration_message" where
  "userMessage um createdAt =
     \<lparr>msg_id = um_messageId um, msg_role = UserRole, msg_text = um_text um,
      msg_attachments = Some (um_attachments um), msg_context = um_context um, msg_turnId = None,
      msg_streaming = False, msg_createdAt = createdAt, msg_updatedAt = createdAt\<rparr>"

definition rejectImported :: "orchestration_command \<Rightarrow> ident \<Rightarrow> unit decider" where
  "rejectImported cmd messageId =
     (if isImportedAgentSessionMessageId messageId
      then reject cmd (''Message id '' @ quoted messageId @
        '' uses the reserved imported-session namespace.'')
      else d_return ())"

text \<open>The plan a turn implements must exist, on a thread of the same project.\<close>

definition requireSourcePlan ::
  "read_model \<Rightarrow> orchestration_command \<Rightarrow> orchestration_thread \<Rightarrow> plan_reference option \<Rightarrow>
     unit decider" where
  "requireSourcePlan m cmd target source = (case source of
     None \<Rightarrow> d_return ()
   | Some r \<Rightarrow> d_bind (requireThread m cmd (ref_threadId r)) (\<lambda>sourceThread.
       if \<not> list_ex (\<lambda>p. plan_id p = ref_planId r) (thread_proposedPlans sourceThread)
       then reject cmd (''Proposed plan '' @ quoted (ref_planId r) @ '' does not exist on thread '' @
         quoted (ref_threadId r) @ ''.'')
       else if thread_projectId sourceThread \<noteq> thread_projectId target
       then reject cmd (''Proposed plan '' @ quoted (ref_planId r) @ '' belongs to thread '' @
         quoted (thread_id sourceThread) @ '' in a different project.'')
       else d_return ()))"

text \<open>Real activity clears an override and a snooze.\<close>

definition lifecycleReset ::
  "ident \<Rightarrow> orchestration_thread \<Rightarrow> ident \<Rightarrow> iso_date_time \<Rightarrow> planned_event list decider" where
  "lifecycleReset cid thread i createdAt =
     d_bind (if thread_settledOverride thread \<noteq> None
         then single (threadEvent cid i createdAt (ThreadUnsettled i ByActivity createdAt))
         else d_return []) (\<lambda>unsettle.
     d_bind (if thread_snoozedUntil thread \<noteq> None
         then single (threadEvent cid i createdAt (ThreadUnsnoozed i ByActivity createdAt))
         else d_return []) (\<lambda>unsnooze.
     d_return (unsettle @ unsnooze)))"

definition decideStartTurn ::
  "read_model \<Rightarrow> ident \<Rightarrow> ident \<Rightarrow> turn_start \<Rightarrow> iso_date_time \<Rightarrow> planned_event list decider" where
  "decideStartTurn m cid i c createdAt =
     (let cmd = ThreadCommand cid i (StartTurn c createdAt); um = tsc_message c in
      d_bind (rejectImported cmd (um_messageId um)) (\<lambda>_.
      d_bind (requireThread m cmd i) (\<lambda>target.
      d_bind (requireSourcePlan m cmd target (tsc_sourceProposedPlan c)) (\<lambda>_.
      d_bind (if list_ex (\<lambda>x. msg_id x = um_messageId um \<and> msg_role x = UserRole \<and>
                   msg_turnId x = None) (thread_messages target)
          then d_return []
          else single (threadEvent cid i createdAt (ThreadMessageSent i (userMessage um createdAt))))
        (\<lambda>message.
      d_bind (threadEvent cid i createdAt (ThreadTurnStartRequested
          \<lparr>ts_threadId = i, ts_messageId = um_messageId um, ts_modelSelection = tsc_modelSelection c,
           ts_titleSeed = tsc_titleSeed c, ts_runtimeMode = thread_runtimeMode target,
           ts_interactionMode = thread_interactionMode target,
           ts_sourceProposedPlan = tsc_sourceProposedPlan c, ts_createdAt = createdAt\<rparr>)) (\<lambda>start.
      d_bind (lifecycleReset cid target i createdAt) (\<lambda>reset.
      d_return (reset @ message @
        [start\<lparr>ev_causationEventId :=
           (case message of [] \<Rightarrow> None | e # _ \<Rightarrow> Some (ev_eventId e))\<rparr>]))))))))"

definition decideAppendUserMessage ::
  "read_model \<Rightarrow> ident \<Rightarrow> ident \<Rightarrow> user_message \<Rightarrow> iso_date_time \<Rightarrow> planned_event list decider" where
  "decideAppendUserMessage m cid i um createdAt =
     (let cmd = ThreadCommand cid i (AppendUserMessage um createdAt) in
      d_bind (rejectImported cmd (um_messageId um)) (\<lambda>_.
      d_bind (requireThread m cmd i) (\<lambda>thread.
      if list_ex (\<lambda>x. msg_id x = um_messageId um) (thread_messages thread)
      then reject cmd (''Message '' @ quoted (um_messageId um) @ '' already exists on thread '' @
        quoted i @ ''.'')
      else single (withEventBase ThreadAggregate i createdAt cid
        (no_metadata\<lparr>meta_deferredTurn := Some True\<rparr>)
        (ThreadMessageSent i (userMessage um createdAt))))))"

definition decideInterruptTurn ::
  "read_model \<Rightarrow> ident \<Rightarrow> ident \<Rightarrow> ident option \<Rightarrow> iso_date_time \<Rightarrow> planned_event list decider" where
  "decideInterruptTurn m cid i turnId createdAt =
     d_bind (requireThread m (ThreadCommand cid i (InterruptTurn turnId createdAt)) i) (\<lambda>_.
     single (threadEvent cid i createdAt (ThreadTurnInterruptRequested i turnId createdAt)))"

definition decideRespondApproval ::
  "read_model \<Rightarrow> ident \<Rightarrow> ident \<Rightarrow> ident \<Rightarrow> json \<Rightarrow> iso_date_time \<Rightarrow> planned_event list decider" where
  "decideRespondApproval m cid i requestId decision createdAt =
     d_bind (requireThread m (ThreadCommand cid i (RespondApproval requestId decision createdAt)) i)
       (\<lambda>_.
     single (withEventBase ThreadAggregate i createdAt cid
       (no_metadata\<lparr>meta_requestId := Some requestId\<rparr>)
       (ThreadApprovalResponseRequested i requestId decision createdAt)))"

definition decideRevert ::
  "read_model \<Rightarrow> ident \<Rightarrow> ident \<Rightarrow> thread_op \<Rightarrow> nat \<Rightarrow> bool option \<Rightarrow> iso_date_time \<Rightarrow>
     planned_event list decider" where
  "decideRevert m cid i c turnCount restoreFiles createdAt =
     d_bind (requireThread m (ThreadCommand cid i c) i) (\<lambda>_.
     single (threadEvent cid i createdAt
       (ThreadCheckpointRevertRequested i turnCount restoreFiles createdAt)))"

section \<open>Sessions\<close>

definition decideStopSession ::
  "host \<Rightarrow> read_model \<Rightarrow> ident \<Rightarrow> ident \<Rightarrow> bool \<Rightarrow> iso_date_time \<Rightarrow> planned_event list decider" where
  "decideStopSession H m cid i onlyIfSettled createdAt =
     (let cmd = ThreadCommand cid i (StopSession onlyIfSettled createdAt) in
      d_bind (requireThread m cmd i) (\<lambda>thread.
      if onlyIfSettled \<and>
         (thread_settledOverride thread \<noteq> Some OverrideSettled \<or> sessionComingAlive thread \<or>
          hasQueuedTurnStartForThread H thread createdAt)
      then reject cmd (''thread '' @ i @ '' was re-engaged after settle; skipping session stop'')
      else single (threadEvent cid i createdAt (ThreadSessionStopRequested i createdAt))))"

definition decideSetSession ::
  "read_model \<Rightarrow> ident \<Rightarrow> ident \<Rightarrow> orchestration_session \<Rightarrow> iso_date_time \<Rightarrow>
     planned_event list decider" where
  "decideSetSession m cid i session createdAt =
     d_bind (requireThread m (ThreadCommand cid i (SetSession session createdAt)) i) (\<lambda>thread.
     d_bind (threadEvent cid i createdAt (ThreadSessionSet i session)) (\<lambda>set.
     if thread_settledOverride thread = None \<or> sess_status session \<notin> {SStarting, SRunning}
     then d_return [set]
     else d_bind (threadEvent cid i createdAt (ThreadUnsettled i ByActivity createdAt)) (\<lambda>unsettled.
       d_return [unsettled, set])))"

section \<open>What a provider reports\<close>

definition assistantMessage ::
  "ident \<Rightarrow> string \<Rightarrow> ident option \<Rightarrow> bool \<Rightarrow> iso_date_time \<Rightarrow> orchestration_message" where
  "assistantMessage messageId txt turnId streaming createdAt =
     \<lparr>msg_id = messageId, msg_role = AssistantRole, msg_text = txt, msg_attachments = None,
      msg_context = None, msg_turnId = turnId, msg_streaming = streaming,
      msg_createdAt = createdAt, msg_updatedAt = createdAt\<rparr>"

definition decideAssistantMessage ::
  "read_model \<Rightarrow> ident \<Rightarrow> ident \<Rightarrow> thread_op \<Rightarrow> ident \<Rightarrow> string \<Rightarrow> ident option \<Rightarrow> bool \<Rightarrow>
     iso_date_time \<Rightarrow> planned_event list decider" where
  "decideAssistantMessage m cid i c messageId txt turnId streaming createdAt =
     (let cmd = ThreadCommand cid i c in
      d_bind (rejectImported cmd messageId) (\<lambda>_.
      d_bind (requireThread m cmd i) (\<lambda>_.
      single (threadEvent cid i createdAt (ThreadMessageSent i
        (assistantMessage messageId txt turnId streaming createdAt))))))"

definition decideAssistantDelta ::
  "read_model \<Rightarrow> ident \<Rightarrow> ident \<Rightarrow> ident \<Rightarrow> string \<Rightarrow> ident option \<Rightarrow> iso_date_time \<Rightarrow>
     planned_event list decider" where
  "decideAssistantDelta m cid i messageId delta turnId createdAt =
     decideAssistantMessage m cid i (AssistantDelta messageId delta turnId createdAt)
       messageId delta turnId True createdAt"

definition decideAssistantComplete ::
  "read_model \<Rightarrow> ident \<Rightarrow> ident \<Rightarrow> ident \<Rightarrow> ident option \<Rightarrow> iso_date_time \<Rightarrow>
     planned_event list decider" where
  "decideAssistantComplete m cid i messageId turnId createdAt =
     decideAssistantMessage m cid i (AssistantComplete messageId turnId createdAt)
       messageId [] turnId False createdAt"

definition importedEvent ::
  "ident \<Rightarrow> ident \<Rightarrow> iso_date_time \<Rightarrow> event_body \<Rightarrow> planned_event decider" where
  "importedEvent cid i occurredAt body =
     withEventBase ThreadAggregate i occurredAt cid
       (no_metadata\<lparr>meta_historyImport := Some True\<rparr>) body"

definition decideImportHistory ::
  "host \<Rightarrow> read_model \<Rightarrow> ident \<Rightarrow> ident \<Rightarrow> imported_message list \<Rightarrow> planned_event list decider" where
  "decideImportHistory H m cid i messages =
     (let cmd = ThreadCommand cid i (ImportHistory messages) in
      d_bind (requireThread m cmd i) (\<lambda>thread.
      if thread_deletedAt thread \<noteq> None \<or> thread_archivedAt thread \<noteq> None \<or>
         thread_messages thread \<noteq> [] \<or> thread_latestTurn thread \<noteq> None \<or>
         thread_session thread \<noteq> None \<or> openRequests thread \<noteq> []
      then reject cmd (''Thread '' @ quoted i @
        '' must be active and empty before history can be imported.'')
      else case messages of
        [] \<Rightarrow> reject cmd ''Thread history imports require at least one message.''
      | first # _ \<Rightarrow>
          d_bind (d_map (\<lambda>im. importedEvent cid i (im_createdAt im) (ThreadMessageSent i
              \<lparr>msg_id = im_messageId im, msg_role = im_role im, msg_text = im_text im,
               msg_attachments = None, msg_context = None, msg_turnId = None,
               msg_streaming = False, msg_createdAt = im_createdAt im,
               msg_updatedAt = im_createdAt im\<rparr>)) messages) (\<lambda>sent.
          (let settledAt = foldl (\<lambda>latest im.
                 if compareDateTimeStrings H (im_createdAt im) latest > 0 then im_createdAt im
                 else latest) (im_createdAt first) messages in
           d_bind (importedEvent cid i settledAt (ThreadSettled i settledAt settledAt)) (\<lambda>settled.
           d_return (sent @ [settled]))))))"

definition decideUpsertPlan ::
  "read_model \<Rightarrow> ident \<Rightarrow> ident \<Rightarrow> proposed_plan \<Rightarrow> iso_date_time \<Rightarrow> planned_event list decider" where
  "decideUpsertPlan m cid i plan createdAt =
     d_bind (requireThread m (ThreadCommand cid i (UpsertProposedPlan plan createdAt)) i) (\<lambda>_.
     single (threadEvent cid i createdAt (ThreadProposedPlanUpserted i plan)))"

definition decideTurnDiff ::
  "read_model \<Rightarrow> ident \<Rightarrow> ident \<Rightarrow> checkpoint_summary \<Rightarrow> iso_date_time \<Rightarrow>
     planned_event list decider" where
  "decideTurnDiff m cid i checkpoint createdAt =
     d_bind (requireThread m (ThreadCommand cid i (CompleteTurnDiff checkpoint createdAt)) i) (\<lambda>_.
     single (threadEvent cid i createdAt (ThreadTurnDiffCompleted i checkpoint)))"

definition decideRevertComplete ::
  "read_model \<Rightarrow> ident \<Rightarrow> ident \<Rightarrow> nat \<Rightarrow> iso_date_time \<Rightarrow> planned_event list decider" where
  "decideRevertComplete m cid i turnCount createdAt =
     d_bind (requireThread m (ThreadCommand cid i (CompleteRevert turnCount createdAt)) i) (\<lambda>_.
     single (threadEvent cid i createdAt (ThreadReverted i turnCount)))"

definition decideAppendActivity ::
  "read_model \<Rightarrow> ident \<Rightarrow> ident \<Rightarrow> thread_activity \<Rightarrow> iso_date_time \<Rightarrow>
     planned_event list decider" where
  "decideAppendActivity m cid i activity createdAt =
     d_bind (requireThread m (ThreadCommand cid i (AppendActivity activity createdAt)) i) (\<lambda>thread.
     d_bind (withEventBase ThreadAggregate i createdAt cid
         (no_metadata\<lparr>meta_requestId := string_member ''requestId'' (act_payload activity)\<rparr>)
         (ThreadActivityAppended i activity)) (\<lambda>appended.
     if thread_settledOverride thread = None \<or>
        \<not> (act_kind activity = ''approval.requested'' \<or> act_kind activity = ''user-input.requested'')
     then d_return [appended]
     else d_bind (threadEvent cid i createdAt (ThreadUnsettled i ByActivity createdAt)) (\<lambda>unsettled.
       d_return [unsettled, appended])))"

section \<open>Answers to questions\<close>

text \<open>What the decider reads of a decoded \<open>UserInputRequestedPayload\<close>.\<close>

record user_input_question =
  q_id :: string
  q_question :: string
  q_allowCustomAnswer :: "bool option"

definition decode_trimmed :: "json option \<Rightarrow> string option" where
  "decode_trimmed v = (case v of
     Some (JStr s) \<Rightarrow> (let t = js_trim s in if t = [] then None else Some t)
   | _ \<Rightarrow> None)"

definition decodes_optional :: "(json \<Rightarrow> bool) \<Rightarrow> json option \<Rightarrow> bool" where
  "decodes_optional P v = (case v of None \<Rightarrow> True | Some j \<Rightarrow> P j)"

definition is_JBool :: "json \<Rightarrow> bool" where
  "is_JBool j = (case j of JBool _ \<Rightarrow> True | _ \<Rightarrow> False)"

definition is_JStr :: "json \<Rightarrow> bool" where
  "is_JStr j = (case j of JStr _ \<Rightarrow> True | _ \<Rightarrow> False)"

definition decodesOption :: "json \<Rightarrow> bool" where
  "decodesOption j \<longleftrightarrow> (case j of JObj _ \<Rightarrow> True | _ \<Rightarrow> False) \<and>
     decode_trimmed (member ''label'' j) \<noteq> None \<and>
     (case member ''description'' j of Some d \<Rightarrow> is_JStr d | None \<Rightarrow> False) \<and>
     decodes_optional is_JStr (member ''value'' j)"

definition decodeQuestion :: "json \<Rightarrow> user_input_question option" where
  "decodeQuestion j =
     (case (decode_trimmed (member ''id'' j), decode_trimmed (member ''header'' j),
            decode_trimmed (member ''question'' j), member ''options'' j) of
        (Some i, Some h, Some q, Some (JArr options)) \<Rightarrow>
          if list_all decodesOption options \<and>
             decodes_optional is_JBool (member ''allowCustomAnswer'' j) \<and>
             decodes_optional is_JBool (member ''multiSelect'' j)
          then Some \<lparr>q_id = i, q_question = q,
                 q_allowCustomAnswer = (case member ''allowCustomAnswer'' j of
                    Some (JBool b) \<Rightarrow> Some b | _ \<Rightarrow> None)\<rparr>
          else None
      | _ \<Rightarrow> None)"

definition decodeUserInputRequestedPayload :: "json \<Rightarrow> user_input_question list option" where
  "decodeUserInputRequestedPayload j =
     (case member ''questions'' j of
        Some (JArr qs) \<Rightarrow>
          if list_all (\<lambda>q. decodeQuestion q \<noteq> None) qs \<and>
             decodes_optional (\<lambda>r. r = JStr ''message'') (member ''responseMode'' j)
          then Some (map (\<lambda>q. the (decodeQuestion q)) qs) else None
      | _ \<Rightarrow> None)"

definition attachmentsOf :: "user_input_answer \<Rightarrow> string \<Rightarrow> json list" where
  "attachmentsOf c questionId =
     (case Option.bind (ua_attachments c) (\<lambda>as. map_of as questionId) of
        Some xs \<Rightarrow> xs | None \<Rightarrow> [])"

definition allAttachments :: "user_input_answer \<Rightarrow> json list" where
  "allAttachments c = (case ua_attachments c of None \<Rightarrow> [] | Some as \<Rightarrow> concat (map snd as))"

definition stringOf :: "string \<Rightarrow> json \<Rightarrow> string" where
  "stringOf k j = (case string_member k j of Some s \<Rightarrow> s | None \<Rightarrow> [])"

text \<open>The text with which one question is answered, None when it is not answered.\<close>

definition questionReply :: "user_input_answer \<Rightarrow> user_input_question \<Rightarrow> string option" where
  "questionReply c q = (case map_of (ua_answers c) (q_id q) of
     Some (JStr answer) \<Rightarrow>
       if js_trim answer = [] \<and> attachmentsOf c (q_id q) = [] then None
       else (let labels = joinWith [CHR 0x0A] (map (\<lambda>a. ''Attached file: '' @ stringOf ''name'' a @
                 '' ('' @ stringOf ''id'' a @ '')'') (attachmentsOf c (q_id q))) in
         Some (joinWith [CHR 0x0A] (filter (\<lambda>p. p \<noteq> [])
           [q_question q @ [CHR 0x0A] @ js_trim answer, labels])))
   | _ \<Rightarrow> None)"

definition answersPayload :: "user_input_answer \<Rightarrow> (string \<times> json) list" where
  "answersPayload c =
     [(''requestId'', JStr (ua_requestId c)), (''responseMode'', JStr ''message''),
      (''answers'', JObj (ua_answers c))] @
     (case ua_attachments c of
        None \<Rightarrow> []
      | Some as \<Rightarrow> [(''attachmentsByQuestionId'', JObj (map (\<lambda>(k, xs). (k, JArr xs)) as))])"

text \<open>The checks of file references: the questions they belong to, or the reason they fail.\<close>

definition checkAttachments ::
  "thread_activity option \<Rightarrow> user_input_answer \<Rightarrow> string + user_input_question list" where
  "checkAttachments request c =
     (if allAttachments c = [] then Inr []
      else (case Option.bind request (\<lambda>r. if act_kind r = ''user-input.requested''
                   then decodeUserInputRequestedPayload (act_payload r) else None) of
          None \<Rightarrow> Inl (if map_option act_kind request = Some ''user-input.resolved''
                    then ''This question has already been answered.''
                    else ''This question is no longer pending.'')
        | Some questions \<Rightarrow>
            if list_all (\<lambda>(k, _). (case List.find (\<lambda>q. q_id q = k) questions of
                   None \<Rightarrow> False | Some q \<Rightarrow> q_allowCustomAnswer q \<noteq> Some False))
                 (case ua_attachments c of None \<Rightarrow> [] | Some as \<Rightarrow> as)
            then Inr questions else Inl ''This question does not accept file references.''))"

definition respondByMessage ::
  "(orchestration_command list \<Rightarrow> read_model \<Rightarrow> planned_event list decider) \<Rightarrow>
     read_model \<Rightarrow> ident \<Rightarrow> ident \<Rightarrow> user_input_answer \<Rightarrow> iso_date_time \<Rightarrow> thread_activity \<Rightarrow>
     planned_event list decider" where
  "respondByMessage decideSequence m cid i c createdAt request =
     (let cmd = ThreadCommand cid i (RespondUserInput c createdAt) in
      case (if act_kind request \<noteq> ''user-input.requested'' then None
            else decodeUserInputRequestedPayload (act_payload request)) of
        None \<Rightarrow> reject cmd ''This question has already been answered.''
      | Some questions \<Rightarrow>
          if list_ex (\<lambda>q. questionReply c q = None) questions
          then reject cmd ''Answer each question before sending.''
          else decideSequence
            [ThreadCommand cid i (AppendActivity
               \<lparr>act_id = ''async-answer:'' @ ua_requestId c, act_tone = ''info'',
                act_kind = ''user-input.resolved'', act_summary = ''User input submitted'',
                act_payload = JObj (answersPayload c), act_turnId = act_turnId request,
                act_sequence = None, act_createdAt = createdAt\<rparr> createdAt),
             ThreadCommand cid i (StartTurn
               \<lparr>tsc_message = \<lparr>um_messageId = ''async-answer:'' @ ua_requestId c,
                  um_text = joinWith [CHR 0x0A, CHR 0x0A]
                    (map (\<lambda>q. the (questionReply c q)) questions),
                  um_attachments = allAttachments c, um_context = None\<rparr>,
                tsc_modelSelection = None, tsc_titleSeed = None, tsc_sourceProposedPlan = None\<rparr>
               createdAt)] m)"

definition decideRespondUserInput ::
  "(orchestration_command list \<Rightarrow> read_model \<Rightarrow> planned_event list decider) \<Rightarrow>
     read_model \<Rightarrow> ident \<Rightarrow> ident \<Rightarrow> user_input_answer \<Rightarrow> iso_date_time \<Rightarrow> thread_activity option \<Rightarrow>
     planned_event list decider" where
  "decideRespondUserInput decideSequence m cid i c createdAt request =
     (let cmd = ThreadCommand cid i (RespondUserInput c createdAt) in
      d_bind (requireThread m cmd i) (\<lambda>thread.
      case checkAttachments request c of
        Inl detail \<Rightarrow> reject cmd detail
      | Inr questions \<Rightarrow>
          if (case request of None \<Rightarrow> False | Some r \<Rightarrow> asksByMessage r)
          then respondByMessage decideSequence m cid i c createdAt (the request)
          else
            d_bind (withEventBase ThreadAggregate i createdAt cid
                (no_metadata\<lparr>meta_requestId := Some (ua_requestId c)\<rparr>)
                (ThreadUserInputResponseRequested i (ua_requestId c) (ua_answers c)
                   (ua_attachments c) createdAt)) (\<lambda>response.
            if allAttachments c = [] then d_return [response]
            else d_bind (decideAppendActivity m cid i
                \<lparr>act_id = ''question-answer:'' @ cid, act_tone = ''info'',
                 act_kind = ''user-input.answer-submitted'',
                 act_summary = ''Question answer submitted'',
                 act_payload = JObj [(''requestId'', JStr (ua_requestId c)),
                   (''answers'', JObj (ua_answers c)),
                   (''questionTextById'', JObj (foldl (\<lambda>o' q. AList.update (q_id q)
                      (JStr (q_question q)) o') [] questions)),
                   (''attachmentsByQuestionId'', JObj (map (\<lambda>(k, xs). (k, JArr xs))
                      (case ua_attachments c of None \<Rightarrow> [] | Some as \<Rightarrow> as))),
                   (''detail'', JStr (joinWith [CHR 0x0A]
                      (map (stringOf ''name'') (allAttachments c))))],
                 act_turnId = Option.bind request act_turnId, act_sequence = None,
                 act_createdAt = createdAt\<rparr> createdAt) (\<lambda>history.
              d_return (history @ [response])))))"

definition decideDismissUserInput ::
  "read_model \<Rightarrow> ident \<Rightarrow> ident \<Rightarrow> ident \<Rightarrow> iso_date_time \<Rightarrow> thread_activity option \<Rightarrow>
     planned_event list decider" where
  "decideDismissUserInput m cid i requestId createdAt request =
     (let cmd = ThreadCommand cid i (DismissUserInput requestId createdAt) in
      d_bind (requireThread m cmd i) (\<lambda>_.
      case request of
        None \<Rightarrow> reject cmd ''This question has already been answered.''
      | Some r \<Rightarrow>
          if act_kind r \<noteq> ''user-input.requested''
          then reject cmd ''This question has already been answered.''
          else if \<not> asksByMessage r
          then reject cmd ''This question needs an answer. Answer it or stop the turn.''
          else single (threadEvent cid i createdAt (ThreadActivityAppended i
            (dismissedActivity (''async-dismiss:'' @ requestId) requestId r createdAt)))))"

end
