(* ===== verification/OrchDecider.thy ===== *)
theory OrchDecider
  imports OrchTurns
begin

text \<open>
  The decider (\<open>apps/server/src/orchestration/decider.ts\<close>). \<open>decideOrchestrationCommand\<close> and
  \<open>decideCommandSequence\<close> call each other: a sequence is decided command by command, each against
  the read model that the events planned so far lead to. The recursion is bounded by fuel here,
  and \<open>OutOfFuel\<close> stands for a call that has not ended; two levels are always enough,
  because the commands of a sequence never start another one: the deletion of the project at
  the end of a forced deletion carries no \<open>force\<close>. That this last command is not rejected
  depends on the projector, which has deleted the live threads by then.
\<close>

section \<open>Sequences\<close>

text \<open>The events projected in order, numbered from the sequence of the read model.\<close>

fun projectPlanned :: "host \<Rightarrow> read_model \<Rightarrow> nat \<Rightarrow> planned_event list \<Rightarrow> read_model" where
  "projectPlanned H m n [] = m"
| "projectPlanned H m n (e # es) =
     projectPlanned H (projectEvent H m \<lparr>ev_sequence = Suc n, ev_planned = e\<rparr>) (Suc n) es"

fun decideCommandSequence ::
  "(orchestration_command \<Rightarrow> read_model \<Rightarrow> planned_event list decider) \<Rightarrow> host \<Rightarrow> nat \<Rightarrow>
     orchestration_command list \<Rightarrow> read_model \<Rightarrow> planned_event list decider" where
  "decideCommandSequence decide H n [] m = d_return []"
| "decideCommandSequence decide H n (c # cs) m =
     d_bind (decide c m) (\<lambda>es.
     d_bind (decideCommandSequence decide H (n + length es) cs (projectPlanned H m n es)) (\<lambda>rest.
     d_return (es @ rest)))"

section \<open>Commands\<close>

definition decideThreadCommand ::
  "(orchestration_command list \<Rightarrow> read_model \<Rightarrow> planned_event list decider) \<Rightarrow>
     host \<Rightarrow> read_model \<Rightarrow> ident \<Rightarrow> ident \<Rightarrow> thread_op \<Rightarrow> thread_activity option \<Rightarrow>
     planned_event list decider" where
  "decideThreadCommand decideSequence H m cid i c userInputActivity = (case c of
     DeleteThread \<Rightarrow> decideDeleteThread m cid i
   | ArchiveThread \<Rightarrow> decideArchiveThread m cid i
   | UnarchiveThread \<Rightarrow> decideUnarchiveThread m cid i
   | SettleThread \<Rightarrow> decideSettle H m cid i c None
   | AutoSettleThread _ settledAt \<Rightarrow> decideSettle H m cid i c (Some settledAt)
   | UnsettleThread \<Rightarrow> decideUnsettle m cid i
   | SnoozeThread u \<Rightarrow> decideSnooze H m cid i u
   | UnsnoozeThread \<Rightarrow> decideUnsnooze m cid i
   | PinThread k \<Rightarrow> decidePin m cid i k
   | UnpinThread \<Rightarrow> decideUnpin m cid i
   | ReorderPin k \<Rightarrow> decideReorderPin m cid i k
   | ReorderActive k \<Rightarrow> decideReorderActive m cid i k
   | UpdateThreadMeta mu \<Rightarrow> decideThreadMeta decideSequence H m cid i mu
   | LinkPullRequest r \<Rightarrow> decideLinkPullRequest H m cid i r
   | UnlinkPullRequest k \<Rightarrow> decideUnlinkPullRequest H m cid i k
   | SyncPullRequestLink k s st \<Rightarrow> decideSyncPullRequestLink H m cid i k s st
   | SyncPullRequest p _ e b l \<Rightarrow> decideSyncPullRequest m cid i c p e b l
   | CompleteTitleGeneration et ev t n \<Rightarrow> decideTitleGeneration m cid i et ev t n
   | RefineTitle ev \<Rightarrow> decideTitleRefine m cid i ev
   | CompleteTitleRegeneration r t \<Rightarrow> decideTitleRegeneration m cid i r t
   | SetRuntimeMode x \<Rightarrow> decideRuntimeMode m cid i x
   | SetInteractionMode x \<Rightarrow> decideInteractionMode m cid i x
   | StartTurn t u \<Rightarrow> decideStartTurn m cid i t u
   | AppendUserMessage um u \<Rightarrow> decideAppendUserMessage m cid i um u
   | InterruptTurn t u \<Rightarrow> decideInterruptTurn m cid i t u
   | RespondApproval r d u \<Rightarrow> decideRespondApproval m cid i r d u
   | RespondUserInput a u \<Rightarrow> decideRespondUserInput decideSequence m cid i a u userInputActivity
   | DismissUserInput r u \<Rightarrow> decideDismissUserInput m cid i r u userInputActivity
   | RevertConversation n u \<Rightarrow> decideRevert m cid i c n (Some False) u
   | RevertCheckpoint n u \<Rightarrow> decideRevert m cid i c n None u
   | StopSession b u \<Rightarrow> decideStopSession H m cid i b u
   | SetSession s u \<Rightarrow> decideSetSession m cid i s u
   | AssistantDelta x d t u \<Rightarrow> decideAssistantDelta m cid i x d t u
   | AssistantComplete x t u \<Rightarrow> decideAssistantComplete m cid i x t u
   | ImportHistory ms \<Rightarrow> decideImportHistory H m cid i ms
   | UpsertProposedPlan p u \<Rightarrow> decideUpsertPlan m cid i p u
   | CompleteTurnDiff cp u \<Rightarrow> decideTurnDiff m cid i cp u
   | CompleteRevert n u \<Rightarrow> decideRevertComplete m cid i n u
   | AppendActivity a u \<Rightarrow> decideAppendActivity m cid i a u)"

fun decideFuel ::
  "nat \<Rightarrow> host \<Rightarrow> orchestration_command \<Rightarrow> read_model \<Rightarrow> thread_activity option \<Rightarrow>
     planned_event list decider" where
  "decideFuel 0 H cmd m userInputActivity = (\<lambda>_. Inl OutOfFuel)"
| "decideFuel (Suc n) H cmd m userInputActivity =
     (let decideSequence = (\<lambda>cs m'.
            decideCommandSequence (\<lambda>c' m''. decideFuel n H c' m'' None) H (snapshotSequence m') cs m') in
      case cmd of
        CreateProject cid c \<Rightarrow> decideCreateProject m cid c
      | UpdateProjectMeta cid p c \<Rightarrow> decideUpdateProjectMeta H m cid p c
      | DeleteProject cid p force \<Rightarrow> decideDeleteProject decideSequence m cid p force
      | CreateThread cid c \<Rightarrow> decideCreateThread m cid c
      | ThreadCommand cid i c \<Rightarrow> decideThreadCommand decideSequence H m cid i c userInputActivity)"

definition decideOrchestrationCommand ::
  "host \<Rightarrow> orchestration_command \<Rightarrow> read_model \<Rightarrow> thread_activity option \<Rightarrow>
     planned_event list decider" where
  "decideOrchestrationCommand = decideFuel 2"

end
