(* ===== verification/OrchReadModel.thy ===== *)
theory OrchReadModel
  imports OrchProjector
begin

text \<open>
  What the projector keeps of the read model, whatever events reach it: identities are unique,
  the retained parts of a thread stay within their bounds and in order, and the marks of a
  thread's lifecycle agree with each other.
\<close>

section \<open>Well-formed threads\<close>

interpretation checkpoints: comparator compareCheckpoints
  by unfold_locales (auto simp: compareCheckpoints_def)

definition links_ok :: "host \<Rightarrow> pull_request_link list \<Rightarrow> bool" where
  "links_ok H links \<longleftrightarrow> distinct (map (linkKey (parseUrl H)) links)"

definition checkpoints_ok :: "checkpoint_summary list \<Rightarrow> bool" where
  "checkpoints_ok cps \<longleftrightarrow> distinct (map cp_turnId cps) \<and> length cps \<le> MAX_THREAD_CHECKPOINTS \<and>
     sorted_wrt checkpoints.leq cps"

definition contents_ok :: "orchestration_thread \<Rightarrow> bool" where
  "contents_ok t \<longleftrightarrow>
     distinct (map msg_id (thread_messages t)) \<and> length (thread_messages t) \<le> MAX_THREAD_MESSAGES \<and>
     distinct (map plan_id (thread_proposedPlans t)) \<and>
     length (thread_proposedPlans t) \<le> MAX_THREAD_PLANS \<and>
     distinct (map act_id (thread_activities t)) \<and>
     checkpoints_ok (thread_checkpoints t)"

definition marks_ok :: "orchestration_thread \<Rightarrow> bool" where
  "marks_ok t \<longleftrightarrow>
     (thread_settledOverride t = Some OverrideSettled \<longleftrightarrow> thread_settledAt t \<noteq> None) \<and>
     (thread_snoozedUntil t = None \<longleftrightarrow> thread_snoozedAt t = None)"

definition thread_ok :: "host \<Rightarrow> orchestration_thread \<Rightarrow> bool" where
  "thread_ok H t \<longleftrightarrow> contents_ok t \<and> marks_ok t \<and> links_ok H (thread_pullRequests t)"

definition model_ok :: "host \<Rightarrow> read_model \<Rightarrow> bool" where
  "model_ok H m \<longleftrightarrow>
     distinct (map project_id (model_projects m)) \<and> distinct (map thread_id (model_threads m)) \<and>
     (\<forall>t \<in> set (model_threads m). thread_ok H t)"

section \<open>Updating one thread\<close>

lemma findThread_SomeD:
  "findThread m i = Some t \<Longrightarrow> t \<in> set (model_threads m) \<and> thread_id t = i"
  unfolding findThread_def by (metis (mono_tags, lifting) find_Some_in)

lemma findThread_None_iff: "findThread m i = None \<longleftrightarrow> i \<notin> thread_id ` set (model_threads m)"
  unfolding findThread_def find_None_iff by auto

lemma findProject_SomeD:
  "findProject m i = Some p \<Longrightarrow> p \<in> set (model_projects m) \<and> project_id p = i"
  unfolding findProject_def by (metis (mono_tags, lifting) find_Some_in)

lemma findProject_None_iff: "findProject m i = None \<longleftrightarrow> i \<notin> project_id ` set (model_projects m)"
  unfolding findProject_def find_None_iff by auto

lemma find_by_key: "distinct (map f xs) \<Longrightarrow> x \<in> set xs \<Longrightarrow> List.find (\<lambda>y. f y = f x) xs = Some x"
  by (induction xs) (auto simp: image_iff)

lemma findThread_unique:
  "distinct (map thread_id (model_threads m)) \<Longrightarrow> t \<in> set (model_threads m) \<Longrightarrow>
     findThread m (thread_id t) = Some t"
  unfolding findThread_def by (rule find_by_key)

lemma ids_updateThread:
  "(\<And>t. thread_id (f t) = thread_id t) \<Longrightarrow>
     map thread_id (updateThread ts i f) = map thread_id ts"
  by (simp add: updateThread_def)

lemma set_updateThread:
  "set (updateThread ts i f) = {t \<in> set ts. thread_id t \<noteq> i} \<union> f ` {t \<in> set ts. thread_id t = i}"
  by (auto simp: updateThread_def)

lemma model_ok_patchThread:
  assumes "model_ok H m" and "\<And>t. thread_id (f t) = thread_id t"
    and "\<And>t. findThread m i = Some t \<Longrightarrow> thread_ok H t \<Longrightarrow> thread_ok H (f t)"
  shows "model_ok H (patchThread i f m)"
proof -
  have "thread_ok H (f t)" if "t \<in> set (model_threads m)" "thread_id t = i" for t
    using assms(1,3) that findThread_unique [of m t] by (auto simp: model_ok_def)
  then show ?thesis
    using assms(1,2) by (auto simp: model_ok_def ids_updateThread set_updateThread)
qed

lemma model_ok_withThread:
  assumes "model_ok H m"
    and "\<And>t. findThread m i = Some t \<Longrightarrow> thread_ok H t \<Longrightarrow> model_ok H (f t)"
  shows "model_ok H (withThread m i f)"
  using assms findThread_SomeD [of m i] by (auto simp: withThread_def model_ok_def split: option.splits)

lemma model_ok_base [simp]:
  "model_ok H (m\<lparr>snapshotSequence := n, model_updatedAt := u\<rparr>) \<longleftrightarrow> model_ok H m"
  by (simp add: model_ok_def)

lemma withThread_patchThread:
  "withThread m i (\<lambda>thread. patchThread i (f thread) m) =
     (case findThread m i of None \<Rightarrow> m | Some thread \<Rightarrow> patchThread i (f thread) m)"
  by (simp add: withThread_def)

section \<open>What each part of a thread keeps\<close>

lemma links_ok_upsert: "links_ok H links \<Longrightarrow> links_ok H (upsertPullRequestLink H links link)"
proof (cases "findIndex (\<lambda>e. threadPullRequestKeysEqual (parseUrl H) (linkSource e) (linkSource link)) links")
  case None
  then have "\<forall>e \<in> set links. linkKey (parseUrl H) e \<noteq> linkKey (parseUrl H) link"
    by (simp add: findIndex_None_iff threadPullRequestKeysEqual_def)
  then show "links_ok H links \<Longrightarrow> ?thesis"
    using None by (auto simp: links_ok_def upsertPullRequestLink_def)
next
  case (Some i)
  then have "i < length links" "linkKey (parseUrl H) (links ! i) = linkKey (parseUrl H) link"
    using findIndex_SomeD [OF Some] by (auto simp: threadPullRequestKeysEqual_def)
  then have "map (linkKey (parseUrl H)) (links[i := link]) = map (linkKey (parseUrl H)) links"
    using list_update_id [of "map (linkKey (parseUrl H)) links" i] by (simp add: map_update)
  with Some show "links_ok H links \<Longrightarrow> ?thesis"
    by (simp add: links_ok_def upsertPullRequestLink_def)
qed

lemma links_ok_filter: "links_ok H links \<Longrightarrow> links_ok H (filter P links)"
  by (simp add: links_ok_def distinct_map_filter)

lemma links_ok_legacy:
  "links_ok H (thread_pullRequests t) \<Longrightarrow> links_ok H (legacyLinkToPullRequests H t p l u)"
  by (auto simp: legacyLinkToPullRequests_def Let_def split: option.splits
      intro: links_ok_upsert links_ok_filter)

lemma linkSource_synced [simp]:
  "linkSource (l\<lparr>link_snapshot := s, link_stack := st\<rparr>) = linkSource l"
  by (simp add: linkSource_def)

lemma links_ok_synced:
  "links_ok H links \<Longrightarrow>
     links_ok H (map (\<lambda>l. if P l then l\<lparr>link_snapshot := s, link_stack := st\<rparr> else l) links)"
proof -
  have "map (linkKey (parseUrl H)) (map (\<lambda>l. if P l then l\<lparr>link_snapshot := s, link_stack := st\<rparr> else l) links)
      = map (linkKey (parseUrl H)) links" by simp
  then show "links_ok H links \<Longrightarrow> ?thesis" unfolding links_ok_def by (simp only:)
qed

lemma distinct_messages:
  assumes "distinct (map msg_id ms)"
  shows "distinct (map msg_id (if list_ex (\<lambda>e. msg_id e = msg_id x) ms
     then map (\<lambda>e. if msg_id e = msg_id x then mergeMessage x e else e) ms else ms @ [x]))"
proof -
  have "map msg_id (map (\<lambda>e. if msg_id e = msg_id x then mergeMessage x e else e) ms) = map msg_id ms"
    by (simp add: mergeMessage_def)
  then show ?thesis using assms by (auto simp: list_ex_iff simp del: map_map)
qed

lemma distinct_replaced:
  "distinct (map f xs) \<Longrightarrow> distinct (map f (filter (\<lambda>e. f e \<noteq> f x) xs @ [x]))"
  by (auto simp: distinct_map_filter)

lemma distinct_enumerate:
  "distinct (map f xs) \<Longrightarrow> distinct (map f (map snd (filter P (enumerate n xs))))"
proof (induction xs arbitrary: n)
  case (Cons x xs)
  have "set (map snd (filter P (enumerate (Suc n) xs))) \<subseteq> set xs"
    by (auto simp: in_set_enumerate_eq)
  with Cons show ?case by (auto simp del: map_map)
qed simp

lemma retainThreadActivities_distinct:
  "distinct (map act_id as) \<Longrightarrow> distinct (map act_id (retainThreadActivities as))"
  by (simp only: retainThreadActivities_def Let_def split: if_split) (simp only: distinct_enumerate simp_thms)

lemma checkpoints_ok_capped:
  assumes "distinct (map cp_turnId cps)"
  shows "checkpoints_ok (takeLast MAX_THREAD_CHECKPOINTS (toSorted compareCheckpoints cps))"
  using assms by (simp add: checkpoints_ok_def distinct_map_takeLast checkpoints.takeLast_sorted
      checkpoints.sorted)

lemma thread_ok_links:
  "thread_ok H t \<Longrightarrow> links_ok H links \<Longrightarrow>
     thread_ok H ((pullRequestsPatch H t' links m t)\<lparr>thread_updatedAt := u\<rparr>)"
  by (simp add: thread_ok_def pullRequestsPatch_def contents_ok_def marks_ok_def)

lemmas thread_ok_defs = thread_ok_def contents_ok_def marks_ok_def

section \<open>Every event keeps the read model well formed\<close>

lemma ids_updateProject:
  "(\<And>p. project_id (f p) = project_id p) \<Longrightarrow> map project_id (updateProject ps i f) = map project_id ps"
  by (simp add: updateProject_def)

lemma model_ok_projects:
  "model_ok H m \<Longrightarrow> map project_id ps = map project_id (model_projects m) \<Longrightarrow>
     model_ok H (m\<lparr>model_projects := ps\<rparr>)"
  by (simp add: model_ok_def)

lemma ok_project_events:
  assumes "model_ok H m"
  shows "model_ok H (onProjectCreated p m)" and "model_ok H (onProjectMetaUpdated i q u m)"
    and "model_ok H (onProjectDeleted i u m)"
proof -
  have "map project_id (map (\<lambda>e. if project_id e = pc_projectId p then x else e) ps)
      = map project_id ps" if "project_id x = pc_projectId p" for x :: orchestration_project and ps
    using that by simp
  then show "model_ok H (onProjectCreated p m)"
    using assms findProject_None_iff [of m "pc_projectId p"]
    by (auto simp: onProjectCreated_def Let_def model_ok_def simp del: map_map)
qed (use assms in \<open>auto simp: onProjectMetaUpdated_def onProjectDeleted_def ids_updateProject
       intro!: model_ok_projects\<close>)

lemma ok_threadCreated:
  assumes "model_ok H m" shows "model_ok H (onThreadCreated p m)"
proof -
  have new: "thread_ok H (newThread p)"
    by (simp add: newThread_def thread_ok_defs links_ok_def checkpoints_ok_def)
  have "map thread_id (map (\<lambda>e. if thread_id e = thread_id x then x else e) ts) = map thread_id ts"
    for x :: orchestration_thread and ts by simp
  then show ?thesis
    using assms new findThread_None_iff [of m "thread_id (newThread p)"]
    by (auto simp: onThreadCreated_def Let_def model_ok_def simp del: map_map)
qed

lemma ok_lifecycle_events:
  assumes "model_ok H m"
  shows "model_ok H (onThreadDeleted i u m)" and "model_ok H (onThreadArchived i a u m)"
    and "model_ok H (onThreadUnarchived i u m)" and "model_ok H (onThreadSettled i a u m)"
    and "model_ok H (onThreadUnsettled i r u m)" and "model_ok H (onThreadSnoozed i a b u m)"
    and "model_ok H (onThreadUnsnoozed i u m)" and "model_ok H (onThreadPinned i a k u m)"
    and "model_ok H (onThreadUnpinned i u m)" and "model_ok H (onThreadPinReordered i s u m)"
    and "model_ok H (onThreadRuntimeModeSet i s u m)" and "model_ok H (onThreadInteractionModeSet i s u m)"
  unfolding onThreadDeleted_def onThreadArchived_def onThreadUnarchived_def onThreadSettled_def
    onThreadUnsettled_def onThreadSnoozed_def onThreadUnsnoozed_def onThreadPinned_def
    onThreadUnpinned_def onThreadPinReordered_def onThreadRuntimeModeSet_def
    onThreadInteractionModeSet_def Let_def
  by (rule model_ok_patchThread [OF assms]; simp add: thread_ok_defs)+

lemma ok_link_events:
  assumes "model_ok H m"
  shows "model_ok H (onThreadPullRequestLinked H i l u m)"
    and "model_ok H (onThreadPullRequestUnlinked H i k u m)"
    and "model_ok H (onThreadPullRequestSynced H i k s st u m)"
proof -
  have links: "links_ok H (thread_pullRequests t)" if "thread_ok H t" for t
    using that by (simp add: thread_ok_def)
  have patch: "model_ok H (patchThread i (\<lambda>t. (pullRequestsPatch H t' ls m t)\<lparr>thread_updatedAt := u\<rparr>) m)"
    if "links_ok H ls" for ls t'
    by (rule model_ok_patchThread [OF assms])
      (simp add: pullRequestsPatch_def, rule thread_ok_links [OF _ that])
  show "model_ok H (onThreadPullRequestLinked H i l u m)"
    unfolding onThreadPullRequestLinked_def
    by (rule model_ok_withThread [OF assms]) (blast intro: patch links_ok_upsert links)
  show "model_ok H (onThreadPullRequestUnlinked H i k u m)"
    unfolding onThreadPullRequestUnlinked_def removePullRequestLink_def
    by (rule model_ok_withThread [OF assms]) (blast intro: patch links_ok_filter links)
  show "model_ok H (onThreadPullRequestSynced H i k s st u m)"
    unfolding onThreadPullRequestSynced_def Let_def
    by (rule model_ok_withThread [OF assms], split if_split, intro conjI impI assms patch)
      (rule links_ok_synced, erule links)
qed

lemma ok_metaUpdated:
  assumes "model_ok H m" shows "model_ok H (onThreadMetaUpdated H i p u m)"
  unfolding onThreadMetaUpdated_def Let_def
proof (rule model_ok_patchThread [OF assms], goal_cases)
  case (1 t)
  then show ?case by (auto simp: pullRequestsPatch_def split: option.splits)
next
  case (2 t)
  then show ?case
    by (auto simp: thread_ok_defs pullRequestsPatch_def links_ok_legacy split: option.splits)
qed

lemma ok_content_events:
  assumes "model_ok H m"
  shows "model_ok H (onThreadMessageSent i x u m)" and "model_ok H (onThreadSessionSet i s u m)"
    and "model_ok H (onThreadProposedPlanUpserted H i q u m)"
    and "model_ok H (onThreadTurnDiffCompleted i c u m)"
    and "model_ok H (onThreadReverted H i n u m)"
    and "model_ok H (onThreadActivityAppended H i a u m)"
proof -
  note with_patch = model_ok_withThread [OF assms] model_ok_patchThread [OF assms]
  show "model_ok H (onThreadMessageSent i x u m)"
    unfolding onThreadMessageSent_def Let_def
    by (intro with_patch; simp add: thread_ok_defs distinct_map_takeLast distinct_messages del: map_map)
  show "model_ok H (onThreadSessionSet i s u m)"
    unfolding onThreadSessionSet_def
    by (intro with_patch; simp add: thread_ok_defs)
  show "model_ok H (onThreadProposedPlanUpserted H i q u m)"
    unfolding onThreadProposedPlanUpserted_def Let_def
    by (intro with_patch; simp add: thread_ok_defs distinct_map_takeLast distinct_replaced del: map_append)
  show "model_ok H (onThreadTurnDiffCompleted i c u m)"
    unfolding onThreadTurnDiffCompleted_def Let_def
  proof (rule with_patch(1), goal_cases)
    case (1 t)
    then have "distinct (map cp_turnId (thread_checkpoints t))"
      by (simp add: thread_ok_defs checkpoints_ok_def)
    note cps = checkpoints_ok_capped [OF distinct_replaced [OF this, of c]]
    show ?case
      by (split if_split, intro conjI impI assms with_patch(2)) (use cps in \<open>simp_all add: thread_ok_defs\<close>)
  qed
  show "model_ok H (onThreadReverted H i n u m)"
    unfolding onThreadReverted_def Let_def
    by (intro with_patch; simp add: thread_ok_defs distinct_map_takeLast checkpoints_ok_capped
        retainThreadMessagesAfterRevert_def Let_def retainThreadProposedPlansAfterRevert_def
        retainThreadActivitiesAfterRevert_def distinct_map_filter checkpoints_ok_def
        checkpoints.takeLast_sorted checkpoints.sorted)
  show "model_ok H (onThreadActivityAppended H i a u m)"
    unfolding onThreadActivityAppended_def Let_def
    by (intro with_patch; simp add: thread_ok_defs retainThreadActivities_distinct distinct_replaced
        del: map_append)
qed

lemma model_ok_projectEvent:
  assumes "model_ok H m"
  shows "model_ok H (projectEvent H m e)"
proof -
  let ?m = "m\<lparr>snapshotSequence := ev_sequence e, model_updatedAt := ev_occurredAt (ev_planned e)\<rparr>"
  have "model_ok H ?m" using assms by simp
  note ok = ok_project_events [OF this] ok_threadCreated [OF this] ok_lifecycle_events [OF this]
    ok_link_events [OF this] ok_metaUpdated [OF this] ok_content_events [OF this] this
  show ?thesis
    unfolding projectEvent_def projectBody_def
    by (cases "ev_body (ev_planned e)") (simp_all only: event_body.case ok)
qed

text \<open>
  C6: Whatever event reaches the projector, in whatever order, the read model stays well formed:
  project and thread ids are unique; a thread has at most 2,000 messages, 500 checkpoints and 200
  plans, each with its own id, the checkpoints in turn order; no pull request is linked twice;
  a settled time goes with the settled mark and a wake time with a snooze time.
\<close>

theorem projectEvent_wellformed:
  assumes "model_ok H m"
  shows "model_ok H (projectEvent H m e)"
  using assms by (rule model_ok_projectEvent)

definition ex_host :: host where
  "ex_host = \<lparr>parseUrl = (\<lambda>_. None), parseDate = (\<lambda>s. Some (int (length s))),
     utcMonthDay = (\<lambda>_. None), localeCompare = (\<lambda>s t. int (length s) - int (length t)),
     graphemes = length\<rparr>"

lemma empty_ok: "model_ok H (createEmptyReadModel u)"
  by (simp add: model_ok_def createEmptyReadModel_def)

definition ex_event :: "ident \<Rightarrow> event_body \<Rightarrow> orchestration_event" where
  "ex_event i b = \<lparr>ev_sequence = 1, ev_planned = \<lparr>ev_eventId = ''e'', ev_aggregateKind = ThreadAggregate,
     ev_aggregateId = i, ev_occurredAt = ''now'', ev_commandId = ''c'', ev_causationEventId = None,
     ev_correlationId = ''c'', ev_metadata = no_metadata, ev_body = b\<rparr>\<rparr>"

definition ex_created :: orchestration_event where
  "ex_created = ex_event ''b'' (ThreadCreated \<lparr>tc_threadId = ''b'', tc_projectId = ''p'', tc_title = ''T'',
     tc_modelSelection = JNull, tc_runtimeMode = ''full-access'', tc_interactionMode = ''default'',
     tc_branch = None, tc_worktreePath = None, tc_createdAt = ''now'', tc_updatedAt = ''now''\<rparr>)"

theorem projectEvent_wellformed_witness:
  "model_ok ex_host (projectEvent ex_host (createEmptyReadModel ''t'') ex_created)"
  by (rule projectEvent_wellformed [OF empty_ok])

end
