(* ===== verification/OrchSoundness.thy ===== *)
theory OrchSoundness
  imports OrchDecider OrchReadModel
begin

text \<open>
  What every decision guarantees. \<open>dwp d Q\<close>: the decision ends, and if it is not a rejection
  its result satisfies \<open>Q\<close>. The rules below reduce it along the code of a decider.
\<close>

section \<open>Guarantees of deciders\<close>

definition dwp :: "'a decider \<Rightarrow> ('a \<Rightarrow> bool) \<Rightarrow> bool" where
  "dwp d Q \<longleftrightarrow> (\<forall>s. case d s of Inl e \<Rightarrow> e \<noteq> OutOfFuel | Inr (x, s') \<Rightarrow> Q x)"

named_theorems dwp_intros \<open>introduction rules for the guarantees of deciders\<close>

lemma dwp_result: "dwp d Q \<Longrightarrow> d s = Inr (x, s') \<Longrightarrow> Q x"
  by (force simp: dwp_def dest: spec [of _ s])

lemma dwp_ends: "dwp d Q \<Longrightarrow> d s \<noteq> Inl OutOfFuel"
  by (force simp: dwp_def dest: spec [of _ s])

lemma dwp_mono: "dwp d Q \<Longrightarrow> (\<And>x. Q x \<Longrightarrow> R x) \<Longrightarrow> dwp d R"
  by (force simp: dwp_def split: sum.splits prod.splits)

lemma dwp_return [dwp_intros]: "Q x \<Longrightarrow> dwp (d_return x) Q"
  by (simp add: dwp_def d_return_def)

lemma dwp_fail [dwp_intros]: "dwp (d_fail r) Q"
  by (simp add: dwp_def d_fail_def)

lemma dwp_reject [dwp_intros]: "dwp (reject cmd detail) Q"
  by (simp add: reject_def dwp_fail)

lemma dwp_bind [dwp_intros]:
  assumes "dwp d (\<lambda>x. dwp (f x) Q)" shows "dwp (d_bind d f) Q"
  unfolding dwp_def d_bind_def
proof
  fix s
  show "case (case d s of Inl e \<Rightarrow> Inl e | Inr (x, s') \<Rightarrow> f x s') of
      Inl e \<Rightarrow> e \<noteq> OutOfFuel | Inr (x, s') \<Rightarrow> Q x"
    using assms by (cases "d s") (force simp: dwp_def dest: spec [of _ s])+
qed

lemma dwp_nowIso [dwp_intros]: "(\<And>x. Q x) \<Longrightarrow> dwp nowIso Q"
  by (simp add: dwp_def nowIso_def)

lemma dwp_if [dwp_intros]: "(b \<Longrightarrow> dwp d Q) \<Longrightarrow> (\<not> b \<Longrightarrow> dwp e Q) \<Longrightarrow> dwp (if b then d else e) Q"
  by simp

lemma dwp_option [dwp_intros]:
  "(x = None \<Longrightarrow> dwp d Q) \<Longrightarrow> (\<And>y. x = Some y \<Longrightarrow> dwp (f y) Q) \<Longrightarrow>
     dwp (case x of None \<Rightarrow> d | Some y \<Rightarrow> f y) Q"
  by (cases x) auto

lemma dwp_list [dwp_intros]:
  "(x = [] \<Longrightarrow> dwp d Q) \<Longrightarrow> (\<And>y ys. x = y # ys \<Longrightarrow> dwp (f y ys) Q) \<Longrightarrow>
     dwp (case x of [] \<Rightarrow> d | y # ys \<Rightarrow> f y ys) Q"
  by (cases x) auto

lemma dwp_sum [dwp_intros]:
  "(\<And>y. x = Inl y \<Longrightarrow> dwp (f y) Q) \<Longrightarrow> (\<And>y. x = Inr y \<Longrightarrow> dwp (g y) Q) \<Longrightarrow>
     dwp (case x of Inl y \<Rightarrow> f y | Inr y \<Rightarrow> g y) Q"
  by (cases x) auto

lemma dwp_Let [dwp_intros]: "(\<And>y. y = x \<Longrightarrow> dwp (f y) Q) \<Longrightarrow> dwp (let y = x in f y) Q"
  by simp

lemma dwp_withEventBase [dwp_intros]:
  "(\<And>e. ev_body e = body \<Longrightarrow> ev_aggregateId e = i \<Longrightarrow> ev_aggregateKind e = kind \<Longrightarrow>
      ev_occurredAt e = occurredAt \<Longrightarrow> ev_commandId e = cid \<Longrightarrow> Q e) \<Longrightarrow>
     dwp (withEventBase kind i occurredAt cid metadata body) Q"
  unfolding withEventBase_def
  by (rule dwp_bind) (simp add: dwp_def randomUUID_def d_return_def)

lemma dwp_threadEvent [dwp_intros]:
  "(\<And>e. ev_body e = body \<Longrightarrow> ev_aggregateId e = i \<Longrightarrow> ev_aggregateKind e = ThreadAggregate \<Longrightarrow>
      ev_occurredAt e = occurredAt \<Longrightarrow> ev_commandId e = cid \<Longrightarrow> Q e) \<Longrightarrow>
     dwp (threadEvent cid i occurredAt body) Q"
  unfolding threadEvent_def by (rule dwp_withEventBase)

lemma dwp_importedEvent [dwp_intros]:
  "(\<And>e. ev_body e = body \<Longrightarrow> ev_aggregateId e = i \<Longrightarrow> ev_aggregateKind e = ThreadAggregate \<Longrightarrow>
      ev_occurredAt e = occurredAt \<Longrightarrow> ev_commandId e = cid \<Longrightarrow> Q e) \<Longrightarrow>
     dwp (importedEvent cid i occurredAt body) Q"
  unfolding importedEvent_def by (rule dwp_withEventBase)

lemma dwp_projectEventBase [dwp_intros]:
  "(\<And>e. ev_body e = body \<Longrightarrow> ev_aggregateId e = i \<Longrightarrow> ev_aggregateKind e = ProjectAggregate \<Longrightarrow>
      ev_occurredAt e = occurredAt \<Longrightarrow> ev_commandId e = cid \<Longrightarrow> Q e) \<Longrightarrow>
     dwp (projectEventBase cid i occurredAt body) Q"
  unfolding projectEventBase_def by (rule dwp_withEventBase)

lemma dwp_single [dwp_intros]: "dwp d (\<lambda>e. Q [e]) \<Longrightarrow> dwp (single d) Q"
  unfolding single_def by (rule dwp_bind, erule dwp_mono) (rule dwp_return)

text \<open>Events made from the elements of a list, each with the property of its element.\<close>

lemma dwp_d_map:
  assumes "\<And>x. x \<in> set xs \<Longrightarrow> dwp (f x) (\<lambda>y. P x y)" and "\<And>ys. list_all2 P xs ys \<Longrightarrow> Q ys"
  shows "dwp (d_map f xs) Q"
  using assms
proof (induction xs arbitrary: Q)
  case Nil
  then show ?case by (simp add: dwp_return)
next
  case (Cons x xs)
  show ?case
    unfolding d_map.simps
  proof (rule dwp_bind, rule dwp_mono [OF Cons.prems(1)])
    fix y assume y: "P x y"
    show "dwp (d_bind (d_map f xs) (\<lambda>ys. d_return (y # ys))) Q"
      by (rule dwp_bind, rule Cons.IH) (use Cons.prems y in \<open>auto intro: dwp_return\<close>)
  qed simp
qed

lemma dwp_requireThread [dwp_intros]:
  "(\<And>t. findThread m i = Some t \<Longrightarrow> Q t) \<Longrightarrow> dwp (requireThread m cmd i) Q"
  unfolding requireThread_def by (intro dwp_intros)

lemma dwp_requireThreadNotArchived [dwp_intros]:
  "(\<And>t. findThread m i = Some t \<Longrightarrow> thread_archivedAt t = None \<Longrightarrow> Q t) \<Longrightarrow>
     dwp (requireThreadNotArchived m cmd i) Q"
  unfolding requireThreadNotArchived_def by (intro dwp_intros)

lemma dwp_requireThreadArchived [dwp_intros]:
  "(\<And>t. findThread m i = Some t \<Longrightarrow> thread_archivedAt t \<noteq> None \<Longrightarrow> Q t) \<Longrightarrow>
     dwp (requireThreadArchived m cmd i) Q"
  unfolding requireThreadArchived_def by (intro dwp_intros)

lemma dwp_requireThreadAbsent [dwp_intros]:
  "(\<forall>t. findThread m i = Some t \<longrightarrow> thread_deletedAt t \<noteq> None \<Longrightarrow> Q ()) \<Longrightarrow>
     dwp (requireThreadAbsent m cmd i) Q"
  unfolding requireThreadAbsent_def by (intro dwp_intros) auto

lemma dwp_requireProject [dwp_intros]:
  "(\<And>p. findProject m i = Some p \<Longrightarrow> Q p) \<Longrightarrow> dwp (requireProject m cmd i) Q"
  unfolding requireProject_def by (intro dwp_intros)

lemma dwp_requireProjectAbsent [dwp_intros]:
  "(findProject m i = None \<Longrightarrow> Q ()) \<Longrightarrow> dwp (requireProjectAbsent m cmd i) Q"
  unfolding requireProjectAbsent_def by (intro dwp_intros)

text \<open>No other active project has this workspace root.\<close>

definition root_free :: "read_model \<Rightarrow> string \<Rightarrow> ident \<Rightarrow> bool" where
  "root_free m workspaceRoot i \<longleftrightarrow> (\<forall>p \<in> set (model_projects m).
     project_deletedAt p = None \<longrightarrow> project_id p \<noteq> i \<longrightarrow>
     normalizeProjectPathForComparison (project_workspaceRoot p)
       \<noteq> normalizeProjectPathForComparison workspaceRoot)"

lemma dwp_requireRootAbsent [dwp_intros]:
  assumes free: "root_free m r i \<Longrightarrow> Q ()"
  shows "dwp (requireActiveProjectWorkspaceRootAbsent m cmd r i) Q"
  unfolding requireActiveProjectWorkspaceRootAbsent_def
  by (intro dwp_intros free) (auto simp: root_free_def find_None_iff)

lemma dwp_rejectImported [dwp_intros]:
  "(\<not> isImportedAgentSessionMessageId i \<Longrightarrow> Q ()) \<Longrightarrow> dwp (rejectImported cmd i) Q"
  unfolding rejectImported_def by (intro dwp_intros)

lemma dwp_requireSourcePlan [dwp_intros]: "Q () \<Longrightarrow> dwp (requireSourcePlan m cmd target source) Q"
  unfolding requireSourcePlan_def by (intro dwp_intros)

section \<open>Admissible events\<close>

text \<open>The thread that an event changes.\<close>

fun event_thread :: "event_body \<Rightarrow> ident option" where
  "event_thread (ProjectCreated _) = None"
| "event_thread (ProjectMetaUpdated _ _ _) = None"
| "event_thread (ProjectDeleted _ _) = None"
| "event_thread (ThreadCreated p) = Some (tc_threadId p)"
| "event_thread (ThreadDeleted i _) = Some i"
| "event_thread (ThreadArchived i _ _) = Some i"
| "event_thread (ThreadUnarchived i _) = Some i"
| "event_thread (ThreadSettled i _ _) = Some i"
| "event_thread (ThreadUnsettled i _ _) = Some i"
| "event_thread (ThreadSnoozed i _ _ _) = Some i"
| "event_thread (ThreadUnsnoozed i _ _) = Some i"
| "event_thread (ThreadPinned i _ _ _) = Some i"
| "event_thread (ThreadUnpinned i _) = Some i"
| "event_thread (ThreadPinReordered i _ _) = Some i"
| "event_thread (ThreadMetaUpdated i _ _) = Some i"
| "event_thread (ThreadPullRequestLinked i _ _) = Some i"
| "event_thread (ThreadPullRequestUnlinked i _ _) = Some i"
| "event_thread (ThreadPullRequestSynced i _ _ _ _) = Some i"
| "event_thread (ThreadRuntimeModeSet i _ _) = Some i"
| "event_thread (ThreadInteractionModeSet i _ _) = Some i"
| "event_thread (ThreadMessageSent i _) = Some i"
| "event_thread (ThreadTurnStartRequested p) = Some (ts_threadId p)"
| "event_thread (ThreadTurnInterruptRequested i _ _) = Some i"
| "event_thread (ThreadApprovalResponseRequested i _ _ _) = Some i"
| "event_thread (ThreadUserInputResponseRequested i _ _ _ _) = Some i"
| "event_thread (ThreadCheckpointRevertRequested i _ _ _) = Some i"
| "event_thread (ThreadReverted i _) = Some i"
| "event_thread (ThreadSessionStopRequested i _) = Some i"
| "event_thread (ThreadSessionSet i _) = Some i"
| "event_thread (ThreadProposedPlanUpserted i _) = Some i"
| "event_thread (ThreadTurnDiffCompleted i _) = Some i"
| "event_thread (ThreadActivityAppended i _) = Some i"

text \<open>What an event that only needs its thread to exist looks like.\<close>

definition simple_event :: "ident \<Rightarrow> event_body \<Rightarrow> bool" where
  "simple_event i body \<longleftrightarrow> event_thread body = Some i \<and> (case body of
     ThreadCreated _ \<Rightarrow> False
   | ThreadPinReordered _ _ _ \<Rightarrow> False
   | ThreadMetaUpdated _ p _ \<Rightarrow> tm_activeOrderKey p = None
   | _ \<Rightarrow> True)"

text \<open>
  The contract of the log: an event is about something that is there; projects and threads are
  created once, in a project and on a root that is free; only a pinned thread is moved among
  the pinned ones and only a thread that is not settled among the active ones.
\<close>

definition admissible :: "read_model \<Rightarrow> event_body \<Rightarrow> bool" where
  "admissible m body \<longleftrightarrow> (case body of
     ProjectCreated p \<Rightarrow> findProject m (pc_projectId p) = None \<and>
       root_free m (pc_workspaceRoot p) (pc_projectId p)
   | ProjectMetaUpdated i p _ \<Rightarrow> findProject m i \<noteq> None \<and>
       (\<forall>r. pm_workspaceRoot p = Some r \<longrightarrow> root_free m r i)
   | ProjectDeleted i _ \<Rightarrow> findProject m i \<noteq> None
   | ThreadCreated p \<Rightarrow> findProject m (tc_projectId p) \<noteq> None \<and>
       (\<forall>t. findThread m (tc_threadId p) = Some t \<longrightarrow> thread_deletedAt t \<noteq> None)
   | ThreadPinReordered i _ _ \<Rightarrow> (\<exists>t. findThread m i = Some t \<and> thread_pinnedAt t \<noteq> None)
   | ThreadMetaUpdated i p _ \<Rightarrow> (\<exists>t. findThread m i = Some t \<and>
       (tm_activeOrderKey p \<noteq> None \<longrightarrow> thread_settledOverride t \<noteq> Some OverrideSettled))
   | _ \<Rightarrow> findThread m (the (event_thread body)) \<noteq> None)"

fun admissible_run :: "host \<Rightarrow> read_model \<Rightarrow> nat \<Rightarrow> planned_event list \<Rightarrow> bool" where
  "admissible_run H m n [] \<longleftrightarrow> True"
| "admissible_run H m n (e # es) \<longleftrightarrow> admissible m (ev_body e) \<and>
     admissible_run H (projectEvent H m \<lparr>ev_sequence = Suc n, ev_planned = e\<rparr>) (Suc n) es"

lemma projectPlanned_append:
  "projectPlanned H m n (es @ fs) = projectPlanned H (projectPlanned H m n es) (n + length es) fs"
  by (induction es arbitrary: m n) auto

lemma admissible_run_append:
  "admissible_run H m n (es @ fs) \<longleftrightarrow> admissible_run H m n es \<and>
     admissible_run H (projectPlanned H m n es) (n + length es) fs"
  by (induction es arbitrary: m n) auto

lemma simple_admissible: "simple_event i body \<Longrightarrow> findThread m i \<noteq> None \<Longrightarrow> admissible m body"
  by (cases body) (auto simp: simple_event_def admissible_def)

section \<open>What the projector never loses\<close>

lemma find_append:
  "List.find P (xs @ ys) = (case List.find P xs of None \<Rightarrow> List.find P ys | Some x \<Rightarrow> Some x)"
  by (induction xs) auto

lemma findThread_map:
  "(\<And>t. thread_id (f t) = thread_id t) \<Longrightarrow>
     List.find (\<lambda>t. thread_id t = j) (map f ts) = map_option f (List.find (\<lambda>t. thread_id t = j) ts)"
  by (induction ts) auto

lemma findThread_patchThread:
  assumes "\<And>t. thread_id (f t) = thread_id t"
  shows "findThread (patchThread i f m) j =
     map_option (\<lambda>t. if thread_id t = i then f t else t) (findThread m j)"
  using findThread_map [of "\<lambda>t. if thread_id t = i then f t else t" j "model_threads m"] assms
  by (simp add: findThread_def updateThread_def)

lemma findThread_threadCreated:
  "findThread (onThreadCreated p m) j =
     (if j = tc_threadId p then Some (newThread p) else findThread m j)"
proof -
  have new: "thread_id (newThread p) = tc_threadId p" by (simp add: newThread_def)
  show ?thesis
  proof (cases "findThread m (tc_threadId p)")
    case None
    with new show ?thesis
      by (auto simp: onThreadCreated_def Let_def findThread_def find_append split: option.splits)
  next
    case (Some old)
    let ?f = "\<lambda>e. if thread_id e = tc_threadId p then newThread p else e"
    have ids: "thread_id (?f t) = thread_id t" for t by (simp add: new)
    have "findThread (onThreadCreated p m) j = map_option ?f (findThread m j)"
      using Some new by (simp add: onThreadCreated_def Let_def findThread_def findThread_map [of ?f])
    then show ?thesis using Some findThread_SomeD [of m j] by (cases "findThread m j") auto
  qed
qed

text \<open>The threads of \<open>m'\<close> are those of \<open>m\<close>, only that with id \<open>i\<close> changed.\<close>

definition patches :: "ident \<Rightarrow> read_model \<Rightarrow> read_model \<Rightarrow> bool" where
  "patches i m m' \<longleftrightarrow> (\<exists>f. (\<forall>t. thread_id (f t) = thread_id t) \<and>
     (\<forall>j. findThread m' j = map_option (\<lambda>t. if thread_id t = i then f t else t) (findThread m j)))"

lemma patches_refl [simp]: "patches i m m"
  unfolding patches_def by (intro exI [of _ id]) (simp add: option.map_ident_strong)

lemma patches_patchThread:
  "(\<And>t. thread_id (f t) = thread_id t) \<Longrightarrow> patches i m (patchThread i f m)"
  unfolding patches_def by (intro exI [of _ f]) (simp add: findThread_patchThread)

lemma patches_withThread:
  "(\<And>t. findThread m i = Some t \<Longrightarrow> patches i m (g t)) \<Longrightarrow> patches i m (withThread m i g)"
  by (auto simp: withThread_def split: option.splits)

lemma patches_find:
  "patches i m m' \<Longrightarrow> findThread m j \<noteq> None \<Longrightarrow> findThread m' j \<noteq> None"
  unfolding patches_def by force

lemma patches_other:
  "patches i m m' \<Longrightarrow> j \<noteq> i \<Longrightarrow> findThread m' j = findThread m j"
  unfolding patches_def using findThread_SomeD by (cases "findThread m j") fastforce+

lemma patches_if: "patches i m a \<Longrightarrow> patches i m b \<Longrightarrow> patches i m (if c then a else b)"
  by simp

lemma pullRequestsPatch_id [simp]: "thread_id (pullRequestsPatch H t ls m t') = thread_id t'"
  by (simp add: pullRequestsPatch_def)

lemma projectBody_patches:
  assumes "event_thread body = Some i" and "\<forall>p. body \<noteq> ThreadCreated p"
  shows "patches i m (projectBody H body u m)"
proof -
  note defs = onThreadDeleted_def onThreadArchived_def onThreadUnarchived_def onThreadSettled_def
    onThreadUnsettled_def onThreadSnoozed_def onThreadUnsnoozed_def onThreadPinned_def
    onThreadUnpinned_def onThreadPinReordered_def onThreadMetaUpdated_def
    onThreadPullRequestLinked_def onThreadPullRequestUnlinked_def onThreadPullRequestSynced_def
    onThreadRuntimeModeSet_def onThreadInteractionModeSet_def onThreadMessageSent_def
    onThreadSessionSet_def onThreadProposedPlanUpserted_def onThreadTurnDiffCompleted_def
    onThreadReverted_def onThreadActivityAppended_def
  show ?thesis
    using assms unfolding projectBody_def
    by (cases body; simp only: event_body.case event_thread.simps option.inject event_body.simps)
      (auto simp only: defs Let_def patches_refl intro!: patches_withThread patches_if
        patches_patchThread; simp split: option.splits)+
qed

lemma threads_of_project_events:
  "event_thread body = None \<Longrightarrow> findThread (projectBody H body u m) j = findThread m j"
  by (cases body) (auto simp: projectBody_def findThread_def onProjectCreated_def Let_def
      onProjectMetaUpdated_def onProjectDeleted_def)

lemma findThread_base [simp]:
  "findThread (m\<lparr>snapshotSequence := n, model_updatedAt := u\<rparr>) j = findThread m j"
  by (simp add: findThread_def)

lemma findProject_base [simp]:
  "findProject (m\<lparr>snapshotSequence := n, model_updatedAt := u\<rparr>) j = findProject m j"
  by (simp add: findProject_def)

lemma findThread_kept:
  assumes "findThread m j \<noteq> None" shows "findThread (projectEvent H m e) j \<noteq> None"
proof -
  let ?body = "ev_body (ev_planned e)"
  let ?m = "m\<lparr>snapshotSequence := ev_sequence e, model_updatedAt := ev_occurredAt (ev_planned e)\<rparr>"
  have m: "findThread ?m j \<noteq> None" using assms by simp
  show ?thesis
  proof (cases "event_thread ?body")
    case None
    then show ?thesis using m by (simp add: projectEvent_def threads_of_project_events)
  next
    case (Some i)
    show ?thesis
    proof (cases "\<exists>p. ?body = ThreadCreated p")
      case True
      then show ?thesis
        using m by (auto simp: projectEvent_def projectBody_def findThread_threadCreated)
    next
      case False
      then show ?thesis
        unfolding projectEvent_def using patches_find [OF projectBody_patches [OF Some] m] by blast
    qed
  qed
qed

text \<open>C13: An event changes no thread but the one it is about.\<close>

theorem projectEvent_frame:
  assumes "event_thread (ev_body (ev_planned e)) \<noteq> Some j"
  shows "findThread (projectEvent H m e) j = findThread m j"
proof (cases "event_thread (ev_body (ev_planned e))")
  case None
  then show ?thesis by (simp add: projectEvent_def threads_of_project_events)
next
  case (Some i)
  let ?m = "m\<lparr>snapshotSequence := ev_sequence e, model_updatedAt := ev_occurredAt (ev_planned e)\<rparr>"
  show ?thesis
  proof (cases "\<exists>p. ev_body (ev_planned e) = ThreadCreated p")
    case True
    then show ?thesis
      using assms by (auto simp: projectEvent_def projectBody_def findThread_threadCreated)
  next
    case False
    then have "patches i ?m (projectEvent H m e)"
      unfolding projectEvent_def using projectBody_patches [OF Some] by blast
    then show ?thesis using patches_other [of i ?m] assms Some by auto
  qed
qed

definition ex_deleted :: orchestration_event where
  "ex_deleted = ex_event ''a'' (ThreadDeleted ''a'' ''now'')"

theorem projectEvent_frame_witness:
  "findThread (projectEvent ex_host (projectEvent ex_host (createEmptyReadModel ''now'') ex_created)
     ex_deleted) ''b'' =
   findThread (projectEvent ex_host (createEmptyReadModel ''now'') ex_created) ''b''"
  by (rule projectEvent_frame) (simp add: ex_deleted_def ex_event_def)

section \<open>Decisions are admissible runs\<close>

lemma simple_run:
  "findThread m i \<noteq> None \<Longrightarrow> \<forall>e \<in> set es. simple_event i (ev_body e) \<Longrightarrow> admissible_run H m n es"
  by (induction es arbitrary: m n) (auto simp: findThread_kept intro: simple_admissible simp del: not_None_eq)

lemma single_run [simp]: "admissible_run H m n [e] \<longleftrightarrow> admissible m (ev_body e)"
  by simp

lemma simple_events [simp]:
  "simple_event i (ThreadDeleted i u)" "simple_event i (ThreadArchived i a u)"
  "simple_event i (ThreadUnarchived i u)" "simple_event i (ThreadSettled i a u)"
  "simple_event i (ThreadUnsettled i r u)" "simple_event i (ThreadSnoozed i a b u)"
  "simple_event i (ThreadUnsnoozed i r u)" "simple_event i (ThreadPinned i a k u)"
  "simple_event i (ThreadUnpinned i u)" "simple_event i (ThreadPullRequestLinked i l u)"
  "simple_event i (ThreadPullRequestUnlinked i key u)"
  "simple_event i (ThreadPullRequestSynced i key s st u)"
  "simple_event i (ThreadRuntimeModeSet i x u)" "simple_event i (ThreadInteractionModeSet i x u)"
  "simple_event i (ThreadMessageSent i msg)" "simple_event i (ThreadTurnInterruptRequested i t u)"
  "simple_event i (ThreadApprovalResponseRequested i q d u)"
  "simple_event i (ThreadUserInputResponseRequested i q as ats u)"
  "simple_event i (ThreadCheckpointRevertRequested i cnt rf u)" "simple_event i (ThreadReverted i cnt)"
  "simple_event i (ThreadSessionStopRequested i u)" "simple_event i (ThreadSessionSet i session)"
  "simple_event i (ThreadProposedPlanUpserted i plan)"
  "simple_event i (ThreadTurnDiffCompleted i cp)" "simple_event i (ThreadActivityAppended i act)"
  "ts_threadId p = i \<Longrightarrow> simple_event i (ThreadTurnStartRequested p)"
  "tm_activeOrderKey patch = None \<Longrightarrow> simple_event i (ThreadMetaUpdated i patch u)"
  by (simp_all add: simple_event_def)

lemma no_activeOrderKey [simp]:
  "tm_activeOrderKey no_thread_meta = None" "tm_activeOrderKey (metaPatch cid t c u) = None"
  by (simp_all add: no_thread_meta_def metaPatch_def Let_def)

lemma single_simple:
  "ev_body e = body \<Longrightarrow> findThread m i \<noteq> None \<Longrightarrow> simple_event i body \<Longrightarrow> admissible_run H m n [e]"
  by (simp add: simple_admissible)

lemmas decide_project_defs = decideCreateProject_def decideUpdateProjectMeta_def

lemma run_createProject: "dwp (decideCreateProject m cid c) (admissible_run H m n)"
  unfolding decideCreateProject_def Let_def
  by (intro dwp_intros) (simp add: admissible_def)

lemma run_updateProjectMeta: "dwp (decideUpdateProjectMeta H m cid p c) (admissible_run H m n)"
  unfolding decideUpdateProjectMeta_def Let_def
  by (intro dwp_intros) (auto simp: admissible_def)

lemma run_createThread: "dwp (decideCreateThread m cid c) (admissible_run H m n)"
  unfolding decideCreateThread_def Let_def
  by (intro dwp_intros) (auto simp: admissible_def)

lemma run_deleteProject_plain: "dwp (decideDeleteProject seq m cid p False) (admissible_run H m n)"
  unfolding decideDeleteProject_def Let_def
  by (intro dwp_intros) (auto simp: admissible_def)

lemma run_lifecycle:
  "dwp (decideDeleteThread m cid i) (admissible_run H m n)"
  "dwp (decideArchiveThread m cid i) (admissible_run H m n)"
  "dwp (decideUnarchiveThread m cid i) (admissible_run H m n)"
  "dwp (decideUnsettle m cid i) (admissible_run H m n)"
  "dwp (decideSnooze H m cid i u) (admissible_run H m n)"
  "dwp (decideUnsnooze m cid i) (admissible_run H m n)"
  "dwp (decideUnpin m cid i) (admissible_run H m n)"
  unfolding decideDeleteThread_def decideArchiveThread_def decideUnarchiveThread_def
    decideUnsettle_def decideSnooze_def decideUnsnooze_def decideUnpin_def Let_def
  by (intro dwp_intros; erule single_simple [where i = i]; simp)+

lemma run_reorder:
  "dwp (decideReorderPin m cid i k) (admissible_run H m n)"
  "dwp (decideReorderActive m cid i k) (admissible_run H m n)"
  unfolding decideReorderPin_def decideReorderActive_def Let_def
  by (intro dwp_intros; auto simp: admissible_def)+

lemma list_all2_simple:
  "list_all2 (\<lambda>x e. simple_event i (ev_body e)) xs es \<Longrightarrow> \<forall>e \<in> set es. simple_event i (ev_body e)"
  by (auto simp: list_all2_conv_all_nth in_set_conv_nth)

lemma run_settle: "dwp (decideSettle H m cid i c auto) (admissible_run H m n)"
  unfolding decideSettle_def Let_def
  by (intro dwp_intros dwp_d_map [where P = "\<lambda>_ e. simple_event i (ev_body e)"];
      (rule simple_run [where i = i])?; (drule list_all2_simple)?; auto split: prod.splits intro!: dwp_intros)

lemma run_pin: "dwp (decidePin m cid i k) (admissible_run H m n)"
  unfolding decidePin_def Let_def
  by (intro dwp_intros; rule simple_run [where i = i]; auto)

lemma run_links:
  "dwp (decideLinkPullRequest H m cid i r) (admissible_run H m n)"
  "dwp (decideUnlinkPullRequest H m cid i key) (admissible_run H m n)"
  "dwp (decideSyncPullRequestLink H m cid i key s st) (admissible_run H m n)"
  "dwp (decideSyncPullRequest m cid i c p ex bp lp) (admissible_run H m n)"
  unfolding decideLinkPullRequest_def decideUnlinkPullRequest_def decideSyncPullRequestLink_def
    decideSyncPullRequest_def Let_def
  by (intro dwp_intros; erule single_simple [where i = i]; simp)+

lemma run_titles:
  "dwp (decideTitleGeneration m cid i et ev t nr) (admissible_run H m n)"
  "dwp (decideTitleRefine m cid i ver) (admissible_run H m n)"
  "dwp (decideTitleRegeneration m cid i rid ot) (admissible_run H m n)"
  "dwp (decideRuntimeMode m cid i mode) (admissible_run H m n)"
  "dwp (decideInteractionMode m cid i mode) (admissible_run H m n)"
  unfolding decideTitleGeneration_def decideTitleRefine_def decideTitleRegeneration_def
    decideRuntimeMode_def decideInteractionMode_def Let_def
  by (intro dwp_intros; erule single_simple [where i = i]; simp)+

lemma run_startTurn: "dwp (decideStartTurn m cid i c u) (admissible_run H m n)"
  unfolding decideStartTurn_def lifecycleReset_def Let_def
  by (intro dwp_intros; rule simple_run [where i = i]; auto)

lemma run_turns:
  "dwp (decideAppendUserMessage m cid i um u) (admissible_run H m n)"
  "dwp (decideInterruptTurn m cid i t u) (admissible_run H m n)"
  "dwp (decideRespondApproval m cid i rid d u) (admissible_run H m n)"
  "dwp (decideRevert m cid i c cnt rf u) (admissible_run H m n)"
  "dwp (decideStopSession H m cid i b u) (admissible_run H m n)"
  "dwp (decideAssistantDelta m cid i x delta t u) (admissible_run H m n)"
  "dwp (decideAssistantComplete m cid i x t u) (admissible_run H m n)"
  "dwp (decideUpsertPlan m cid i plan u) (admissible_run H m n)"
  "dwp (decideTurnDiff m cid i cp u) (admissible_run H m n)"
  "dwp (decideRevertComplete m cid i cnt u) (admissible_run H m n)"
  "dwp (decideDismissUserInput m cid i rid u req) (admissible_run H m n)"
  unfolding decideAppendUserMessage_def decideInterruptTurn_def decideRespondApproval_def
    decideRevert_def decideStopSession_def decideAssistantDelta_def decideAssistantComplete_def
    decideAssistantMessage_def decideUpsertPlan_def decideTurnDiff_def decideRevertComplete_def
    decideDismissUserInput_def Let_def
  by (intro dwp_intros; erule single_simple [where i = i]; simp)+

lemma run_setSession: "dwp (decideSetSession m cid i session u) (admissible_run H m n)"
  unfolding decideSetSession_def
  by (intro dwp_intros; rule simple_run [where i = i]; auto)

lemma simple_appendActivity:
  "dwp (decideAppendActivity m cid i activity u)
     (\<lambda>es. findThread m i \<noteq> None \<and> (\<forall>e \<in> set es. simple_event i (ev_body e)))"
  unfolding decideAppendActivity_def
  by (intro dwp_intros; auto)

lemma run_appendActivity: "dwp (decideAppendActivity m cid i activity u) (admissible_run H m n)"
  by (rule dwp_mono [OF simple_appendActivity]) (blast intro: simple_run)

lemma run_importHistory: "dwp (decideImportHistory H m cid i messages) (admissible_run H m n)"
  unfolding decideImportHistory_def Let_def
  by (intro dwp_intros dwp_d_map [where P = "\<lambda>_ e. simple_event i (ev_body e)"];
      (rule simple_run [where i = i])?; (drule list_all2_simple)?; auto)

section \<open>Sequences and fuel\<close>

text \<open>The commands that are decided without deciding others.\<close>

fun plain_command :: "orchestration_command \<Rightarrow> bool" where
  "plain_command (DeleteProject _ _ force) \<longleftrightarrow> \<not> force"
| "plain_command (ThreadCommand _ _ (UpdateThreadMeta c)) \<longleftrightarrow> mu_linkedPullRequest c = None"
| "plain_command (ThreadCommand _ _ (RespondUserInput _ _)) \<longleftrightarrow> False"
| "plain_command _ \<longleftrightarrow> True"

lemma run_plainMeta:
  "mu_linkedPullRequest c = None \<Longrightarrow> dwp (decideThreadMeta seq H m cid i c) (admissible_run H m n)"
  by (simp only: decideThreadMeta_def Let_def option.case)
    (intro dwp_intros; erule single_simple [where i = i]; simp)

lemma run_plain:
  assumes "plain_command cmd"
  shows "dwp (decideFuel (Suc k) H cmd m req) (admissible_run H m n)"
proof (cases cmd)
  case (ThreadCommand cid i c)
  show ?thesis
    using assms unfolding ThreadCommand decideFuel.simps Let_def orchestration_command.case
      decideThreadCommand_def
    by (cases c; simp only: thread_op.case)
      (simp_all only: run_lifecycle run_reorder run_settle run_pin run_links run_titles
        run_startTurn run_turns run_setSession run_appendActivity run_importHistory run_plainMeta
        plain_command.simps)
qed (use assms in \<open>simp_all add: Let_def run_createProject run_updateProjectMeta run_createThread
       run_deleteProject_plain\<close>)

lemma run_sequence:
  assumes "\<And>c m n. c \<in> set cs \<Longrightarrow> dwp (decide c m) (admissible_run H m n)"
  shows "dwp (decideCommandSequence decide H n cs m) (admissible_run H m n)"
  using assms
proof (induction cs arbitrary: m n)
  case Nil
  then show ?case by (simp add: dwp_return)
next
  case (Cons c cs)
  show ?case
    unfolding decideCommandSequence.simps
  proof (rule dwp_bind, rule dwp_mono [OF Cons.prems])
    fix es assume es: "admissible_run H m n es"
    show "dwp (d_bind (decideCommandSequence decide H (n + length es) cs (projectPlanned H m n es))
        (\<lambda>rest. d_return (es @ rest))) (admissible_run H m n)"
      by (rule dwp_bind, rule dwp_mono [OF Cons.IH])
        (use Cons.prems es in \<open>auto intro: dwp_return simp: admissible_run_append\<close>)
  qed simp
qed

text \<open>What a command that starts a sequence needs of the function that decides it.\<close>

definition sequence_runs ::
  "(orchestration_command list \<Rightarrow> read_model \<Rightarrow> planned_event list decider) \<Rightarrow> host \<Rightarrow> read_model \<Rightarrow>
     bool" where
  "sequence_runs seq H m \<longleftrightarrow> (\<forall>cs. list_all plain_command cs \<longrightarrow>
     dwp (seq cs m) (admissible_run H m (snapshotSequence m)))"

lemma sequence_runs_fuel:
  "sequence_runs (\<lambda>cs m'. decideCommandSequence (\<lambda>c m''. decideFuel (Suc k) H c m'' None) H
     (snapshotSequence m') cs m') H m"
  unfolding sequence_runs_def
proof (intro allI impI)
  fix cs assume "list_all plain_command cs"
  then show "dwp (decideCommandSequence (\<lambda>c m''. decideFuel (Suc k) H c m'' None) H
      (snapshotSequence m) cs m) (admissible_run H m (snapshotSequence m))"
    by (intro run_sequence run_plain) (simp add: list_all_iff)
qed

lemma sequence_run: "sequence_runs seq H m \<Longrightarrow> list_all plain_command cs \<Longrightarrow>
    dwp (seq cs m) (admissible_run H m (snapshotSequence m))"
  by (simp add: sequence_runs_def)

lemma plain_commands [simp]:
  "list_all plain_command (map (\<lambda>t. ThreadCommand cid (f t) DeleteThread) ts)"
  "plain_command (metaCommand cid i c)" "plain_command (unlinkCommand cid i l)"
  by (simp_all add: list_all_iff metaCommand_def unlinkCommand_def)

lemma run_deleteProject:
  assumes "sequence_runs seq H m"
  shows "dwp (decideDeleteProject seq m cid p force) (admissible_run H m (snapshotSequence m))"
  unfolding decideDeleteProject_def Let_def
  by (intro dwp_intros sequence_run [OF assms]) (auto simp: admissible_def)

lemma run_threadMeta:
  assumes "sequence_runs seq H m"
  shows "dwp (decideThreadMeta seq H m cid i c) (admissible_run H m (snapshotSequence m))"
  unfolding decideThreadMeta_def Let_def
  by (intro dwp_intros sequence_run [OF assms]; ((erule single_simple [where i = i])?; simp split: option.split))

lemma run_respondUserInput:
  assumes "sequence_runs seq H m"
  shows "dwp (decideRespondUserInput seq m cid i c u req) (admissible_run H m (snapshotSequence m))"
  unfolding decideRespondUserInput_def respondByMessage_def Let_def
  by (intro dwp_intros sequence_run [OF assms] dwp_mono [OF simple_appendActivity];
      ((rule simple_run [where i = i])?; auto))

lemma run_command:
  "dwp (decideFuel (Suc (Suc k)) H cmd m req) (admissible_run H m (snapshotSequence m))"
proof (cases "plain_command cmd")
  case True
  then show ?thesis by (rule run_plain)
next
  case False
  note seq = sequence_runs_fuel [of k H m]
  from False show ?thesis
    by (cases cmd rule: plain_command.cases)
      (simp_all add: Let_def decideThreadCommand_def run_deleteProject [OF seq] run_threadMeta [OF seq]
        run_respondUserInput [OF seq] del: decideCommandSequence.simps decideFuel.simps(2)
        add: decideFuel.simps(2) [of "Suc k"])
qed

lemma delete_plain: "decideDeleteProject seq m cid p False = decideDeleteProject seq' m cid p False"
  by (cases "filter (\<lambda>t. thread_deletedAt t = None) (listThreadsByProjectId m p) = []")
    (simp_all add: decideDeleteProject_def Let_def)

lemma plain_fuel:
  assumes "plain_command cmd"
  shows "decideFuel (Suc n) H cmd m req = decideFuel (Suc k) H cmd m req"
proof (cases cmd rule: plain_command.cases)
  case (1 c p f)
  then show ?thesis
    using assms delete_plain [where m = m and cid = c and p = p] by (simp add: Let_def)
next
  case (2 c i x)
  then show ?thesis using assms by (simp add: decideThreadCommand_def decideThreadMeta_def)
qed (use assms in \<open>simp_all add: decideThreadCommand_def\<close>)

lemma decideCommandSequence_cong:
  "(\<And>c m. c \<in> set cs \<Longrightarrow> decide c m = decide' c m) \<Longrightarrow>
     decideCommandSequence decide H n cs m = decideCommandSequence decide' H n cs m"
  by (induction cs arbitrary: n m) simp_all

lemma sequence_agrees:
  assumes "\<And>cs. list_all plain_command cs \<Longrightarrow> seq cs m = seq' cs m"
  shows "decideDeleteProject seq m cid p force = decideDeleteProject seq' m cid p force"
    and "decideThreadMeta seq H m cid i c = decideThreadMeta seq' H m cid i c"
    and "decideRespondUserInput seq m cid i a u req = decideRespondUserInput seq' m cid i a u req"
proof -
  show "decideDeleteProject seq m cid p force = decideDeleteProject seq' m cid p force"
    by (simp add: decideDeleteProject_def Let_def assms)
  show "decideThreadMeta seq H m cid i c = decideThreadMeta seq' H m cid i c"
  proof -
    have "(case current of Some l \<Rightarrow> seq (metadata @ [unlinkCommand cid i l]) m | None \<Rightarrow> d)
        = (case current of Some l \<Rightarrow> seq' (metadata @ [unlinkCommand cid i l]) m | None \<Rightarrow> d)"
      if "list_all plain_command metadata" for current metadata d
      using that by (simp add: assms split: option.split)
    then show ?thesis
      by (simp add: decideThreadMeta_def Let_def assms split: option.split cong: if_cong option.case_cong)
  qed
  have "respondByMessage seq m cid i a u r = respondByMessage seq' m cid i a u r" for r
    by (simp add: respondByMessage_def Let_def assms cong: if_cong option.case_cong)
  then show "decideRespondUserInput seq m cid i a u req = decideRespondUserInput seq' m cid i a u req"
    by (simp only: decideRespondUserInput_def)
qed

text \<open>
  C5: Deciding a command always ends: two levels of recursion are enough for every command, and
  more fuel never changes the decision. So the mutual recursion of the decider and of its
  command sequences terminates on every command and every read model.
\<close>

theorem decide_fuel:
  "decideFuel (Suc (Suc k)) H cmd m req = decideOrchestrationCommand H cmd m req \<and>
   decideOrchestrationCommand H cmd m req s \<noteq> Inl OutOfFuel"
proof
  have plain: "decideFuel (Suc k) H c m'' None = decideFuel (Suc 0) H c m'' None"
    if "plain_command c" for c m'' and k
    using that by (rule plain_fuel)
  have seq: "decideCommandSequence (\<lambda>c m''. decideFuel (Suc k) H c m'' None) H n cs m' =
      decideCommandSequence (\<lambda>c m''. decideFuel (Suc 0) H c m'' None) H n cs m'"
    if "list_all plain_command cs" for cs n m' k
    using that plain by (intro decideCommandSequence_cong) (simp add: list_all_iff)
  note agree = sequence_agrees [where
      seq = "\<lambda>cs m'. decideCommandSequence (\<lambda>c m''. decideFuel (Suc k) H c m'' None) H (snapshotSequence m') cs m'"
      and seq' = "\<lambda>cs m'. decideCommandSequence (\<lambda>c m''. decideFuel (Suc 0) H c m'' None) H (snapshotSequence m') cs m'",
      OF seq]
  show "decideFuel (Suc (Suc k)) H cmd m req = decideOrchestrationCommand H cmd m req"
    unfolding decideOrchestrationCommand_def numeral_2_eq_2
  proof (cases cmd rule: plain_command.cases)
    case (1 cid p force)
    then show "decideFuel (Suc (Suc k)) H cmd m req = decideFuel (Suc (Suc 0)) H cmd m req"
      using agree(1) by (simp only: decideFuel.simps(2) Let_def orchestration_command.case)
  next
    case (2 cid i c)
    then show "decideFuel (Suc (Suc k)) H cmd m req = decideFuel (Suc (Suc 0)) H cmd m req"
      using agree(2) by (simp only: decideFuel.simps(2) Let_def orchestration_command.case
          decideThreadCommand_def thread_op.case)
  next
    case (3 cid i c u)
    then show "decideFuel (Suc (Suc k)) H cmd m req = decideFuel (Suc (Suc 0)) H cmd m req"
      using agree(3) by (simp only: decideFuel.simps(2) Let_def orchestration_command.case
          decideThreadCommand_def thread_op.case)
  qed (simp_all only: plain_fuel [of _ "Suc k" H m req "Suc 0"] plain_command.simps)
  show "decideOrchestrationCommand H cmd m req s \<noteq> Inl OutOfFuel"
    unfolding decideOrchestrationCommand_def numeral_2_eq_2 by (rule dwp_ends [OF run_command])
qed

lemma decide_run:
  "decideOrchestrationCommand H cmd m req s = Inr (es, s') \<Longrightarrow>
     admissible_run H m (snapshotSequence m) es"
  using dwp_result [OF run_command [of 0 H cmd m req]]
  by (simp add: decideOrchestrationCommand_def numeral_2_eq_2)

text \<open>
  C4: The decider keeps the contract of the log. Whatever a command is decided to, every event it
  plans is admissible in the read model that the events before it lead to: it is about a project
  or thread that exists, creates nothing twice, takes no workspace root that another active
  project has, moves only a pinned thread among the pinned ones and never gives a settled thread
  a place among the active ones.
\<close>

theorem decide_sound:
  assumes "decideOrchestrationCommand H cmd m req s = Inr (es, s')"
  shows "admissible_run H m (snapshotSequence m) es"
  using assms by (rule decide_run)

definition ex_env :: decide_env where
  "ex_env = \<lparr>env_eventIds = sconst ''e'', env_clock = sconst ''now''\<rparr>"

definition ex_project :: orchestration_command where
  "ex_project = CreateProject ''c'' \<lparr>pcc_projectId = ''p'', pcc_title = ''P'', pcc_workspaceRoot = ''/p'',
     pcc_awenWorkspace = None, pcc_createdAt = ''now''\<rparr>"

theorem decide_sound_witness:
  "\<exists>es s'. decideOrchestrationCommand ex_host ex_project (createEmptyReadModel ''now'') None ex_env =
     Inr (es, s') \<and> length es = 1 \<and> admissible_run ex_host (createEmptyReadModel ''now'') 0 es"
proof -
  obtain es s' where run: "decideOrchestrationCommand ex_host ex_project
      (createEmptyReadModel ''now'') None ex_env = Inr (es, s')" and one: "length es = 1"
    by (simp add: decideOrchestrationCommand_def numeral_2_eq_2 ex_project_def decideCreateProject_def
        requireProjectAbsent_def requireActiveProjectWorkspaceRootAbsent_def findProject_def
        createEmptyReadModel_def d_bind_def d_return_def single_def projectEventBase_def
        withEventBase_def randomUUID_def Let_def)
  have "snapshotSequence (createEmptyReadModel ''now'') = 0" by (simp add: createEmptyReadModel_def)
  then show ?thesis using decide_sound [OF run] run one by auto
qed

end
