(* ===== verification/OrchInvariants.thy ===== *)
theory OrchInvariants
  imports OrchSoundness
begin

text \<open>
  What holds of every read model that the orchestration core reaches. An event-sourced system
  decides commands to events and folds the events; the locale says what it promises, and the
  decider and the projector are an instance of it.
\<close>

section \<open>Transition and event-sourced systems\<close>

locale transitions =
  fixes step :: "'s \<Rightarrow> 's \<Rightarrow> bool" and inv :: "'s \<Rightarrow> bool"
  assumes step_inv: "inv s \<Longrightarrow> step s s' \<Longrightarrow> inv s'"
begin

inductive reached :: "'s \<Rightarrow> 's \<Rightarrow> bool" for start where
  reached_start: "reached start start"
| reached_step: "reached start s \<Longrightarrow> step s s' \<Longrightarrow> reached start s'"

lemma reached_inv: "reached start s \<Longrightarrow> inv start \<Longrightarrow> inv s"
  by (induction rule: reached.induct) (blast intro: step_inv)+

lemma reached_trans: "reached s t \<Longrightarrow> reached r s \<Longrightarrow> reached r t"
  by (induction rule: reached.induct) (blast intro: reached_step)+

end

text \<open>Commands are decided to events that are allowed in the state, and the events are applied.\<close>

locale event_sourced =
  fixes decide :: "'c \<Rightarrow> 's \<Rightarrow> 'e list \<Rightarrow> bool"
    and apply_all :: "'s \<Rightarrow> 'e list \<Rightarrow> 's"
    and allowed :: "'s \<Rightarrow> 'e list \<Rightarrow> bool"
    and inv :: "'s \<Rightarrow> bool"
  assumes decide_allowed: "decide c s es \<Longrightarrow> allowed s es"
    and apply_inv: "inv s \<Longrightarrow> allowed s es \<Longrightarrow> inv (apply_all s es)"

sublocale event_sourced \<subseteq> transitions "\<lambda>s s'. \<exists>c es. decide c s es \<and> s' = apply_all s es" inv
  by unfold_locales (blast intro: apply_inv decide_allowed)

section \<open>The invariant of the read model\<close>

definition placed_ok :: "orchestration_thread \<Rightarrow> bool" where
  "placed_ok t \<longleftrightarrow>
     (thread_pinnedAt t = None \<longrightarrow> thread_pinOrderKey t = None) \<and>
     (thread_settledOverride t = Some OverrideSettled \<longrightarrow> thread_activeOrderKey t = None)"

definition roots_unique :: "read_model \<Rightarrow> bool" where
  "roots_unique m \<longleftrightarrow> (\<forall>p \<in> set (model_projects m). project_deletedAt p = None \<longrightarrow>
     root_free m (project_workspaceRoot p) (project_id p))"

definition model_safe :: "host \<Rightarrow> read_model \<Rightarrow> bool" where
  "model_safe H m \<longleftrightarrow> model_ok H m \<and> roots_unique m \<and>
     (\<forall>t \<in> set (model_threads m). placed_ok t \<and> findProject m (thread_projectId t) \<noteq> None)"

lemma threads_patch:
  assumes "distinct (map thread_id (model_threads m))" and "\<forall>t \<in> set (model_threads m). P t"
    and "\<And>t. findThread m i = Some t \<Longrightarrow> P t \<Longrightarrow> P (f t)"
  shows "\<forall>t \<in> set (model_threads (patchThread i f m)). P t"
proof -
  have "P (f t)" if "t \<in> set (model_threads m)" "thread_id t = i" for t
    using assms that findThread_unique [of m t] by auto
  then show ?thesis using assms(2) by (auto simp: set_updateThread)
qed

lemma threads_withThread:
  assumes "\<forall>t \<in> set (model_threads m). P t"
    and "\<And>t. findThread m i = Some t \<Longrightarrow> \<forall>t \<in> set (model_threads (g t)). P t"
  shows "\<forall>t \<in> set (model_threads (withThread m i g)). P t"
  using assms by (auto simp: withThread_def split: option.splits)

lemma projects_withThread:
  "(\<And>t. model_projects (g t) = model_projects m) \<Longrightarrow>
     model_projects (withThread m i g) = model_projects m"
  by (simp add: withThread_def split: option.split)

lemma thread_events_keep_projects:
  "event_thread body \<noteq> None \<Longrightarrow> model_projects (projectBody H body u m) = model_projects m"
  by (cases body) (auto simp: projectBody_def onThreadCreated_def onThreadDeleted_def
      onThreadArchived_def onThreadUnarchived_def onThreadSettled_def onThreadUnsettled_def
      onThreadSnoozed_def onThreadUnsnoozed_def onThreadPinned_def onThreadUnpinned_def
      onThreadPinReordered_def onThreadMetaUpdated_def onThreadPullRequestLinked_def
      onThreadPullRequestUnlinked_def onThreadPullRequestSynced_def onThreadRuntimeModeSet_def
      onThreadInteractionModeSet_def onThreadMessageSent_def onThreadSessionSet_def
      onThreadProposedPlanUpserted_def onThreadTurnDiffCompleted_def onThreadReverted_def
      onThreadActivityAppended_def Let_def intro!: projects_withThread)

lemma roots_unique_projects:
  "model_projects m' = model_projects m \<Longrightarrow> roots_unique m' \<longleftrightarrow> roots_unique m"
  by (simp add: roots_unique_def root_free_def)

lemma findProject_projects:
  "model_projects m' = model_projects m \<Longrightarrow> findProject m' i = findProject m i"
  by (simp add: findProject_def)

text \<open>The fields that decide a thread's place, and its project.\<close>

definition in_place :: "read_model \<Rightarrow> orchestration_thread \<Rightarrow> bool" where
  "in_place m t \<longleftrightarrow> placed_ok t \<and> findProject m (thread_projectId t) \<noteq> None"

lemma in_place_cong:
  "thread_pinnedAt t' = thread_pinnedAt t \<Longrightarrow> thread_pinOrderKey t' = thread_pinOrderKey t \<Longrightarrow>
     thread_settledOverride t' = thread_settledOverride t \<Longrightarrow>
     thread_activeOrderKey t' = thread_activeOrderKey t \<Longrightarrow>
     thread_projectId t' = thread_projectId t \<Longrightarrow> in_place m t' = in_place m t"
  by (simp add: in_place_def placed_ok_def)

lemma in_place_pullRequests [simp]:
  "in_place m ((pullRequestsPatch H t' ls m' t)\<lparr>thread_updatedAt := u\<rparr>) = in_place m t"
  by (rule in_place_cong) (simp_all add: pullRequestsPatch_def)


text \<open>The threads of a model stay in place under each group of events.\<close>

definition all_in_place :: "read_model \<Rightarrow> read_model \<Rightarrow> bool" where
  "all_in_place m0 m \<longleftrightarrow> (\<forall>t \<in> set (model_threads m). in_place m0 t)"

lemma all_in_place_patch:
  assumes "distinct (map thread_id (model_threads m))" and "all_in_place m0 m"
    and "\<And>t. findThread m i = Some t \<Longrightarrow> in_place m0 t \<Longrightarrow> in_place m0 (f t)"
  shows "all_in_place m0 (patchThread i f m)"
  unfolding all_in_place_def
  by (rule threads_patch [OF assms(1) assms(2) [unfolded all_in_place_def] assms(3)])

lemma all_in_place_withThread:
  assumes "all_in_place m0 m" and "\<And>t. findThread m i = Some t \<Longrightarrow> all_in_place m0 (g t)"
  shows "all_in_place m0 (withThread m i g)"
  unfolding all_in_place_def
  by (rule threads_withThread [OF assms [unfolded all_in_place_def]])

lemma in_place_lifecycle:
  assumes "distinct (map thread_id (model_threads m))" and "all_in_place m0 m"
  shows "all_in_place m0 (onThreadDeleted i u m)" and "all_in_place m0 (onThreadArchived i a u m)"
    and "all_in_place m0 (onThreadUnarchived i u m)" and "all_in_place m0 (onThreadSettled i a u m)"
    and "all_in_place m0 (onThreadUnsettled i r u m)" and "all_in_place m0 (onThreadSnoozed i a b u m)"
    and "all_in_place m0 (onThreadUnsnoozed i u m)" and "all_in_place m0 (onThreadPinned i a k u m)"
    and "all_in_place m0 (onThreadUnpinned i u m)"
    and "all_in_place m0 (onThreadRuntimeModeSet i s u m)"
    and "all_in_place m0 (onThreadInteractionModeSet i x u m)"
  unfolding onThreadDeleted_def onThreadArchived_def onThreadUnarchived_def onThreadSettled_def
    onThreadUnsettled_def onThreadSnoozed_def onThreadUnsnoozed_def onThreadPinned_def
    onThreadUnpinned_def onThreadRuntimeModeSet_def onThreadInteractionModeSet_def Let_def
  by (rule all_in_place_patch [OF assms];
      simp add: in_place_def placed_ok_def del: not_None_eq split: option.split)+

lemma in_place_pinReordered:
  assumes "distinct (map thread_id (model_threads m))" and "all_in_place m0 m"
    and "\<exists>t. findThread m i = Some t \<and> thread_pinnedAt t \<noteq> None"
  shows "all_in_place m0 (onThreadPinReordered i k u m)"
  unfolding onThreadPinReordered_def
  by (rule all_in_place_patch [OF assms(1,2)])
    (use assms(3) in \<open>simp add: in_place_def placed_ok_def del: not_None_eq\<close>)

lemma in_place_contents:
  assumes "distinct (map thread_id (model_threads m))" and "all_in_place m0 m"
  shows "all_in_place m0 (onThreadPullRequestLinked H i l u m)"
    and "all_in_place m0 (onThreadPullRequestUnlinked H i k u m)"
    and "all_in_place m0 (onThreadPullRequestSynced H i k s st u m)"
    and "all_in_place m0 (onThreadMessageSent i x u m)" and "all_in_place m0 (onThreadSessionSet i se u m)"
    and "all_in_place m0 (onThreadProposedPlanUpserted H i q u m)"
    and "all_in_place m0 (onThreadTurnDiffCompleted i c u m)"
    and "all_in_place m0 (onThreadReverted H i n u m)"
    and "all_in_place m0 (onThreadActivityAppended H i a u m)"
  unfolding onThreadPullRequestLinked_def onThreadPullRequestUnlinked_def
    onThreadPullRequestSynced_def onThreadMessageSent_def onThreadSessionSet_def
    onThreadProposedPlanUpserted_def onThreadTurnDiffCompleted_def onThreadReverted_def
    onThreadActivityAppended_def Let_def
  by (rule all_in_place_withThread [OF assms(2)],
      (rule all_in_place_patch [OF assms] | split if_split, intro conjI impI assms(2),
       rule all_in_place_patch [OF assms]),
      simp add: in_place_def placed_ok_def pullRequestsPatch_def del: not_None_eq)+

lemma in_place_metaUpdated:
  assumes "distinct (map thread_id (model_threads m))" and "all_in_place m0 m"
    and "\<exists>t. findThread m i = Some t \<and>
       (tm_activeOrderKey p \<noteq> None \<longrightarrow> thread_settledOverride t \<noteq> Some OverrideSettled)"
  shows "all_in_place m0 (onThreadMetaUpdated H i p v m)"
  unfolding onThreadMetaUpdated_def Let_def
  by (rule all_in_place_patch [OF assms(1,2)])
    (use assms(3) in \<open>auto simp: in_place_def placed_ok_def pullRequestsPatch_def patched_def
       split: option.splits\<close>)

lemma in_place_threadCreated:
  assumes "all_in_place m0 m" and "findProject m0 (tc_projectId p) \<noteq> None"
  shows "all_in_place m0 (onThreadCreated p m)"
  using assms by (auto simp: onThreadCreated_def Let_def all_in_place_def in_place_def
      placed_ok_def newThread_def)

lemma thread_events_in_place:
  assumes "admissible m body" and "event_thread body \<noteq> None"
    and "distinct (map thread_id (model_threads m))" and "all_in_place m m"
  shows "all_in_place m (projectBody H body u m)"
  using assms(1,2) in_place_lifecycle [OF assms(3,4)] in_place_contents [OF assms(3,4)]
    in_place_pinReordered [OF assms(3,4)] in_place_metaUpdated [OF assms(3,4)] in_place_threadCreated [OF assms(4)]
    assms(4)
  by (cases body) (simp_all only: projectBody_def event_body.case admissible_def event_thread.simps
      simp_thms)

section \<open>Every admissible event keeps the invariant\<close>

lemma all_in_place_model: "model_safe H m \<Longrightarrow> all_in_place m m"
  by (simp add: model_safe_def all_in_place_def in_place_def)

lemma model_safeI:
  "model_ok H m \<Longrightarrow> roots_unique m \<Longrightarrow> all_in_place m m \<Longrightarrow> model_safe H m"
  by (simp add: model_safe_def all_in_place_def in_place_def)

lemma all_in_place_projects:
  assumes "all_in_place m0 m" and "\<And>i. findProject m0 i \<noteq> None \<Longrightarrow> findProject m' i \<noteq> None"
    and "model_threads m' = model_threads m"
  shows "all_in_place m' m'"
  using assms by (simp add: all_in_place_def in_place_def)

text \<open>Two active projects of a model never share a root.\<close>

definition roots_apart :: "orchestration_project list \<Rightarrow> bool" where
  "roots_apart ps \<longleftrightarrow> (\<forall>p \<in> set ps. \<forall>q \<in> set ps.
     project_deletedAt p = None \<longrightarrow> project_deletedAt q = None \<longrightarrow> project_id p \<noteq> project_id q \<longrightarrow>
     normalizeProjectPathForComparison (project_workspaceRoot p)
       \<noteq> normalizeProjectPathForComparison (project_workspaceRoot q))"

lemma roots_unique_apart: "roots_unique m \<longleftrightarrow> roots_apart (model_projects m)"
  unfolding roots_unique_def roots_apart_def root_free_def by metis

lemma roots_apart_add:
  assumes "roots_apart ps" and "\<forall>p \<in> set ps. project_deletedAt p = None \<longrightarrow>
      project_id p \<noteq> project_id x \<longrightarrow>
      normalizeProjectPathForComparison (project_workspaceRoot p)
        \<noteq> normalizeProjectPathForComparison (project_workspaceRoot x)"
  shows "roots_apart (ps @ [x])"
  using assms unfolding roots_apart_def by (auto simp del: not_None_eq)

lemma roots_apart_update:
  assumes apart: "roots_apart ps" and ids: "\<And>p. project_id (f p) = project_id p"
    and active: "\<And>p. project_deletedAt (f p) = None \<Longrightarrow> project_deletedAt p = None"
    and root: "\<And>p q. p \<in> set ps \<Longrightarrow> q \<in> set ps \<Longrightarrow> project_deletedAt (f p) = None \<Longrightarrow>
      project_deletedAt q = None \<Longrightarrow> project_id p = i \<Longrightarrow> project_id q \<noteq> i \<Longrightarrow>
      normalizeProjectPathForComparison (project_workspaceRoot q)
        \<noteq> normalizeProjectPathForComparison (project_workspaceRoot (f p))"
  shows "roots_apart (updateProject ps i f)"
  unfolding roots_apart_def updateProject_def
proof (intro ballI impI)
  let ?g = "\<lambda>p. if project_id p = i then f p else p"
  fix a b assume "a \<in> set (map ?g ps)" and "b \<in> set (map ?g ps)"
    and act: "project_deletedAt a = None" "project_deletedAt b = None" "project_id a \<noteq> project_id b"
  then obtain p q where p: "p \<in> set ps" "a = ?g p" and q: "q \<in> set ps" "b = ?g q" by auto
  have apart': "normalizeProjectPathForComparison (project_workspaceRoot p)
      \<noteq> normalizeProjectPathForComparison (project_workspaceRoot q)"
    if "project_deletedAt p = None" "project_deletedAt q = None" "project_id p \<noteq> project_id q"
    using apart p(1) q(1) that unfolding roots_apart_def by blast
  show "normalizeProjectPathForComparison (project_workspaceRoot a)
      \<noteq> normalizeProjectPathForComparison (project_workspaceRoot b)"
  proof (cases "project_id p = i"; cases "project_id q = i")
    assume "project_id p = i" "project_id q = i"
    then show ?thesis using act(3) p q ids by simp
  next
    assume "project_id p = i" "project_id q \<noteq> i"
    then show ?thesis using act p q root [of p q] by simp
  next
    assume "project_id p \<noteq> i" "project_id q = i"
    then show ?thesis using act p q root [of q p] by simp
  next
    assume "project_id p \<noteq> i" "project_id q \<noteq> i"
    then show ?thesis using act p q apart' by simp
  qed
qed

lemma findProject_append:
  "findProject (m\<lparr>model_projects := model_projects m @ ps\<rparr>) i =
     (case findProject m i of None \<Rightarrow> List.find (\<lambda>p. project_id p = i) ps | Some p \<Rightarrow> Some p)"
  by (simp add: findProject_def find_append)

lemma findProject_update:
  assumes "\<And>p. project_id (f p) = project_id p"
  shows "findProject (m\<lparr>model_projects := updateProject (model_projects m) j f\<rparr>) i \<noteq> None \<longleftrightarrow>
    findProject m i \<noteq> None"
proof -
  have ids: "set (map project_id (updateProject ps j f)) = set (map project_id ps)" for ps
    using assms by (simp add: ids_updateProject)
  then have "i \<in> project_id ` set (updateProject (model_projects m) j f) \<longleftrightarrow>
      i \<in> project_id ` set (model_projects m)" by (simp only: set_map)
  then show ?thesis using findProject_None_iff [of m i]
      findProject_None_iff [of "m\<lparr>model_projects := updateProject (model_projects m) j f\<rparr>" i] by simp
qed

lemma safe_projectCreated:
  assumes "model_safe H m" and "findProject m (pc_projectId p) = None"
    and "root_free m (pc_workspaceRoot p) (pc_projectId p)"
  shows "model_safe H (onProjectCreated p m)"
proof (rule model_safeI)
  show "model_ok H (onProjectCreated p m)"
    using assms(1) by (simp add: model_safe_def ok_project_events(1))
  show "roots_unique (onProjectCreated p m)"
    using assms unfolding roots_unique_apart onProjectCreated_def Let_def
    by (auto simp: model_safe_def roots_unique_apart root_free_def intro!: roots_apart_add)
  show "all_in_place (onProjectCreated p m) (onProjectCreated p m)"
    by (rule all_in_place_projects [OF all_in_place_model [OF assms(1)]])
      (use assms(2) in \<open>simp_all add: onProjectCreated_def Let_def findProject_append
         split: option.split\<close>)
qed

lemma safe_updateProject:
  assumes "model_safe H m" and ids: "\<And>p. project_id (f p) = project_id p"
    and "roots_apart (updateProject (model_projects m) i f)"
  shows "model_safe H (m\<lparr>model_projects := updateProject (model_projects m) i f\<rparr>)"
proof (rule model_safeI)
  show "model_ok H (m\<lparr>model_projects := updateProject (model_projects m) i f\<rparr>)"
    using assms(1) ids by (simp add: model_safe_def model_ok_projects ids_updateProject)
  show "roots_unique (m\<lparr>model_projects := updateProject (model_projects m) i f\<rparr>)"
    using assms(3) by (simp add: roots_unique_apart)
  show "all_in_place (m\<lparr>model_projects := updateProject (model_projects m) i f\<rparr>)
      (m\<lparr>model_projects := updateProject (model_projects m) i f\<rparr>)"
    by (rule all_in_place_projects [OF all_in_place_model [OF assms(1)]])
      (use findProject_update [of f m i, OF ids] in simp_all)
qed

lemma safe_projectMetaUpdated:
  assumes "model_safe H m" and "\<forall>r. pm_workspaceRoot p = Some r \<longrightarrow> root_free m r i"
  shows "model_safe H (onProjectMetaUpdated i p u m)"
proof -
  have apart: "roots_apart (model_projects m)"
    using assms(1) by (simp add: model_safe_def roots_unique_apart)
  have free: "root_free m r i" if "pm_workspaceRoot p = Some r" for r using assms(2) that by simp
  show ?thesis
    unfolding onProjectMetaUpdated_def
  proof (rule safe_updateProject [OF assms(1)], simp, rule roots_apart_update [OF apart], simp, simp, goal_cases)
    case (1 a b)
    then show ?case
      using apart free by (cases "pm_workspaceRoot p") (auto simp: root_free_def roots_apart_def patched_def)
  qed
qed

lemma safe_projectDeleted:
  assumes "model_safe H m" shows "model_safe H (onProjectDeleted i u m)"
proof -
  have apart: "roots_apart (model_projects m)"
    using assms(1) by (simp add: model_safe_def roots_unique_apart)
  show ?thesis
    unfolding onProjectDeleted_def
    by (rule safe_updateProject [OF assms(1)], simp, rule roots_apart_update [OF apart]) simp_all
qed

lemma safe_threadEvent:
  assumes "model_safe H m" and "admissible m body" and "event_thread body \<noteq> None"
    and "model_ok H (projectBody H body u m)"
  shows "model_safe H (projectBody H body u m)"
proof (rule model_safeI [OF assms(4)])
  note projects = thread_events_keep_projects [OF assms(3), of H u m]
  show "roots_unique (projectBody H body u m)"
    using assms(1) roots_unique_projects [OF projects] by (simp add: model_safe_def)
  have "all_in_place m (projectBody H body u m)"
    using thread_events_in_place [OF assms(2,3) _ all_in_place_model [OF assms(1)]] assms(1)
    by (simp add: model_safe_def model_ok_def)
  then show "all_in_place (projectBody H body u m) (projectBody H body u m)"
    by (simp add: all_in_place_def in_place_def findProject_projects [OF projects])
qed

lemma model_safe_base [simp]:
  "model_safe H (m\<lparr>snapshotSequence := n, model_updatedAt := u\<rparr>) \<longleftrightarrow> model_safe H m"
  by (simp add: model_safe_def roots_unique_def root_free_def)

lemma admissible_base [simp]:
  "admissible (m\<lparr>snapshotSequence := n, model_updatedAt := u\<rparr>) body \<longleftrightarrow> admissible m body"
  by (cases body) (simp_all add: admissible_def root_free_def)

lemma safe_projectEvent:
  assumes "model_safe H m" and "admissible m (ev_body (ev_planned e))"
  shows "model_safe H (projectEvent H m e)"
proof -
  let ?m = "m\<lparr>snapshotSequence := ev_sequence e, model_updatedAt := ev_occurredAt (ev_planned e)\<rparr>"
  let ?b = "ev_body (ev_planned e)" and ?u = "ev_occurredAt (ev_planned e)"
  have safe: "model_safe H ?m" and adm: "admissible ?m ?b" using assms by simp_all
  have ok: "model_ok H (projectBody H ?b ?u ?m)"
    using model_ok_projectEvent [of H m e] assms(1) by (simp add: projectEvent_def model_safe_def)
  show ?thesis
  proof (cases "event_thread ?b")
    case None
    then show ?thesis
      using adm safe_projectCreated [OF safe] safe_projectMetaUpdated [OF safe]
        safe_projectDeleted [OF safe]
      by (cases ?b) (simp_all add: projectEvent_def projectBody_def admissible_def)
  next
    case (Some i)
    then show ?thesis using safe_threadEvent [OF safe adm _ ok] by (simp add: projectEvent_def)
  qed
qed

lemma safe_projectPlanned:
  "model_safe H m \<Longrightarrow> admissible_run H m n es \<Longrightarrow> model_safe H (projectPlanned H m n es)"
  by (induction es arbitrary: m n) (simp_all add: safe_projectEvent)

section \<open>The decider and the projector as an event-sourced system\<close>

text \<open>A command decided with some stored request, identifiers and clock readings.\<close>

definition decides ::
  "host \<Rightarrow> orchestration_command \<Rightarrow> read_model \<Rightarrow> planned_event list \<Rightarrow> bool" where
  "decides H cmd m es \<longleftrightarrow>
     (\<exists>req s s'. decideOrchestrationCommand H cmd m req s = Inr (es, s'))"

definition applyPlanned :: "host \<Rightarrow> read_model \<Rightarrow> planned_event list \<Rightarrow> read_model" where
  "applyPlanned H m es = projectPlanned H m (snapshotSequence m) es"

interpretation orch: event_sourced "decides H" "applyPlanned H"
    "\<lambda>m es. admissible_run H m (snapshotSequence m) es" "model_safe H"
  for H :: host
  by unfold_locales (auto simp: decides_def applyPlanned_def intro: decide_run safe_projectPlanned)

lemma empty_safe: "model_safe H (createEmptyReadModel u)"
  by (simp add: model_safe_def empty_ok roots_unique_def) (simp add: createEmptyReadModel_def)

end
