(* ===== verification/OrchAttribution.thy ===== *)
theory OrchAttribution
  imports OrchSoundness
begin

text \<open>
  Which command and which aggregate the planned events belong to. The engine files the receipt
  of a command under the aggregate of its last event and compares it with the aggregate of the
  command when the same command arrives again.
\<close>

section \<open>The aggregate of a command\<close>

definition commandToAggregateRef :: "orchestration_command \<Rightarrow> aggregate_kind \<times> ident" where
  "commandToAggregateRef cmd = (case cmd of
     CreateProject _ c \<Rightarrow> (ProjectAggregate, pcc_projectId c)
   | UpdateProjectMeta _ p _ \<Rightarrow> (ProjectAggregate, p)
   | DeleteProject _ p _ \<Rightarrow> (ProjectAggregate, p)
   | CreateThread _ c \<Rightarrow> (ThreadAggregate, tcc_threadId c)
   | ThreadCommand _ i _ \<Rightarrow> (ThreadAggregate, i))"

definition aggregateRef :: "planned_event \<Rightarrow> aggregate_kind \<times> ident" where
  "aggregateRef e = (ev_aggregateKind e, ev_aggregateId e)"

text \<open>All events are of the command and about one aggregate.\<close>

definition owned :: "ident \<Rightarrow> aggregate_kind \<times> ident \<Rightarrow> planned_event list \<Rightarrow> bool" where
  "owned cid ref es \<longleftrightarrow> (\<forall>e \<in> set es. ev_commandId e = cid \<and> aggregateRef e = ref)"

text \<open>All events are of the command, and the last one is about the aggregate of the command.\<close>

definition attributed :: "orchestration_command \<Rightarrow> planned_event list \<Rightarrow> bool" where
  "attributed cmd es \<longleftrightarrow> (\<forall>e \<in> set es. ev_commandId e = command_id cmd) \<and>
     (es \<noteq> [] \<longrightarrow> aggregateRef (last es) = commandToAggregateRef cmd)"

lemma owned_simps [simp]:
  "owned cid ref []" "owned cid ref (es @ fs) \<longleftrightarrow> owned cid ref es \<and> owned cid ref fs"
  "owned cid ref (e # es) \<longleftrightarrow> ev_commandId e = cid \<and> aggregateRef e = ref \<and> owned cid ref es"
  by (auto simp: owned_def)

lemma owned_attributed:
  "owned (command_id cmd) (commandToAggregateRef cmd) es \<Longrightarrow> attributed cmd es"
  by (auto simp: owned_def attributed_def)

section \<open>Every decision is attributed\<close>

lemma own_project:
  "dwp (decideCreateProject m cid c) (owned cid (ProjectAggregate, pcc_projectId c))"
  "dwp (decideUpdateProjectMeta H m cid p x) (owned cid (ProjectAggregate, p))"
  "dwp (decideCreateThread m cid y) (owned cid (ThreadAggregate, tcc_threadId y))"
  unfolding decideCreateProject_def decideUpdateProjectMeta_def decideCreateThread_def Let_def
  by (intro dwp_intros; simp add: aggregateRef_def)+

lemma own_deletion:
  "dwp (decideDeleteProject seq m cid p False)
     (\<lambda>es. es \<noteq> [] \<and> owned cid (ProjectAggregate, p) es)"
  unfolding decideDeleteProject_def Let_def
  by (intro dwp_intros) (auto simp: aggregateRef_def)

lemma own_lifecycle:
  "dwp (decideDeleteThread m cid i) (owned cid (ThreadAggregate, i))"
  "dwp (decideArchiveThread m cid i) (owned cid (ThreadAggregate, i))"
  "dwp (decideUnarchiveThread m cid i) (owned cid (ThreadAggregate, i))"
  "dwp (decideUnsettle m cid i) (owned cid (ThreadAggregate, i))"
  "dwp (decideSnooze H m cid i u) (owned cid (ThreadAggregate, i))"
  "dwp (decideUnsnooze m cid i) (owned cid (ThreadAggregate, i))"
  "dwp (decideUnpin m cid i) (owned cid (ThreadAggregate, i))"
  "dwp (decideReorderPin m cid i k) (owned cid (ThreadAggregate, i))"
  "dwp (decideReorderActive m cid i k) (owned cid (ThreadAggregate, i))"
  "dwp (decidePin m cid i ok) (owned cid (ThreadAggregate, i))"
  unfolding decideDeleteThread_def decideArchiveThread_def decideUnarchiveThread_def
    decideUnsettle_def decideSnooze_def decideUnsnooze_def decideUnpin_def decideReorderPin_def
    decideReorderActive_def decidePin_def Let_def
  by (intro dwp_intros; simp add: aggregateRef_def)+

lemma own_ops:
  "dwp (decideLinkPullRequest H m cid i r) (owned cid (ThreadAggregate, i))"
  "dwp (decideUnlinkPullRequest H m cid i key) (owned cid (ThreadAggregate, i))"
  "dwp (decideSyncPullRequestLink H m cid i key s st) (owned cid (ThreadAggregate, i))"
  "dwp (decideSyncPullRequest m cid i c p ex bp lp) (owned cid (ThreadAggregate, i))"
  "dwp (decideTitleGeneration m cid i et ev t nr) (owned cid (ThreadAggregate, i))"
  "dwp (decideTitleRefine m cid i ver) (owned cid (ThreadAggregate, i))"
  "dwp (decideTitleRegeneration m cid i rid ot) (owned cid (ThreadAggregate, i))"
  "dwp (decideRuntimeMode m cid i mode) (owned cid (ThreadAggregate, i))"
  "dwp (decideInteractionMode m cid i mode) (owned cid (ThreadAggregate, i))"
  unfolding decideLinkPullRequest_def decideUnlinkPullRequest_def decideSyncPullRequestLink_def
    decideSyncPullRequest_def decideTitleGeneration_def decideTitleRefine_def
    decideTitleRegeneration_def decideRuntimeMode_def decideInteractionMode_def Let_def
  by (intro dwp_intros; simp add: aggregateRef_def)+

lemma own_turns:
  "dwp (decideStartTurn m cid i ts u) (owned cid (ThreadAggregate, i))"
  "dwp (decideAppendUserMessage m cid i um u) (owned cid (ThreadAggregate, i))"
  "dwp (decideInterruptTurn m cid i t u) (owned cid (ThreadAggregate, i))"
  "dwp (decideRespondApproval m cid i rid d u) (owned cid (ThreadAggregate, i))"
  "dwp (decideRevert m cid i c cnt rf u) (owned cid (ThreadAggregate, i))"
  "dwp (decideStopSession H m cid i b u) (owned cid (ThreadAggregate, i))"
  "dwp (decideSetSession m cid i session u) (owned cid (ThreadAggregate, i))"
  "dwp (decideAssistantDelta m cid i x delta t u) (owned cid (ThreadAggregate, i))"
  "dwp (decideAssistantComplete m cid i x t u) (owned cid (ThreadAggregate, i))"
  "dwp (decideUpsertPlan m cid i plan u) (owned cid (ThreadAggregate, i))"
  "dwp (decideTurnDiff m cid i cp u) (owned cid (ThreadAggregate, i))"
  "dwp (decideRevertComplete m cid i cnt u) (owned cid (ThreadAggregate, i))"
  "dwp (decideDismissUserInput m cid i rid u req) (owned cid (ThreadAggregate, i))"
  "dwp (decideAppendActivity m cid i activity u) (owned cid (ThreadAggregate, i))"
  unfolding decideStartTurn_def lifecycleReset_def decideAppendUserMessage_def
    decideInterruptTurn_def decideRespondApproval_def decideRevert_def decideStopSession_def
    decideSetSession_def decideAssistantDelta_def decideAssistantComplete_def
    decideAssistantMessage_def decideUpsertPlan_def decideTurnDiff_def decideRevertComplete_def
    decideDismissUserInput_def decideAppendActivity_def Let_def
  by (intro dwp_intros; simp add: aggregateRef_def)+

lemma list_all2_owned:
  "list_all2 (\<lambda>x e. owned cid ref [e]) xs es \<Longrightarrow> owned cid ref es"
  by (auto simp: list_all2_conv_all_nth in_set_conv_nth owned_def)

lemma own_lists:
  "dwp (decideSettle H m cid i c auto) (owned cid (ThreadAggregate, i))"
  "dwp (decideImportHistory H m cid i messages) (owned cid (ThreadAggregate, i))"
  unfolding decideSettle_def decideImportHistory_def Let_def
  by (intro dwp_intros dwp_d_map [where P = "\<lambda>_ e. owned cid (ThreadAggregate, i) [e]"];
      (drule list_all2_owned)?; auto simp: aggregateRef_def split: prod.splits intro!: dwp_intros)+

lemma own_plainMeta:
  "mu_linkedPullRequest c = None \<Longrightarrow>
     dwp (decideThreadMeta seq H m cid i c) (owned cid (ThreadAggregate, i))"
  by (simp only: decideThreadMeta_def Let_def option.case)
    (intro dwp_intros; simp add: aggregateRef_def)

lemma own_plain:
  assumes "plain_command cmd"
  shows "dwp (decideFuel (Suc k) H cmd m req) (owned (command_id cmd) (commandToAggregateRef cmd))"
proof (cases cmd)
  case (ThreadCommand cid i c)
  have ref: "commandToAggregateRef (ThreadCommand cid i c) = (ThreadAggregate, i)"
    by (simp add: commandToAggregateRef_def)
  show ?thesis
    using assms unfolding ThreadCommand decideFuel.simps Let_def orchestration_command.case
      decideThreadCommand_def ref command_id.simps
    by (cases c; simp only: thread_op.case)
      (simp_all only: own_lifecycle own_ops own_turns own_lists own_plainMeta plain_command.simps)
qed (use assms dwp_mono [OF own_deletion] in
      \<open>simp_all add: Let_def own_project commandToAggregateRef_def\<close>)

section \<open>Sequences\<close>

lemma own_sequence:
  assumes "\<And>c m. c \<in> set cs \<Longrightarrow> dwp (decide c m) (owned cid ref)"
  shows "dwp (decideCommandSequence decide H n cs m) (owned cid ref)"
  using assms
proof (induction cs arbitrary: m n)
  case Nil
  then show ?case by (simp add: dwp_return)
next
  case (Cons c cs)
  show ?case
    unfolding decideCommandSequence.simps
  proof (rule dwp_bind, rule dwp_mono [OF Cons.prems])
    fix es assume "owned cid ref es"
    then show "dwp (d_bind (decideCommandSequence decide H (n + length es) cs (projectPlanned H m n es))
        (\<lambda>rest. d_return (es @ rest))) (owned cid ref)"
      by (intro dwp_bind dwp_mono [OF Cons.IH]) (use Cons.prems in \<open>auto intro: dwp_return\<close>)
  qed simp
qed

lemma own_deletion_sequence:
  assumes "\<And>c m. c \<in> set cs \<Longrightarrow> dwp (decide c m) (\<lambda>es. \<forall>e \<in> set es. ev_commandId e = cid)"
    and "\<And>m. dwp (decide c m) (\<lambda>es. es \<noteq> [] \<and> owned cid ref es)"
  shows "dwp (decideCommandSequence decide H n (cs @ [c]) m)
    (\<lambda>es. es \<noteq> [] \<and> aggregateRef (last es) = ref \<and> (\<forall>e \<in> set es. ev_commandId e = cid))"
  using assms(1)
proof (induction cs arbitrary: m n)
  case Nil
  show ?case
    unfolding append.simps decideCommandSequence.simps
    by (rule dwp_bind, rule dwp_mono [OF assms(2)], intro dwp_intros)
      (auto simp: owned_def)
next
  case (Cons x cs)
  show ?case
    unfolding append.simps decideCommandSequence.simps
    by (rule dwp_bind, rule dwp_mono [OF Cons.prems], simp, rule dwp_bind, rule dwp_mono [OF Cons.IH])
      (use Cons.prems in \<open>auto intro!: dwp_return\<close>)
qed

text \<open>What the commands that start a sequence need of the function that decides it.\<close>

definition sequence_owns ::
  "(orchestration_command list \<Rightarrow> read_model \<Rightarrow> planned_event list decider) \<Rightarrow> read_model \<Rightarrow> bool"
where
  "sequence_owns seq m \<longleftrightarrow>
     (\<forall>cs cid ref. (\<forall>c \<in> set cs. plain_command c \<and> command_id c = cid \<and> commandToAggregateRef c = ref)
        \<longrightarrow> dwp (seq cs m) (owned cid ref)) \<and>
     (\<forall>cs cid p. (\<forall>c \<in> set cs. plain_command c \<and> command_id c = cid) \<longrightarrow>
        dwp (seq (cs @ [DeleteProject cid p False]) m)
          (\<lambda>es. es \<noteq> [] \<and> aggregateRef (last es) = (ProjectAggregate, p) \<and>
            (\<forall>e \<in> set es. ev_commandId e = cid)))"

lemma sequence_owns_fuel:
  "sequence_owns (\<lambda>cs m'. decideCommandSequence (\<lambda>c m''. decideFuel (Suc k) H c m'' None) H
     (snapshotSequence m') cs m') m"
  unfolding sequence_owns_def
proof (intro conjI allI impI)
  fix cs cid ref
  assume "\<forall>c \<in> set cs. plain_command c \<and> command_id c = cid \<and> commandToAggregateRef c = ref"
  then have "dwp (decideFuel (Suc k) H c m'' None) (owned cid ref)" if "c \<in> set cs" for c m''
    using that own_plain [of c k H m'' None] by auto
  then show "dwp (decideCommandSequence (\<lambda>c m''. decideFuel (Suc k) H c m'' None) H
      (snapshotSequence m) cs m) (owned cid ref)"
    by (rule own_sequence)
next
  fix cs cid p
  assume plain: "\<forall>c \<in> set cs. plain_command c \<and> command_id c = cid"
  have "dwp (decideFuel (Suc k) H c m'' None) (\<lambda>es. \<forall>e \<in> set es. ev_commandId e = cid)"
    if "c \<in> set cs" for c m''
    using plain that by (intro dwp_mono [OF own_plain]) (auto simp: owned_def)
  moreover have "dwp (decideFuel (Suc k) H (DeleteProject cid p False) m'' None)
      (\<lambda>es. es \<noteq> [] \<and> owned cid (ProjectAggregate, p) es)" for m''
    by (simp add: own_deletion)
  ultimately show "dwp (decideCommandSequence (\<lambda>c m''. decideFuel (Suc k) H c m'' None) H
      (snapshotSequence m) (cs @ [DeleteProject cid p False]) m)
      (\<lambda>es. es \<noteq> [] \<and> aggregateRef (last es) = (ProjectAggregate, p) \<and>
        (\<forall>e \<in> set es. ev_commandId e = cid))"
    by (rule own_deletion_sequence)
qed

lemma own_commands [simp]:
  "command_id (metaCommand cid i c) = cid" "command_id (unlinkCommand cid i l) = cid"
  "commandToAggregateRef (metaCommand cid i c) = (ThreadAggregate, i)"
  "commandToAggregateRef (unlinkCommand cid i l) = (ThreadAggregate, i)"
  "commandToAggregateRef (ThreadCommand cid i x) = (ThreadAggregate, i)"
  by (simp_all add: metaCommand_def unlinkCommand_def commandToAggregateRef_def)

lemma attributed_command:
  assumes "sequence_owns seq m"
  shows "dwp (decideDeleteProject seq m cid p force) (attributed (DeleteProject cid p force))"
    and "dwp (decideThreadMeta seq H m cid i c) (owned cid (ThreadAggregate, i))"
    and "dwp (decideRespondUserInput seq m cid i a u req) (owned cid (ThreadAggregate, i))"
proof -
  have owns: "dwp (seq cs m) (owned cid ref)"
    if "\<forall>c \<in> set cs. plain_command c \<and> command_id c = cid \<and> commandToAggregateRef c = ref"
    for cs ref
    using assms that unfolding sequence_owns_def by blast
  have "dwp (seq (map (\<lambda>t. ThreadCommand cid (thread_id t) DeleteThread) ts @
      [DeleteProject cid p False]) m) (\<lambda>es. es \<noteq> [] \<and>
        aggregateRef (last es) = (ProjectAggregate, p) \<and> (\<forall>e \<in> set es. ev_commandId e = cid))" for ts
    by (rule assms [unfolded sequence_owns_def, THEN conjunct2, rule_format]) auto
  note deletes = dwp_mono [OF this]
  show "dwp (decideDeleteProject seq m cid p force) (attributed (DeleteProject cid p force))"
    unfolding decideDeleteProject_def Let_def
    by (intro dwp_intros deletes)
      (auto simp: attributed_def commandToAggregateRef_def aggregateRef_def)
  show "dwp (decideThreadMeta seq H m cid i c) (owned cid (ThreadAggregate, i))"
    unfolding decideThreadMeta_def Let_def
    by (intro dwp_intros owns; auto simp: aggregateRef_def split: option.split)
  show "dwp (decideRespondUserInput seq m cid i a u req) (owned cid (ThreadAggregate, i))"
    unfolding decideRespondUserInput_def respondByMessage_def Let_def
    by (intro dwp_intros owns dwp_mono [OF own_turns(14)]; simp add: aggregateRef_def)
qed

lemma decide_attributed:
  "dwp (decideOrchestrationCommand H cmd m req) (attributed cmd)"
proof (cases "plain_command cmd")
  case True
  then show ?thesis
    unfolding decideOrchestrationCommand_def numeral_2_eq_2
    by (rule dwp_mono [OF own_plain owned_attributed])
next
  case False
  note seq = attributed_command [OF sequence_owns_fuel [of 0 H m]]
  have thread: "dwp d (attributed (ThreadCommand cid i x))"
    if "dwp d (owned cid (ThreadAggregate, i))" for d cid i x
    by (rule dwp_mono [OF that]) (rule owned_attributed, simp)
  from False show ?thesis
    unfolding decideOrchestrationCommand_def numeral_2_eq_2
    by (cases cmd rule: plain_command.cases)
      (simp_all add: Let_def decideThreadCommand_def seq thread
        del: decideCommandSequence.simps decideFuel.simps(2) add: decideFuel.simps(2) [of "Suc 0"])
qed

end
