(* ===== verification/OrchEventStore.thy ===== *)
theory OrchEventStore
  imports OrchProjector
begin

text \<open>
  The event log (\<open>apps/server/src/persistence/Layers/OrchestrationEventStore.ts\<close>): appending,
  the paginated reads and the queries of the engine. The table is the list of its rows in the
  order of their sequence, with the counter of its AUTOINCREMENT key; the SQL statements are the
  list functions they denote. A row stores its event as it was planned: encoding a payload as
  JSON and decoding it again is not modelled.
\<close>

section \<open>Rows\<close>

datatype actor_kind = ClientActor | ServerActor | ProviderActor

record event_row =
  row_event :: orchestration_event
  row_streamVersion :: nat
  row_actorKind :: actor_kind

record event_store =
  st_rows :: "event_row list"
  st_sequence :: nat

definition empty_store :: event_store where
  "empty_store = \<lparr>st_rows = [], st_sequence = 0\<rparr>"

fun event_type :: "event_body \<Rightarrow> string" where
  "event_type (ProjectCreated _) = ''project.created''"
| "event_type (ProjectMetaUpdated _ _ _) = ''project.meta-updated''"
| "event_type (ProjectDeleted _ _) = ''project.deleted''"
| "event_type (ThreadCreated _) = ''thread.created''"
| "event_type (ThreadDeleted _ _) = ''thread.deleted''"
| "event_type (ThreadArchived _ _ _) = ''thread.archived''"
| "event_type (ThreadUnarchived _ _) = ''thread.unarchived''"
| "event_type (ThreadSettled _ _ _) = ''thread.settled''"
| "event_type (ThreadUnsettled _ _ _) = ''thread.unsettled''"
| "event_type (ThreadSnoozed _ _ _ _) = ''thread.snoozed''"
| "event_type (ThreadUnsnoozed _ _ _) = ''thread.unsnoozed''"
| "event_type (ThreadPinned _ _ _ _) = ''thread.pinned''"
| "event_type (ThreadUnpinned _ _) = ''thread.unpinned''"
| "event_type (ThreadPinReordered _ _ _) = ''thread.pin-reordered''"
| "event_type (ThreadMetaUpdated _ _ _) = ''thread.meta-updated''"
| "event_type (ThreadPullRequestLinked _ _ _) = ''thread.pull-request-linked''"
| "event_type (ThreadPullRequestUnlinked _ _ _) = ''thread.pull-request-unlinked''"
| "event_type (ThreadPullRequestSynced _ _ _ _ _) = ''thread.pull-request-synced''"
| "event_type (ThreadRuntimeModeSet _ _ _) = ''thread.runtime-mode-set''"
| "event_type (ThreadInteractionModeSet _ _ _) = ''thread.interaction-mode-set''"
| "event_type (ThreadMessageSent _ _) = ''thread.message-sent''"
| "event_type (ThreadTurnStartRequested _) = ''thread.turn-start-requested''"
| "event_type (ThreadTurnInterruptRequested _ _ _) = ''thread.turn-interrupt-requested''"
| "event_type (ThreadApprovalResponseRequested _ _ _ _) = ''thread.approval-response-requested''"
| "event_type (ThreadUserInputResponseRequested _ _ _ _ _) =
     ''thread.user-input-response-requested''"
| "event_type (ThreadCheckpointRevertRequested _ _ _ _) = ''thread.checkpoint-revert-requested''"
| "event_type (ThreadReverted _ _) = ''thread.reverted''"
| "event_type (ThreadSessionStopRequested _ _) = ''thread.session-stop-requested''"
| "event_type (ThreadSessionSet _ _) = ''thread.session-set''"
| "event_type (ThreadProposedPlanUpserted _ _) = ''thread.proposed-plan-upserted''"
| "event_type (ThreadTurnDiffCompleted _ _) = ''thread.turn-diff-completed''"
| "event_type (ThreadActivityAppended _ _) = ''thread.activity-appended''"

text \<open>
  The events the decider plans always have a command id and none of the provider's metadata
  fields, so that the command id decides.
\<close>

definition inferActorKind :: "planned_event \<Rightarrow> actor_kind" where
  "inferActorKind e =
     (if startsWith (ev_commandId e) ''provider:'' then ProviderActor
      else if startsWith (ev_commandId e) ''server:'' then ServerActor
      else ClientActor)"

section \<open>Appending\<close>

abbreviation rowPlanned :: "event_row \<Rightarrow> planned_event" where
  "rowPlanned r \<equiv> ev_planned (row_event r)"

definition inStream :: "aggregate_kind \<Rightarrow> ident \<Rightarrow> event_row \<Rightarrow> bool" where
  "inStream kind i r \<longleftrightarrow> ev_aggregateKind (rowPlanned r) = kind \<and> ev_aggregateId (rowPlanned r) = i"

text \<open>One more than the greatest version of the stream, 0 for its first event.\<close>

definition nextStreamVersion :: "event_row list \<Rightarrow> aggregate_kind \<Rightarrow> ident \<Rightarrow> nat" where
  "nextStreamVersion rows kind i =
     (case map row_streamVersion (filter (inStream kind i) rows) of
        [] \<Rightarrow> 0
      | v # vs \<Rightarrow> Suc (foldl max v vs))"

text \<open>None when the unique index on the event ids rejects the row.\<close>

definition appendEvent ::
  "event_store \<Rightarrow> planned_event \<Rightarrow> (orchestration_event \<times> event_store) option" where
  "appendEvent store e =
     (if ev_eventId e \<in> set (map (\<lambda>r. ev_eventId (rowPlanned r)) (st_rows store)) then None
      else (let sequence = Suc (st_sequence store);
                saved = \<lparr>ev_sequence = sequence, ev_planned = e\<rparr> in
        Some (saved,
          \<lparr>st_rows = st_rows store @ [\<lparr>row_event = saved,
             row_streamVersion =
               nextStreamVersion (st_rows store) (ev_aggregateKind e) (ev_aggregateId e),
             row_actorKind = inferActorKind e\<rparr>],
           st_sequence = sequence\<rparr>)))"

text \<open>Appending in order, as long as every append succeeds.\<close>

fun appendAll ::
  "('s \<Rightarrow> 'p \<Rightarrow> ('e \<times> 's) option) \<Rightarrow> 's \<Rightarrow> 'p list \<Rightarrow> ('e list \<times> 's) option" where
  "appendAll add s [] = Some ([], s)"
| "appendAll add s (p # ps) = (case add s p of
     None \<Rightarrow> None
   | Some (e, s') \<Rightarrow>
       (case appendAll add s' ps of None \<Rightarrow> None | Some (es, s'') \<Rightarrow> Some (e # es, s'')))"

section \<open>Reading\<close>

definition DEFAULT_READ_FROM_SEQUENCE_LIMIT :: nat where "DEFAULT_READ_FROM_SEQUENCE_LIMIT = 1000"
definition READ_PAGE_SIZE :: nat where "READ_PAGE_SIZE = 500"

definition readEventRowsFromSequence ::
  "event_store \<Rightarrow> nat \<Rightarrow> nat \<Rightarrow> orchestration_event list" where
  "readEventRowsFromSequence store sequenceExclusive limit =
     take limit (filter (\<lambda>e. sequenceExclusive < ev_sequence e) (map row_event (st_rows store)))"

text \<open>\<open>Stream.paginate\<close>: a page, then the rest from the last event of the page.\<close>

function readPages :: "event_store \<Rightarrow> nat \<Rightarrow> nat \<Rightarrow> orchestration_event list" where
  "readPages store cursor remaining =
     (let events = readEventRowsFromSequence store cursor (min remaining READ_PAGE_SIZE) in
      if events = [] \<or> remaining \<le> length events then events
      else events @ readPages store (ev_sequence (last events)) (remaining - length events))"
  by pat_completeness auto
termination by (relation "measure (\<lambda>(_, _, remaining). remaining)") auto

definition readFromSequence :: "event_store \<Rightarrow> nat \<Rightarrow> nat \<Rightarrow> orchestration_event list" where
  "readFromSequence store sequenceExclusive limit =
     (if limit = 0 then [] else readPages store sequenceExclusive limit)"

definition readAggregateEventRows ::
  "event_store \<Rightarrow> aggregate_kind \<Rightarrow> ident \<Rightarrow> nat \<Rightarrow> nat \<Rightarrow> nat \<Rightarrow> orchestration_event list" where
  "readAggregateEventRows store kind i fromSequence toSequence limit =
     take limit (filter (\<lambda>e. fromSequence < ev_sequence e \<and> ev_sequence e \<le> toSequence)
       (map row_event (filter (inStream kind i) (st_rows store))))"

function readAggregatePages ::
  "event_store \<Rightarrow> aggregate_kind \<Rightarrow> ident \<Rightarrow> nat \<Rightarrow> nat \<Rightarrow> nat \<Rightarrow> orchestration_event list" where
  "readAggregatePages store kind i toSequence cursor remaining =
     (let events = readAggregateEventRows store kind i cursor toSequence
            (min remaining READ_PAGE_SIZE) in
      if events = [] \<or> length events < READ_PAGE_SIZE \<or> remaining = length events \<or>
         toSequence \<le> ev_sequence (last events)
      then events
      else events @ readAggregatePages store kind i toSequence (ev_sequence (last events))
        (remaining - length events))"
  by pat_completeness auto
termination
  by (relation "measure (\<lambda>(_, _, _, _, _, remaining). remaining)")
    (auto simp: readAggregateEventRows_def)

definition readAggregateRange ::
  "event_store \<Rightarrow> aggregate_kind \<Rightarrow> ident \<Rightarrow> nat \<Rightarrow> nat \<Rightarrow> nat \<Rightarrow> orchestration_event list" where
  "readAggregateRange store kind i fromSequence toSequence limit =
     (if limit = 0 \<or> toSequence \<le> fromSequence then []
      else readAggregatePages store kind i toSequence fromSequence limit)"

definition hasEventAfter ::
  "event_store \<Rightarrow> aggregate_kind \<Rightarrow> ident \<Rightarrow> nat \<Rightarrow> string option \<Rightarrow> bool" where
  "hasEventAfter store kind i sequenceExclusive type =
     list_ex (\<lambda>r. inStream kind i r \<and> sequenceExclusive < ev_sequence (row_event r) \<and>
        (case type of None \<Rightarrow> True | Some t \<Rightarrow> event_type (ev_body (rowPlanned r)) = t))
       (st_rows store)"

text \<open>The number of events of a range and whether one of them creates the aggregate.\<close>

definition getAggregateReplayStats ::
  "event_store \<Rightarrow> aggregate_kind \<Rightarrow> ident \<Rightarrow> nat \<Rightarrow> nat \<Rightarrow> nat \<Rightarrow> nat \<times> bool" where
  "getAggregateReplayStats store kind i fromSequence toSequence maxEvents =
     (let events = readAggregateEventRows store kind i fromSequence toSequence (Suc maxEvents) in
      (length events,
       list_ex (\<lambda>e. event_type (ev_body (ev_planned e)) \<in> {''thread.created'', ''project.created''})
         events))"

section \<open>The interface of a log\<close>

text \<open>What its clients rely on: reading gives what was appended, in order, up to a limit.\<close>

locale event_log =
  fixes good :: "'s \<Rightarrow> bool"
    and add :: "'s \<Rightarrow> 'p \<Rightarrow> ('e \<times> 's) option"
    and position :: "'s \<Rightarrow> nat"
    and after :: "'s \<Rightarrow> nat \<Rightarrow> 'e list"
    and read :: "'s \<Rightarrow> nat \<Rightarrow> nat \<Rightarrow> 'e list"
  assumes add_good: "good s \<Longrightarrow> add s p = Some (e, s') \<Longrightarrow> good s'"
    and add_position: "good s \<Longrightarrow> add s p = Some (e, s') \<Longrightarrow> position s' = Suc (position s)"
    and add_after: "good s \<Longrightarrow> add s p = Some (e, s') \<Longrightarrow> n \<le> position s \<Longrightarrow>
      after s' n = after s n @ [e]"
    and after_position: "good s \<Longrightarrow> after s (position s) = []"
    and read_after: "good s \<Longrightarrow> read s n k = take k (after s n)"
begin

lemma appendAll_log:
  assumes "good s" and "appendAll add s ps = Some (es, s')"
  shows "good s' \<and> position s' = position s + length ps \<and> length es = length ps \<and>
    (\<forall>n \<le> position s. after s' n = after s n @ es)"
  using assms
proof (induction ps arbitrary: s es)
  case (Cons p ps)
  then obtain e s1 es1 where first: "add s p = Some (e, s1)"
    and rest: "appendAll add s1 ps = Some (es1, s')" and es: "es = e # es1"
    by (auto split: option.splits)
  have "good s1" by (rule add_good [OF Cons.prems(1) first])
  note IH = Cons.IH [OF this rest]
  show ?case
  proof (intro conjI allI impI)
    show "good s'" using IH by simp
    show "position s' = position s + length (p # ps)"
      using IH add_position [OF Cons.prems(1) first] by simp
    show "length es = length (p # ps)" using IH es by simp
    fix n assume "n \<le> position s"
    then show "after s' n = after s n @ es"
      using IH add_after [OF Cons.prems(1) first] add_position [OF Cons.prems(1) first] es by simp
  qed
qed simp

text \<open>What was appended is exactly what a read from before sees, up to the limit.\<close>

lemma read_appended:
  assumes "good s" and "appendAll add s ps = Some (es, s')" and "length ps \<le> k"
  shows "read s' (position s) k = es"
  using appendAll_log [OF assms(1,2)] assms(3) read_after [of s' "position s" k]
    after_position [OF assms(1)] by simp

lemma read_current: "good s \<Longrightarrow> read s (position s) k = []"
  by (simp add: read_after after_position)

end

section \<open>The log keeps its order\<close>

text \<open>
  The sequence numbers increase along the rows, event ids are unique, and the versions of each
  stream are 0, 1, 2 and so on.
\<close>

definition store_ok :: "event_store \<Rightarrow> bool" where
  "store_ok store \<longleftrightarrow>
     sorted_wrt (<) (map (\<lambda>r. ev_sequence (row_event r)) (st_rows store)) \<and>
     (\<forall>r \<in> set (st_rows store). ev_sequence (row_event r) \<le> st_sequence store) \<and>
     distinct (map (\<lambda>r. ev_eventId (rowPlanned r)) (st_rows store)) \<and>
     (\<forall>kind i. map row_streamVersion (filter (inStream kind i) (st_rows store)) =
        [0..<length (filter (inStream kind i) (st_rows store))])"

lemma empty_store_ok: "store_ok empty_store"
  by (simp add: store_ok_def empty_store_def)

lemma foldl_max_upt: "foldl max 0 [1..<Suc n] = n"
proof (induction n)
  case (Suc n)
  have "[1..<Suc (Suc n)] = [1..<Suc n] @ [Suc n]" by simp
  with Suc show ?case by (simp del: upt_Suc)
qed simp

lemma nextStreamVersion_next:
  assumes "map row_streamVersion (filter (inStream kind i) rows) =
    [0..<length (filter (inStream kind i) rows)]"
  shows "nextStreamVersion rows kind i = length (filter (inStream kind i) rows)"
proof (cases "length (filter (inStream kind i) rows)")
  case 0
  then show ?thesis by (simp add: nextStreamVersion_def)
next
  case (Suc n)
  have "[0..<Suc n] = 0 # [1..<Suc n]" by (simp add: upt_rec)
  then show ?thesis using assms Suc foldl_max_upt [of n]
    by (simp add: nextStreamVersion_def del: upt_Suc)
qed

lemma appendEvent_SomeD:
  assumes "appendEvent store e = Some (saved, store')"
  shows "ev_eventId e \<notin> (\<lambda>r. ev_eventId (rowPlanned r)) ` set (st_rows store)"
    and "saved = \<lparr>ev_sequence = Suc (st_sequence store), ev_planned = e\<rparr>"
    and "st_sequence store' = Suc (st_sequence store)"
    and "st_rows store' = st_rows store @ [\<lparr>row_event = saved, row_streamVersion =
      nextStreamVersion (st_rows store) (ev_aggregateKind e) (ev_aggregateId e),
      row_actorKind = inferActorKind e\<rparr>]"
  using assms by (auto simp: appendEvent_def Let_def split: if_splits)

lemma appendEvent_ok:
  assumes "store_ok store" and "appendEvent store e = Some (saved, store')"
  shows "store_ok store'"
proof -
  note D = appendEvent_SomeD [OF assms(2)]
  have "map row_streamVersion (filter (inStream kind i) (st_rows store')) =
      [0..<length (filter (inStream kind i) (st_rows store'))]" for kind i
    using assms(1) nextStreamVersion_next [of kind i "st_rows store"]
    by (auto simp: D store_ok_def inStream_def)
  then show ?thesis
    using assms(1) D(1) by (fastforce simp: D store_ok_def sorted_wrt_append)
qed

section \<open>Paginated reads\<close>

definition eventsAfter :: "event_store \<Rightarrow> nat \<Rightarrow> orchestration_event list" where
  "eventsAfter store n = filter (\<lambda>e. n < ev_sequence e) (map row_event (st_rows store))"

text \<open>In a list ordered by a key, what comes after a prefix is what is above its last element.\<close>

lemma filter_after_take:
  assumes "sorted_wrt (<) (map key xs)" and "n \<noteq> 0" and "xs \<noteq> []"
  shows "filter (\<lambda>x. (key (last (take n xs)) :: nat) < key x) xs = drop n xs"
  using assms
proof (induction xs arbitrary: n)
  case (Cons x xs)
  show ?case
  proof (cases "xs = [] \<or> n = 1")
    case True
    then show ?thesis
    proof
      assume "xs = []" then show ?thesis using Cons.prems by (simp add: take_Cons')
    next
      assume "n = 1" then show ?thesis using Cons.prems by (auto simp: filter_id_conv)
    qed
  next
    case False
    then obtain k where k: "n = Suc k" "k \<noteq> 0" using Cons.prems(2) by (cases n) auto
    have ne: "take k xs \<noteq> []" using False k by simp
    then have "last (take k xs) \<in> set xs" using last_in_set in_set_takeD by fast
    then have "key x < key (last (take k xs))" using Cons.prems(1) by auto
    then show ?thesis using Cons.IH [of k] Cons.prems(1) False k ne by simp
  qed
qed simp

lemma filter_above:
  assumes "sorted_wrt (<) (map key xs)" and "take k (filter (\<lambda>x. (n::nat) < key x) xs) \<noteq> []"
  shows "filter (\<lambda>x. key (last (take k (filter (\<lambda>x. n < key x) xs))) < key x) xs =
    drop k (filter (\<lambda>x. n < key x) xs)"
proof -
  let ?ys = "filter (\<lambda>x. n < key x) xs"
  have sorted: "sorted_wrt (<) (map key ?ys)"
    using assms(1) by (simp add: sorted_wrt_map sorted_wrt_filter)
  have "last (take k ?ys) \<in> set ?ys" using assms(2) last_in_set in_set_takeD by fast
  then have "n < key (last (take k ?ys))" by simp
  then have "filter (\<lambda>x. key (last (take k ?ys)) < key x) xs =
      filter (\<lambda>x. key (last (take k ?ys)) < key x) ?ys"
    by (auto intro: filter_cong)
  then show ?thesis using filter_after_take [OF sorted, of k] assms(2) by auto
qed

lemma rows_sorted: "store_ok store \<Longrightarrow> sorted_wrt (<) (map ev_sequence (map row_event (st_rows store)))"
  by (simp add: store_ok_def comp_def)

declare readPages.simps [simp del] readAggregatePages.simps [simp del]

lemma take_take_drop: "k \<le> n \<Longrightarrow> take k xs @ take (n - k) (drop k xs) = take n xs"
  by (metis add_diff_inverse_nat not_less take_add)

lemma take_page:
  "take k xs @ take (n - length (take k xs)) (drop k xs) = take n xs" if "length (take k xs) \<le> n"
proof (cases "k \<le> length xs")
  case True
  then have "length (take k xs) = k" by simp
  then show ?thesis using that take_take_drop [of k n xs] by (simp only:)
qed (use that in simp)

lemma readPages_take:
  assumes "store_ok store"
  shows "readPages store cursor remaining = take remaining (eventsAfter store cursor)"
proof (induction remaining arbitrary: cursor rule: less_induct)
  case (less remaining)
  let ?k = "min remaining READ_PAGE_SIZE" and ?after = "eventsAfter store cursor"
  let ?page = "take ?k ?after"
  have page: "readEventRowsFromSequence store cursor ?k = ?page"
    by (simp add: readEventRowsFromSequence_def eventsAfter_def)
  show ?case
  proof (cases "?page = [] \<or> remaining \<le> length ?page")
    case True
    then have "readPages store cursor remaining = ?page"
      by (simp add: readPages.simps [of store cursor remaining] page)
    also have "?page = take remaining ?after"
      using True by (auto simp: READ_PAGE_SIZE_def min_def split: if_splits)
    finally show ?thesis .
  next
    case False
    then have "readPages store cursor remaining =
        ?page @ readPages store (ev_sequence (last ?page)) (remaining - length ?page)"
      using page by (simp only: readPages.simps [of store cursor remaining] Let_def if_False)
    also have "\<dots> = ?page @ take (remaining - length ?page)
        (eventsAfter store (ev_sequence (last ?page)))"
      using less [of "remaining - length ?page" "ev_sequence (last ?page)"] False by simp
    also have "eventsAfter store (ev_sequence (last ?page)) = drop ?k ?after"
      using filter_above [OF rows_sorted [OF assms], of ?k cursor] False
      by (simp add: eventsAfter_def)
    also have "?page @ take (remaining - length ?page) (drop ?k ?after) = take remaining ?after"
      using False by (intro take_page) simp
    finally show ?thesis .
  qed
qed

lemma readFromSequence_take:
  "store_ok store \<Longrightarrow> readFromSequence store n k = take k (eventsAfter store n)"
  by (simp add: readFromSequence_def readPages_take)

definition streamBetween ::
  "event_store \<Rightarrow> aggregate_kind \<Rightarrow> ident \<Rightarrow> nat \<Rightarrow> nat \<Rightarrow> orchestration_event list" where
  "streamBetween store kind i a b =
     filter (\<lambda>e. a < ev_sequence e \<and> ev_sequence e \<le> b)
       (map row_event (filter (inStream kind i) (st_rows store)))"

lemma stream_sorted:
  assumes "store_ok store"
  shows "sorted_wrt (<) (map ev_sequence (filter (\<lambda>e. ev_sequence e \<le> b)
    (map row_event (filter (inStream kind i) (st_rows store)))))"
proof -
  have "sorted_wrt (\<lambda>x y. ev_sequence (row_event x) < ev_sequence (row_event y)) (st_rows store)"
    using assms by (simp add: store_ok_def sorted_wrt_map)
  then show ?thesis by (simp add: sorted_wrt_map sorted_wrt_filter)
qed

lemma streamBetween_after:
  "streamBetween store kind i a b = filter (\<lambda>e. a < ev_sequence e)
     (filter (\<lambda>e. ev_sequence e \<le> b) (map row_event (filter (inStream kind i) (st_rows store))))"
  by (simp add: streamBetween_def conj_commute)

lemma readAggregatePages_take:
  assumes "store_ok store"
  shows "readAggregatePages store kind i b cursor remaining =
    take remaining (streamBetween store kind i cursor b)"
proof (induction remaining arbitrary: cursor rule: less_induct)
  case (less remaining)
  let ?k = "min remaining READ_PAGE_SIZE" and ?range = "streamBetween store kind i cursor b"
  let ?page = "take ?k ?range"
  have page: "readAggregateEventRows store kind i cursor b ?k = ?page"
    by (simp add: readAggregateEventRows_def streamBetween_def)
  have above: "streamBetween store kind i (ev_sequence (last ?page)) b = drop ?k ?range"
    if "?page \<noteq> []"
    using filter_above [OF stream_sorted [OF assms, of b kind i], of ?k cursor] that
    by (simp add: streamBetween_after)
  show ?case
  proof (cases "?page = [] \<or> length ?page < READ_PAGE_SIZE \<or> remaining = length ?page \<or>
      b \<le> ev_sequence (last ?page)")
    case True
    have "take remaining ?range = ?page"
      if last: "?page \<noteq> []" "b \<le> ev_sequence (last ?page)"
    proof -
      have "drop ?k ?range = []"
        using above [OF last(1)] last(2) by (auto simp: streamBetween_def filter_empty_conv)
      then show ?thesis by simp
    qed
    moreover have "take remaining ?range = ?page"
      if "?page = [] \<or> length ?page < READ_PAGE_SIZE \<or> remaining = length ?page"
      using that by (auto simp: READ_PAGE_SIZE_def min_def split: if_splits)
    ultimately have "take remaining ?range = ?page" using True by blast
    moreover have "readAggregatePages store kind i b cursor remaining = ?page"
      using True page by (simp only: readAggregatePages.simps [of store kind i b cursor remaining]
          Let_def if_True)
    ultimately show ?thesis by simp
  next
    case False
    then have "readAggregatePages store kind i b cursor remaining =
        ?page @ readAggregatePages store kind i b (ev_sequence (last ?page)) (remaining - length ?page)"
      using page by (simp only: readAggregatePages.simps [of store kind i b cursor remaining]
          Let_def if_False)
    also have "\<dots> = ?page @ take (remaining - length ?page)
        (streamBetween store kind i (ev_sequence (last ?page)) b)"
      using less [of "remaining - length ?page" "ev_sequence (last ?page)"] False
      by (simp add: READ_PAGE_SIZE_def)
    also have "streamBetween store kind i (ev_sequence (last ?page)) b = drop ?k ?range"
      using False above by simp
    also have "?page @ take (remaining - length ?page) (drop ?k ?range) = take remaining ?range"
      by (intro take_page) simp
    finally show ?thesis .
  qed
qed

section \<open>The log is an event log\<close>

lemma eventsAfter_append:
  assumes "store_ok store" and "appendEvent store e = Some (saved, store')"
    and "n \<le> st_sequence store"
  shows "eventsAfter store' n = eventsAfter store n @ [saved]"
  using assms appendEvent_SomeD [OF assms(2)] by (simp add: eventsAfter_def)

lemma eventsAfter_current: "store_ok store \<Longrightarrow> eventsAfter store (st_sequence store) = []"
  by (force simp: eventsAfter_def store_ok_def filter_empty_conv)

interpretation orch_log: event_log store_ok appendEvent st_sequence eventsAfter readFromSequence
  by unfold_locales
    (auto intro: appendEvent_ok eventsAfter_append dest: appendEvent_SomeD(3)
      simp: eventsAfter_current readFromSequence_take)

text \<open>
  C12: Reading the log page by page, 500 events at a time, gives exactly the events after the
  asked position, in the order in which they were appended, up to the asked limit: no event is
  skipped or repeated at a page border. The same holds for the events of one aggregate in a range.
\<close>

theorem paginated_reads:
  assumes "store_ok store"
  shows "readFromSequence store n k = take k (eventsAfter store n) \<and>
    (a < b \<longrightarrow> readAggregateRange store kind i a b k = take k (streamBetween store kind i a b))"
  using assms by (simp add: readFromSequence_take readAggregateRange_def readAggregatePages_take)

definition ex_planned :: "ident \<Rightarrow> event_body \<Rightarrow> planned_event" where
  "ex_planned eid body = \<lparr>ev_eventId = eid, ev_aggregateKind = ThreadAggregate, ev_aggregateId = ''t'',
     ev_occurredAt = ''now'', ev_commandId = ''c'', ev_causationEventId = None,
     ev_correlationId = ''c'', ev_metadata = no_metadata, ev_body = body\<rparr>"

definition ex_events :: "planned_event list" where
  "ex_events =
     [ex_planned ''e1'' (ThreadDeleted ''t'' ''now''), ex_planned ''e2'' (ThreadUnpinned ''t'' ''now'')]"

definition ex_store :: event_store where
  "ex_store = snd (the (appendAll appendEvent empty_store ex_events))"

lemma ex_store_ok: "store_ok ex_store"
proof -
  have "\<not> Option.is_none (appendAll appendEvent empty_store ex_events)" by code_simp
  then obtain es store where all: "appendAll appendEvent empty_store ex_events = Some (es, store)"
    by (auto simp: Option.is_none_def)
  then show ?thesis using orch_log.appendAll_log [OF empty_store_ok all] by (simp add: ex_store_def)
qed

theorem paginated_reads_witness:
  "readFromSequence ex_store 1 5 = take 5 (eventsAfter ex_store 1) \<and> length (eventsAfter ex_store 1) = 1"
proof -
  have "length (eventsAfter ex_store 1) = 1" by code_simp
  then show ?thesis using paginated_reads [OF ex_store_ok, of 1 5] by blast
qed

end
