(* ===== verification/OrchEngine.thy ===== *)
theory OrchEngine
  imports OrchInvariants OrchAttribution OrchEventStore
begin

text \<open>
  The engine (\<open>apps/server/src/orchestration/Layers/OrchestrationEngine.ts\<close>): one worker takes
  the commands off a queue, one at a time. The state is what the worker reads and writes: the log
  and the receipts in the database, the command read model in memory, and what was published.
  What the engine asks of its surroundings during one dispatch is a \<open>world\<close>: whether each query
  of the database succeeds, how the transaction ends, and what the other services answer.
\<close>

section \<open>State\<close>

datatype receipt_status = Accepted | Rejected

record command_receipt =
  rc_aggregateKind :: aggregate_kind
  rc_aggregateId :: ident
  rc_acceptedAt :: iso_date_time
  rc_resultSequence :: nat
  rc_status :: receipt_status
  rc_error :: "string option"

record engine =
  eng_store :: event_store
  eng_receipts :: "ident \<rightharpoonup> command_receipt"
  eng_model :: read_model
  eng_published :: "orchestration_event list"

record envelope =
  en_command :: orchestration_command
  en_origin :: "json option"

datatype query =
    ReadReceipt
  | ReadEvents
  | ReadProject
  | ReadUserInput
  | ReadAfterFailure
  | WriteRejection

text \<open>
  A transaction commits, is rolled back, or commits while its acknowledgement is lost, so that
  the caller sees an error.
\<close>

datatype transaction_end = Commits | RollsBack | CommitsUnacknowledged

record world =
  w_decide :: decide_env
  w_ok :: "query \<Rightarrow> bool"
  w_transaction :: transaction_end
  w_background :: "ident \<Rightarrow> bool"
  w_identity :: "ident \<Rightarrow> repository_identity option option"
  w_userInput :: "thread_activity option"
  w_now :: iso_date_time

datatype dispatch_error =
    CommandRejected rejection
  | IdConflict ident aggregate_kind ident aggregate_kind ident
  | PreviouslyRejected ident string
  | PersistenceFailure
  | Undecided

fun rejection_message :: "rejection \<Rightarrow> string" where
  "rejection_message (InvariantError commandType detail) =
     ''Orchestration command invariant failed ('' @ commandType @ ''): '' @ detail"
| "rejection_message (SettleBlocked _) =
     ''This thread still needs attention. Resolve or interrupt it first, then try again.''"

section \<open>Before deciding\<close>

definition projectEventsOntoReadModel ::
  "host \<Rightarrow> read_model \<Rightarrow> orchestration_event list \<Rightarrow> read_model" where
  "projectEventsOntoReadModel H m es = foldl (projectEvent H) m es"

definition invariantError :: "orchestration_command \<Rightarrow> string \<Rightarrow> dispatch_error" where
  "invariantError cmd detail = CommandRejected (InvariantError (command_type cmd) detail)"

text \<open>The answer that an earlier dispatch of the command id already has.\<close>

definition replayReceipt ::
  "orchestration_command \<Rightarrow> command_receipt \<Rightarrow> dispatch_error + nat" where
  "replayReceipt cmd r =
     (let (kind, i) = commandToAggregateRef cmd in
      if rc_aggregateKind r \<noteq> kind \<or> rc_aggregateId r \<noteq> i
      then Inl (IdConflict (command_id cmd) (rc_aggregateKind r) (rc_aggregateId r) kind i)
      else if rc_status r = Accepted then Inr (rc_resultSequence r)
      else Inl (PreviouslyRejected (command_id cmd)
        (case rc_error r of Some s \<Rightarrow> s | None \<Rightarrow> ''Previously rejected.'')))"

text \<open>What the engine itself refuses: commands computed from a state that has changed.\<close>

definition staleCommand :: "world \<Rightarrow> engine \<Rightarrow> orchestration_command \<Rightarrow> dispatch_error option" where
  "staleCommand w e cmd = (case cmd of
     ThreadCommand _ i (AutoSettleThread s _) \<Rightarrow>
       if \<not> w_ok w ReadEvents then Some PersistenceFailure
       else if hasEventAfter (eng_store e) ThreadAggregate i s None
       then Some (invariantError cmd (''thread '' @ i @ '' changed before automatic settlement''))
       else if w_background w i
       then Some (invariantError cmd (''thread '' @ i @ '' has live background work''))
       else None
   | ThreadCommand _ i (SyncPullRequest _ s _ _ _) \<Rightarrow>
       if \<not> w_ok w ReadEvents then Some PersistenceFailure
       else if hasEventAfter (eng_store e) ThreadAggregate i s (Some ''thread.created'')
       then Some (invariantError cmd
         (''thread '' @ i @ '' was recreated before pull request discovery''))
       else None
   | _ \<Rightarrow> None)"

text \<open>The resolved repository identity that a legacy pull request edit needs.\<close>

definition resolveIdentity :: "world \<Rightarrow> orchestration_command \<Rightarrow> read_model \<Rightarrow> read_model option" where
  "resolveIdentity w cmd m = (case cmd of
     ThreadCommand _ i (UpdateThreadMeta c) \<Rightarrow>
       (case (mu_linkedPullRequest c, findThread m i) of
          (Some _, Some thread) \<Rightarrow>
            if \<not> w_ok w ReadProject then None
            else (case w_identity w (thread_projectId thread) of
                None \<Rightarrow> Some m
              | Some repositoryIdentity \<Rightarrow> Some (m\<lparr>model_projects :=
                  updateProject (model_projects m) (thread_projectId thread)
                    (\<lambda>p. p\<lparr>project_repositoryIdentity := repositoryIdentity\<rparr>)\<rparr>))
        | _ \<Rightarrow> Some m)
   | _ \<Rightarrow> Some m)"

definition asksUserInput :: "orchestration_command \<Rightarrow> bool" where
  "asksUserInput cmd = (case cmd of
     ThreadCommand _ _ (RespondUserInput _ _) \<Rightarrow> True
   | ThreadCommand _ _ (DismissUserInput _ _) \<Rightarrow> True
   | _ \<Rightarrow> False)"

section \<open>Deciding and committing\<close>

definition stampOrigin :: "json option \<Rightarrow> planned_event \<Rightarrow> planned_event" where
  "stampOrigin client e = (case client of
     None \<Rightarrow> e
   | Some _ \<Rightarrow> e\<lparr>ev_metadata := (ev_metadata e)\<lparr>meta_origin := client\<rparr>\<rparr>)"

text \<open>
  The transaction appends every event and files the receipt; a failing append, or no event at
  all, rolls it back. Only then does the engine take over the new read model and publish.
\<close>

definition commit ::
  "host \<Rightarrow> world \<Rightarrow> orchestration_command \<Rightarrow> planned_event list \<Rightarrow> engine \<Rightarrow>
     (dispatch_error + nat) \<times> engine" where
  "commit H w cmd planned e =
     (if w_transaction w = RollsBack then (Inl PersistenceFailure, e)
      else (case appendAll appendEvent (eng_store e) planned of
          None \<Rightarrow> (Inl PersistenceFailure, e)
        | Some (saved, store) \<Rightarrow>
            if saved = [] then (Inl (invariantError cmd ''Command produced no events.''), e)
            else (let lastSaved = last saved;
                      receipt = \<lparr>rc_aggregateKind = ev_aggregateKind (ev_planned lastSaved),
                        rc_aggregateId = ev_aggregateId (ev_planned lastSaved),
                        rc_acceptedAt = ev_occurredAt (ev_planned lastSaved),
                        rc_resultSequence = ev_sequence lastSaved, rc_status = Accepted,
                        rc_error = None\<rparr>;
                      durable = e\<lparr>eng_store := store,
                        eng_receipts := (eng_receipts e)(command_id cmd \<mapsto> receipt)\<rparr> in
              if w_transaction w = CommitsUnacknowledged then (Inl PersistenceFailure, durable)
              else (Inr (ev_sequence lastSaved),
                durable\<lparr>eng_model := projectEventsOntoReadModel H (eng_model e) saved,
                        eng_published := eng_published e @ saved\<rparr>))))"

definition decideAndCommit ::
  "host \<Rightarrow> world \<Rightarrow> envelope \<Rightarrow> engine \<Rightarrow> (dispatch_error + nat) \<times> engine" where
  "decideAndCommit H w en e =
     (let cmd = en_command en in
      if asksUserInput cmd \<and> \<not> w_ok w ReadUserInput then (Inl PersistenceFailure, e)
      else (case decideOrchestrationCommand H cmd (eng_model e)
                (if asksUserInput cmd then w_userInput w else None) (w_decide w) of
          Inl (Rejection r) \<Rightarrow> (Inl (CommandRejected r), e)
        | Inl OutOfFuel \<Rightarrow> (Inl Undecided, e)
        | Inr (planned, _) \<Rightarrow> commit H w cmd (map (stampOrigin (en_origin en)) planned) e))"

definition attempt ::
  "host \<Rightarrow> world \<Rightarrow> envelope \<Rightarrow> engine \<Rightarrow> (dispatch_error + nat) \<times> engine" where
  "attempt H w en e =
     (let cmd = en_command en in
      if \<not> w_ok w ReadReceipt then (Inl PersistenceFailure, e)
      else (case eng_receipts e (command_id cmd) of
          Some r \<Rightarrow> (replayReceipt cmd r, e)
        | None \<Rightarrow>
            (case staleCommand w e cmd of
               Some err \<Rightarrow> (Inl err, e)
             | None \<Rightarrow>
                 (case resolveIdentity w cmd (eng_model e) of
                    None \<Rightarrow> (Inl PersistenceFailure, e)
                  | Some m \<Rightarrow> decideAndCommit H w en (e\<lparr>eng_model := m\<rparr>)))))"

section \<open>After a failure\<close>

text \<open>
  The events that became durable since the dispatch began are projected and published. The
  read is the log's with its default limit.
\<close>

definition reconcileReadModelAfterDispatchFailure ::
  "host \<Rightarrow> world \<Rightarrow> nat \<Rightarrow> engine \<Rightarrow> engine" where
  "reconcileReadModelAfterDispatchFailure H w dispatchStartSequence e =
     (if \<not> w_ok w ReadAfterFailure then e
      else (let persisted = readFromSequence (eng_store e) dispatchStartSequence
                  DEFAULT_READ_FROM_SEQUENCE_LIMIT in
        e\<lparr>eng_model := projectEventsOntoReadModel H (eng_model e) persisted,
          eng_published := eng_published e @ persisted\<rparr>))"

definition rejectedReceipt :: "world \<Rightarrow> orchestration_command \<Rightarrow> rejection \<Rightarrow> engine \<Rightarrow> command_receipt" where
  "rejectedReceipt w cmd r e =
     \<lparr>rc_aggregateKind = fst (commandToAggregateRef cmd),
      rc_aggregateId = snd (commandToAggregateRef cmd), rc_acceptedAt = w_now w,
      rc_resultSequence = snapshotSequence (eng_model e), rc_status = Rejected,
      rc_error = Some (rejection_message r)\<rparr>"

definition afterFailure ::
  "host \<Rightarrow> world \<Rightarrow> orchestration_command \<Rightarrow> nat \<Rightarrow> dispatch_error \<Rightarrow> engine \<Rightarrow> engine" where
  "afterFailure H w cmd dispatchStartSequence err e = (case err of
     PreviouslyRejected _ _ \<Rightarrow> e
   | IdConflict _ _ _ _ _ \<Rightarrow> e
   | CommandRejected r \<Rightarrow>
       (let e' = reconcileReadModelAfterDispatchFailure H w dispatchStartSequence e in
        if w_ok w WriteRejection
        then e'\<lparr>eng_receipts := (eng_receipts e')(command_id cmd \<mapsto> rejectedReceipt w cmd r e')\<rparr>
        else e')
   | _ \<Rightarrow> reconcileReadModelAfterDispatchFailure H w dispatchStartSequence e)"

definition processEnvelope ::
  "host \<Rightarrow> world \<Rightarrow> envelope \<Rightarrow> engine \<Rightarrow> (dispatch_error + nat) \<times> engine" where
  "processEnvelope H w en e =
     (let dispatchStartSequence = snapshotSequence (eng_model e);
          (result, e') = attempt H w en e in
      case result of
        Inr n \<Rightarrow> (Inr n, e')
      | Inl err \<Rightarrow> (Inl err, afterFailure H w (en_command en) dispatchStartSequence err e'))"

section \<open>Queries\<close>

datatype operation_result =
    UnknownOperation ident
  | AcceptedOperation ident nat
  | RejectedOperation ident string

definition getOperationResult :: "engine \<Rightarrow> ident \<Rightarrow> operation_result" where
  "getOperationResult e operationId = (case eng_receipts e operationId of
     None \<Rightarrow> UnknownOperation operationId
   | Some r \<Rightarrow>
       if rc_status r = Accepted then AcceptedOperation operationId (rc_resultSequence r)
       else RejectedOperation operationId
         (case rc_error r of Some s \<Rightarrow> s | None \<Rightarrow> ''Previously rejected.''))"

definition latestSequence :: "engine \<Rightarrow> nat" where
  "latestSequence e = snapshotSequence (eng_model e)"

text \<open>The engine of an empty database.\<close>

definition startEngine :: "iso_date_time \<Rightarrow> engine" where
  "startEngine startedAt = \<lparr>eng_store = empty_store, eng_receipts = Map.empty,
     eng_model = createEmptyReadModel startedAt, eng_published = []\<rparr>"

end
