(* ===== verification/OrchEngineSafety.thy ===== *)
theory OrchEngineSafety
  imports OrchEngine "HOL-Library.Sublist"
begin

text \<open>
  What the engine guarantees over any number of dispatches, failures of the database included:
  the log, the receipts, the read model in memory and what was published stay in step.
\<close>

section \<open>Appending a decision\<close>

lemma stamp_fields [simp]:
  "ev_body (stampOrigin u e) = ev_body e" "ev_commandId (stampOrigin u e) = ev_commandId e"
  "ev_occurredAt (stampOrigin u e) = ev_occurredAt e" "ev_eventId (stampOrigin u e) = ev_eventId e"
  "aggregateRef (stampOrigin u e) = aggregateRef e"
  by (simp_all add: stampOrigin_def aggregateRef_def split: option.split)

lemma projectPlanned_stamped:
  "projectPlanned H m n (map (stampOrigin u) es) = projectPlanned H m n es"
  by (induction es arbitrary: m n) (simp_all add: projectEvent_def)

lemma attributed_stamped: "attributed cmd es \<Longrightarrow> attributed cmd (map (stampOrigin u) es)"
  by (auto simp: attributed_def last_map)

lemma snapshotSequence_body:
  "snapshotSequence (projectBody H body u m) = snapshotSequence m"
proof -
  note events = onThreadCreated_def onThreadDeleted_def
      onThreadArchived_def onThreadUnarchived_def onThreadSettled_def onThreadUnsettled_def
      onThreadSnoozed_def onThreadUnsnoozed_def onThreadPinned_def onThreadUnpinned_def
      onThreadPinReordered_def onThreadMetaUpdated_def onThreadPullRequestLinked_def
      onThreadPullRequestUnlinked_def onThreadPullRequestSynced_def onThreadRuntimeModeSet_def
      onThreadInteractionModeSet_def onThreadMessageSent_def onThreadSessionSet_def
      onThreadProposedPlanUpserted_def onThreadTurnDiffCompleted_def onThreadReverted_def
      onThreadActivityAppended_def onProjectCreated_def onProjectMetaUpdated_def onProjectDeleted_def
  show ?thesis
    by (cases body) (simp_all add: projectBody_def events withThread_def Let_def split: option.split)
qed

lemma snapshotSequence_event [simp]: "snapshotSequence (projectEvent H m e) = ev_sequence e"
  by (simp add: projectEvent_def snapshotSequence_body)

lemma snapshotSequence_planned:
  "snapshotSequence m = n \<Longrightarrow> snapshotSequence (projectPlanned H m n es) = n + length es"
proof (induction es arbitrary: m n)
  case (Cons e es)
  show ?case
    using Cons.IH [of "projectEvent H m \<lparr>ev_sequence = Suc n, ev_planned = e\<rparr>" "Suc n"] by simp
qed simp

text \<open>What the log holds after a decision was appended, and what projecting it does.\<close>

lemma appendAll_saved:
  assumes "appendAll appendEvent store ps = Some (saved, store')"
  shows "map row_event (st_rows store') = map row_event (st_rows store) @ saved \<and>
    map ev_planned saved = ps \<and>
    projectEventsOntoReadModel H m saved = projectPlanned H m (st_sequence store) ps"
  using assms
proof (induction ps arbitrary: store saved m)
  case Nil
  then show ?case by (simp add: projectEventsOntoReadModel_def)
next
  case (Cons p ps)
  then obtain e s1 es1 where first: "appendEvent store p = Some (e, s1)"
    and rest: "appendAll appendEvent s1 ps = Some (es1, store')" and saved: "saved = e # es1"
    by (auto split: option.splits)
  note D = appendEvent_SomeD [OF first]
  note IH = Cons.IH [OF rest, of "projectEvent H m e"]
  show ?case using IH by (simp add: saved D projectEventsOntoReadModel_def)
qed

section \<open>The outcomes of a dispatch\<close>

definition refused :: "dispatch_error \<Rightarrow> bool" where
  "refused err \<longleftrightarrow> (case err of CommandRejected _ \<Rightarrow> True | PersistenceFailure \<Rightarrow> True |
     Undecided \<Rightarrow> True | _ \<Rightarrow> False)"

text \<open>What a transaction makes durable.\<close>

definition commits_as ::
  "host \<Rightarrow> orchestration_command \<Rightarrow> read_model \<Rightarrow> engine \<Rightarrow> planned_event list \<Rightarrow>
     orchestration_event list \<Rightarrow> event_store \<Rightarrow> (ident \<rightharpoonup> command_receipt) \<Rightarrow> bool" where
  "commits_as H cmd m e planned saved store receipts \<longleftrightarrow>
     eng_receipts e (command_id cmd) = None \<and>
     admissible_run H m (snapshotSequence m) planned \<and> attributed cmd planned \<and> saved \<noteq> [] \<and>
     (\<exists>u. appendAll appendEvent (eng_store e) (map (stampOrigin u) planned) = Some (saved, store)) \<and>
     receipts = (eng_receipts e)(command_id cmd \<mapsto>
       \<lparr>rc_aggregateKind = fst (commandToAggregateRef cmd),
        rc_aggregateId = snd (commandToAggregateRef cmd),
        rc_acceptedAt = ev_occurredAt (ev_planned (last saved)),
        rc_resultSequence = ev_sequence (last saved), rc_status = Accepted, rc_error = None\<rparr>)"

lemma commits_as_model [simp]:
  "commits_as H cmd m (e\<lparr>eng_model := m'\<rparr>) planned saved store receipts
     \<longleftrightarrow> commits_as H cmd m e planned saved store receipts"
  by (simp add: commits_as_def)

lemma commit_cases:
  assumes "commit H w cmd (map (stampOrigin u) planned) e = (result, e')"
    and "eng_receipts e (command_id cmd) = None" and "attributed cmd planned"
    and "admissible_run H (eng_model e) (snapshotSequence (eng_model e)) planned"
  obtains (unchanged) err where "result = Inl err" "refused err" "e' = e"
  | (acknowledged) saved store receipts where
      "commits_as H cmd (eng_model e) e planned saved store receipts"
      "result = Inr (ev_sequence (last saved))"
      "e' = e\<lparr>eng_store := store, eng_receipts := receipts,
         eng_model := projectEventsOntoReadModel H (eng_model e) saved,
         eng_published := eng_published e @ saved\<rparr>"
  | (unacknowledged) saved store receipts where
      "commits_as H cmd (eng_model e) e planned saved store receipts"
      "w_transaction w = CommitsUnacknowledged" "result = Inl PersistenceFailure"
      "e' = e\<lparr>eng_store := store, eng_receipts := receipts\<rparr>"
proof (cases "appendAll appendEvent (eng_store e) (map (stampOrigin u) planned)")
  case None
  then show ?thesis
    using assms(1) unchanged by (auto simp: commit_def refused_def invariantError_def split: if_splits)
next
  case (Some pair)
  obtain saved store where pair: "pair = (saved, store)" by (cases pair)
  show ?thesis
  proof (cases "saved = [] \<or> w_transaction w = RollsBack")
    case True
    then show ?thesis
      using assms(1) Some pair unchanged
      by (auto simp: commit_def refused_def invariantError_def split: if_splits)
  next
    case False
    then have planned: "planned \<noteq> []" using Some pair by auto
    have "map ev_planned saved = map (stampOrigin u) planned"
      using appendAll_saved Some pair by blast
    then have "aggregateRef (ev_planned (last saved)) = commandToAggregateRef cmd"
      using False planned attributed_stamped [OF assms(3), of u]
      by (metis attributed_def last_map list.map_disc_iff)
    then have ref: "ev_aggregateKind (ev_planned (last saved)) = fst (commandToAggregateRef cmd)"
      "ev_aggregateId (ev_planned (last saved)) = snd (commandToAggregateRef cmd)"
      unfolding aggregateRef_def by (metis fst_conv snd_conv)+
    define receipts where "receipts = (eng_receipts e)(command_id cmd \<mapsto>
       \<lparr>rc_aggregateKind = fst (commandToAggregateRef cmd),
        rc_aggregateId = snd (commandToAggregateRef cmd),
        rc_acceptedAt = ev_occurredAt (ev_planned (last saved)),
        rc_resultSequence = ev_sequence (last saved), rc_status = Accepted, rc_error = None\<rparr>)"
    have commits: "commits_as H cmd (eng_model e) e planned saved store receipts"
      using assms Some pair False by (auto simp: commits_as_def receipts_def)
    have result: "(result, e') = (if w_transaction w = CommitsUnacknowledged
        then (Inl PersistenceFailure, e\<lparr>eng_store := store, eng_receipts := receipts\<rparr>)
        else (Inr (ev_sequence (last saved)), e\<lparr>eng_store := store, eng_receipts := receipts,
          eng_model := projectEventsOntoReadModel H (eng_model e) saved,
          eng_published := eng_published e @ saved\<rparr>))"
      using assms(1) Some pair False
      by (auto simp: commit_def Let_def ref receipts_def split: if_splits)
    show ?thesis
      using result commits acknowledged unacknowledged by (auto split: if_splits)
  qed
qed

lemma attempt_cases:
  assumes "attempt H w en e = (result, e')"
  obtains (replayed) r where "eng_receipts e (command_id (en_command en)) = Some r"
      "result = replayReceipt (en_command en) r" "e' = e"
  | (unchanged) m err where "result = Inl err" "refused err"
      "err = PersistenceFailure \<or> eng_receipts e (command_id (en_command en)) = None"
      "resolveIdentity w (en_command en) (eng_model e) = Some m \<or> m = eng_model e"
      "e' = e\<lparr>eng_model := m\<rparr>"
  | (acknowledged) m planned saved store receipts where
      "resolveIdentity w (en_command en) (eng_model e) = Some m"
      "commits_as H (en_command en) m e planned saved store receipts"
      "result = Inr (ev_sequence (last saved))"
      "e' = e\<lparr>eng_store := store, eng_receipts := receipts,
         eng_model := projectEventsOntoReadModel H m saved,
         eng_published := eng_published e @ saved\<rparr>"
  | (unacknowledged) m planned saved store receipts where
      "resolveIdentity w (en_command en) (eng_model e) = Some m"
      "commits_as H (en_command en) m e planned saved store receipts"
      "w_transaction w = CommitsUnacknowledged" "result = Inl PersistenceFailure"
      "e' = e\<lparr>eng_model := m, eng_store := store, eng_receipts := receipts\<rparr>"
proof (cases "w_ok w ReadReceipt \<and> eng_receipts e (command_id (en_command en)) = None \<and>
    staleCommand w e (en_command en) = None \<and>
    resolveIdentity w (en_command en) (eng_model e) \<noteq> None")
  case False
  have stale: "refused err" if "staleCommand w e (en_command en) = Some err" for err
    using that by (auto simp: staleCommand_def refused_def invariantError_def
        split: orchestration_command.splits thread_op.splits if_splits)
  have same: "e\<lparr>eng_model := eng_model e\<rparr> = e" by simp
  show ?thesis
    using False assms stale replayed unchanged [of PersistenceFailure "eng_model e"]
      unchanged [of _ "eng_model e"]
    unfolding same attempt_def Let_def
    by (auto split: option.splits if_splits simp: refused_def)
next
  case True
  let ?cmd = "en_command en"
  from True obtain m where m: "resolveIdentity w ?cmd (eng_model e) = Some m" by blast
  let ?e = "e\<lparr>eng_model := m\<rparr>"
  have run: "decideAndCommit H w en ?e = (result, e')" using assms True m by (simp add: attempt_def)
  show ?thesis
  proof (cases "asksUserInput ?cmd \<and> \<not> w_ok w ReadUserInput")
    case ask: True
    then show ?thesis
      using run unchanged [of PersistenceFailure m] m by (simp add: decideAndCommit_def refused_def)
  next
    case False
    let ?d = "decideOrchestrationCommand H ?cmd m
      (if asksUserInput ?cmd then w_userInput w else None) (w_decide w)"
    show ?thesis
    proof (cases ?d)
      case (Inl x)
      then show ?thesis
        using run False m True unchanged [of _ m]
        by (cases x) (auto simp: decideAndCommit_def Let_def refused_def)
    next
      case (Inr p)
      obtain planned s' where p: "p = (planned, s')" by (cases p)
      have "commit H w ?cmd (map (stampOrigin (en_origin en)) planned) ?e = (result, e')"
        using run False Inr p by (auto simp: decideAndCommit_def Let_def split: if_splits)
      moreover have "eng_receipts ?e (command_id ?cmd) = None" using True by simp
      moreover have "attributed ?cmd planned"
        by (rule dwp_result [OF decide_attributed Inr [unfolded p]])
      moreover have "admissible_run H (eng_model ?e) (snapshotSequence (eng_model ?e)) planned"
        using decide_run Inr p by simp
      ultimately show ?thesis
      proof (cases rule: commit_cases)
        case (unchanged err)
        then show ?thesis using True m by (intro that(2) [of err m]) simp_all
      next
        case acknowledged
        then show ?thesis using m by (intro that(3)) simp_all
      next
        case unacknowledged
        then show ?thesis using m by (intro that(4)) simp_all
      qed
    qed
  qed
qed

section \<open>The engine's invariant\<close>

text \<open>
  The specification of the read model in memory: the events of the log projected in order, each
  once, with the repository identities that were resolved in between.
\<close>

inductive projection_of :: "host \<Rightarrow> iso_date_time \<Rightarrow> orchestration_event list \<Rightarrow> read_model \<Rightarrow> bool"
  for H :: host and startedAt :: iso_date_time where
  projection_start: "projection_of H startedAt [] (createEmptyReadModel startedAt)"
| projection_event: "projection_of H startedAt es m \<Longrightarrow>
    projection_of H startedAt (es @ [e]) (projectEvent H m e)"
| projection_identity: "projection_of H startedAt es m \<Longrightarrow>
    projection_of H startedAt es (m\<lparr>model_projects := updateProject (model_projects m) i
      (\<lambda>p. p\<lparr>project_repositoryIdentity := identity\<rparr>)\<rparr>)"

lemma projection_events:
  "projection_of H u es m \<Longrightarrow>
     projection_of H u (es @ saved) (projectEventsOntoReadModel H m saved)"
proof (induction saved arbitrary: es m)
  case (Cons e saved)
  then show ?case using Cons.IH [OF projection_event [OF Cons.prems, of e]]
    by (simp add: projectEventsOntoReadModel_def)
qed (simp add: projectEventsOntoReadModel_def)

abbreviation logged :: "engine \<Rightarrow> orchestration_event list" where
  "logged e \<equiv> map row_event (st_rows (eng_store e))"

text \<open>
  Accepted receipts and the log agree: an accepted command has its last event in the log, under
  its own aggregate, and a command with an event in the log is accepted.
\<close>

definition receipts_ok :: "(ident \<rightharpoonup> command_receipt) \<Rightarrow> orchestration_event list \<Rightarrow> bool" where
  "receipts_ok receipts es \<longleftrightarrow>
     (\<forall>cid r. receipts cid = Some r \<longrightarrow> rc_status r = Accepted \<longrightarrow> (\<exists>e \<in> set es.
        ev_sequence e = rc_resultSequence r \<and> ev_commandId (ev_planned e) = cid \<and>
        aggregateRef (ev_planned e) = (rc_aggregateKind r, rc_aggregateId r))) \<and>
     (\<forall>e \<in> set es. \<exists>r. receipts (ev_commandId (ev_planned e)) = Some r \<and> rc_status r = Accepted)"

definition engine_ok :: "host \<Rightarrow> iso_date_time \<Rightarrow> engine \<Rightarrow> bool" where
  "engine_ok H u e \<longleftrightarrow> store_ok (eng_store e) \<and> model_safe H (eng_model e) \<and>
     latestSequence e = st_sequence (eng_store e) \<and>
     projection_of H u (logged e) (eng_model e) \<and>
     receipts_ok (eng_receipts e) (logged e) \<and> eng_published e = logged e"

lemma start_ok: "engine_ok H u (startEngine u)"
  by (simp add: engine_ok_def startEngine_def empty_store_ok empty_safe latestSequence_def
      projection_start receipts_ok_def)
    (simp add: createEmptyReadModel_def empty_store_def projection_start [unfolded createEmptyReadModel_def])

lemma safe_identity:
  assumes "model_safe H m"
  shows "model_safe H (m\<lparr>model_projects := updateProject (model_projects m) i
    (\<lambda>p. p\<lparr>project_repositoryIdentity := x\<rparr>)\<rparr>)"
  by (rule safe_updateProject [OF assms], simp, rule roots_apart_update)
    (use assms in \<open>auto simp: model_safe_def roots_unique_apart roots_apart_def\<close>)

lemma resolveIdentity_cases:
  assumes "resolveIdentity w cmd m = Some m'"
  obtains "m' = m" | i x where "m' = m\<lparr>model_projects := updateProject (model_projects m) i
    (\<lambda>p. p\<lparr>project_repositoryIdentity := x\<rparr>)\<rparr>"
  using assms by (auto simp: resolveIdentity_def split: orchestration_command.splits
      thread_op.splits option.splits if_splits)

text \<open>Resolving an identity keeps the read model what the log projects to.\<close>

lemma resolveIdentity_ok:
  assumes "engine_ok H u e" and "resolveIdentity w cmd (eng_model e) = Some m \<or> m = eng_model e"
  shows "engine_ok H u (e\<lparr>eng_model := m\<rparr>)"
  using assms(2)
proof
  assume "resolveIdentity w cmd (eng_model e) = Some m"
  then show ?thesis
    using assms(1)
    by (cases rule: resolveIdentity_cases)
      (auto simp: engine_ok_def latestSequence_def safe_identity intro: projection_identity)
qed (use assms(1) in simp)

lemma attributed_saved:
  assumes "attributed cmd planned" and "map ev_planned saved = map (stampOrigin o') planned"
  shows "\<forall>e \<in> set saved. ev_commandId (ev_planned e) = command_id cmd"
    and "saved \<noteq> [] \<Longrightarrow> aggregateRef (ev_planned (last saved)) = commandToAggregateRef cmd"
proof -
  have stamped: "attributed cmd (map ev_planned saved)"
    using attributed_stamped [OF assms(1)] assms(2) by simp
  then show "\<forall>e \<in> set saved. ev_commandId (ev_planned e) = command_id cmd"
    by (auto simp: attributed_def)
  show "saved \<noteq> [] \<Longrightarrow> aggregateRef (ev_planned (last saved)) = commandToAggregateRef cmd"
    using stamped by (auto simp: attributed_def last_map)
qed

text \<open>What a committed transaction leaves, acknowledged or not.\<close>

lemma commits_store:
  assumes "store_ok (eng_store e)" and "commits_as H cmd m e planned saved store receipts"
  shows "store_ok store" and "st_sequence store = st_sequence (eng_store e) + length saved"
    and "map row_event (st_rows store) = logged e @ saved"
    and "length saved \<le> k \<Longrightarrow> readFromSequence store (st_sequence (eng_store e)) k = saved"
proof -
  obtain o' where all: "appendAll appendEvent (eng_store e) (map (stampOrigin o') planned) =
      Some (saved, store)"
    using assms(2) by (auto simp: commits_as_def)
  note log = orch_log.appendAll_log [OF assms(1) all]
  show "store_ok store" "st_sequence store = st_sequence (eng_store e) + length saved"
    using log by simp_all
  show "map row_event (st_rows store) = logged e @ saved" using appendAll_saved [OF all] by blast
  show "length saved \<le> k \<Longrightarrow> readFromSequence store (st_sequence (eng_store e)) k = saved"
    using orch_log.read_appended [OF assms(1) all] log by simp
qed

lemma commits_receipts:
  assumes receipts: "receipts_ok (eng_receipts e) (logged e)"
    and commits: "commits_as H cmd m e planned saved store receipts"
  shows "receipts_ok receipts (logged e @ saved)"
proof -
  obtain o' where all: "appendAll appendEvent (eng_store e) (map (stampOrigin o') planned) =
      Some (saved, store)"
    using commits by (auto simp: commits_as_def)
  have att: "attributed cmd planned" and ne: "saved \<noteq> []" and fresh: "eng_receipts e (command_id cmd) = None"
    using commits by (auto simp: commits_as_def)
  have saved: "map ev_planned saved = map (stampOrigin o') planned"
    using appendAll_saved [OF all] by blast
  note ids = attributed_saved [OF att saved]
  have old: "\<forall>x \<in> set (logged e). ev_commandId (ev_planned x) \<noteq> command_id cmd"
    using receipts fresh by (force simp: receipts_ok_def)
  have "last saved \<in> set saved" using ne by simp
  with ids ne have "\<exists>x \<in> set (logged e @ saved). ev_sequence x = ev_sequence (last saved) \<and>
      ev_commandId (ev_planned x) = command_id cmd \<and>
      aggregateRef (ev_planned x) = commandToAggregateRef cmd"
    by (intro bexI [of _ "last saved"]) auto
  then show ?thesis
    using commits receipts ids(1) old unfolding receipts_ok_def commits_as_def
    by (auto simp del: map_map simp: map_upd_Some_unfold; fastforce)
qed

lemma commits_model:
  assumes "engine_ok H u (e\<lparr>eng_model := m\<rparr>)"
    and "commits_as H cmd m e planned saved store receipts"
  shows "model_safe H (projectEventsOntoReadModel H m saved)"
    and "snapshotSequence (projectEventsOntoReadModel H m saved) = st_sequence store"
    and "projection_of H u (logged e @ saved) (projectEventsOntoReadModel H m saved)"
    and "receipts_ok receipts (logged e @ saved)"
proof -
  have safe: "model_safe H m" and pos: "snapshotSequence m = st_sequence (eng_store e)"
    and store: "store_ok (eng_store e)" and receipts: "receipts_ok (eng_receipts e) (logged e)"
    and proj: "projection_of H u (logged e) m"
    using assms(1) by (simp_all add: engine_ok_def latestSequence_def)
  obtain o' where all: "appendAll appendEvent (eng_store e) (map (stampOrigin o') planned) =
      Some (saved, store)"
    using assms(2) by (auto simp: commits_as_def)
  have planned: "admissible_run H m (snapshotSequence m) planned"
    using assms(2) by (auto simp: commits_as_def)
  have fold: "projectEventsOntoReadModel H m saved = projectPlanned H m (snapshotSequence m) planned"
    using appendAll_saved [OF all, of H m] pos by (simp add: projectPlanned_stamped)
  have saved: "map ev_planned saved = map (stampOrigin o') planned"
    using appendAll_saved [OF all] by blast
  then have len: "length planned = length saved" using map_eq_imp_length_eq by fastforce
  show "model_safe H (projectEventsOntoReadModel H m saved)"
    unfolding fold using orch.apply_inv [OF safe planned] by (simp only: applyPlanned_def)
  show "snapshotSequence (projectEventsOntoReadModel H m saved) = st_sequence store"
    using commits_store(2) [OF store assms(2)] snapshotSequence_planned [of m, OF refl] pos len
    by (simp add: fold)
  show "projection_of H u (logged e @ saved) (projectEventsOntoReadModel H m saved)"
    by (rule projection_events [OF proj])
  show "receipts_ok receipts (logged e @ saved)" by (rule commits_receipts [OF receipts assms(2)])
qed

text \<open>
  A lost acknowledgement is repaired when the log can be read afterwards and the command planned
  no more events than one such read returns.
\<close>

definition recovers :: "world \<Rightarrow> engine \<Rightarrow> engine \<Rightarrow> bool" where
  "recovers w e e' \<longleftrightarrow> w_transaction w = CommitsUnacknowledged \<longrightarrow> w_ok w ReadAfterFailure \<and>
     length (logged e') \<le> length (logged e) + DEFAULT_READ_FROM_SEQUENCE_LIMIT"

lemma reconcile_nothing:
  assumes "store_ok (eng_store e)" and "n = st_sequence (eng_store e)"
  shows "reconcileReadModelAfterDispatchFailure H w n e = e"
  using orch_log.read_current [OF assms(1), of DEFAULT_READ_FROM_SEQUENCE_LIMIT] assms(2)
  by (simp add: reconcileReadModelAfterDispatchFailure_def projectEventsOntoReadModel_def)

lemma reject_receipt_ok:
  assumes "engine_ok H u e" and "eng_receipts e cid = None" and "rc_status r = Rejected"
  shows "engine_ok H u (e\<lparr>eng_receipts := (eng_receipts e)(cid \<mapsto> r)\<rparr>)"
  using assms by (auto simp: engine_ok_def receipts_ok_def latestSequence_def)

lemma afterFailure_unchanged:
  assumes "engine_ok H u e" and "n = latestSequence e" and "refused err"
    and "err = PersistenceFailure \<or> eng_receipts e (command_id cmd) = None"
  shows "engine_ok H u (afterFailure H w cmd n err e)"
    and "eng_store (afterFailure H w cmd n err e) = eng_store e"
proof -
  have "reconcileReadModelAfterDispatchFailure H w n e = e"
    using assms(1,2) by (intro reconcile_nothing) (simp_all add: engine_ok_def)
  then show "engine_ok H u (afterFailure H w cmd n err e)"
    and "eng_store (afterFailure H w cmd n err e) = eng_store e"
    using assms reject_receipt_ok [of H u e "command_id cmd"]
    by (cases err; simp add: afterFailure_def refused_def rejectedReceipt_def Let_def)+
qed

lemma processEnvelope_ok:
  assumes ok: "engine_ok H u e" and run: "processEnvelope H w en e = (result, e')"
    and rec: "recovers w e e'"
  shows "engine_ok H u e'"
proof -
  obtain r1 e1 where att: "attempt H w en e = (r1, e1)" by (cases "attempt H w en e")
  have e': "e' = (case r1 of Inr n \<Rightarrow> e1
      | Inl err \<Rightarrow> afterFailure H w (en_command en) (latestSequence e) err e1)"
    using run att by (auto simp: processEnvelope_def latestSequence_def split: sum.splits)
  from att show ?thesis
  proof (cases rule: attempt_cases)
    case (replayed r)
    then show ?thesis
      using ok e' by (auto simp: replayReceipt_def afterFailure_def split: if_splits prod.splits)
  next
    case (unchanged m err)
    have "engine_ok H u e1" using resolveIdentity_ok [OF ok unchanged(4)] unchanged(5) by simp
    moreover have "latestSequence e = latestSequence e1"
      using ok calculation unchanged(5) by (simp add: engine_ok_def latestSequence_def)
    moreover have "err = PersistenceFailure \<or> eng_receipts e1 (command_id (en_command en)) = None"
      using unchanged(3,5) by simp
    ultimately show ?thesis
      using e' unchanged(1,2) afterFailure_unchanged(1) [of H u e1 "latestSequence e" err "en_command en" w]
      by simp
  next
    case (acknowledged m planned saved store receipts)
    have ok': "engine_ok H u (e\<lparr>eng_model := m\<rparr>)"
      using resolveIdentity_ok [OF ok, of w "en_command en" m] acknowledged(1) by simp
    have "store_ok (eng_store e)" using ok by (simp add: engine_ok_def)
    note stored = commits_store [OF this acknowledged(2)] and
      model = commits_model [OF ok' acknowledged(2)]
    have "eng_published e = logged e" using ok by (simp add: engine_ok_def)
    then show ?thesis
      using e' acknowledged(3,4) stored model by (simp add: engine_ok_def latestSequence_def)
  next
    case (unacknowledged m planned saved store receipts)
    have ok': "engine_ok H u (e\<lparr>eng_model := m\<rparr>)"
      using resolveIdentity_ok [OF ok, of w "en_command en" m] unacknowledged(1) by simp
    have sok: "store_ok (eng_store e)" using ok by (simp add: engine_ok_def)
    note stored = commits_store [OF sok unacknowledged(2)] and
      model = commits_model [OF ok' unacknowledged(2)]
    have store: "eng_store e' = store"
      using e' unacknowledged(4,5)
      by (simp add: afterFailure_def reconcileReadModelAfterDispatchFailure_def Let_def)
    have len: "length saved \<le> DEFAULT_READ_FROM_SEQUENCE_LIMIT" and read: "w_ok w ReadAfterFailure"
      using rec unacknowledged(3) store stored(3) by (auto simp: recovers_def dest: map_eq_imp_length_eq)
    have "latestSequence e = st_sequence (eng_store e)" and "eng_published e = logged e"
      using ok by (simp_all add: engine_ok_def)
    then show ?thesis
      using e' unacknowledged(4,5) stored(1-3) stored(4) [OF len] model read
      by (simp add: engine_ok_def latestSequence_def afterFailure_def
          reconcileReadModelAfterDispatchFailure_def Let_def)
  qed
qed

section \<open>Runs of the engine\<close>

definition dispatches :: "host \<Rightarrow> engine \<Rightarrow> engine \<Rightarrow> bool" where
  "dispatches H e e' \<longleftrightarrow>
     (\<exists>w en result. processEnvelope H w en e = (result, e') \<and> recovers w e e')"

interpretation engine: transitions "dispatches H" "engine_ok H u" for H :: host and u :: iso_date_time
  by unfold_locales (auto simp: dispatches_def intro: processEnvelope_ok)

text \<open>Dispatches one after the other, and whether each of them recovers.\<close>

fun dispatchAll :: "host \<Rightarrow> (world \<times> envelope) list \<Rightarrow> engine \<Rightarrow> engine" where
  "dispatchAll H [] e = e"
| "dispatchAll H ((w, en) # ds) e = dispatchAll H ds (snd (processEnvelope H w en e))"

fun recoversAll :: "host \<Rightarrow> (world \<times> envelope) list \<Rightarrow> engine \<Rightarrow> bool" where
  "recoversAll H [] e \<longleftrightarrow> True"
| "recoversAll H ((w, en) # ds) e \<longleftrightarrow>
     (let e' = snd (processEnvelope H w en e) in recovers w e e' \<and> recoversAll H ds e')"

lemma dispatchAll_reached:
  "recoversAll H ds e \<Longrightarrow> engine.reached H e (dispatchAll H ds e)"
proof (induction ds arbitrary: e)
  case Nil
  show ?case by (simp add: engine.reached_start)
next
  case (Cons d ds)
  obtain w en where d: "d = (w, en)" by (cases d)
  obtain result e' where run: "processEnvelope H w en e = (result, e')"
    by (cases "processEnvelope H w en e")
  have "dispatches H e e'" using Cons.prems d run by (auto simp: dispatches_def Let_def)
  then have "engine.reached H e e'" by (rule engine.reached_step [OF engine.reached_start])
  then show ?case
    using Cons d run engine.reached_trans [of H e' "dispatchAll H ds e'" e] by (simp add: Let_def)
qed

lemma dispatchAll_ok: "recoversAll H ds (startEngine u) \<Longrightarrow> engine_ok H u (dispatchAll H ds (startEngine u))"
  by (rule engine.reached_inv [OF dispatchAll_reached start_ok])

section \<open>Without recovery\<close>

text \<open>
  What is left when a lost acknowledgement is not repaired: the read model can lag behind the log,
  but it is still the projection of events of the log, in the log's order and each at most once;
  and the receipts agree with the log, since one transaction writes both.
\<close>

definition engine_lags :: "host \<Rightarrow> iso_date_time \<Rightarrow> engine \<Rightarrow> bool" where
  "engine_lags H u e \<longleftrightarrow> store_ok (eng_store e) \<and> latestSequence e \<le> st_sequence (eng_store e) \<and>
     subseq (eng_published e) (logged e) \<and> projection_of H u (eng_published e) (eng_model e) \<and>
     receipts_ok (eng_receipts e) (logged e) \<and>
     (\<forall>x \<in> set (eng_published e). ev_sequence x \<le> latestSequence e)"

lemma start_lags: "engine_lags H u (startEngine u)"
  using start_ok [of H u]
  by (simp add: engine_ok_def engine_lags_def startEngine_def empty_store_def)

lemma snapshotSequence_events:
  "snapshotSequence (projectEventsOntoReadModel H m es) =
     (if es = [] then snapshotSequence m else ev_sequence (last es))"
  by (induction es rule: rev_induct) (simp_all add: projectEventsOntoReadModel_def)

lemma logged_split:
  assumes "store_ok store"
  shows "map row_event (st_rows store) =
    filter (\<lambda>x. ev_sequence x \<le> n) (map row_event (st_rows store)) @ eventsAfter store n"
proof -
  have "sorted_wrt (<) (map ev_sequence xs) \<Longrightarrow>
      xs = filter (\<lambda>x. ev_sequence x \<le> n) xs @ filter (\<lambda>x. n < ev_sequence x) xs" for xs
  proof (induction xs)
    case (Cons x xs)
    show ?case
    proof (cases "ev_sequence x \<le> n")
      case False
      then have "filter (\<lambda>x. ev_sequence x \<le> n) xs = []" "filter (\<lambda>x. n < ev_sequence x) xs = xs"
        using Cons.prems by (force simp: filter_empty_conv filter_id_conv)+
      then show ?thesis using False by simp
    qed (use Cons in simp)
  qed simp
  then show ?thesis using rows_sorted [OF assms] by (simp only: eventsAfter_def)
qed

lemma last_greatest:
  "sorted_wrt (<) (map f xs) \<Longrightarrow> x \<in> set xs \<Longrightarrow> (f x :: nat) \<le> f (last xs)"
  by (induction xs) (auto simp: less_imp_le)

lemma reconcile_lags:
  assumes "engine_lags H u e" and "n = latestSequence e"
  shows "engine_lags H u (reconcileReadModelAfterDispatchFailure H w n e)"
proof -
  let ?k = DEFAULT_READ_FROM_SEQUENCE_LIMIT and ?m = "eng_model e"
  define new where "new = take ?k (eventsAfter (eng_store e) n)"
  have ok: "store_ok (eng_store e)" and sub: "subseq (eng_published e) (logged e)"
    and proj: "projection_of H u (eng_published e) ?m" and le: "n \<le> st_sequence (eng_store e)"
    and below: "\<forall>x \<in> set (eng_published e). ev_sequence x \<le> n"
    and receipts: "receipts_ok (eng_receipts e) (logged e)"
    using assms by (simp_all add: engine_lags_def)
  have "filter (\<lambda>x. ev_sequence x \<le> n) (eng_published e) = eng_published e"
    using below by (simp add: filter_id_conv)
  then have "subseq (eng_published e) (filter (\<lambda>x. ev_sequence x \<le> n) (logged e))"
    using subseq_filter [OF sub, of "\<lambda>x. ev_sequence x \<le> n"] by simp
  moreover have "subseq new (eventsAfter (eng_store e) n)"
    unfolding new_def by (metis append_take_drop_id list_emb_append2 subseq_order.refl subseq_rev_drop_many)
  ultimately have sub': "subseq (eng_published e @ new) (logged e)"
    using list_emb_append_mono logged_split [OF ok, of n] by metis
  have new: "n < ev_sequence x \<and> ev_sequence x \<le> st_sequence (eng_store e)" if "x \<in> set new" for x
    using that ok by (auto simp: new_def eventsAfter_def store_ok_def dest!: in_set_takeD)
  have "sorted_wrt (<) (map ev_sequence (eventsAfter (eng_store e) n))"
    using rows_sorted [OF ok] by (simp add: eventsAfter_def sorted_wrt_map sorted_wrt_filter)
  then have "sorted_wrt (<) (map ev_sequence new)"
    by (simp add: new_def flip: take_map)
  then have last: "ev_sequence x \<le> ev_sequence (last new)" if "x \<in> set new" for x
    using last_greatest [of ev_sequence new x] that by simp
  have seq: "snapshotSequence (projectEventsOntoReadModel H ?m new) =
      (if new = [] then n else ev_sequence (last new))"
    using assms(2) by (simp add: snapshotSequence_events latestSequence_def)
  have read: "readFromSequence (eng_store e) n ?k = new"
    by (simp add: new_def readFromSequence_take [OF ok])
  have "ev_sequence x \<le> ev_sequence (last new)" if "new \<noteq> []" "x \<in> set (eng_published e)" for x
    using below that(2) new [OF last_in_set [OF that(1)]] by fastforce
  then have "engine_lags H u (e\<lparr>eng_model := projectEventsOntoReadModel H ?m new,
      eng_published := eng_published e @ new\<rparr>)"
    using ok sub' le below new last receipts projection_events [OF proj, of new]
    by (auto simp: engine_lags_def latestSequence_def seq dest: less_imp_le intro: order_trans)
  then show ?thesis
    using assms(1) by (simp add: reconcileReadModelAfterDispatchFailure_def Let_def read)
qed

lemma afterFailure_lags:
  assumes "engine_lags H u e" and "n = latestSequence e"
    and "\<And>r. err = CommandRejected r \<Longrightarrow> eng_receipts e (command_id cmd) = None"
  shows "engine_lags H u (afterFailure H w cmd n err e)"
proof -
  let ?e = "reconcileReadModelAfterDispatchFailure H w n e"
  have lags: "engine_lags H u ?e" by (rule reconcile_lags [OF assms(1,2)])
  have "eng_receipts ?e = eng_receipts e"
    by (simp add: reconcileReadModelAfterDispatchFailure_def Let_def)
  then have "engine_lags H u (?e\<lparr>eng_receipts := (eng_receipts ?e)(command_id cmd \<mapsto> rejectedReceipt w cmd r ?e)\<rparr>)"
    if "err = CommandRejected r" for r
    using lags assms(3) [OF that]
    by (auto simp: engine_lags_def receipts_ok_def latestSequence_def rejectedReceipt_def)
  then show ?thesis
    using lags assms(1) by (cases err) (simp_all add: afterFailure_def Let_def)
qed

lemma resolveIdentity_lags:
  assumes "engine_lags H u e" and "resolveIdentity w cmd (eng_model e) = Some m \<or> m = eng_model e"
  shows "engine_lags H u (e\<lparr>eng_model := m\<rparr>) \<and> snapshotSequence m = latestSequence e"
  using assms(2)
proof
  assume "resolveIdentity w cmd (eng_model e) = Some m"
  then show ?thesis
    using assms(1)
    by (cases rule: resolveIdentity_cases)
      (auto simp: engine_lags_def latestSequence_def intro: projection_identity)
qed (use assms(1) in \<open>simp add: latestSequence_def\<close>)

lemma processEnvelope_lags:
  assumes ok: "engine_lags H u e" and run: "processEnvelope H w en e = (result, e')"
  shows "engine_lags H u e'"
proof -
  obtain r1 e1 where att: "attempt H w en e = (r1, e1)" by (cases "attempt H w en e")
  have e': "e' = (case r1 of Inr n \<Rightarrow> e1
      | Inl err \<Rightarrow> afterFailure H w (en_command en) (latestSequence e) err e1)"
    using run att by (auto simp: processEnvelope_def latestSequence_def split: sum.splits)
  have sok: "store_ok (eng_store e)" using ok by (simp add: engine_lags_def)
  have "engine_lags H u e1 \<and> (\<forall>err. r1 = Inl err \<longrightarrow> latestSequence e = latestSequence e1)"
    using att
  proof (cases rule: attempt_cases)
    case (replayed r)
    then show ?thesis using ok by simp
  next
    case (unchanged m err)
    then show ?thesis
      using resolveIdentity_lags [OF ok unchanged(4)] by (simp add: latestSequence_def)
  next
    case (acknowledged m planned saved store receipts)
    note stored = commits_store [OF sok acknowledged(2)]
    have m: "engine_lags H u (e\<lparr>eng_model := m\<rparr>)" "snapshotSequence m = latestSequence e"
      using resolveIdentity_lags [OF ok] acknowledged(1) by blast+
    obtain o' where all: "appendAll appendEvent (eng_store e) (map (stampOrigin o') planned) =
        Some (saved, store)" and ne: "saved \<noteq> []"
      using acknowledged(2) by (auto simp: commits_as_def)
    have "eventsAfter store (st_sequence (eng_store e)) = saved"
      using orch_log.appendAll_log [OF sok all] eventsAfter_current [OF sok] by simp
    then have "\<forall>x \<in> set saved. st_sequence (eng_store e) < ev_sequence x"
      by (auto simp: eventsAfter_def)
    moreover have "sorted_wrt (<) (map ev_sequence (logged e @ saved))"
      using rows_sorted [OF stored(1)] stored(3) by simp
    ultimately have "\<forall>x \<in> set saved. ev_sequence x \<le> ev_sequence (last saved)"
      "st_sequence (eng_store e) < ev_sequence (last saved)"
      using ne last_greatest [of ev_sequence saved] by (auto simp: sorted_wrt_append)
    moreover have "last saved \<in> set (map row_event (st_rows store))"
      unfolding stored(3) using ne by simp
    then have "ev_sequence (last saved) \<le> st_sequence store"
      using stored(1) by (auto simp: store_ok_def)
    ultimately show ?thesis
      using m acknowledged(3,4) stored(1,3) ne commits_receipts [OF _ acknowledged(2)]
        projection_events [of H u "eng_published e" m saved]
      by (auto simp: engine_lags_def latestSequence_def snapshotSequence_events
          intro: list_emb_append_mono order_trans less_imp_le)
  next
    case (unacknowledged m planned saved store receipts)
    note stored = commits_store [OF sok unacknowledged(2)]
    have m: "engine_lags H u (e\<lparr>eng_model := m\<rparr>)" "snapshotSequence m = latestSequence e"
      using resolveIdentity_lags [OF ok] unacknowledged(1) by blast+
    have "subseq (eng_published e) (logged e @ saved)"
      using m(1) list_emb_append_mono [of "(=)" "eng_published e" "logged e" "[]" saved]
      by (simp add: engine_lags_def)
    then show ?thesis
      using m unacknowledged(4,5) stored(1-3) commits_receipts [OF _ unacknowledged(2)]
      by (simp add: engine_lags_def latestSequence_def)
  qed
  moreover have "eng_receipts e1 (command_id (en_command en)) = None" if "r1 = Inl (CommandRejected r)" for r
    using att that
    by (cases rule: attempt_cases) (auto simp: replayReceipt_def split: if_splits prod.splits)
  ultimately show ?thesis
    using e' afterFailure_lags [of H u e1 "latestSequence e"] by (auto split: sum.splits)
qed

lemma dispatchAll_lags: "engine_lags H u e \<Longrightarrow> engine_lags H u (dispatchAll H ds e)"
proof (induction ds arbitrary: e)
  case (Cons d ds)
  obtain w en where d: "d = (w, en)" by (cases d)
  show ?case
    using Cons.IH [of "snd (processEnvelope H w en e)"] Cons.prems
      processEnvelope_lags [of H u e w en "fst (processEnvelope H w en e)"] by (simp add: d)
qed simp

lemma projection_model_ok: "projection_of H u es m \<Longrightarrow> model_ok H m"
proof (induction rule: projection_of.induct)
  case (projection_identity es m i identity)
  then show ?case by (intro model_ok_projects) (auto simp: ids_updateProject)
qed (simp_all add: empty_ok model_ok_projectEvent)

section \<open>Receipts are forever\<close>

lemma attempt_receipts:
  assumes "attempt H w en e = (result, e')" and "eng_receipts e cid = Some r"
  shows "eng_receipts e' cid = Some r"
  using assms(1)
  by (cases rule: attempt_cases) (use assms(2) in \<open>auto simp: commits_as_def\<close>)

lemma reconcile_receipts [simp]:
  "eng_receipts (reconcileReadModelAfterDispatchFailure H w n e) = eng_receipts e"
  by (simp add: reconcileReadModelAfterDispatchFailure_def Let_def)

text \<open>Only a command without a receipt is rejected.\<close>

lemma attempt_rejected:
  assumes "attempt H w en e = (Inl (CommandRejected r), e')"
  shows "eng_receipts e (command_id (en_command en)) = None"
  using assms
  by (cases rule: attempt_cases) (auto simp: replayReceipt_def split: if_splits prod.splits)

lemma receipt_kept:
  assumes "processEnvelope H w en e = (result, e')" and "eng_receipts e cid = Some r"
  shows "eng_receipts e' cid = Some r"
proof -
  obtain r1 e1 where att: "attempt H w en e = (r1, e1)" by (cases "attempt H w en e")
  have e': "e' = (case r1 of Inr n \<Rightarrow> e1
      | Inl err \<Rightarrow> afterFailure H w (en_command en) (snapshotSequence (eng_model e)) err e1)"
    using assms(1) att by (auto simp: processEnvelope_def split: sum.splits)
  have "command_id (en_command en) \<noteq> cid" if "r1 = Inl (CommandRejected x)" for x
    using attempt_rejected [of H w en e x e1] att that assms(2) by auto
  then show ?thesis
    using e' attempt_receipts [OF att assms(2)]
    by (auto simp: afterFailure_def Let_def split: sum.splits dispatch_error.splits)
qed

lemma receipt_kept_reached:
  "engine.reached H e e' \<Longrightarrow> eng_receipts e cid = Some r \<Longrightarrow> eng_receipts e' cid = Some r"
  by (induction rule: engine.reached.induct) (auto simp: dispatches_def dest: receipt_kept)

lemma replay:
  assumes "eng_receipts e (command_id (en_command en)) = Some r" and "w_ok w ReadReceipt"
  shows "processEnvelope H w en e = (replayReceipt (en_command en) r, e)"
  using assms by (auto simp: processEnvelope_def attempt_def replayReceipt_def afterFailure_def
      split: sum.splits prod.splits)

text \<open>The receipt that a dispatch leaves.\<close>

lemma accepted_receipt:
  assumes "processEnvelope H w en e = (Inr n, e')"
  shows "\<exists>r. eng_receipts e' (command_id (en_command en)) = Some r \<and>
    replayReceipt (en_command en) r = Inr n"
proof -
  have "attempt H w en e = (Inr n, e')"
    using assms by (auto simp: processEnvelope_def split: sum.splits prod.splits)
  then show ?thesis
    by (cases rule: attempt_cases)
      (auto simp: commits_as_def replayReceipt_def split: prod.splits)
qed

end
