(* ===== verification/OrchEngineClaims.thy ===== *)
theory OrchEngineClaims
  imports OrchEngineSafety
begin

text \<open>The properties of the engine, with a first dispatch as their example.\<close>

section \<open>A first dispatch\<close>

definition ex_world :: world where
  "ex_world = \<lparr>
     w_decide = \<lparr>env_eventIds = siterate (\<lambda>i. CHR ''e'' # i) ''e'', env_clock = sconst ''12:00''\<rparr>,
     w_ok = (\<lambda>_. True), w_transaction = Commits, w_background = (\<lambda>_. False),
     w_identity = (\<lambda>_. None), w_userInput = None, w_now = ''12:00''\<rparr>"

definition ex_create :: envelope where
  "ex_create = \<lparr>en_command = CreateProject ''c1'' \<lparr>pcc_projectId = ''p'', pcc_title = ''P'',
     pcc_workspaceRoot = ''/p'', pcc_awenWorkspace = None, pcc_createdAt = ''11:00''\<rparr>,
     en_origin = None\<rparr>"

definition ex_engine :: engine where
  "ex_engine = snd (processEnvelope ex_host ex_world ex_create (startEngine ''10:00''))"

lemmas run_defs = processEnvelope_def attempt_def ex_create_def staleCommand_def resolveIdentity_def
  decideAndCommit_def asksUserInput_def decideOrchestrationCommand_def numeral_2_eq_2
  decideCreateProject_def requireProjectAbsent_def requireActiveProjectWorkspaceRootAbsent_def
  findProject_def d_bind_def d_return_def single_def projectEventBase_def withEventBase_def
  randomUUID_def startEngine_def createEmptyReadModel_def commit_def appendEvent_def
  empty_store_def ex_world_def stampOrigin_def Let_def

lemma ex_dispatch: "fst (processEnvelope ex_host ex_world ex_create (startEngine ''10:00'')) = Inr 1"
  by (simp add: run_defs)

lemma ex_published: "length (eng_published ex_engine) = 1"
  by (simp add: ex_engine_def run_defs)

lemma ex_accepted: "processEnvelope ex_host ex_world ex_create (startEngine ''10:00'') = (Inr 1, ex_engine)"
  using ex_dispatch by (simp add: ex_engine_def prod_eq_iff)

lemma ex_recovers: "recoversAll ex_host [(ex_world, ex_create)] (startEngine ''10:00'')"
  by (simp add: recovers_def ex_world_def Let_def)

lemma ex_run: "dispatchAll ex_host [(ex_world, ex_create)] (startEngine ''10:00'') = ex_engine"
  by (simp add: ex_engine_def)

section \<open>The state stays in step\<close>

text \<open>
  C1: Whatever commands are dispatched, and however the database fails in between, every read
  model the engine decides on has unique ids, threads and checkpoints within their limits and no
  pull request linked twice. As long as every lost acknowledgement is recovered from (the log can
  be read afterwards and the command planned at most 1000 events), also every thread belongs to a
  project that exists, no two active projects share a workspace root, only pinned threads have a
  place among the pinned ones and only unsettled ones a place among the active ones.
\<close>

theorem engine_safe:
  assumes "e = dispatchAll H ds (startEngine u)"
  shows "model_ok H (eng_model e) \<and>
    (recoversAll H ds (startEngine u) \<longrightarrow> model_safe H (eng_model e))"
  using dispatchAll_lags [OF start_lags, of H u ds] dispatchAll_ok [of H ds u] assms
  by (auto simp: engine_ok_def engine_lags_def intro: projection_model_ok)

theorem engine_safe_witness:
  "model_safe ex_host (eng_model ex_engine) \<and> latestSequence ex_engine = 1"
proof -
  have "latestSequence ex_engine = 1"
    by (simp add: ex_engine_def run_defs latestSequence_def projectEventsOntoReadModel_def)
  then show ?thesis using engine_safe [OF ex_run [symmetric]] ex_recovers by blast
qed

text \<open>
  C2: The read model in memory refines the log: after any dispatches and whatever the database
  answers, it is the projection of exactly the published events, and these are events of the log in
  the log's order, which is that of strictly increasing sequence numbers. So nothing is invented,
  repeated or reordered. As long as every lost acknowledgement is recovered from (the log can be
  read afterwards and the command planned at most 1000 events), nothing is missing either: every
  event of the log is published and the model's sequence is that of the log.
\<close>

theorem engine_refines_log:
  assumes "e = dispatchAll H ds (startEngine u)"
  shows "projection_of H u (eng_published e) (eng_model e) \<and>
    subseq (eng_published e) (logged e) \<and> sorted_wrt (<) (map ev_sequence (logged e)) \<and>
    (recoversAll H ds (startEngine u) \<longrightarrow>
      eng_published e = logged e \<and> latestSequence e = st_sequence (eng_store e))"
  using dispatchAll_lags [OF start_lags, of H u ds] dispatchAll_ok [of H ds u] assms
  by (auto simp: engine_ok_def engine_lags_def simp del: map_map dest: rows_sorted)

theorem engine_refines_log_witness:
  "projection_of ex_host ''10:00'' (logged ex_engine) (eng_model ex_engine) \<and> length (logged ex_engine) = 1"
  using engine_refines_log [OF ex_run [symmetric]] ex_recovers ex_published by metis

text \<open>
  C8: Receipts and log agree, whatever is dispatched and however the database fails: an accepted
  receipt names an event that is in the log, of this command and under the aggregate of the
  receipt, and every event in the log is of a command that was accepted. So a command without an
  accepted receipt has changed nothing.
\<close>

theorem receipts_match_log:
  assumes "e = dispatchAll H ds (startEngine u)"
  shows "(\<forall>cid r. eng_receipts e cid = Some r \<and> rc_status r = Accepted \<longrightarrow>
      (\<exists>x \<in> set (logged e). ev_sequence x = rc_resultSequence r \<and>
        ev_commandId (ev_planned x) = cid \<and>
        aggregateRef (ev_planned x) = (rc_aggregateKind r, rc_aggregateId r))) \<and>
    (\<forall>x \<in> set (logged e). \<exists>r. eng_receipts e (ev_commandId (ev_planned x)) = Some r \<and>
        rc_status r = Accepted)"
  using dispatchAll_lags [OF start_lags, of H u ds] assms
  by (simp add: engine_lags_def receipts_ok_def)

theorem receipts_match_log_witness:
  "\<exists>r. eng_receipts ex_engine ''c1'' = Some r \<and> rc_status r = Accepted \<and>
     (\<exists>x \<in> set (logged ex_engine). ev_sequence x = rc_resultSequence r)"
proof -
  obtain r where r: "eng_receipts ex_engine ''c1'' = Some r" "rc_status r = Accepted"
    by (simp add: ex_engine_def run_defs)
  with receipts_match_log [OF ex_run [symmetric]] show ?thesis by blast
qed

section \<open>Each command takes effect once\<close>

lemma receipt_kept_all:
  "eng_receipts e cid = Some r \<Longrightarrow> eng_receipts (dispatchAll H ds e) cid = Some r"
proof (induction ds arbitrary: e)
  case (Cons d ds)
  obtain w en where d: "d = (w, en)" by (cases d)
  show ?case using Cons receipt_kept [of H w en e "fst (processEnvelope H w en e)"] by (simp add: d)
qed simp

text \<open>
  C3: A command takes effect once. When it was accepted, sending it again, from any client and
  after any other dispatches, answers with the sequence of the first time, and appends,
  projects and publishes nothing.
\<close>

theorem dispatch_once:
  assumes "processEnvelope H w en e = (Inr n, e1)" and "e2 = dispatchAll H ds e1"
    and "en_command en2 = en_command en" and "w_ok w2 ReadReceipt"
  shows "processEnvelope H w2 en2 e2 = (Inr n, e2)"
  using accepted_receipt [OF assms(1)] receipt_kept_all replay [of e2 en2 _ w2 H] assms(2-4) by auto

theorem dispatch_once_witness:
  "processEnvelope ex_host ex_world ex_create ex_engine = (Inr 1, ex_engine)"
  by (rule dispatch_once [OF ex_accepted, where ds = "[]"]) (simp_all add: ex_world_def)

text \<open>
  C11: A command id is good for one aggregate only. A command that reuses the id of an accepted
  command for another project or thread is refused as a conflict that names both aggregates, and
  changes nothing.
\<close>

theorem id_conflict:
  assumes "processEnvelope H w en e = (Inr n, e1)" and "e2 = dispatchAll H ds e1"
    and "command_id (en_command en2) = command_id (en_command en)"
    and "commandToAggregateRef (en_command en2) \<noteq> commandToAggregateRef (en_command en)"
    and "w_ok w2 ReadReceipt"
  shows "processEnvelope H w2 en2 e2 =
    (Inl (IdConflict (command_id (en_command en))
      (fst (commandToAggregateRef (en_command en))) (snd (commandToAggregateRef (en_command en)))
      (fst (commandToAggregateRef (en_command en2))) (snd (commandToAggregateRef (en_command en2)))), e2)"
proof -
  obtain r where r: "eng_receipts e1 (command_id (en_command en)) = Some r"
    and rep: "replayReceipt (en_command en) r = Inr n"
    using accepted_receipt [OF assms(1)] by blast
  have "commandToAggregateRef (en_command en) = (rc_aggregateKind r, rc_aggregateId r)"
    using rep by (auto simp: replayReceipt_def split: prod.splits if_splits)
  then have "replayReceipt (en_command en2) r = Inl (IdConflict (command_id (en_command en))
      (fst (commandToAggregateRef (en_command en))) (snd (commandToAggregateRef (en_command en)))
      (fst (commandToAggregateRef (en_command en2))) (snd (commandToAggregateRef (en_command en2))))"
    using assms(3,4) by (auto simp: replayReceipt_def split: prod.splits)
  then show ?thesis
    using receipt_kept_all [OF r] assms(2,3) replay [OF _ assms(5), of e2 en2 r H] by simp
qed

definition ex_other :: envelope where
  "ex_other = \<lparr>en_command = ThreadCommand ''c1'' ''t'' DeleteThread, en_origin = None\<rparr>"

theorem id_conflict_witness:
  "processEnvelope ex_host ex_world ex_other ex_engine =
     (Inl (IdConflict ''c1'' ProjectAggregate ''p'' ThreadAggregate ''t''), ex_engine)"
  using id_conflict [OF ex_accepted, of ex_engine "[]" ex_other ex_world]
  by (simp add: ex_other_def ex_create_def ex_world_def commandToAggregateRef_def)

section \<open>A dispatch is atomic, and failures can be retried\<close>

text \<open>The events that the decider plans for a command, on the read model it is given.\<close>

definition plans :: "host \<Rightarrow> world \<Rightarrow> envelope \<Rightarrow> engine \<Rightarrow> planned_event list \<Rightarrow> bool" where
  "plans H w en e planned \<longleftrightarrow>
     (\<exists>m env. resolveIdentity w (en_command en) (eng_model e) = Some m \<and>
        decideOrchestrationCommand H (en_command en) m
          (if asksUserInput (en_command en) then w_userInput w else None) (w_decide w) =
        Inr (planned, env))"

lemma commit_log:
  assumes "commit H w cmd ps e = (result, e')"
  shows "(eng_store e' = eng_store e \<and> (\<exists>err. result = Inl err)) \<or>
    (\<exists>saved. saved \<noteq> [] \<and> logged e' = logged e @ saved \<and> map ev_planned saved = ps \<and>
      (result = Inr (ev_sequence (last saved)) \<or>
       result = Inl PersistenceFailure \<and> w_transaction w = CommitsUnacknowledged))"
proof (cases "appendAll appendEvent (eng_store e) ps")
  case (Some pair)
  obtain saved store where pair: "pair = (saved, store)" by (cases pair)
  show ?thesis
    using assms Some pair appendAll_saved [of "eng_store e" ps saved store]
    by (auto simp: commit_def Let_def split: if_splits)
qed (use assms in \<open>auto simp: commit_def split: if_splits\<close>)

lemma decideAndCommit_log:
  assumes "decideAndCommit H w en (e\<lparr>eng_model := m\<rparr>) = (result, e')"
    and "resolveIdentity w (en_command en) (eng_model e) = Some m"
  shows "(eng_store e' = eng_store e \<and> (\<exists>err. result = Inl err)) \<or>
    (\<exists>planned saved. plans H w en e planned \<and> saved \<noteq> [] \<and> logged e' = logged e @ saved \<and>
      map ev_planned saved = map (stampOrigin (en_origin en)) planned \<and>
      (result = Inr (ev_sequence (last saved)) \<or>
       result = Inl PersistenceFailure \<and> w_transaction w = CommitsUnacknowledged))"
proof (cases "decideOrchestrationCommand H (en_command en) m
    (if asksUserInput (en_command en) then w_userInput w else None) (w_decide w)")
  case (Inl x)
  then show ?thesis using assms(1)
    by (cases x) (auto simp: decideAndCommit_def Let_def split: if_splits)
next
  case (Inr p)
  obtain planned env where p: "p = (planned, env)" by (cases p)
  have plan: "plans H w en e planned"
    unfolding plans_def using assms(2) Inr p by blast
  show ?thesis
  proof (cases "asksUserInput (en_command en) \<and> \<not> w_ok w ReadUserInput")
    case True
    then show ?thesis using assms(1) by (auto simp: decideAndCommit_def)
  next
    case False
    then have "commit H w (en_command en) (map (stampOrigin (en_origin en)) planned)
        (e\<lparr>eng_model := m\<rparr>) = (result, e')"
      using assms(1) Inr p by (simp add: decideAndCommit_def Let_def split: if_splits)
    from commit_log [OF this] show ?thesis using plan by auto
  qed
qed

lemma afterFailure_store [simp]: "eng_store (afterFailure H w cmd n err e) = eng_store e"
  by (simp add: afterFailure_def reconcileReadModelAfterDispatchFailure_def Let_def
      split: dispatch_error.split)

lemma planned_commandId:
  assumes "plans H w en e planned" and "map ev_planned saved = map (stampOrigin u) planned"
  shows "\<forall>x \<in> set saved. ev_commandId (ev_planned x) = command_id (en_command en)"
proof -
  obtain m env where dec: "decideOrchestrationCommand H (en_command en) m
      (if asksUserInput (en_command en) then w_userInput w else None) (w_decide w) = Inr (planned, env)"
    using assms(1) by (auto simp: plans_def)
  show ?thesis by (rule attributed_saved(1) [OF dwp_result [OF decide_attributed dec] assms(2)])
qed

text \<open>
  C7: A dispatch is all or nothing, in any state of the engine. A command whose id has no receipt
  either fails and leaves the log as it was, or appends exactly the events the decider plans for it
  on the current read model (with a repository identity resolved first where the command needs
  it), all of them, in order and stamped with the client's origin and the command's id. Then the answer is the sequence of the last one, except that the client sees a
  persistence failure when the acknowledgement of the commit got lost.
\<close>

theorem dispatch_atomic:
  assumes "eng_receipts e (command_id (en_command en)) = None"
    and "processEnvelope H w en e = (result, e')"
  shows "(eng_store e' = eng_store e \<and> (\<exists>err. result = Inl err)) \<or>
    (\<exists>planned saved. plans H w en e planned \<and> saved \<noteq> [] \<and> logged e' = logged e @ saved \<and>
      map ev_planned saved = map (stampOrigin (en_origin en)) planned \<and>
      (\<forall>x \<in> set saved. ev_commandId (ev_planned x) = command_id (en_command en)) \<and>
      (result = Inr (ev_sequence (last saved)) \<or>
       result = Inl PersistenceFailure \<and> w_transaction w = CommitsUnacknowledged))"
proof -
  obtain r1 e1 where att: "attempt H w en e = (r1, e1)" by (cases "attempt H w en e")
  have after: "result = r1" "eng_store e' = eng_store e1"
    using assms(2) att by (auto simp: processEnvelope_def split: sum.splits)
  show ?thesis
  proof (cases "w_ok w ReadReceipt \<and> staleCommand w e (en_command en) = None \<and>
      resolveIdentity w (en_command en) (eng_model e) \<noteq> None")
    case True
    then obtain m where m: "resolveIdentity w (en_command en) (eng_model e) = Some m" by blast
    have "decideAndCommit H w en (e\<lparr>eng_model := m\<rparr>) = (r1, e1)"
      using att True m assms(1) by (simp add: attempt_def)
    from decideAndCommit_log [OF this m] show ?thesis
      unfolding after using planned_commandId by blast
  next
    case False
    then show ?thesis
      using att assms(1) after by (auto simp: attempt_def Let_def split: option.splits if_splits)
  qed
qed

theorem dispatch_atomic_witness:
  "\<exists>planned saved. plans ex_host ex_world ex_create (startEngine ''10:00'') planned \<and> saved \<noteq> [] \<and>
     logged ex_engine = logged (startEngine ''10:00'') @ saved \<and> map ev_planned saved = planned \<and>
     ev_sequence (last saved) = 1"
proof -
  have "eng_receipts (startEngine ''10:00'') (command_id (en_command ex_create)) = None"
    by (simp add: startEngine_def)
  moreover have "map (stampOrigin (en_origin ex_create)) ps = ps" for ps
    by (simp add: ex_create_def stampOrigin_def [abs_def])
  ultimately show ?thesis
    using dispatch_atomic [OF _ ex_accepted] by (simp del: map_map) metis
qed

lemma rejected_attempt:
  assumes "processEnvelope H w en e = (Inl (CommandRejected r), e1)" and "w_ok w WriteRejection"
  shows "\<exists>rc. eng_receipts e1 (command_id (en_command en)) = Some rc \<and>
    replayReceipt (en_command en) rc =
      Inl (PreviouslyRejected (command_id (en_command en)) (rejection_message r))"
proof -
  obtain e' where e1: "e1 = afterFailure H w (en_command en) (snapshotSequence (eng_model e))
      (CommandRejected r) e'"
    using assms(1) by (auto simp: processEnvelope_def split: sum.splits prod.splits)
  obtain kind i where ref: "commandToAggregateRef (en_command en) = (kind, i)"
    by (cases "commandToAggregateRef (en_command en)")
  show ?thesis
    using assms(2) unfolding e1
    by (simp add: afterFailure_def Let_def rejectedReceipt_def replayReceipt_def ref)
qed

text \<open>
  C10: A rejection is final. Sending a rejected command again, after any other dispatches, is
  answered with the first rejection's message and changes nothing, even if the command would be
  accepted by now.
\<close>

theorem rejection_final:
  assumes "processEnvelope H w en e = (Inl (CommandRejected r), e1)" and "w_ok w WriteRejection"
    and "e2 = dispatchAll H ds e1" and "en_command en2 = en_command en" and "w_ok w2 ReadReceipt"
  shows "processEnvelope H w2 en2 e2 =
    (Inl (PreviouslyRejected (command_id (en_command en)) (rejection_message r)), e2)"
  using rejected_attempt [OF assms(1,2)] receipt_kept_all replay [of e2 en2 _ w2 H] assms(3-5) by auto

definition ex_missing :: envelope where
  "ex_missing = \<lparr>en_command = ThreadCommand ''c2'' ''t'' DeleteThread, en_origin = None\<rparr>"

lemma ex_rejected:
  "\<exists>e1. processEnvelope ex_host ex_world ex_missing (startEngine ''10:00'') =
     (Inl (CommandRejected (InvariantError ''thread.delete''
        (''Thread '' @ quoted ''t'' @ '' does not exist for command '' @ quoted ''thread.delete'' @ ''.''))), e1)"
  by (simp add: run_defs ex_missing_def decideThreadCommand_def decideDeleteThread_def
      requireThread_def findThread_def reject_def d_fail_def afterFailure_def)

theorem rejection_final_witness:
  "\<exists>e1. processEnvelope ex_host ex_world ex_missing e1 =
     (Inl (PreviouslyRejected ''c2'' (rejection_message (InvariantError ''thread.delete''
        (''Thread '' @ quoted ''t'' @ '' does not exist for command '' @ quoted ''thread.delete'' @ ''.'')))), e1)"
proof -
  obtain e1 where run: "processEnvelope ex_host ex_world ex_missing (startEngine ''10:00'') =
     (Inl (CommandRejected (InvariantError ''thread.delete''
        (''Thread '' @ quoted ''t'' @ '' does not exist for command '' @ quoted ''thread.delete'' @ ''.''))), e1)"
    using ex_rejected by blast
  have "processEnvelope ex_host ex_world ex_missing e1 =
     (Inl (PreviouslyRejected (command_id (en_command ex_missing))
        (rejection_message (InvariantError ''thread.delete''
        (''Thread '' @ quoted ''t'' @ '' does not exist for command '' @ quoted ''thread.delete'' @ ''.'')))), e1)"
    by (rule rejection_final [OF run, where ds = "[]"]) (simp_all add: ex_world_def)
  then show ?thesis by (auto simp: ex_missing_def)
qed

text \<open>
  C9: A retry makes up for a lost acknowledgement: when a dispatch reported a failure although
  its events had become durable, sending the command again is answered with the sequence of the
  last of the events that dispatch appended, and appends, projects and publishes nothing.
\<close>

theorem retry_after_lost_acknowledgement:
  assumes "processEnvelope H w en e = (Inl err, e1)" and "eng_store e1 \<noteq> eng_store e"
    and "en_command en2 = en_command en" and "w_ok w2 ReadReceipt"
  shows "\<exists>saved. saved \<noteq> [] \<and> logged e1 = logged e @ saved \<and>
    (\<forall>x \<in> set saved. ev_commandId (ev_planned x) = command_id (en_command en)) \<and>
    processEnvelope H w2 en2 e1 = (Inr (ev_sequence (last saved)), e1)"
proof -
  obtain r1 e' where att: "attempt H w en e = (r1, e')" by (cases "attempt H w en e")
  have run: "r1 = Inl err" "e1 = afterFailure H w (en_command en) (snapshotSequence (eng_model e)) err e'"
    using assms(1) att by (auto simp: processEnvelope_def split: sum.splits)
  from att show ?thesis
  proof (cases rule: attempt_cases)
    case (unacknowledged m planned saved store receipts)
    have e1: "eng_receipts e1 = receipts" using run unacknowledged by (simp add: afterFailure_def)
    have log: "eng_store e1 = store" using run(2) unacknowledged(5) by simp
    obtain o' where all: "appendAll appendEvent (eng_store e) (map (stampOrigin o') planned) =
        Some (saved, store)" and "attributed (en_command en) planned" and "saved \<noteq> []"
      using unacknowledged(2) by (auto simp: commits_as_def)
    moreover note app = appendAll_saved [OF all]
    moreover have "\<exists>r. eng_receipts e1 (command_id (en_command en)) = Some r \<and>
        replayReceipt (en_command en) r = Inr (ev_sequence (last saved))"
      using unacknowledged(2) e1 by (auto simp: commits_as_def replayReceipt_def split: prod.splits)
    ultimately show ?thesis
      using replay [of e1 en2 _ w2 H] assms(3,4) log
        attributed_saved(1) [of "en_command en" planned saved o'] by auto
  qed (use run assms(2) in auto)
qed

definition ex_lossy :: world where
  "ex_lossy = ex_world\<lparr>w_transaction := CommitsUnacknowledged\<rparr>"

theorem retry_after_lost_acknowledgement_witness:
  "\<exists>saved. saved \<noteq> [] \<and>
     logged (snd (processEnvelope ex_host ex_lossy ex_create (startEngine ''10:00''))) = saved \<and>
     processEnvelope ex_host ex_world ex_create
       (snd (processEnvelope ex_host ex_lossy ex_create (startEngine ''10:00''))) =
     (Inr (ev_sequence (last saved)),
       snd (processEnvelope ex_host ex_lossy ex_create (startEngine ''10:00'')))"
proof -
  let ?e = "startEngine ''10:00''"
  let ?e1 = "snd (processEnvelope ex_host ex_lossy ex_create ?e)"
  have fail: "processEnvelope ex_host ex_lossy ex_create ?e = (Inl PersistenceFailure, ?e1)"
    by (simp add: prod_eq_iff run_defs ex_lossy_def)
  have store: "eng_store ?e1 \<noteq> eng_store ?e"
    by (simp add: run_defs ex_lossy_def afterFailure_def reconcileReadModelAfterDispatchFailure_def)
  have empty: "logged ?e = []" by (simp add: startEngine_def empty_store_def)
  show ?thesis
    using retry_after_lost_acknowledgement [OF fail store refl, of ex_world] empty
    by (auto simp: ex_world_def)
qed

end
