(* ===== verification/Spec2Isabelle.thy ===== *)
theory Spec2Isabelle
  imports LayoutGeometry WorkbenchWindow OrchEngineClaims ThreadSettlement
begin

text \<open>
  Two cores of the program are verified here: the orchestration engine of the server, which
  turns commands into a log of events and a read model, and the workbench of the web client,
  which arranges the views of projects, workspaces, agent sessions and terminals in tabs and
  panes. With them come the shared functions that both rest on.

  \<^bold>\<open>Server: orchestration\<close> (\<open>src/apps/server/src/orchestration\<close>). A client sends a command. The
  engine looks up the receipt of the command id, refuses commands computed from a state that
  has changed, has the decider plan events from the command read model in memory, appends
  them with the receipt in one transaction, and only then projects and publishes them. When
  something fails it reads back what became durable.

    \<^item> \<open>OrchModel\<close>, \<open>OrchEvents\<close>, \<open>OrchCommands\<close>: the records and tagged unions of
      \<open>packages/contracts/src/orchestration.ts\<close>. An operation on a thread is a constructor of
      \<open>thread_op\<close> below one \<open>ThreadCommand\<close>, since all of them carry a command and a thread id.
    \<^item> \<open>OrchProjector\<close> models \<open>projector.ts\<close>, one function per event type; \<open>OrchReadModel\<close> shows
      that every event keeps the read model well formed.
    \<^item> \<open>OrchGuards\<close> models \<open>commandInvariants.ts\<close> and the derived state of \<open>decider.ts\<close>;
      \<open>OrchLifecycle\<close>, \<open>OrchThreadOps\<close>, \<open>OrchTurns\<close> and \<open>OrchDecider\<close> model every case of the
      switch of \<open>decider.ts\<close>. A decision is a function of the identifiers and clock readings that
      it draws (streams) with a rejection or the planned events as its result.
    \<^item> \<open>OrchSoundness\<close> gives the rules by which decisions are verified (\<open>dwp\<close>), shows that every
      planned event is admissible where it takes effect, and that the decider terminates.
      \<open>OrchInvariants\<close> states event sourcing as the locales \<open>transitions\<close> and \<open>event_sourced\<close>, and
      interprets them on the decider and projector: admissible runs keep referential integrity.
      \<open>OrchAttribution\<close> shows that a decision's events belong to its command and its aggregate.
    \<^item> \<open>OrchEventStore\<close> models \<open>persistence/Layers/OrchestrationEventStore.ts\<close>: rows with a global
      sequence and a stream version, appends, paginated reads; the locale \<open>event_log\<close> states what
      the engine relies on and is interpreted on it.
    \<^item> \<open>OrchEngine\<close> models \<open>Layers/OrchestrationEngine.ts\<close>: receipts, stale commands, the
      transaction, the reconciliation after a failure. \<open>OrchEngineSafety\<close> shows that log,
      receipts, read model and publications stay in step over any dispatches that recover from
      lost acknowledgements, as an interpretation of \<open>transitions\<close>, and what is left of this when
      they do not (\<open>engine_lags\<close>): receipts and log still agree, and the read model is the
      projection of a part of the log. \<open>OrchEngineClaims\<close> draws the properties of the engine from it.
    \<^item> \<open>ThreadSettlement\<close> models \<open>ThreadSettlementPolicy.ts\<close>, the rule by which finished threads
      are put away without being asked.

  \<^bold>\<open>Shared\<close> (\<open>src/packages/shared/src\<close>). \<open>JsString\<close> and \<open>Json\<close> are the JavaScript string and JSON
  operations that the sources use. \<open>PullRequests\<close> models \<open>threadPullRequests.ts\<close>: the keys of
  links, the chains of stacked pull requests and the current link. \<open>ChangeRequestUrl\<close> models the
  reading and writing of \<open>changeRequestUrl.ts\<close>, \<open>DateTimes\<close> the order of date-time strings of
  \<open>dateTime.ts\<close>, \<open>ProjectPaths\<close> the comparison of workspace roots of \<open>path.ts\<close>.

  \<^bold>\<open>Client: workbench\<close> (\<open>src/apps/web/src/workbench\<close>).

    \<^item> \<open>Prelude\<close> holds association lists and list lemmas; \<open>Effects\<close> computations that may throw
      and draw identifiers, with a total weakest precondition \<open>wp\<close>.
    \<^item> \<open>Layout\<close>, \<open>LayoutMove\<close>, \<open>LayoutGeometry\<close> model \<open>layout.ts\<close>: the split tree, splitting and
      closing, moving panes, drop zones, rectangles and directional focus, which is compared with
      directions and gaps read off the rectangles (\<open>toward\<close>, \<open>at_least_as_near\<close>). \<open>ScrollingLayout\<close>
      models \<open>scrollingLayout.ts\<close>: the columns of a scrolling tab.
    \<^item> \<open>ViewRegistry\<close> models targets and their keys of \<open>viewRegistry.ts\<close>.
    \<^item> \<open>WorkbenchState\<close> holds the records and queries of \<open>workbenchState.ts\<close>, well-formed snapshots
      and coherent occurrences; \<open>WorkbenchTabs\<close>, \<open>WorkbenchOps\<close>, \<open>WorkbenchSplit\<close>,
      \<open>WorkbenchDrop\<close>, \<open>WorkbenchRemoval\<close> and \<open>WorkbenchModes\<close> its operations, each with its
      weakest precondition. \<open>WorkbenchReach\<close> interprets the locale \<open>stepper\<close> on all of them and
      states what any sequence of operations guarantees.
    \<^item> \<open>WorkbenchPersistence\<close> models \<open>workbenchPersistence.ts\<close>. A stored document is a JSON value,
      or a text that cannot be parsed; the lenient checks of the code are partial functions to
      the types that they test for. Reading back what was written gives the same work; the columns
      that a tab in the split tree keeps unused may be reconciled. Any stored text is read without an
      exception, and the first unreadable one has a backup before it is overwritten.
    \<^item> \<open>WorkbenchStore\<close> models the store of a window, \<open>workbenchStore.ts\<close>: it starts from the storage
      and runs commands on the snapshot. A closed tab is marked first and removed by a timer;
      the pending removals are part of the state and fire in any order, between any commands. A
      drop is previewed, and committed if the tabs are still those it was computed from; the result
      may carry the closing tabs of that moment.
      \<open>WorkbenchSupply\<close> shows that the operations only take identifiers from the supply (\<open>draws\<close>),
      which keeps the previews sound. The locale \<open>stepper\<close> is interpreted on the commands too.
    \<^item> \<open>WorkbenchWindow\<close> adds the subscription of the store that writes each new snapshot, and
      follows a window to the next one: what was written of it is what is read back, unless it is
      a workbench that the reader refuses.

  \<^bold>\<open>Abstractions.\<close> Identifiers, time stamps and other branded strings are strings. Numbers of
  layouts are rationals, so rounding of floating-point sums is not modelled; where the code tests
  for \<open>NaN\<close> or infinity the argument is a \<open>js_number\<close>. Identifier generators and clocks are streams
  that a call takes from; that drawn identifiers are new is a hypothesis where it is needed. What
  the platform provides is a record \<open>host\<close> of parameters: the URL parser, \<open>Date.parse\<close>, the
  calendar day of a time, \<open>localeCompare\<close>, and the number of graphemes of a string. Optional
  properties that the code treats alike when absent and when null are one \<open>option\<close>. Effects that
  can fail are sums: \<open>js_error\<close> for exceptions, \<open>rejection\<close> and \<open>dispatch_error\<close> for the typed errors
  of the server. A database query that fails, and a commit whose acknowledgement is lost, are
  inputs of the model (\<open>world\<close>). Where the code compares snapshots by reference, the model
  has a version that certainly new lists of tabs raise, and a free choice for the others. The path
  and line of a stored workspace target, which the code does not test, are read as absent when they
  have another type.

  \<^bold>\<open>Bounds.\<close> The mutual recursion of \<open>decideOrchestrationCommand\<close> and \<open>decideCommandSequence\<close> has
  fuel 2; \<open>decide_fuel\<close> proves that more never changes a decision and that it never runs out. The
  reconciliation after a failure reads at most 1,000 events; \<open>recovers\<close> states for a dispatch that
  this read succeeds and that its transaction was not longer than that, and the properties that
  need it say so. All other definitions are total.

  \<^bold>\<open>Not modelled.\<close> The wire and database encodings of the contracts and the failures of decoding;
  the SQL projections and snapshot queries (\<open>ProjectionPipeline.ts\<close>, \<open>ProjectionSnapshotQuery.ts\<close>),
  whose text is SQL; the reactors, which act on providers, git and the file system; the provider
  adapters, which are protocol glue; metrics, tracing and the queue in front of the engine; the
  React components, pointer handling and animations of the client; of the workbench store the
  asynchronous close guards and the registration of listeners; generated protocol schemas.
\<close>

end
